(* ===== verification/Chiplets_Prelude.thy ===== *)
theory Chiplets_Prelude
  imports Main "HOL-Library.Word"
begin

unbundle bit_operations_syntax

text \<open>
  Shared vocabulary of the development: the fixed-width integers of the C sources, the outcome of
  a C function (it returns true with a value, returns false, traps, or is still looping when the
  fuel of a loop model is spent), sequencing of such functions over an explicit state, byte lists
  and byte-addressed memories, and the lemmas on them that every component uses.
\<close>

section \<open>Machine integers\<close>

type_synonym u8 = "8 word"
type_synonym u16 = "16 word"
type_synonym u32 = "32 word"
type_synonym u64 = "64 word"

named_theorems act_simps \<open>unfolding of sequenced actions whose parts are known\<close>
named_theorems mem_simps \<open>reads and writes of byte-addressed memory\<close>
named_theorems le_simps \<open>little-endian encodings\<close>
named_theorems vm_simps \<open>virtio-mmio register numbers and constants\<close>

section \<open>Outcomes and sequencing\<close>

text \<open>
  A C function of the sources that returns \<open>bool\<close> (with out-parameters) is an action on an explicit
  state. \<open>OK x\<close> is \<open>return true\<close> with the out-parameters \<open>x\<close>, \<open>Fail\<close> is \<open>return false\<close>. \<open>Trap\<close> is
  what the C standard leaves undefined and the machine turns into a fault: a division by zero, an
  access outside the object a pointer was made for. \<open>Spin\<close> is the outcome of a loop model whose
  fuel is spent while the loop of the source would go on. The state after the call is kept on
  every outcome.
\<close>

datatype 'a res = OK 'a | Fail | Trap | Spin

type_synonym ('s, 'a) act = "'s \<Rightarrow> 'a res \<times> 's"

definition ret :: "'a \<Rightarrow> ('s, 'a) act" where
  "ret x = (\<lambda>s. (OK x, s))"

definition fail :: "('s, 'a) act" where
  "fail = (\<lambda>s. (Fail, s))"

definition trap :: "('s, 'a) act" where
  "trap = (\<lambda>s. (Trap, s))"

definition spin :: "('s, 'a) act" where
  "spin = (\<lambda>s. (Spin, s))"

definition bnd :: "('s, 'a) act \<Rightarrow> ('a \<Rightarrow> ('s, 'b) act) \<Rightarrow> ('s, 'b) act" where
  "bnd m k = (\<lambda>s. case m s of
      (OK x, s') \<Rightarrow> k x s'
    | (Fail, s') \<Rightarrow> (Fail, s')
    | (Trap, s') \<Rightarrow> (Trap, s')
    | (Spin, s') \<Rightarrow> (Spin, s'))"

text \<open>
  \<open>attempt\<close> is a call in a condition, \<open>if (!f(...)) ...\<close>: a false return is a value the caller goes
  on with. \<open>guard\<close> is \<open>if (!c) return false\<close>.
\<close>

definition attempt :: "('s, 'a) act \<Rightarrow> ('s, 'a option) act" where
  "attempt m = (\<lambda>s. case m s of
      (OK x, s') \<Rightarrow> (OK (Some x), s')
    | (Fail, s') \<Rightarrow> (OK None, s')
    | (Trap, s') \<Rightarrow> (Trap, s')
    | (Spin, s') \<Rightarrow> (Spin, s'))"

definition guard :: "bool \<Rightarrow> ('s, unit) act" where
  "guard c = (if c then ret () else fail)"

definition gets :: "('s \<Rightarrow> 'a) \<Rightarrow> ('s, 'a) act" where
  "gets f = (\<lambda>s. (OK (f s), s))"

definition modify :: "('s \<Rightarrow> 's) \<Rightarrow> ('s, unit) act" where
  "modify f = (\<lambda>s. (OK (), f s))"

lemma ret_apply [simp]: "ret x s = (OK x, s)" by (simp add: ret_def)
lemma fail_apply [simp]: "fail s = (Fail, s)" by (simp add: fail_def)
lemma trap_apply [simp]: "trap s = (Trap, s)" by (simp add: trap_def)
lemma spin_apply [simp]: "spin s = (Spin, s)" by (simp add: spin_def)
lemma gets_apply [simp]: "gets f s = (OK (f s), s)" by (simp add: gets_def)
lemma modify_apply [simp]: "modify f s = (OK (), f s)" by (simp add: modify_def)

lemma guard_simps [simp]: "guard True = ret ()" "guard False = fail"
  by (simp_all add: guard_def)

lemma bnd_stops:
  "fst (m s) = Trap \<Longrightarrow> fst (bnd m k s) = Trap" "fst (m s) = Fail \<Longrightarrow> fst (bnd m k s) = Fail"
  "fst (m s) = Spin \<Longrightarrow> fst (bnd m k s) = Spin"
  by (cases "m s", simp add: bnd_def)+

lemma bnd_OK [act_simps]: "m s = (OK x, s') \<Longrightarrow> bnd m k s = k x s'"
  and bnd_Fail [act_simps]: "m s = (Fail, s') \<Longrightarrow> bnd m k s = (Fail, s')"
  and bnd_Trap [act_simps]: "m s = (Trap, s') \<Longrightarrow> bnd m k s = (Trap, s')"
  and bnd_Spin [act_simps]: "m s = (Spin, s') \<Longrightarrow> bnd m k s = (Spin, s')"
  by (simp_all add: bnd_def)

lemma attempt_OK [act_simps]: "m s = (OK x, s') \<Longrightarrow> attempt m s = (OK (Some x), s')"
  and attempt_Fail [act_simps]: "m s = (Fail, s') \<Longrightarrow> attempt m s = (OK None, s')"
  and attempt_Trap [act_simps]: "m s = (Trap, s') \<Longrightarrow> attempt m s = (Trap, s')"
  by (simp_all add: attempt_def)

lemma bnd_ret [simp]: "bnd (ret x) k = k x"
  by (simp add: bnd_def fun_eq_iff)

lemma bnd_fail [simp]: "bnd fail k = fail"
  by (simp add: bnd_def fun_eq_iff)

lemma bnd_trap [simp]: "bnd trap k = trap"
  by (simp add: bnd_def fun_eq_iff)

lemma bnd_gets [simp]: "bnd (gets f) k s = k (f s) s"
  by (simp add: bnd_def)

lemma bnd_modify [simp]: "bnd (modify f) k s = k () (f s)"
  by (simp add: bnd_def)

lemma bnd_assoc: "bnd (bnd m k) l = bnd m (\<lambda>x. bnd (k x) l)"
  by (simp add: bnd_def fun_eq_iff split: prod.splits res.splits)

lemma bnd_Pair: "bnd (Pair (OK x)) k = k x"
  by (rule ext) (simp add: bnd_def)

lemma bnd_run_cong: "m s = m' s \<Longrightarrow> bnd m k s = bnd m' k s"
  by (simp add: bnd_def)

lemma bnd_cong_run: "(\<And>x t. m s = (OK x, t) \<Longrightarrow> k x t = k' x t) \<Longrightarrow> bnd m k s = bnd m k' s"
  by (simp add: bnd_def split: prod.splits res.splits)

lemma bndE:
  assumes "bnd m k s = (OK y, t)"
  obtains x s' where "m s = (OK x, s')" and "k x s' = (OK y, t)"
  using assms by (auto simp: bnd_def split: prod.splits res.splits)

text \<open>
  \<open>keeps P m\<close>: whatever the outcome, the state after \<open>m\<close> satisfies \<open>P\<close> if the state before did. A
  sequence keeps what its parts keep, which is how the invariants of the drivers are proved.
\<close>

definition keeps :: "('s \<Rightarrow> bool) \<Rightarrow> ('s, 'a) act \<Rightarrow> bool" where
  "keeps P m \<longleftrightarrow> (\<forall>s. P s \<longrightarrow> P (snd (m s)))"

lemma keepsI [intro?]: "(\<And>s. P s \<Longrightarrow> P (snd (m s))) \<Longrightarrow> keeps P m"
  by (simp add: keeps_def)

lemma keepsD: "keeps P m \<Longrightarrow> P s \<Longrightarrow> P (snd (m s))"
  by (simp add: keeps_def)

lemma keeps_run: "keeps P m \<Longrightarrow> P s \<Longrightarrow> m s = (r, t) \<Longrightarrow> P t"
  by (force simp: keeps_def)

lemma keeps_bnd [intro]:
  assumes "keeps P m" and "\<And>x. keeps P (k x)"
  shows "keeps P (bnd m k)"
proof
  fix s assume "P s"
  obtain r t where m: "m s = (r, t)" by fastforce
  with assms(1) \<open>P s\<close> have "P t" by (rule keeps_run)
  with m assms(2) show "P (snd (bnd m k s))"
    by (cases r) (simp_all add: bnd_def keeps_def)
qed

lemma keeps_attempt [intro]: "keeps P m \<Longrightarrow> keeps P (attempt m)"
  unfolding keeps_def attempt_def by (auto split: prod.splits res.splits)

lemma keeps_basic [intro, simp]:
  "keeps P (ret x)" "keeps P fail" "keeps P trap" "keeps P spin" "keeps P (gets f)" "keeps P (guard c)"
  by (simp_all add: keeps_def guard_def)

lemma keeps_modify [intro]: "(\<And>s. P s \<Longrightarrow> P (f s)) \<Longrightarrow> keeps P (modify f)"
  by (simp add: keeps_def)

lemma keeps_if [intro]: "(c \<Longrightarrow> keeps P m) \<Longrightarrow> (\<not> c \<Longrightarrow> keeps P m') \<Longrightarrow> keeps P (if c then m else m')"
  by simp

lemma keeps_option [intro]:
  "(x = None \<Longrightarrow> keeps P m) \<Longrightarrow> (\<And>y. x = Some y \<Longrightarrow> keeps P (k y)) \<Longrightarrow>
   keeps P (case x of None \<Rightarrow> m | Some y \<Rightarrow> k y)"
  by (cases x) simp_all

lemma keeps_prod [intro]: "(\<And>a b. keeps P (k a b)) \<Longrightarrow> keeps P (case x of (a, b) \<Rightarrow> k a b)"
  by (cases x) simp

text \<open>\<open>safe P m\<close>: from a state with \<open>P\<close>, \<open>m\<close> does not trap and \<open>P\<close> holds afterwards.\<close>

definition safe :: "('s \<Rightarrow> bool) \<Rightarrow> ('s, 'a) act \<Rightarrow> bool" where
  "safe P m \<longleftrightarrow> (\<forall>s. P s \<longrightarrow> fst (m s) \<noteq> Trap \<and> P (snd (m s)))"

lemma safeI [intro?]: "(\<And>s. P s \<Longrightarrow> fst (m s) \<noteq> Trap \<and> P (snd (m s))) \<Longrightarrow> safe P m"
  by (simp add: safe_def)

lemma safe_run: "safe P m \<Longrightarrow> P s \<Longrightarrow> m s = (r, t) \<Longrightarrow> r \<noteq> Trap \<and> P t"
  by (force simp: safe_def)

lemma safe_bnd [intro]:
  assumes "safe P m" and "\<And>x. safe P (k x)"
  shows "safe P (bnd m k)"
proof
  fix s assume "P s"
  obtain r t where m: "m s = (r, t)" by fastforce
  with assms(1) \<open>P s\<close> have "r \<noteq> Trap \<and> P t" by (rule safe_run)
  with m assms(2) show "fst (bnd m k s) \<noteq> Trap \<and> P (snd (bnd m k s))"
    by (cases r) (simp_all add: bnd_def safe_def)
qed

lemma safe_attempt [intro]: "safe P m \<Longrightarrow> safe P (attempt m)"
  unfolding safe_def attempt_def by (auto split: prod.splits res.splits)

lemma safe_basic [intro, simp]:
  "safe P (ret x)" "safe P fail" "safe P spin" "safe P (gets f)" "safe P (guard c)"
  by (simp_all add: safe_def guard_def)

lemma safe_modify [intro]: "(\<And>s. P s \<Longrightarrow> P (f s)) \<Longrightarrow> safe P (modify f)"
  by (simp add: safe_def)

lemma safe_if [intro]: "(c \<Longrightarrow> safe P m) \<Longrightarrow> (\<not> c \<Longrightarrow> safe P m') \<Longrightarrow> safe P (if c then m else m')"
  by simp

lemma safe_option [intro]:
  "(x = None \<Longrightarrow> safe P m) \<Longrightarrow> (\<And>y. x = Some y \<Longrightarrow> safe P (k y)) \<Longrightarrow>
   safe P (case x of None \<Rightarrow> m | Some y \<Rightarrow> k y)"
  by (cases x) simp_all

lemma safe_prod [intro]: "(\<And>a b. safe P (k a b)) \<Longrightarrow> safe P (case x of (a, b) \<Rightarrow> k a b)"
  by (cases x) simp

lemma safe_keeps: "safe P m \<Longrightarrow> keeps P m"
  by (simp add: safe_def keeps_def)

text \<open>\<open>ends m\<close>: \<open>m\<close> returns, from every state and within its fuel.\<close>

definition ends :: "('s, 'a) act \<Rightarrow> bool" where
  "ends m \<longleftrightarrow> (\<forall>s. fst (m s) \<noteq> Spin)"

lemma ends_bnd: "ends m \<Longrightarrow> (\<And>x. ends (k x)) \<Longrightarrow> ends (bnd m k)"
  unfolding ends_def
proof
  fix s assume a: "\<forall>s. fst (m s) \<noteq> Spin" "\<And>x. \<forall>s. fst (k x s) \<noteq> Spin"
  obtain r t where m: "m s = (r, t)" by fastforce
  with a(1) have "r \<noteq> Spin" by (metis fst_conv)
  with m a(2) show "fst (bnd m k s) \<noteq> Spin" by (cases r) (auto simp: bnd_def)
qed

lemma ends_attempt: "ends m \<Longrightarrow> ends (attempt m)"
  unfolding ends_def
proof
  fix s assume a: "\<forall>s. fst (m s) \<noteq> Spin"
  obtain r t where m: "m s = (r, t)" by fastforce
  with a have "r \<noteq> Spin" by (metis fst_conv)
  with m show "fst (attempt m s) \<noteq> Spin" by (cases r) (auto simp: attempt_def)
qed

lemma ends_basic: "ends (ret x)" "ends fail" "ends trap" "ends (gets f)" "ends (guard c)" "ends (modify g)"
  by (simp_all add: ends_def guard_def)

lemma ends_if: "(c \<Longrightarrow> ends m) \<Longrightarrow> (\<not> c \<Longrightarrow> ends m') \<Longrightarrow> ends (if c then m else m')"
  by simp

lemma ends_option: "(x = None \<Longrightarrow> ends m) \<Longrightarrow> (\<And>y. x = Some y \<Longrightarrow> ends (k y)) \<Longrightarrow>
   ends (case x of None \<Rightarrow> m | Some y \<Rightarrow> k y)"
  by (cases x) simp_all

lemma ends_prod: "(\<And>a b. ends (k a b)) \<Longrightarrow> ends (case x of (a, b) \<Rightarrow> k a b)"
  by (cases x) simp

lemmas ends_parts = ends_bnd ends_attempt ends_basic ends_if ends_option ends_prod

text \<open>
  \<open>triple P m Q E\<close>: from a state with \<open>P\<close>, \<open>m\<close> does not trap, a result \<open>x\<close> leaves a state with \<open>Q x\<close>, and
  a false return leaves one with \<open>E\<close>.
\<close>

definition triple :: "('s \<Rightarrow> bool) \<Rightarrow> ('s, 'a) act \<Rightarrow> ('a \<Rightarrow> 's \<Rightarrow> bool) \<Rightarrow> ('s \<Rightarrow> bool) \<Rightarrow> bool" where
  "triple P m Q E \<longleftrightarrow> (\<forall>s. P s \<longrightarrow>
     (case m s of (OK x, t) \<Rightarrow> Q x t | (Trap, t) \<Rightarrow> False | (Fail, t) \<Rightarrow> E t | (Spin, t) \<Rightarrow> E t))"

lemma safe_triple: "safe P m \<longleftrightarrow> triple P m (\<lambda>_. P) P"
proof -
  have "(fst (m s) \<noteq> Trap \<and> P (snd (m s))) \<longleftrightarrow>
      (case m s of (OK x, t) \<Rightarrow> P t | (Trap, t) \<Rightarrow> False | (Fail, t) \<Rightarrow> P t | (Spin, t) \<Rightarrow> P t)" for s
    by (cases "m s"; cases "fst (m s)") auto
  then show ?thesis by (simp add: safe_def triple_def)
qed

lemma triple_bnd:
  assumes "triple P m R E" and "\<And>x. triple (R x) (k x) Q E"
  shows "triple P (bnd m k) Q E"
  unfolding triple_def
proof (intro allI impI)
  fix s assume "P s"
  obtain r t where m: "m s = (r, t)" by fastforce
  from assms(1) \<open>P s\<close> have "case m s of (OK x, t) \<Rightarrow> R x t | (Trap, t) \<Rightarrow> False | (Fail, t) \<Rightarrow> E t | (Spin, t) \<Rightarrow> E t"
    by (simp add: triple_def)
  with m assms(2) show "case bnd m k s of (OK x, t) \<Rightarrow> Q x t | (Trap, t) \<Rightarrow> False | (Fail, t) \<Rightarrow> E t | (Spin, t) \<Rightarrow> E t"
    by (cases r) (simp_all add: bnd_def triple_def)
qed

lemma triple_ret: "(\<And>s. P s \<Longrightarrow> Q x s) \<Longrightarrow> triple P (ret x) Q E"
  by (simp add: triple_def)

lemma triple_attempt:
  "triple P m (\<lambda>x. Q (Some x)) E \<Longrightarrow> (\<And>t. E t \<Longrightarrow> Q None t) \<Longrightarrow> triple P (attempt m) Q E"
  unfolding triple_def attempt_def by (fastforce split: prod.splits res.splits)

lemma triple_if: "(c \<Longrightarrow> triple P m Q E) \<Longrightarrow> (\<not> c \<Longrightarrow> triple P m' Q E) \<Longrightarrow> triple P (if c then m else m') Q E"
  by simp

lemma triple_option:
  "(x = None \<Longrightarrow> triple P m Q E) \<Longrightarrow> (\<And>y. x = Some y \<Longrightarrow> triple P (k y) Q E) \<Longrightarrow>
   triple P (case x of None \<Rightarrow> m | Some y \<Rightarrow> k y) Q E"
  by (cases x) simp_all

lemma triple_pre: "triple P m Q E \<Longrightarrow> (\<And>s. P' s \<Longrightarrow> P s) \<Longrightarrow> triple P' m Q E"
  by (simp add: triple_def)

lemma triple_post:
  "triple P m Q E \<Longrightarrow> (\<And>x s. Q x s \<Longrightarrow> Q' x s) \<Longrightarrow> triple P m Q' E"
  unfolding triple_def by (fastforce split: prod.splits res.splits)

section \<open>Byte-addressed memory\<close>

text \<open>
  A memory is a function from addresses to bytes. \<open>mem_read\<close> and \<open>mem_write\<close> are \<open>memcpy\<close> out of and
  into it; addresses are 64-bit and wrap. \<open>apart a n b m\<close>: the \<open>n\<close> bytes at \<open>a\<close> and the \<open>m\<close> bytes at
  \<open>b\<close> do not overlap on the 64-bit circle.
\<close>

type_synonym memory = "u64 \<Rightarrow> u8"

definition mem_read :: "memory \<Rightarrow> u64 \<Rightarrow> nat \<Rightarrow> u8 list" where
  "mem_read ram a n = map (\<lambda>i. ram (a + of_nat i)) [0..<n]"

definition mem_write :: "memory \<Rightarrow> u64 \<Rightarrow> u8 list \<Rightarrow> memory" where
  "mem_write ram a bs = (\<lambda>x. if unat (x - a) < length bs then bs ! unat (x - a) else ram x)"

definition apart :: "u64 \<Rightarrow> nat \<Rightarrow> u64 \<Rightarrow> nat \<Rightarrow> bool" where
  "apart a n b m \<longleftrightarrow> n = 0 \<or> m = 0 \<or> n \<le> unat (b - a) \<and> m \<le> unat (a - b)"

lemma length_mem_read [simp]: "length (mem_read ram a n) = n"
  by (simp add: mem_read_def)

lemma nth_mem_read [simp]: "i < n \<Longrightarrow> mem_read ram a n ! i = ram (a + of_nat i)"
  by (simp add: mem_read_def)

lemma mem_read_0 [simp]: "mem_read ram a 0 = []"
  by (simp add: mem_read_def)

lemma mem_write_Nil [simp]: "mem_write ram a [] = ram"
  by (simp add: mem_write_def)

lemma mem_read_cong: "(\<And>i. i < n \<Longrightarrow> ram (a + of_nat i) = ram' (a + of_nat i)) \<Longrightarrow>
    mem_read ram a n = mem_read ram' a n"
  by (simp add: mem_read_def)

lemma mem_read_append: "mem_read ram a (n + m) = mem_read ram a n @ mem_read ram (a + of_nat n) m"
  by (rule nth_equalityI) (auto simp: nth_append add.assoc)

lemma take_mem_read [simp]: "take k (mem_read ram a n) = mem_read ram a (min k n)"
  by (rule nth_equalityI) auto

lemma drop_mem_read [simp]: "drop k (mem_read ram a n) = mem_read ram (a + of_nat k) (n - k)"
  by (rule nth_equalityI) (auto simp: add.assoc)

lemma unat_of_nat_u64: "n < 2 ^ 64 \<Longrightarrow> unat (of_nat n :: u64) = n"
  by (simp add: unat_of_nat)

lemma unat_lt_u64: "unat (x :: u64) < 2 ^ 64"
  using unsigned_less [of x] by simp

lemma ucast_back [simp]: "ucast (ucast (x :: u32) :: u64) = x"
  by (rule bit_word_eqI) (auto simp: bit_simps dest: bit_imp_le_length)

lemma unat_lt_u32: "unat (x :: u32) < 2 ^ 32"
  using unsigned_less [of x] by simp

lemma unat_lt_u16: "unat (x :: u16) < 2 ^ 16"
  using unsigned_less [of x] by simp

lemma unat_ucast_u32: "unat (ucast (x :: u32) :: u64) = unat x"
  using unat_lt_u32 [of x] by (simp add: unsigned_ucast_eq take_bit_nat_eq_self_iff)

lemma unat_ucast_u16: "unat (ucast (x :: u16) :: u64) = unat x"
  using unat_lt_u16 [of x] by (simp add: unsigned_ucast_eq take_bit_nat_eq_self_iff)

lemma unat_of_nat_u32: "n < 2 ^ 32 \<Longrightarrow> unat (of_nat n :: u32) = n"
  by (simp add: unsigned_of_nat take_bit_nat_eq_self)

lemma unat_down_u32: "unat (x :: u64) < 2 ^ 32 \<Longrightarrow> unat (ucast x :: u32) = unat x"
  by (simp add: unsigned_ucast_eq take_bit_nat_eq_self)

lemma unat_drop_u64: "unat (drop_bit n (x :: u64)) = unat x div 2 ^ n"
proof -
  have "unat (drop_bit n x) = drop_bit n (take_bit 64 (unat x))" by (simp add: unsigned_drop_bit_eq)
  also have "take_bit 64 (unat x) = unat x" using unat_lt_u64 [of x] by (simp add: take_bit_nat_eq_self)
  finally show ?thesis by (simp add: drop_bit_eq_div)
qed

lemma ucast_narrow: "(ucast (ucast (v :: u64) :: u32) :: u16) = ucast v"
  by (rule bit_word_eqI) (auto simp: bit_simps)

lemma mem_write_in:
  "i < length bs \<Longrightarrow> length bs \<le> 2 ^ 64 \<Longrightarrow> mem_write ram a bs (a + of_nat i) = bs ! i"
  by (simp add: mem_write_def unat_of_nat_u64)

lemma mem_read_write_same [mem_simps]:
  "length bs \<le> 2 ^ 64 \<Longrightarrow> n = length bs \<Longrightarrow> mem_read (mem_write ram a bs) a n = bs"
  by (rule nth_equalityI) (auto simp: mem_write_in)

lemma apart_sym: "apart a n b m \<longleftrightarrow> apart b m a n"
  by (auto simp: apart_def)

lemma unat_diff_swap:
  fixes a b :: u64
  assumes "a \<noteq> b"
  shows "unat (b - a) + unat (a - b) = 2 ^ 64"
proof (cases "a \<le> b")
  case True
  with assms have "\<not> b \<le> a" by auto
  with True show ?thesis
    using unat_lt_u64 [of b] by (simp add: unat_sub_if' word_le_nat_alt)
next
  case False
  then have "b \<le> a" by auto
  with False show ?thesis
    using unat_lt_u64 [of a] by (simp add: unat_sub_if' word_le_nat_alt)
qed

lemma apart_outside:
  assumes "apart a n b m" and "i < m"
  shows "n \<le> unat (b + of_nat i - a)"
proof (cases "n = 0 \<or> a = b")
  case True
  with assms show ?thesis by (auto simp: apart_def)
next
  case False
  with assms have i: "unat (b - a) + i < 2 ^ 64"
    using unat_diff_swap [of a b] by (auto simp: apart_def)
  have eq: "b + of_nat i - a = (b - a) + of_nat i" by simp
  have "unat ((b - a) + (of_nat i :: u64)) = unat (b - a) + i"
    using i by (simp add: unat_word_ariths unat_of_nat_u64)
  with assms False show ?thesis unfolding eq by (auto simp: apart_def)
qed

lemma mem_read_write_apart [mem_simps]:
  "apart a (length bs) b n \<Longrightarrow> mem_read (mem_write ram a bs) b n = mem_read ram b n"
  by (rule mem_read_cong) (use apart_outside in \<open>fastforce simp: mem_write_def not_less\<close>)

lemma mem_read_write_within:
  assumes "k + n \<le> length bs" and "length bs \<le> 2 ^ 64"
  shows "mem_read (mem_write ram a bs) (a + of_nat k) n = take n (drop k bs)"
proof (rule nth_equalityI)
  fix i assume "i < length (mem_read (mem_write ram a bs) (a + of_nat k) n)"
  then have "i < n" by simp
  then have "mem_write ram a bs (a + of_nat (k + i)) = bs ! (k + i)"
    using assms by (intro mem_write_in) auto
  with \<open>i < n\<close> assms show "mem_read (mem_write ram a bs) (a + of_nat k) n ! i = take n (drop k bs) ! i"
    by (simp add: add.assoc)
qed (use assms in simp)

lemma mem_write_outside:
  "apart a (length bs) x 1 \<Longrightarrow> mem_write ram a bs x = ram x"
  using apart_outside [of a "length bs" x 1 0] by (simp add: mem_write_def)

lemma apart_offsets:
  assumes "p + n \<le> q" and "q + m \<le> 2 ^ 64 + p" and "q < 2 ^ 64"
  shows "apart (a + of_nat p) n (a + of_nat q) m"
proof (cases "n = 0")
  case False
  have diff: "(a + of_nat q) - (a + of_nat p) = (of_nat (q - p) :: u64)"
    using assms by simp
  have one: "unat ((a + of_nat q) - (a + of_nat p)) = q - p"
    using assms by (simp only: diff) (simp add: unat_of_nat_u64 del: of_nat_diff)
  then have "(a + of_nat p) \<noteq> (a + of_nat q :: u64)"
    using assms False by auto
  then have "unat ((a + of_nat p) - (a + of_nat q)) = 2 ^ 64 - (q - p)"
    using unat_diff_swap one by fastforce
  with one assms show ?thesis unfolding apart_def by linarith
qed (simp add: apart_def)

lemma apart_empty [simp]: "apart a 0 b m" "apart a n b 0"
  by (simp_all add: apart_def)

lemma apart_sub:
  assumes ap: "apart a n b m" and sub: "k + n' \<le> n"
  shows "apart (a + of_nat k) n' b m"
proof (cases "n' = 0 \<or> m = 0")
  case False
  with ap sub have le: "n \<le> unat (b - a)" "m \<le> unat (a - b)"
    by (auto simp: apart_def)
  with False have "a \<noteq> b" by auto
  then have swap: "unat (b - a) + unat (a - b) = 2 ^ 64" by (rule unat_diff_swap)
  have k: "k < 2 ^ 64" using le swap sub False by linarith
  have "unat ((a - b) + (of_nat k :: u64)) = unat (a - b) + k"
    using le swap sub False k by (simp add: unat_word_ariths unat_of_nat_u64)
  then have up: "unat ((a + of_nat k) - b) = unat (a - b) + k"
    by (simp add: algebra_simps)
  have "of_nat k \<le> b - a"
    using le sub k by (simp add: word_le_nat_alt unat_of_nat_u64)
  then have "unat ((b - a) - of_nat k) = unat (b - a) - k"
    using k by (simp add: unat_sub unat_of_nat_u64)
  then have "unat (b - (a + of_nat k)) = unat (b - a) - k"
    by (simp add: algebra_simps)
  with up le sub show ?thesis unfolding apart_def by linarith
qed auto

lemma apart_sub2: "apart a n b m \<Longrightarrow> k + m' \<le> m \<Longrightarrow> apart a n (b + of_nat k) m'"
  using apart_sub apart_sym by blast

lemma replicate_2: "replicate 2 x = [x, x]"
  by (simp add: numeral_2_eq_2)

end
