(* ===== verification/Endian.thy ===== *)
theory Endian
  imports Chiplets_Prelude
begin

unbundle bit_operations_syntax

text \<open>
  The little-endian helpers of \<^verbatim>\<open>src/virtio.h\<close> (the fabrics carry private copies with the same
  bodies). A load takes the bytes from the pointer on; a store returns the bytes it writes. The
  lemmas show that loads and stores are inverse to each other, so that every multi-byte field of a
  ring, a descriptor, a register or a protocol header can be read back as it was written.
\<close>

definition virtio_load_le16 :: "u8 list \<Rightarrow> u16" where
  "virtio_load_le16 p = ucast (p ! 0) OR push_bit 8 (ucast (p ! 1))"

definition virtio_load_le32 :: "u8 list \<Rightarrow> u32" where
  "virtio_load_le32 p =
     ucast (p ! 0) OR push_bit 8 (ucast (p ! 1)) OR push_bit 16 (ucast (p ! 2)) OR
     push_bit 24 (ucast (p ! 3))"

definition virtio_load_le64 :: "u8 list \<Rightarrow> u64" where
  "virtio_load_le64 p =
     ucast (virtio_load_le32 p) OR push_bit 32 (ucast (virtio_load_le32 (drop 4 p)))"

definition virtio_store_le16 :: "u16 \<Rightarrow> u8 list" where
  "virtio_store_le16 v = [ucast (v AND 0xff), ucast (drop_bit 8 v AND 0xff)]"

definition virtio_store_le32 :: "u32 \<Rightarrow> u8 list" where
  "virtio_store_le32 v =
     [ucast (v AND 0xff), ucast (drop_bit 8 v AND 0xff), ucast (drop_bit 16 v AND 0xff),
      ucast (drop_bit 24 v AND 0xff)]"

definition virtio_store_le64 :: "u64 \<Rightarrow> u8 list" where
  "virtio_store_le64 v = virtio_store_le32 (ucast v) @ virtio_store_le32 (ucast (drop_bit 32 v))"

section \<open>Lengths\<close>

lemma length_store_le [simp, le_simps]:
  "length (virtio_store_le16 a) = 2"
  "length (virtio_store_le32 b) = 4"
  "length (virtio_store_le64 c) = 8"
  by (simp_all add: virtio_store_le16_def virtio_store_le32_def virtio_store_le64_def)

section \<open>Loads undo stores\<close>

lemma and_ff: "v AND 0xff = take_bit 8 (v :: 'a::len word)"
  by (simp add: take_bit_eq_mask mask_numeral)

lemma load_store_le16 [simp, le_simps]: "virtio_load_le16 (virtio_store_le16 v @ rest) = v"
  by (rule bit_word_eqI) (auto simp: virtio_load_le16_def virtio_store_le16_def and_ff bit_simps)

lemma load_store_le32 [simp, le_simps]: "virtio_load_le32 (virtio_store_le32 v @ rest) = v"
proof (rule bit_word_eqI)
  fix n assume "n < LENGTH(32)"
  then consider "n < 8" | "8 \<le> n" "n < 16" | "16 \<le> n" "n < 24" | "24 \<le> n" "n < 32"
    by force
  then show "bit (virtio_load_le32 (virtio_store_le32 v @ rest)) n \<longleftrightarrow> bit v n"
    by cases (auto simp: virtio_load_le32_def virtio_store_le32_def and_ff bit_simps)
qed

lemma load_store_le64 [simp, le_simps]: "virtio_load_le64 (virtio_store_le64 v @ rest) = v"
proof -
  have "virtio_load_le32 (virtio_store_le64 v @ rest) = ucast v"
    by (simp add: virtio_store_le64_def)
  moreover have "virtio_load_le32 (drop 4 (virtio_store_le64 v @ rest)) = ucast (drop_bit 32 v)"
    by (simp add: virtio_store_le64_def)
  ultimately show ?thesis
    by (intro bit_word_eqI) (auto simp: virtio_load_le64_def bit_simps)
qed

lemma load_store_exact [simp, le_simps]:
  "virtio_load_le16 (virtio_store_le16 a) = a"
  "virtio_load_le32 (virtio_store_le32 b) = b"
  "virtio_load_le64 (virtio_store_le64 c) = c"
  using load_store_le16 [of a "[]"] load_store_le32 [of b "[]"] load_store_le64 [of c "[]"]
  by simp_all

section \<open>Stores undo loads\<close>

lemma byte_of_load32:
  fixes b0 b1 b2 b3 :: u8
  defines "v \<equiv> (ucast b0 OR push_bit 8 (ucast b1) OR push_bit 16 (ucast b2) OR push_bit 24 (ucast b3) :: u32)"
  shows "ucast (v AND 0xff) = b0" and "ucast (drop_bit 8 v AND 0xff) = b1"
    and "ucast (drop_bit 16 v AND 0xff) = b2" and "ucast (drop_bit 24 v AND 0xff) = b3"
proof -
  show "ucast (v AND 0xff) = b0"
    by (rule bit_word_eqI) (auto simp: v_def and_ff bit_simps)
  show "ucast (drop_bit 8 v AND 0xff) = b1"
    by (rule bit_word_eqI) (auto simp: v_def and_ff bit_simps dest: bit_imp_le_length)
  show "ucast (drop_bit 16 v AND 0xff) = b2"
    by (rule bit_word_eqI) (auto simp: v_def and_ff bit_simps dest: bit_imp_le_length)
  show "ucast (drop_bit 24 v AND 0xff) = b3"
    by (rule bit_word_eqI) (auto simp: v_def and_ff bit_simps dest: bit_imp_le_length)
qed

lemma store_load_le32:
  assumes "length p = 4"
  shows "virtio_store_le32 (virtio_load_le32 p) = p"
proof -
  from assms obtain a b c d where p: "p = [a, b, c, d]"
    by (auto simp: length_Suc_conv numeral_eq_Suc)
  have v: "virtio_load_le32 p = ucast a OR push_bit 8 (ucast b) OR push_bit 16 (ucast c) OR push_bit 24 (ucast d)"
    by (simp add: p virtio_load_le32_def)
  show ?thesis
    unfolding v virtio_store_le32_def byte_of_load32 by (simp add: p)
qed

lemma store_load_le16:
  assumes "length p = 2"
  shows "virtio_store_le16 (virtio_load_le16 p) = p"
proof -
  from assms obtain a b where p: "p = [a, b]"
    by (auto simp: length_Suc_conv numeral_eq_Suc)
  have "ucast ((ucast a OR push_bit 8 (ucast b) :: u16) AND 0xff) = a"
    "ucast (drop_bit 8 (ucast a OR push_bit 8 (ucast b) :: u16) AND 0xff) = b"
    by (rule bit_word_eqI, auto simp: and_ff bit_simps dest: bit_imp_le_length)+
  then show ?thesis
    by (simp add: p virtio_store_le16_def virtio_load_le16_def)
qed

lemma store_load_le64:
  assumes "length p = 8"
  shows "virtio_store_le64 (virtio_load_le64 p) = p"
proof -
  define lo where "lo = virtio_load_le32 p"
  define hi where "hi = virtio_load_le32 (drop 4 p)"
  have v: "virtio_load_le64 p = ucast lo OR push_bit 32 (ucast hi)"
    by (simp add: virtio_load_le64_def lo_def hi_def)
  have "ucast (ucast lo OR push_bit 32 (ucast hi) :: u64) = lo"
    "ucast (drop_bit 32 (ucast lo OR push_bit 32 (ucast hi) :: u64)) = hi"
    by (rule bit_word_eqI, auto simp: bit_simps dest: bit_imp_le_length)+
  then have "virtio_store_le64 (virtio_load_le64 p) = virtio_store_le32 lo @ virtio_store_le32 hi"
    by (simp add: virtio_store_le64_def v)
  moreover have "lo = virtio_load_le32 (take 4 p)"
    using assms by (simp add: lo_def virtio_load_le32_def)
  ultimately show ?thesis
    using assms store_load_le32 [of "take 4 p"] store_load_le32 [of "drop 4 p"]
    by (simp add: hi_def)
qed

lemma load_le32_take [simp]: "4 \<le> n \<Longrightarrow> virtio_load_le32 (take n p) = virtio_load_le32 p"
  by (simp add: virtio_load_le32_def)

lemma load_le16_take [simp]: "2 \<le> n \<Longrightarrow> virtio_load_le16 (take n p) = virtio_load_le16 p"
  by (simp add: virtio_load_le16_def)

lemma load_le64_take [simp]: "8 \<le> n \<Longrightarrow> virtio_load_le64 (take n p) = virtio_load_le64 p"
  by (simp add: virtio_load_le64_def drop_take)

text \<open>
  For every value of each width, the load helpers return what the store helpers wrote, whatever
  bytes follow in the buffer; and storing what was loaded writes the same bytes again, so the
  encodings are bijections between the integers and the byte strings of their width.
\<close>

theorem endian_roundtrip:
  "virtio_load_le16 (virtio_store_le16 a @ r) = a \<and> virtio_load_le32 (virtio_store_le32 b @ r) = b \<and>
   virtio_load_le64 (virtio_store_le64 c @ r) = c \<and>
   (length p = 2 \<longrightarrow> virtio_store_le16 (virtio_load_le16 p) = p) \<and>
   (length p = 4 \<longrightarrow> virtio_store_le32 (virtio_load_le32 p) = p) \<and>
   (length p = 8 \<longrightarrow> virtio_store_le64 (virtio_load_le64 p) = p)"
  by (simp add: store_load_le16 store_load_le32 store_load_le64)

theorem endian_roundtrip_witness:
  "length [0x34, 0x12 :: u8] = 2 \<and> virtio_store_le16 (virtio_load_le16 [0x34, 0x12]) = [0x34, 0x12] \<and>
   virtio_load_le32 (virtio_store_le32 0x12345678 @ []) = 0x12345678 \<and>
   virtio_store_le32 0x12345678 = [0x78, 0x56, 0x34, 0x12]"
  using endian_roundtrip [where r = "[]" and b = "0x12345678" and p = "[0x34, 0x12]"]
  by (simp add: virtio_store_le32_def)

end
