(* ===== verification/Fabric.thy ===== *)
theory Fabric
  imports Endian
begin

text \<open>
  The fabric interface of \<^verbatim>\<open>src/fabrics/fabric.h\<close>: the operations a driver links against
  (\<open>fabric_ops\<close>), the device descriptor a driver registers, and the registration functions that the
  three fabrics implement with the same bodies. The choice of the fabric is a link-time choice in
  the C build; here it is the argument \<open>fabric_ops\<close> of every function that calls the interface.

  The locales state what a fabric promises to its clients: \<open>guest_dma\<close> that DMA reads and writes are
  reads and writes of one guest memory inside the reachable ranges, \<open>guest_bounds\<close> that they are refused
  outside them, and \<open>guest_irq\<close> that the interrupt requests do not touch that memory.
\<close>

section \<open>Operations\<close>

text \<open>
  \<open>'f\<close> is the state of the fabric: its globals, its mapped windows or its socket, and the guest memory
  behind them. The first argument of \<open>fabric_dma_read\<close> is the largest block \<open>malloc\<close> can still return.
  A pointer returned by \<open>fabric_dma_map\<close> is an offset into the mapped window (\<open>None\<close> is NULL);
  \<open>fabric_ptr_store\<close> is a store through such a pointer. \<open>fabric_usleep\<close> is what the rest of the system
  (the guest, QEMU) does to the shared state while the daemon sleeps for that many microseconds.
\<close>

record 'f fabric_ops =
  fabric_dma_read :: "nat \<Rightarrow> u64 \<Rightarrow> u32 \<Rightarrow> ('f, u8 list) act"
  fabric_dma_read_into :: "u64 \<Rightarrow> u32 \<Rightarrow> ('f, u8 list) act"
  fabric_dma_map :: "u64 \<Rightarrow> u32 \<Rightarrow> ('f, u64 option) act"
  fabric_ptr_store :: "u64 option \<Rightarrow> u8 list \<Rightarrow> ('f, unit) act"
  fabric_dma_unmap :: "u64 option \<Rightarrow> u32 \<Rightarrow> ('f, unit) act"
  fabric_dma_read_u16 :: "u64 \<Rightarrow> ('f, u16) act"
  fabric_dma_write :: "u64 \<Rightarrow> u8 list \<Rightarrow> u32 \<Rightarrow> ('f, unit) act"
  fabric_raise_irq :: "('f, unit) act"
  fabric_lower_irq :: "('f, unit) act"
  fabric_usleep :: "nat \<Rightarrow> 'f \<Rightarrow> 'f"

section \<open>Devices and registration\<close>

definition FABRIC_MAX_DEVICES :: u32 where
  "FABRIC_MAX_DEVICES = 8"

record 's fabric_device_ops =
  fd_connect :: "('s \<Rightarrow> 's) option"
  fd_read :: "(u64 \<Rightarrow> u32 \<Rightarrow> 's \<Rightarrow> u64) option"
  fd_write :: "(u64 \<Rightarrow> u64 \<Rightarrow> u32 \<Rightarrow> ('s, unit) act) option"

record 's fabric_device =
  fdev_name :: string
  fdev_socket_path :: string
  fdev_addr :: u64
  fdev_size :: u64
  fdev_ops :: "'s fabric_device_ops option"

text \<open>A slot of the device array that was never assigned is \<open>None\<close>.\<close>

record 's fabric =
  fb_devices :: "'s fabric_device option list"
  fb_device_count :: u32

definition fabric_init :: "'s fabric \<Rightarrow> 's fabric" where
  "fabric_init fb = fb\<lparr>fb_device_count := 0\<rparr>"

definition fabric_register :: "'s fabric_device \<Rightarrow> ('s fabric, unit) act" where
  "fabric_register d = (\<lambda>fb.
     if FABRIC_MAX_DEVICES \<le> fb_device_count fb then (Fail, fb)
     else case fdev_ops d of
       None \<Rightarrow> (Fail, fb)
     | Some ops \<Rightarrow>
         if fd_read ops = None \<or> fd_write ops = None then (Fail, fb)
         else (OK (), fb\<lparr>fb_devices := (fb_devices fb)[unat (fb_device_count fb) := Some d],
                          fb_device_count := fb_device_count fb + 1\<rparr>))"

text \<open>Calls through the operation table; a call through a null pointer faults.\<close>

definition dev_read :: "'s fabric_device \<Rightarrow> u64 \<Rightarrow> u32 \<Rightarrow> ('s, u64) act" where
  "dev_read d off len = (\<lambda>s.
     case fdev_ops d of None \<Rightarrow> (Trap, s)
     | Some ops \<Rightarrow> (case fd_read ops of None \<Rightarrow> (Trap, s) | Some f \<Rightarrow> (OK (f off len s), s)))"

definition dev_write :: "'s fabric_device \<Rightarrow> u64 \<Rightarrow> u64 \<Rightarrow> u32 \<Rightarrow> ('s, unit) act" where
  "dev_write d off v len = (\<lambda>s.
     case fdev_ops d of None \<Rightarrow> (Trap, s)
     | Some ops \<Rightarrow> (case fd_write ops of None \<Rightarrow> (Trap, s) | Some f \<Rightarrow> f off v len s))"

definition dev_connect :: "'s fabric_device \<Rightarrow> ('s, unit) act" where
  "dev_connect d = (\<lambda>s.
     case fdev_ops d of None \<Rightarrow> (Trap, s)
     | Some ops \<Rightarrow> (case fd_connect ops of None \<Rightarrow> (OK (), s) | Some f \<Rightarrow> (OK (), f s)))"

text \<open>
  The array holds the registered devices in its first \<open>device_count\<close> slots, each with the callbacks
  the fabrics call without checking.
\<close>

definition callable :: "'s fabric_device \<Rightarrow> bool" where
  "callable d \<longleftrightarrow> (case fdev_ops d of None \<Rightarrow> False
     | Some ops \<Rightarrow> fd_read ops \<noteq> None \<and> fd_write ops \<noteq> None)"

definition fabric_wf :: "'s fabric \<Rightarrow> bool" where
  "fabric_wf fb \<longleftrightarrow> length (fb_devices fb) = unat FABRIC_MAX_DEVICES \<and>
     fb_device_count fb \<le> FABRIC_MAX_DEVICES \<and>
     (\<forall>i < unat (fb_device_count fb). \<exists>d. fb_devices fb ! i = Some d \<and> callable d)"

section \<open>What a fabric promises\<close>

locale guest_dma =
  fixes F :: "'f fabric_ops"
    and live :: "'f \<Rightarrow> bool"
    and ram :: "'f \<Rightarrow> memory"
    and reach :: "'f \<Rightarrow> u64 \<Rightarrow> nat \<Rightarrow> bool"
  assumes read_reach:
    "live f \<Longrightarrow> reach f a (unat n) \<Longrightarrow>
     \<exists>g. fabric_dma_read_into F a n f = (OK (mem_read (ram f) a (unat n)), g) \<and>
         live g \<and> ram g = ram f \<and> reach g = reach f"
  and read_u16_into:
    "fabric_dma_read_u16 F a = bnd (fabric_dma_read_into F a 2) (\<lambda>d. ret (virtio_load_le16 d))"
  and write_reach:
    "live f \<Longrightarrow> reach f a (unat n) \<Longrightarrow> length d = unat n \<Longrightarrow>
     \<exists>g. fabric_dma_write F a d n f = (OK (), g) \<and>
         live g \<and> ram g = mem_write (ram f) a d \<and> reach g = reach f"
begin

lemma read_u16_reach:
  assumes "live f" and "reach f a 2"
  shows "\<exists>g. fabric_dma_read_u16 F a f = (OK (virtio_load_le16 (mem_read (ram f) a 2)), g) \<and>
    live g \<and> ram g = ram f \<and> reach g = reach f"
proof -
  from assms read_reach [of f a 2] obtain g where
    "fabric_dma_read_into F a 2 f = (OK (mem_read (ram f) a 2), g)"
    "live g" "ram g = ram f" "reach g = reach f" by auto
  then show ?thesis by (auto simp: read_u16_into bnd_def)
qed

end

text \<open>
  \<open>guest_bounds\<close>: what is not reachable is refused. The fabrics with a bounded window promise this; over
  \<^verbatim>\<open>/dev/mem\<close> a range may also be a device of the host, and then the access happens.
\<close>

locale guest_bounds = guest_dma F live ram reach
  for F :: "'f fabric_ops" and live ram reach +
  assumes read_unreach:
    "live f \<Longrightarrow> \<not> reach f a (unat n) \<Longrightarrow> fst (fabric_dma_read_into F a n f) = Fail"
  and read_alloc_unreach:
    "live f \<Longrightarrow> n \<noteq> 0 \<Longrightarrow> \<not> reach f a (unat n) \<Longrightarrow> fst (fabric_dma_read F heap a n f) = Fail"
  and write_unreach:
    "live f \<Longrightarrow> \<not> reach f a (unat n) \<Longrightarrow> length d = unat n \<Longrightarrow> fst (fabric_dma_write F a d n f) = Fail"
begin

lemma read_u16_unreach:
  assumes "live f" and "\<not> reach f a 2"
  shows "fst (fabric_dma_read_u16 F a f) = Fail"
  using assms read_unreach [of f a 2]
  by (cases "fabric_dma_read_into F a 2 f") (auto simp: read_u16_into bnd_def)

end

locale guest_irq = guest_dma F live ram reach
  for F :: "'f fabric_ops" and live ram reach +
  fixes line :: "'f \<Rightarrow> bool"
  assumes raise_ok:
    "live f \<Longrightarrow> \<exists>g. fabric_raise_irq F f = (OK (), g) \<and>
       live g \<and> ram g = ram f \<and> reach g = reach f \<and> line g"
  and lower_ok:
    "live f \<Longrightarrow> \<exists>g. fabric_lower_irq F f = (OK (), g) \<and>
       live g \<and> ram g = ram f \<and> reach g = reach f \<and> \<not> line g"

text \<open>
  \<open>guest_alloc\<close>: the read that allocates its buffer returns the same bytes as the read into a buffer, and
  is refused when the buffer cannot be allocated.
\<close>

locale guest_alloc = guest_irq F live ram reach line
  for F :: "'f fabric_ops" and live ram reach line +
  assumes read_alloc:
    "live f \<Longrightarrow> reach f a (unat n) \<Longrightarrow> unat n \<le> heap \<Longrightarrow>
     \<exists>g. fabric_dma_read F heap a n f = (OK (mem_read (ram f) a (unat n)), g) \<and>
         live g \<and> ram g = ram f \<and> reach g = reach f"
  and read_alloc_refused:
    "live f \<Longrightarrow> heap < unat n \<Longrightarrow> fst (fabric_dma_read F heap a n f) = Fail"

text \<open>
  \<open>guest_map\<close>: a direct mapping is either refused, or stores through it are writes of the guest memory
  at the mapped address. \<open>fabric_safe\<close> is the part of the contract that needs no memory: no operation
  faults and each keeps the invariant \<open>ok\<close>, a read returns as many bytes as were asked for, and a
  store through a mapping of \<open>n\<close> bytes is safe for at most \<open>n\<close> bytes.
\<close>

locale guest_map = guest_irq F live ram reach line
  for F :: "'f fabric_ops" and live ram reach line +
  assumes map_or_refuse:
    "live f \<Longrightarrow>
       (\<exists>g. fabric_dma_map F a n f = (Fail, g) \<and> live g \<and> ram g = ram f \<and> reach g = reach f) \<or>
       (\<exists>p g. fabric_dma_map F a n f = (OK p, g) \<and> live g \<and> ram g = ram f \<and> reach g = reach f \<and>
          (\<forall>d. length d \<le> unat n \<longrightarrow> (\<exists>h. fabric_ptr_store F p d g = (OK (), h) \<and>
             live h \<and> ram h = mem_write (ram f) a d \<and> reach h = reach f)))"
  and unmap_ok:
    "live f \<Longrightarrow> \<exists>g. fabric_dma_unmap F p n f = (OK (), g) \<and> live g \<and> ram g = ram f \<and> reach g = reach f"

locale fabric_safe =
  fixes F :: "'f fabric_ops" and ok :: "'f \<Rightarrow> bool"
  assumes safe_read: "safe ok (fabric_dma_read F heap a n)"
  and safe_read_into: "safe ok (fabric_dma_read_into F a n)"
  and safe_read_u16: "safe ok (fabric_dma_read_u16 F a)"
  and safe_write: "length d = unat n \<Longrightarrow> safe ok (fabric_dma_write F a d n)"
  and safe_map: "safe ok (fabric_dma_map F a n)"
  and safe_unmap: "safe ok (fabric_dma_unmap F p n)"
  and safe_raise: "safe ok (fabric_raise_irq F)"
  and safe_lower: "safe ok (fabric_lower_irq F)"
  and safe_usleep: "ok f \<Longrightarrow> ok (fabric_usleep F t f)"
  and read_into_length: "fabric_dma_read_into F a n f = (OK d, g) \<Longrightarrow> length d = unat n"
  and store_safe: "ok f \<Longrightarrow> fabric_dma_map F a n f = (OK p, g) \<Longrightarrow> length d \<le> unat n \<Longrightarrow>
    fst (fabric_ptr_store F p d g) \<noteq> Trap \<and> ok (snd (fabric_ptr_store F p d g))"

text \<open>\<open>fabric_ends\<close>: every operation of the fabric returns.\<close>

locale fabric_ends =
  fixes F :: "'f fabric_ops"
  assumes ends_read: "ends (fabric_dma_read F heap a n)"
  and ends_read_into: "ends (fabric_dma_read_into F a n)"
  and ends_read_u16: "ends (fabric_dma_read_u16 F a)"
  and ends_write: "ends (fabric_dma_write F a d n)"
  and ends_map: "ends (fabric_dma_map F a n)"
  and ends_store: "ends (fabric_ptr_store F p d)"
  and ends_unmap: "ends (fabric_dma_unmap F p n)"
  and ends_raise: "ends (fabric_raise_irq F)"
  and ends_lower: "ends (fabric_lower_irq F)"

text \<open>\<open>fabric_keeps\<close>: every operation, and the rest of the system while the daemon sleeps, keeps \<open>P\<close>.\<close>

locale fabric_keeps =
  fixes F :: "'f fabric_ops" and P :: "'f \<Rightarrow> bool"
  assumes keeps_read: "keeps P (fabric_dma_read F heap a n)"
  and keeps_read_into: "keeps P (fabric_dma_read_into F a n)"
  and keeps_read_u16: "keeps P (fabric_dma_read_u16 F a)"
  and keeps_write: "keeps P (fabric_dma_write F a d n)"
  and keeps_map: "keeps P (fabric_dma_map F a n)"
  and keeps_store: "keeps P (fabric_ptr_store F p d)"
  and keeps_unmap: "keeps P (fabric_dma_unmap F p n)"
  and keeps_raise: "keeps P (fabric_raise_irq F)"
  and keeps_lower: "keeps P (fabric_lower_irq F)"
  and keeps_usleep: "P f \<Longrightarrow> P (fabric_usleep F t f)"

section \<open>Registration\<close>

lemma fabric_init_wf:
  "length (fb_devices fb) = 8 \<Longrightarrow> fabric_wf (fabric_init fb)"
  by (simp add: fabric_wf_def fabric_init_def FABRIC_MAX_DEVICES_def)

definition registered :: "'s fabric_device \<Rightarrow> 's fabric \<Rightarrow> 's fabric" where
  "registered d fb = fb\<lparr>fb_devices := (fb_devices fb)[unat (fb_device_count fb) := Some d],
                        fb_device_count := fb_device_count fb + 1\<rparr>"

lemma fabric_register_eq:
  "fabric_register d fb =
     (if fb_device_count fb < FABRIC_MAX_DEVICES \<and> callable d then (OK (), registered d fb) else (Fail, fb))"
  by (cases "fdev_ops d") (auto simp: fabric_register_def callable_def registered_def not_le)

lemma registered_wf:
  assumes wf: "fabric_wf fb" and free: "fb_device_count fb < FABRIC_MAX_DEVICES" and c: "callable d"
  shows "fabric_wf (registered d fb)"
proof -
  have lt: "unat (fb_device_count fb) < 8"
    using free by (simp add: FABRIC_MAX_DEVICES_def word_less_nat_alt)
  then have n: "unat (fb_device_count fb + 1) = Suc (unat (fb_device_count fb))"
    by (simp add: unat_word_ariths)
  have len: "length (fb_devices fb) = 8"
    using wf by (simp add: fabric_wf_def FABRIC_MAX_DEVICES_def)
  have "\<exists>e. fb_devices (registered d fb) ! i = Some e \<and> callable e" if "i < Suc (unat (fb_device_count fb))" for i
  proof (cases "i = unat (fb_device_count fb)")
    case True
    with c lt len show ?thesis by (simp add: registered_def)
  next
    case False
    with that wf show ?thesis by (simp add: fabric_wf_def registered_def)
  qed
  with lt len n show ?thesis
    by (simp add: fabric_wf_def FABRIC_MAX_DEVICES_def word_le_nat_alt) (simp add: registered_def n)
qed

lemma registered_table:
  assumes "fabric_wf fb" and "fb_device_count fb < FABRIC_MAX_DEVICES"
  shows "unat (fb_device_count (registered d fb)) = Suc (unat (fb_device_count fb))"
    and "fb_devices (registered d fb) ! unat (fb_device_count fb) = Some d"
    and "i \<noteq> unat (fb_device_count fb) \<Longrightarrow> fb_devices (registered d fb) ! i = fb_devices fb ! i"
proof -
  have lt: "unat (fb_device_count fb) < 8" "length (fb_devices fb) = 8"
    using assms by (simp_all add: fabric_wf_def FABRIC_MAX_DEVICES_def word_less_nat_alt)
  then show "unat (fb_device_count (registered d fb)) = Suc (unat (fb_device_count fb))"
    by (simp add: registered_def unat_word_ariths)
  show "fb_devices (registered d fb) ! unat (fb_device_count fb) = Some d"
    "i \<noteq> unat (fb_device_count fb) \<Longrightarrow> fb_devices (registered d fb) ! i = fb_devices fb ! i"
    using lt by (simp_all add: registered_def)
qed

text \<open>The devices of the table, in the order of their slots, and a sequence of registrations.\<close>

definition bus_devices :: "'s fabric \<Rightarrow> 's fabric_device option list" where
  "bus_devices fb = take (unat (fb_device_count fb)) (fb_devices fb)"

definition register_each :: "'s fabric_device list \<Rightarrow> 's fabric \<Rightarrow> 's fabric" where
  "register_each ds fb = fold (\<lambda>d fb. snd (fabric_register d fb)) ds fb"

lemma bus_registered:
  assumes "fabric_wf fb" and "fb_device_count fb < FABRIC_MAX_DEVICES"
  shows "bus_devices (registered d fb) = bus_devices fb @ [Some d]"
proof -
  have lt: "unat (fb_device_count fb) < length (fb_devices fb)"
    using assms by (simp add: fabric_wf_def FABRIC_MAX_DEVICES_def word_less_nat_alt)
  have n: "unat (fb_device_count (registered d fb)) = Suc (unat (fb_device_count fb))" by (rule registered_table [OF assms])
  show ?thesis unfolding bus_devices_def n using lt by (simp add: registered_def take_Suc_conv_app_nth)
qed

lemma bus_length: "fabric_wf fb \<Longrightarrow> length (bus_devices fb) = unat (fb_device_count fb) \<and> length (bus_devices fb) \<le> 8"
  by (simp add: fabric_wf_def bus_devices_def FABRIC_MAX_DEVICES_def word_le_nat_alt)

lemma register_each_bus:
  "fabric_wf fb \<Longrightarrow> bus_devices (register_each ds fb) =
     bus_devices fb @ map Some (take (8 - length (bus_devices fb)) (filter callable ds))"
proof (induction ds arbitrary: fb)
  case (Cons d ds)
  have step: "register_each (d # ds) fb = register_each ds (snd (fabric_register d fb))" by (simp add: register_each_def)
  show ?case
  proof (cases "fb_device_count fb < FABRIC_MAX_DEVICES \<and> callable d")
    case True
    then have r: "fabric_wf (registered d fb)" "bus_devices (registered d fb) = bus_devices fb @ [Some d]"
      using Cons.prems registered_wf bus_registered by blast+
    from True bus_length [OF Cons.prems] have "8 - length (bus_devices fb) = Suc (8 - length (bus_devices fb @ [Some d]))"
      by (simp add: FABRIC_MAX_DEVICES_def word_less_nat_alt Suc_diff_le) arith
    with True Cons.IH [OF r(1)] r(2) show ?thesis by (simp add: step fabric_register_eq)
  next
    case False
    have "length (bus_devices fb) = 8" if "\<not> fb_device_count fb < FABRIC_MAX_DEVICES"
      using that bus_length [OF Cons.prems] by (simp add: FABRIC_MAX_DEVICES_def word_less_nat_alt)
    with False Cons.IH [OF Cons.prems] show ?thesis by (auto simp: step fabric_register_eq)
  qed
qed (simp add: register_each_def)

text \<open>
  C36: registration keeps the device table well formed and stores the device. After any call, accepted or
  refused, the count is at most the capacity of the array and every counted slot holds a device whose read
  and write callbacks are set; a registration is refused exactly when the table is full or a callback
  the fabrics call unconditionally is missing, and then nothing changes. An accepted device is in the first
  free slot, the count is one more and every other slot is as before. So after a sequence of registrations
  the table holds what it held and then, in order, the devices with both callbacks, as many as fit.
\<close>

theorem fabric_register_correct:
  assumes "fabric_wf fb"
  shows "fabric_wf (snd (fabric_register d fb)) \<and>
    (fst (fabric_register d fb) = OK () \<longleftrightarrow> fb_device_count fb < FABRIC_MAX_DEVICES \<and> callable d) \<and>
    (fst (fabric_register d fb) \<noteq> OK () \<longrightarrow> fabric_register d fb = (Fail, fb)) \<and>
    (fst (fabric_register d fb) = OK () \<longrightarrow>
       unat (fb_device_count (snd (fabric_register d fb))) = Suc (unat (fb_device_count fb)) \<and>
       fb_devices (snd (fabric_register d fb)) ! unat (fb_device_count fb) = Some d \<and>
       (\<forall>i. i \<noteq> unat (fb_device_count fb) \<longrightarrow> fb_devices (snd (fabric_register d fb)) ! i = fb_devices fb ! i)) \<and>
    bus_devices (register_each ds fb) = bus_devices fb @ map Some (take (8 - length (bus_devices fb)) (filter callable ds))"
  using assms register_each_bus [OF assms] registered_table [OF assms] by (simp add: fabric_register_eq registered_wf)

definition bare_device :: "bool \<Rightarrow> u64 \<Rightarrow> unit fabric_device" where
  "bare_device full addr = \<lparr>fdev_name = ''blkd'', fdev_socket_path = ''s'', fdev_addr = addr, fdev_size = 0x200,
     fdev_ops = (if full then Some \<lparr>fd_connect = None, fd_read = Some (\<lambda>_ _ _. 0), fd_write = Some (\<lambda>_ _ _. ret ())\<rparr> else None)\<rparr>"

theorem fabric_register_correct_witness:
  "let fb = fabric_init \<lparr>fb_devices = replicate 8 None, fb_device_count = 5\<rparr>;
       fb1 = snd (fabric_register (bare_device True 0) fb)
   in fst (fabric_register (bare_device True 0) fb) = OK () \<and> fabric_wf fb1 \<and> fb_devices fb1 ! 0 = Some (bare_device True 0) \<and>
      fabric_register (bare_device False 0x1000) fb = (Fail, fb) \<and>
      bus_devices (register_each [bare_device True 0, bare_device False 0x1000, bare_device True 0x2000] fb) =
        [Some (bare_device True 0), Some (bare_device True 0x2000)]"
proof -
  let ?fb = "fabric_init \<lparr>fb_devices = replicate 8 (None :: unit fabric_device option), fb_device_count = 5\<rparr>"
  let ?ds = "[bare_device True 0, bare_device False 0x1000, bare_device True 0x2000]"
  have wf: "fabric_wf ?fb" by (rule fabric_init_wf) simp
  have c: "callable (bare_device True a)" "\<not> callable (bare_device False a)" for a
    by (simp_all add: callable_def bare_device_def)
  have n: "fb_device_count ?fb = 0" "bus_devices ?fb = []" "(0 :: u32) < FABRIC_MAX_DEVICES"
    by (simp_all add: fabric_init_def bus_devices_def FABRIC_MAX_DEVICES_def)
  show ?thesis
    using fabric_register_correct [OF wf, of "bare_device True 0" ?ds] fabric_register_correct [OF wf, of "bare_device False 0x1000" ?ds] n
    by (simp add: Let_def c)
qed

end
