(* ===== verification/Virtio.thy ===== *)
theory Virtio
  imports Fabric
begin

unbundle bit_operations_syntax

text \<open>
  The transport-independent virtio core, \<^verbatim>\<open>src/virtio.h\<close> and \<^verbatim>\<open>src/virtio.c\<close>: queue and device
  state, reset and initialisation, and the three split-ring helpers. The ring helpers are proved
  against views of the rings in guest memory: the available ring is a first-in first-out list of
  chain heads (\<open>pending\<close>) behind the backend's cursor, and appending to the used ring adds one
  element and moves the used index by one.
\<close>

section \<open>State\<close>

definition VIRTIO_VENDOR_ID_LOCAL :: u32 where
  "VIRTIO_VENDOR_ID_LOCAL = 0x43484950"

definition VIRTIO_INTERRUPT_VRING :: u32 where
  "VIRTIO_INTERRUPT_VRING = 1"

record virtio_queue =
  vq_num :: u32
  vq_ready :: u32
  vq_desc :: u64
  vq_avail :: u64
  vq_used :: u64
  vq_last_avail_idx :: u16

record virtio_desc =
  ds_addr :: u64
  ds_len :: u32
  ds_flags :: u16
  ds_next :: u16

text \<open>
  \<open>'o\<close> is the driver's own part of the structure that embeds the device: in C the \<open>opaque\<close> pointer
  leads from the device back to that structure, here the rest of the structure is the field
  \<open>vd_opaque\<close> and a callback takes the device. The driver-owned queue array is the field \<open>vd_queues\<close>.
  The operation table is a constant of each driver and is an argument of the functions that use it.
\<close>

record 'o virtio_device =
  vd_device_id :: u32
  vd_vendor_id :: u32
  vd_queue_count :: u32
  vd_queue_size :: u32
  vd_queues :: "virtio_queue list"
  vd_driver_features :: u64
  vd_status :: u32
  vd_interrupt_status :: u32
  vd_config_generation :: u32
  vd_opaque :: 'o

record ('o, 's) virtio_device_ops =
  op_get_features :: "('o virtio_device \<Rightarrow> u64) option"
  op_get_config :: "('o virtio_device \<Rightarrow> u64 \<Rightarrow> u32 \<Rightarrow> u64) option"
  op_notify_queue :: "(u32 \<Rightarrow> ('s, unit) act) option"
  op_reset :: "('o virtio_device \<Rightarrow> 'o virtio_device) option"

section \<open>Reset and initialisation\<close>

definition virtio_queue_reset :: "u32 \<Rightarrow> virtio_queue \<Rightarrow> virtio_queue" where
  "virtio_queue_reset n q = q\<lparr>vq_num := n, vq_ready := 0, vq_desc := 0, vq_avail := 0, vq_used := 0,
     vq_last_avail_idx := 0\<rparr>"

definition virtio_device_reset ::
  "('o, 's) virtio_device_ops option \<Rightarrow> 'o virtio_device \<Rightarrow> 'o virtio_device" where
  "virtio_device_reset ops dev =
     (let n = unat (vd_queue_count dev);
          dev1 = dev\<lparr>vd_driver_features := 0,
                     vd_queues := map (virtio_queue_reset (vd_queue_size dev)) (take n (vd_queues dev)) @
                                  drop n (vd_queues dev),
                     vd_status := 0, vd_interrupt_status := 0, vd_config_generation := 0\<rparr>
      in case ops of None \<Rightarrow> dev1
         | Some tbl \<Rightarrow> (case op_reset tbl of None \<Rightarrow> dev1 | Some f \<Rightarrow> f dev1))"

definition virtio_device_init ::
  "u32 \<Rightarrow> u32 \<Rightarrow> u32 \<Rightarrow> u32 \<Rightarrow> virtio_queue list \<Rightarrow> 'o \<Rightarrow> ('o, 's) virtio_device_ops option \<Rightarrow>
   'o virtio_device \<Rightarrow> 'o virtio_device" where
  "virtio_device_init device_id vendor_id queue_count queue_size queues opaque ops dev =
     virtio_device_reset ops
       (dev\<lparr>vd_device_id := device_id, vd_vendor_id := vendor_id, vd_queue_count := queue_count,
            vd_queue_size := queue_size, vd_queues := queues, vd_opaque := opaque\<rparr>)"

section \<open>Split-ring helpers\<close>

definition virtio_decode_desc :: "u8 list \<Rightarrow> virtio_desc" where
  "virtio_decode_desc data = \<lparr>ds_addr = virtio_load_le64 data, ds_len = virtio_load_le32 (drop 8 data),
     ds_flags = virtio_load_le16 (drop 12 data), ds_next = virtio_load_le16 (drop 14 data)\<rparr>"

definition virtio_read_desc :: "'f fabric_ops \<Rightarrow> virtio_queue \<Rightarrow> u16 \<Rightarrow> ('f, virtio_desc) act" where
  "virtio_read_desc F queue index =
     bnd (fabric_dma_read_into F (vq_desc queue + ucast index * 16) 16) (\<lambda>data.
     ret (virtio_decode_desc data))"

text \<open>
  The slot of a ring is the index modulo the queue size cast to 16 bits; a size whose low 16 bits
  are zero makes that a division by zero.
\<close>

definition virtio_add_used :: "'f fabric_ops \<Rightarrow> virtio_queue \<Rightarrow> u16 \<Rightarrow> u32 \<Rightarrow> ('f, unit) act" where
  "virtio_add_used F queue head len =
     bnd (fabric_dma_read_u16 F (vq_used queue + 2)) (\<lambda>used_idx.
     if (ucast (vq_num queue) :: u16) = 0 then trap
     else let elem = vq_used queue + 4 + ucast (used_idx mod ucast (vq_num queue)) * 8 in
     bnd (fabric_dma_write F elem (virtio_store_le32 (ucast head)) 4) (\<lambda>_.
     bnd (fabric_dma_write F (elem + 4) (virtio_store_le32 len) 4) (\<lambda>_.
     fabric_dma_write F (vq_used queue + 2) (virtio_store_le16 (used_idx + 1)) 2)))"

text \<open>The out-parameters \<open>available\<close> and \<open>head\<close> are \<open>None\<close> (nothing available) or \<open>Some head\<close>.\<close>

definition virtio_next_avail :: "'f fabric_ops \<Rightarrow> virtio_queue \<Rightarrow> ('f, u16 option) act" where
  "virtio_next_avail F queue =
     bnd (fabric_dma_read_u16 F (vq_avail queue + 2)) (\<lambda>avail_idx.
     if vq_last_avail_idx queue = avail_idx then ret None
     else if (ucast (vq_num queue) :: u16) = 0 then trap
     else let ring_off = 4 + ucast (vq_last_avail_idx queue mod ucast (vq_num queue)) * 2 in
     bnd (fabric_dma_read_u16 F (vq_avail queue + ring_off)) (\<lambda>head.
     ret (Some head)))"

section \<open>Views of the rings in guest memory\<close>

definition ring_size :: "virtio_queue \<Rightarrow> u16" where
  "ring_size q = ucast (vq_num q)"

definition desc_addr :: "virtio_queue \<Rightarrow> u16 \<Rightarrow> u64" where
  "desc_addr q i = vq_desc q + ucast i * 16"

definition desc_at :: "memory \<Rightarrow> virtio_queue \<Rightarrow> u16 \<Rightarrow> virtio_desc" where
  "desc_at ram q i = virtio_decode_desc (mem_read ram (desc_addr q i) 16)"

definition avail_idx :: "memory \<Rightarrow> virtio_queue \<Rightarrow> u16" where
  "avail_idx ram q = virtio_load_le16 (mem_read ram (vq_avail q + 2) 2)"

definition avail_slot :: "virtio_queue \<Rightarrow> u16 \<Rightarrow> u64" where
  "avail_slot q i = vq_avail q + (4 + ucast (i mod ring_size q) * 2)"

definition avail_head :: "memory \<Rightarrow> virtio_queue \<Rightarrow> u16 \<Rightarrow> u16" where
  "avail_head ram q i = virtio_load_le16 (mem_read ram (avail_slot q i) 2)"

definition used_idx :: "memory \<Rightarrow> virtio_queue \<Rightarrow> u16" where
  "used_idx ram q = virtio_load_le16 (mem_read ram (vq_used q + 2) 2)"

definition used_slot :: "virtio_queue \<Rightarrow> u16 \<Rightarrow> u64" where
  "used_slot q i = vq_used q + 4 + ucast (i mod ring_size q) * 8"

definition used_elem :: "memory \<Rightarrow> virtio_queue \<Rightarrow> u16 \<Rightarrow> u32 \<times> u32" where
  "used_elem ram q i = (virtio_load_le32 (mem_read ram (used_slot q i) 4),
                        virtio_load_le32 (mem_read ram (used_slot q i + 4) 4))"

text \<open>
  The chain heads the driver has made available and the backend has not consumed: the entries from
  the backend's cursor up to the driver's index, both of which count modulo \<open>2 ^ 16\<close>.
\<close>

definition pending :: "memory \<Rightarrow> virtio_queue \<Rightarrow> u16 list" where
  "pending ram q = map (\<lambda>k. avail_head ram q (vq_last_avail_idx q + of_nat k))
     [0..<unat (avail_idx ram q - vq_last_avail_idx q)]"

definition consume :: "virtio_queue \<Rightarrow> virtio_queue" where
  "consume q = q\<lparr>vq_last_avail_idx := vq_last_avail_idx q + 1\<rparr>"

lemma consume_simps [simp]:
  "vq_num (consume q) = vq_num q" "vq_desc (consume q) = vq_desc q" "vq_avail (consume q) = vq_avail q"
  "vq_used (consume q) = vq_used q" "vq_ready (consume q) = vq_ready q"
  "vq_last_avail_idx (consume q) = vq_last_avail_idx q + 1"
  "ring_size (consume q) = ring_size q" "avail_idx ram (consume q) = avail_idx ram q"
  "avail_slot (consume q) i = avail_slot q i" "avail_head ram (consume q) i = avail_head ram q i"
  "desc_addr (consume q) i = desc_addr q i" "desc_at ram (consume q) i = desc_at ram q i"
  by (simp_all add: consume_def ring_size_def avail_idx_def avail_slot_def avail_head_def
      desc_addr_def desc_at_def)

lemma pending_empty_iff: "pending ram q = [] \<longleftrightarrow> avail_idx ram q = vq_last_avail_idx q"
  by (simp add: pending_def unat_eq_0)

lemma pending_hd: "pending ram q \<noteq> [] \<Longrightarrow> hd (pending ram q) = avail_head ram q (vq_last_avail_idx q)"
  by (simp add: pending_def hd_map)

lemma pending_consume:
  assumes "pending ram q \<noteq> []"
  shows "pending ram (consume q) = tl (pending ram q)"
proof -
  define d where "d = avail_idx ram q - vq_last_avail_idx q"
  have "d \<noteq> 0" using assms by (simp add: pending_empty_iff d_def)
  then have d1: "unat (d - 1) = unat d - 1"
    by (simp add: unat_minus_one)
  have "avail_idx ram q - (vq_last_avail_idx q + 1) = d - 1" by (simp add: d_def)
  then have "unat (avail_idx ram q - (vq_last_avail_idx q + 1)) = unat d - 1"
    using d1 by metis
  then have "pending ram (consume q) =
      map (\<lambda>k. avail_head ram q (vq_last_avail_idx q + 1 + of_nat k)) [0..<unat d - 1]"
    by (simp add: pending_def)
  moreover have "tl (pending ram q) =
      map (\<lambda>k. avail_head ram q (vq_last_avail_idx q + of_nat k)) [1..<unat d]"
    by (simp add: pending_def d_def map_tl [symmetric])
  moreover have "[1..<unat d] = map Suc [0..<unat d - 1]"
    using \<open>d \<noteq> 0\<close> by (simp add: map_Suc_upt unat_gt_0)
  ultimately show ?thesis by (simp add: add.assoc)
qed

lemma pending_Cons:
  assumes "pending ram q \<noteq> []"
  shows "pending ram q = avail_head ram q (vq_last_avail_idx q) # pending ram (consume q)"
  using assms pending_hd pending_consume by (metis list.collapse)

section \<open>Descriptor tables\<close>

text \<open>The 16 bytes of a descriptor as the guest's driver writes them.\<close>

definition virtio_encode_desc :: "virtio_desc \<Rightarrow> u8 list" where
  "virtio_encode_desc d = virtio_store_le64 (ds_addr d) @ virtio_store_le32 (ds_len d) @
     virtio_store_le16 (ds_flags d) @ virtio_store_le16 (ds_next d)"

lemma length_encode_desc [simp]: "length (virtio_encode_desc d) = 16"
  by (simp add: virtio_encode_desc_def)

lemma decode_encode_desc [simp]: "virtio_decode_desc (virtio_encode_desc d) = d"
  by (cases d) (simp add: virtio_decode_desc_def virtio_encode_desc_def)

lemma length_desc_table [simp]: "length (concat (map virtio_encode_desc ds)) = 16 * length ds"
  by (induction ds) simp_all

lemma take_drop_table:
  "i < length ds \<Longrightarrow> take 16 (drop (16 * i) (concat (map virtio_encode_desc ds))) = virtio_encode_desc (ds ! i)"
proof (induction ds arbitrary: i)
  case (Cons d ds)
  then show ?case by (cases i) simp_all
qed simp

lemma desc_addr_offset: "desc_addr q i = vq_desc q + of_nat (16 * unat i)"
  by (simp add: desc_addr_def mult.commute)

lemma desc_at_table:
  assumes "unat i < length ds" and "length ds \<le> 2 ^ 16"
  shows "desc_at (mem_write m (vq_desc q) (concat (map virtio_encode_desc ds))) q i = ds ! unat i"
  using assms mem_read_write_within [of "16 * unat i" 16 "concat (map virtio_encode_desc ds)" m "vq_desc q"]
  by (simp add: desc_at_def desc_addr_offset take_drop_table)

lemma desc_at_apart:
  "apart a (length bs) (desc_addr q i) 16 \<Longrightarrow> desc_at (mem_write m a bs) q i = desc_at m q i"
  by (simp add: desc_at_def mem_read_write_apart)

section \<open>Device reset\<close>

text \<open>The queue array has \<open>queue_count\<close> elements, as the comment on \<open>virtio_device_init\<close> requires.\<close>

definition vdev_wf :: "'o virtio_device \<Rightarrow> bool" where
  "vdev_wf dev \<longleftrightarrow> length (vd_queues dev) = unat (vd_queue_count dev)"

definition fresh_queue :: "u32 \<Rightarrow> virtio_queue" where
  "fresh_queue n = \<lparr>vq_num = n, vq_ready = 0, vq_desc = 0, vq_avail = 0, vq_used = 0, vq_last_avail_idx = 0\<rparr>"

definition fresh_device :: "u32 \<Rightarrow> u32 \<Rightarrow> u32 \<Rightarrow> u32 \<Rightarrow> 'o \<Rightarrow> 'o virtio_device" where
  "fresh_device device_id vendor_id queue_count queue_size opaque =
     \<lparr>vd_device_id = device_id, vd_vendor_id = vendor_id, vd_queue_count = queue_count,
      vd_queue_size = queue_size, vd_queues = replicate (unat queue_count) (fresh_queue queue_size),
      vd_driver_features = 0, vd_status = 0, vd_interrupt_status = 0, vd_config_generation = 0,
      vd_opaque = opaque\<rparr>"

text \<open>Neither driver of the repository sets the reset hook; the lemmas are for such tables.\<close>

definition no_reset_hook :: "('o, 's) virtio_device_ops option \<Rightarrow> bool" where
  "no_reset_hook ops \<longleftrightarrow> (case ops of None \<Rightarrow> True | Some tbl \<Rightarrow> op_reset tbl = None)"

lemma virtio_queue_reset_fresh [simp]: "virtio_queue_reset n q = fresh_queue n"
  by (cases q) (simp add: virtio_queue_reset_def fresh_queue_def)

lemma map_queue_reset [simp]: "map (virtio_queue_reset n) qs = replicate (length qs) (fresh_queue n)"
  by (induction qs) simp_all

lemma virtio_device_reset_fresh:
  assumes "vdev_wf dev" and "no_reset_hook ops"
  shows "virtio_device_reset ops dev =
    fresh_device (vd_device_id dev) (vd_vendor_id dev) (vd_queue_count dev) (vd_queue_size dev) (vd_opaque dev)"
  using assms
  by (cases dev) (auto simp: virtio_device_reset_def Let_def vdev_wf_def fresh_device_def no_reset_hook_def
      split: option.splits)

lemma fresh_device_wf [simp]: "vdev_wf (fresh_device i v c z o')"
  by (simp add: vdev_wf_def fresh_device_def)

section \<open>Appending to the used ring, as an update of guest memory\<close>

definition used_push :: "memory \<Rightarrow> virtio_queue \<Rightarrow> u16 \<Rightarrow> u32 \<Rightarrow> memory" where
  "used_push ram q head len =
     (let i = used_idx ram q; slot = used_slot q i in
      mem_write (mem_write (mem_write ram slot (virtio_store_le32 (ucast head)))
        (slot + 4) (virtio_store_le32 len))
        (vq_used q + 2) (virtio_store_le16 (i + 1)))"

lemma used_slot_offset:
  "used_slot q i = vq_used q + of_nat (4 + 8 * unat (i mod ring_size q))"
  by (simp add: used_slot_def algebra_simps)

lemma used_slot_offset4:
  "used_slot q i + 4 = vq_used q + of_nat (8 + 8 * unat (i mod ring_size q))"
  by (simp add: used_slot_offset)

lemma slot_small: "8 * unat (x :: u16) < 2 ^ 20"
  using unat_lt_u16 [of x] by simp

lemma used_idx_slot_apart:
  "apart (vq_used q + 2) 2 (used_slot q i) 4" "apart (vq_used q + 2) 2 (used_slot q i + 4) 4"
  using apart_offsets [of 2 2 "4 + 8 * unat (i mod ring_size q)" 4 "vq_used q"]
    apart_offsets [of 2 2 "8 + 8 * unat (i mod ring_size q)" 4 "vq_used q"]
    slot_small [of "i mod ring_size q"]
  by (simp_all add: used_slot_offset used_slot_offset4 algebra_simps)

lemma used_slots_apart:
  assumes "i mod ring_size q \<noteq> j mod ring_size q"
  shows "apart (used_slot q i) 8 (used_slot q j) 8"
proof -
  define a where "a = unat (i mod ring_size q)"
  define b where "b = unat (j mod ring_size q)"
  have ne: "a \<noteq> b" using assms unfolding a_def b_def by (metis word_unat_eq_iff)
  have small: "8 * a < 2 ^ 20" "8 * b < 2 ^ 20"
    using slot_small by (simp_all add: a_def b_def)
  show ?thesis
  proof (cases "a < b")
    case True
    with small show ?thesis
      unfolding used_slot_offset a_def [symmetric] b_def [symmetric]
      by (intro apart_offsets) auto
  next
    case False
    with ne small have "apart (used_slot q j) 8 (used_slot q i) 8"
      unfolding used_slot_offset a_def [symmetric] b_def [symmetric]
      by (intro apart_offsets) auto
    then show ?thesis by (simp add: apart_sym)
  qed
qed

lemma used_slot_halves: "apart (used_slot q i + 4) 4 (used_slot q i) 4"
  using apart_offsets [of 0 4 4 4 "used_slot q i"] by (subst apart_sym) simp

lemma used_push_idx: "used_idx (used_push ram q head len) q = used_idx ram q + 1"
  by (simp add: used_push_def used_idx_def Let_def mem_read_write_same)

lemma used_push_elem:
  "used_elem (used_push ram q head len) q (used_idx ram q) = (ucast head, len)"
  by (simp add: used_push_def used_elem_def Let_def mem_read_write_apart mem_read_write_same
      used_idx_slot_apart used_slot_halves)

lemma used_push_others:
  assumes "j mod ring_size q \<noteq> used_idx ram q mod ring_size q"
  shows "used_elem (used_push ram q head len) q j = used_elem ram q j"
proof -
  let ?i = "used_idx ram q"
  have ap: "apart (used_slot q ?i) 8 (used_slot q j) 8"
    using assms by (intro used_slots_apart) auto
  have "apart (used_slot q ?i) 4 (used_slot q j) 4" "apart (used_slot q ?i + 4) 4 (used_slot q j) 4"
    "apart (used_slot q ?i) 4 (used_slot q j + 4) 4" "apart (used_slot q ?i + 4) 4 (used_slot q j + 4) 4"
    using apart_sub [OF apart_sub2 [OF ap, of 0 4], of 0 4] apart_sub [OF apart_sub2 [OF ap, of 0 4], of 4 4]
      apart_sub [OF apart_sub2 [OF ap, of 4 4], of 0 4] apart_sub [OF apart_sub2 [OF ap, of 4 4], of 4 4]
    by simp_all
  then show ?thesis
    by (simp add: used_push_def used_elem_def Let_def mem_read_write_apart used_idx_slot_apart)
qed

text \<open>The part of guest memory the used ring occupies from its index on.\<close>

lemma used_push_frame:
  assumes ap: "apart (vq_used q + 2) (2 + 8 * unat (ring_size q)) b n" and sz: "ring_size q \<noteq> 0"
  shows "mem_read (used_push ram q head len) b n = mem_read ram b n"
proof -
  let ?k = "unat (used_idx ram q mod ring_size q)"
  have lt: "?k < unat (ring_size q)"
    using sz by (simp add: unat_mod unat_gt_0)
  have "apart (vq_used q + 2) 2 b n"
    using apart_sub [OF ap, of 0 2] by simp
  moreover have "apart (used_slot q (used_idx ram q)) 4 b n"
    using apart_sub [OF ap, of "2 + 8 * ?k" 4] lt by (simp add: used_slot_offset algebra_simps)
  moreover have "apart (used_slot q (used_idx ram q) + 4) 4 b n"
    unfolding used_slot_offset4 using apart_sub [OF ap, of "6 + 8 * ?k" 4] lt by (simp add: algebra_simps)
  ultimately show ?thesis
    by (simp add: used_push_def Let_def mem_read_write_apart)
qed

section \<open>The ring helpers over any fabric\<close>

context guest_dma
begin

lemma read_desc_reach:
  assumes "live f" and "reach f (desc_addr q i) 16"
  shows "\<exists>g. virtio_read_desc F q i f = (OK (desc_at (ram f) q i), g) \<and>
    live g \<and> ram g = ram f \<and> reach g = reach f"
proof -
  from assms read_reach [of f "desc_addr q i" 16] obtain g where
    "fabric_dma_read_into F (desc_addr q i) 16 f = (OK (mem_read (ram f) (desc_addr q i) 16), g)"
    "live g" "ram g = ram f" "reach g = reach f" by auto
  then show ?thesis
    by (auto simp: virtio_read_desc_def desc_at_def desc_addr_def bnd_def)
qed

lemma next_avail_empty:
  assumes "live f" and "reach f (vq_avail q + 2) 2" and "pending (ram f) q = []"
  shows "\<exists>g. virtio_next_avail F q f = (OK None, g) \<and> live g \<and> ram g = ram f \<and> reach g = reach f"
proof -
  from read_u16_reach [OF assms(1,2)] obtain g where
    "fabric_dma_read_u16 F (vq_avail q + 2) f = (OK (avail_idx (ram f) q), g)"
    "live g" "ram g = ram f" "reach g = reach f" by (auto simp: avail_idx_def)
  with assms(3) show ?thesis
    by (auto simp: virtio_next_avail_def bnd_OK pending_empty_iff)
qed

lemma next_avail_some:
  assumes "live f" and "reach f (vq_avail q + 2) 2" and ne: "pending (ram f) q \<noteq> []"
    and sz: "ring_size q \<noteq> 0" and slot: "reach f (avail_slot q (vq_last_avail_idx q)) 2"
  shows "\<exists>g. virtio_next_avail F q f = (OK (Some (hd (pending (ram f) q))), g) \<and>
    live g \<and> ram g = ram f \<and> reach g = reach f"
proof -
  let ?slot = "avail_slot q (vq_last_avail_idx q)"
  from read_u16_reach [OF assms(1,2)] obtain g where
    g: "fabric_dma_read_u16 F (vq_avail q + 2) f = (OK (avail_idx (ram f) q), g)"
    "live g" "ram g = ram f" "reach g = reach f" by (auto simp: avail_idx_def)
  with slot read_u16_reach [of g ?slot] obtain h where
    h: "fabric_dma_read_u16 F ?slot g = (OK (avail_head (ram f) q (vq_last_avail_idx q)), h)"
    "live h" "ram h = ram f" "reach h = reach f" by (auto simp: avail_head_def)
  have "virtio_next_avail F q f = (OK (Some (avail_head (ram f) q (vq_last_avail_idx q))), h)"
    using g(1) h(1) ne sz
    by (auto simp: virtio_next_avail_def bnd_OK pending_empty_iff avail_slot_def ring_size_def)
  with h ne show ?thesis by (auto simp: pending_hd)
qed

lemma add_used_reach:
  assumes "live f" and sz: "ring_size q \<noteq> 0" and r2: "reach f (vq_used q + 2) 2"
    and slot: "reach f (used_slot q (used_idx (ram f) q)) 4" "reach f (used_slot q (used_idx (ram f) q) + 4) 4"
  shows "\<exists>g. virtio_add_used F q head len f = (OK (), g) \<and>
    live g \<and> ram g = used_push (ram f) q head len \<and> reach g = reach f"
proof -
  let ?i = "used_idx (ram f) q"
  let ?w1 = "mem_write (ram f) (used_slot q ?i) (virtio_store_le32 (ucast head))"
  let ?w2 = "mem_write ?w1 (used_slot q ?i + 4) (virtio_store_le32 len)"
  from read_u16_reach [OF assms(1) r2] obtain g where
    g: "fabric_dma_read_u16 F (vq_used q + 2) f = (OK ?i, g)"
    "live g" "ram g = ram f" "reach g = reach f" by (auto simp: used_idx_def)
  with slot write_reach [of g "used_slot q ?i" 4 "virtio_store_le32 (ucast head)"] obtain h where
    h: "fabric_dma_write F (used_slot q ?i) (virtio_store_le32 (ucast head)) 4 g = (OK (), h)"
    "live h" "ram h = ?w1" "reach h = reach f" by auto
  with slot write_reach [of h "used_slot q ?i + 4" 4 "virtio_store_le32 len"] obtain k where
    k: "fabric_dma_write F (used_slot q ?i + 4) (virtio_store_le32 len) 4 h = (OK (), k)"
    "live k" "ram k = ?w2" "reach k = reach f" by auto
  with r2 write_reach [of k "vq_used q + 2" 2 "virtio_store_le16 (?i + 1)"] obtain l where
    l: "fabric_dma_write F (vq_used q + 2) (virtio_store_le16 (?i + 1)) 2 k = (OK (), l)"
    "live l" "ram l = mem_write ?w2 (vq_used q + 2) (virtio_store_le16 (?i + 1))" "reach l = reach f"
    by auto
  have "virtio_add_used F q head len f = (OK (), l)"
    using g(1) h(1) k(1) l(1) sz
    by (simp add: virtio_add_used_def bnd_OK ring_size_def used_slot_def)
  with l show ?thesis by (auto simp: used_push_def Let_def)
qed

end

context guest_bounds
begin

lemma read_desc_unreach:
  assumes "live f" and "\<not> reach f (desc_addr q i) 16"
  shows "fst (virtio_read_desc F q i f) = Fail"
  using assms read_unreach [of f "desc_addr q i" 16]
  by (cases "fabric_dma_read_into F (desc_addr q i) 16 f")
    (auto simp: virtio_read_desc_def desc_addr_def bnd_def)

lemma next_avail_unreach:
  assumes "live f" and "\<not> reach f (vq_avail q + 2) 2"
  shows "fst (virtio_next_avail F q f) = Fail"
  using read_u16_unreach [OF assms] by (simp add: virtio_next_avail_def bnd_stops)

end

end
