(* ===== verification/Virtio_Mmio.thy ===== *)
theory Virtio_Mmio
  imports Virtio
begin

unbundle bit_operations_syntax

text \<open>
  The virtio-mmio register model, \<^verbatim>\<open>src/virtio-mmio.h\<close> and \<^verbatim>\<open>src/virtio-mmio.c\<close>. The register numbers
  are those of the Linux header \<^verbatim>\<open>linux/virtio_mmio.h\<close> that the source includes. The lemmas show
  that guest writes keep the device well formed and its identity fixed, that each register reads
  back what was written, that the two halves of a ring address combine, that a queue register
  touches only the selected queue, and that writing zero to the status register returns the
  transport and the device to the state after initialisation, whatever was written before.
\<close>

section \<open>Register numbers\<close>

definition VIRTIO_MMIO_MAGIC_VALUE :: u64 where [vm_simps]: "VIRTIO_MMIO_MAGIC_VALUE = 0x000"
definition VIRTIO_MMIO_VERSION :: u64 where [vm_simps]: "VIRTIO_MMIO_VERSION = 0x004"
definition VIRTIO_MMIO_DEVICE_ID :: u64 where [vm_simps]: "VIRTIO_MMIO_DEVICE_ID = 0x008"
definition VIRTIO_MMIO_VENDOR_ID :: u64 where [vm_simps]: "VIRTIO_MMIO_VENDOR_ID = 0x00c"
definition VIRTIO_MMIO_DEVICE_FEATURES :: u64 where [vm_simps]: "VIRTIO_MMIO_DEVICE_FEATURES = 0x010"
definition VIRTIO_MMIO_DEVICE_FEATURES_SEL :: u64 where [vm_simps]: "VIRTIO_MMIO_DEVICE_FEATURES_SEL = 0x014"
definition VIRTIO_MMIO_DRIVER_FEATURES :: u64 where [vm_simps]: "VIRTIO_MMIO_DRIVER_FEATURES = 0x020"
definition VIRTIO_MMIO_DRIVER_FEATURES_SEL :: u64 where [vm_simps]: "VIRTIO_MMIO_DRIVER_FEATURES_SEL = 0x024"
definition VIRTIO_MMIO_QUEUE_SEL :: u64 where [vm_simps]: "VIRTIO_MMIO_QUEUE_SEL = 0x030"
definition VIRTIO_MMIO_QUEUE_NUM_MAX :: u64 where [vm_simps]: "VIRTIO_MMIO_QUEUE_NUM_MAX = 0x034"
definition VIRTIO_MMIO_QUEUE_NUM :: u64 where [vm_simps]: "VIRTIO_MMIO_QUEUE_NUM = 0x038"
definition VIRTIO_MMIO_QUEUE_READY :: u64 where [vm_simps]: "VIRTIO_MMIO_QUEUE_READY = 0x044"
definition VIRTIO_MMIO_QUEUE_NOTIFY :: u64 where [vm_simps]: "VIRTIO_MMIO_QUEUE_NOTIFY = 0x050"
definition VIRTIO_MMIO_INTERRUPT_STATUS :: u64 where [vm_simps]: "VIRTIO_MMIO_INTERRUPT_STATUS = 0x060"
definition VIRTIO_MMIO_INTERRUPT_ACK :: u64 where [vm_simps]: "VIRTIO_MMIO_INTERRUPT_ACK = 0x064"
definition VIRTIO_MMIO_STATUS :: u64 where [vm_simps]: "VIRTIO_MMIO_STATUS = 0x070"
definition VIRTIO_MMIO_QUEUE_DESC_LOW :: u64 where [vm_simps]: "VIRTIO_MMIO_QUEUE_DESC_LOW = 0x080"
definition VIRTIO_MMIO_QUEUE_DESC_HIGH :: u64 where [vm_simps]: "VIRTIO_MMIO_QUEUE_DESC_HIGH = 0x084"
definition VIRTIO_MMIO_QUEUE_AVAIL_LOW :: u64 where [vm_simps]: "VIRTIO_MMIO_QUEUE_AVAIL_LOW = 0x090"
definition VIRTIO_MMIO_QUEUE_AVAIL_HIGH :: u64 where [vm_simps]: "VIRTIO_MMIO_QUEUE_AVAIL_HIGH = 0x094"
definition VIRTIO_MMIO_QUEUE_USED_LOW :: u64 where [vm_simps]: "VIRTIO_MMIO_QUEUE_USED_LOW = 0x0a0"
definition VIRTIO_MMIO_QUEUE_USED_HIGH :: u64 where [vm_simps]: "VIRTIO_MMIO_QUEUE_USED_HIGH = 0x0a4"
definition VIRTIO_MMIO_CONFIG_GENERATION :: u64 where [vm_simps]: "VIRTIO_MMIO_CONFIG_GENERATION = 0x0fc"
definition VIRTIO_MMIO_CONFIG :: u64 where [vm_simps]: "VIRTIO_MMIO_CONFIG = 0x100"
definition VIRTIO_MMIO_INT_VRING :: u32 where [vm_simps]: "VIRTIO_MMIO_INT_VRING = 1"
definition VIRTIO_MMIO_MAGIC_NUMBER :: u64 where [vm_simps]: "VIRTIO_MMIO_MAGIC_NUMBER = 0x74726976"
definition VIRTIO_MMIO_VERSION_2 :: u64 where [vm_simps]: "VIRTIO_MMIO_VERSION_2 = 2"

section \<open>Transport state and operations\<close>

record 'o virtio_mmio =
  vm_vdev :: "'o virtio_device"
  vm_device_features_sel :: u32
  vm_driver_features_sel :: u32
  vm_queue_sel :: u32

definition mask_read :: "u64 \<Rightarrow> u32 \<Rightarrow> u64" where
  "mask_read value len =
     (if len = 1 then value AND 0xff
      else if len = 2 then value AND 0xffff
      else if len = 4 then value AND 0xffffffff
      else value)"

definition virtio_mmio_reset :: "('o, 's) virtio_device_ops option \<Rightarrow> 'o virtio_mmio \<Rightarrow> 'o virtio_mmio" where
  "virtio_mmio_reset ops mmio =
     mmio\<lparr>vm_device_features_sel := 0, vm_driver_features_sel := 0, vm_queue_sel := 0,
          vm_vdev := virtio_device_reset ops (vm_vdev mmio)\<rparr>"

definition virtio_mmio_init :: "('o, 's) virtio_device_ops option \<Rightarrow> 'o virtio_device \<Rightarrow> 'o virtio_mmio" where
  "virtio_mmio_init ops vdev =
     virtio_mmio_reset ops
       \<lparr>vm_vdev = vdev, vm_device_features_sel = 0, vm_driver_features_sel = 0, vm_queue_sel = 0\<rparr>"

definition virtio_mmio_queue :: "'o virtio_mmio \<Rightarrow> u32 \<Rightarrow> virtio_queue option" where
  "virtio_mmio_queue mmio i =
     (if i \<ge> vd_queue_count (vm_vdev mmio) then None else Some (vd_queues (vm_vdev mmio) ! unat i))"

definition virtio_mmio_queue_const :: "'o virtio_mmio \<Rightarrow> u32 \<Rightarrow> virtio_queue option" where
  "virtio_mmio_queue_const mmio i =
     (if i \<ge> vd_queue_count (vm_vdev mmio) then None else Some (vd_queues (vm_vdev mmio) ! unat i))"

definition virtio_mmio_read ::
  "('o, 's) virtio_device_ops option \<Rightarrow> 'o virtio_mmio \<Rightarrow> u64 \<Rightarrow> u32 \<Rightarrow> u64" where
  "virtio_mmio_read ops mmio offset len =
     (let vdev = vm_vdev mmio;
          queue = virtio_mmio_queue_const mmio (vm_queue_sel mmio);
          value =
            (if offset = VIRTIO_MMIO_MAGIC_VALUE then VIRTIO_MMIO_MAGIC_NUMBER
             else if offset = VIRTIO_MMIO_VERSION then VIRTIO_MMIO_VERSION_2
             else if offset = VIRTIO_MMIO_DEVICE_ID then ucast (vd_device_id vdev)
             else if offset = VIRTIO_MMIO_VENDOR_ID then ucast (vd_vendor_id vdev)
             else if offset = VIRTIO_MMIO_DEVICE_FEATURES then
               (let features = (case ops of None \<Rightarrow> 0
                  | Some tbl \<Rightarrow> (case op_get_features tbl of None \<Rightarrow> 0 | Some f \<Rightarrow> f vdev))
                in if vm_device_features_sel mmio = 0 then ucast (ucast features :: u32)
                   else ucast (ucast (drop_bit 32 features) :: u32))
             else if offset = VIRTIO_MMIO_DEVICE_FEATURES_SEL then ucast (vm_device_features_sel mmio)
             else if offset = VIRTIO_MMIO_DRIVER_FEATURES then
               (if vm_driver_features_sel mmio = 0 then ucast (ucast (vd_driver_features vdev) :: u32)
                else ucast (ucast (drop_bit 32 (vd_driver_features vdev)) :: u32))
             else if offset = VIRTIO_MMIO_DRIVER_FEATURES_SEL then ucast (vm_driver_features_sel mmio)
             else if offset = VIRTIO_MMIO_QUEUE_SEL then ucast (vm_queue_sel mmio)
             else if offset = VIRTIO_MMIO_QUEUE_NUM_MAX then
               (if vm_queue_sel mmio < vd_queue_count vdev then ucast (vd_queue_size vdev) else 0)
             else if offset = VIRTIO_MMIO_QUEUE_NUM then
               (case queue of None \<Rightarrow> 0 | Some q \<Rightarrow> ucast (vq_num q))
             else if offset = VIRTIO_MMIO_QUEUE_READY then
               (case queue of None \<Rightarrow> 0 | Some q \<Rightarrow> ucast (vq_ready q))
             else if offset = VIRTIO_MMIO_INTERRUPT_STATUS then ucast (vd_interrupt_status vdev)
             else if offset = VIRTIO_MMIO_STATUS then ucast (vd_status vdev)
             else if offset = VIRTIO_MMIO_CONFIG_GENERATION then 0
             else if offset \<ge> VIRTIO_MMIO_CONFIG then
               (case ops of None \<Rightarrow> 0
                | Some tbl \<Rightarrow> (case op_get_config tbl of None \<Rightarrow> 0
                    | Some f \<Rightarrow> f vdev (offset - VIRTIO_MMIO_CONFIG) len))
             else 0)
      in mask_read value len)"

text \<open>\<open>set_lo\<close> and \<open>set_hi\<close> replace the low and the high half of a 64-bit field.\<close>

definition set_lo :: "u64 \<Rightarrow> u32 \<Rightarrow> u64" where
  "set_lo x v = (x AND NOT 0xffffffff) OR ucast v"

definition set_hi :: "u64 \<Rightarrow> u32 \<Rightarrow> u64" where
  "set_hi x v = (x AND 0xffffffff) OR push_bit 32 (ucast v)"

text \<open>A write through the queue pointer of the selected queue; nothing when that pointer is NULL.\<close>

definition on_queue :: "(virtio_queue \<Rightarrow> virtio_queue) \<Rightarrow> 'o virtio_mmio \<Rightarrow> 'o virtio_mmio" where
  "on_queue f mmio =
     (case virtio_mmio_queue mmio (vm_queue_sel mmio) of
        None \<Rightarrow> mmio
      | Some q \<Rightarrow>
          mmio\<lparr>vm_vdev := (vm_vdev mmio)\<lparr>vd_queues :=
            (vd_queues (vm_vdev mmio))[unat (vm_queue_sel mmio) := f q]\<rparr>\<rparr>)"

definition virtio_mmio_write ::
  "('o, 's) virtio_device_ops option \<Rightarrow> 'o virtio_mmio \<Rightarrow> u64 \<Rightarrow> u64 \<Rightarrow> 'o virtio_mmio" where
  "virtio_mmio_write ops mmio offset raw_value =
     (let vdev = vm_vdev mmio; value = (ucast raw_value :: u32) in
      if offset = VIRTIO_MMIO_DEVICE_FEATURES_SEL then mmio\<lparr>vm_device_features_sel := value\<rparr>
      else if offset = VIRTIO_MMIO_DRIVER_FEATURES then
        (if vm_driver_features_sel mmio = 0 then
           mmio\<lparr>vm_vdev := vdev\<lparr>vd_driver_features := set_lo (vd_driver_features vdev) value\<rparr>\<rparr>
         else if vm_driver_features_sel mmio = 1 then
           mmio\<lparr>vm_vdev := vdev\<lparr>vd_driver_features := set_hi (vd_driver_features vdev) value\<rparr>\<rparr>
         else mmio)
      else if offset = VIRTIO_MMIO_DRIVER_FEATURES_SEL then mmio\<lparr>vm_driver_features_sel := value\<rparr>
      else if offset = VIRTIO_MMIO_QUEUE_SEL then mmio\<lparr>vm_queue_sel := value\<rparr>
      else if offset = VIRTIO_MMIO_QUEUE_NUM then on_queue (\<lambda>q. q\<lparr>vq_num := value\<rparr>) mmio
      else if offset = VIRTIO_MMIO_QUEUE_READY then on_queue (\<lambda>q. q\<lparr>vq_ready := value\<rparr>) mmio
      else if offset = VIRTIO_MMIO_QUEUE_DESC_LOW then
        on_queue (\<lambda>q. q\<lparr>vq_desc := set_lo (vq_desc q) value\<rparr>) mmio
      else if offset = VIRTIO_MMIO_QUEUE_DESC_HIGH then
        on_queue (\<lambda>q. q\<lparr>vq_desc := set_hi (vq_desc q) value\<rparr>) mmio
      else if offset = VIRTIO_MMIO_QUEUE_AVAIL_LOW then
        on_queue (\<lambda>q. q\<lparr>vq_avail := set_lo (vq_avail q) value\<rparr>) mmio
      else if offset = VIRTIO_MMIO_QUEUE_AVAIL_HIGH then
        on_queue (\<lambda>q. q\<lparr>vq_avail := set_hi (vq_avail q) value\<rparr>) mmio
      else if offset = VIRTIO_MMIO_QUEUE_USED_LOW then
        on_queue (\<lambda>q. q\<lparr>vq_used := set_lo (vq_used q) value\<rparr>) mmio
      else if offset = VIRTIO_MMIO_QUEUE_USED_HIGH then
        on_queue (\<lambda>q. q\<lparr>vq_used := set_hi (vq_used q) value\<rparr>) mmio
      else if offset = VIRTIO_MMIO_INTERRUPT_ACK then
        mmio\<lparr>vm_vdev := vdev\<lparr>vd_interrupt_status := vd_interrupt_status vdev AND NOT value\<rparr>\<rparr>
      else if offset = VIRTIO_MMIO_STATUS then
        (if value = 0 then virtio_mmio_reset ops mmio
         else mmio\<lparr>vm_vdev := vdev\<lparr>vd_status := value\<rparr>\<rparr>)
      else mmio)"

definition virtio_mmio_used_buffer :: "'o virtio_mmio \<Rightarrow> 'o virtio_mmio" where
  "virtio_mmio_used_buffer mmio =
     mmio\<lparr>vm_vdev := (vm_vdev mmio)\<lparr>vd_interrupt_status :=
       vd_interrupt_status (vm_vdev mmio) OR VIRTIO_MMIO_INT_VRING\<rparr>\<rparr>"

text \<open>A sequence of guest writes, oldest first.\<close>

fun virtio_mmio_writes ::
  "('o, 's) virtio_device_ops option \<Rightarrow> 'o virtio_mmio \<Rightarrow> (u64 \<times> u64) list \<Rightarrow> 'o virtio_mmio" where
  "virtio_mmio_writes ops mmio [] = mmio"
| "virtio_mmio_writes ops mmio ((off, v) # ws) = virtio_mmio_writes ops (virtio_mmio_write ops mmio off v) ws"

section \<open>One register at a time\<close>

definition write_registers :: "u64 list" where
  "write_registers =
     [VIRTIO_MMIO_DEVICE_FEATURES_SEL,
      VIRTIO_MMIO_DRIVER_FEATURES_SEL,
      VIRTIO_MMIO_QUEUE_SEL,
      VIRTIO_MMIO_QUEUE_NUM,
      VIRTIO_MMIO_QUEUE_READY,
      VIRTIO_MMIO_QUEUE_DESC_LOW,
      VIRTIO_MMIO_QUEUE_DESC_HIGH,
      VIRTIO_MMIO_QUEUE_AVAIL_LOW,
      VIRTIO_MMIO_QUEUE_AVAIL_HIGH,
      VIRTIO_MMIO_QUEUE_USED_LOW,
      VIRTIO_MMIO_QUEUE_USED_HIGH,
      VIRTIO_MMIO_INTERRUPT_ACK,
      VIRTIO_MMIO_STATUS,
      VIRTIO_MMIO_DRIVER_FEATURES]"

lemma virtio_mmio_write_simps:
  "virtio_mmio_write ops m VIRTIO_MMIO_DEVICE_FEATURES_SEL v = m\<lparr>vm_device_features_sel := ucast v\<rparr>"
  "virtio_mmio_write ops m VIRTIO_MMIO_DRIVER_FEATURES_SEL v = m\<lparr>vm_driver_features_sel := ucast v\<rparr>"
  "virtio_mmio_write ops m VIRTIO_MMIO_QUEUE_SEL v = m\<lparr>vm_queue_sel := ucast v\<rparr>"
  "virtio_mmio_write ops m VIRTIO_MMIO_QUEUE_NUM v = on_queue (\<lambda>q. q\<lparr>vq_num := ucast v\<rparr>) m"
  "virtio_mmio_write ops m VIRTIO_MMIO_QUEUE_READY v = on_queue (\<lambda>q. q\<lparr>vq_ready := ucast v\<rparr>) m"
  "virtio_mmio_write ops m VIRTIO_MMIO_QUEUE_DESC_LOW v = on_queue (\<lambda>q. q\<lparr>vq_desc := set_lo (vq_desc q) (ucast v)\<rparr>) m"
  "virtio_mmio_write ops m VIRTIO_MMIO_QUEUE_DESC_HIGH v = on_queue (\<lambda>q. q\<lparr>vq_desc := set_hi (vq_desc q) (ucast v)\<rparr>) m"
  "virtio_mmio_write ops m VIRTIO_MMIO_QUEUE_AVAIL_LOW v = on_queue (\<lambda>q. q\<lparr>vq_avail := set_lo (vq_avail q) (ucast v)\<rparr>) m"
  "virtio_mmio_write ops m VIRTIO_MMIO_QUEUE_AVAIL_HIGH v = on_queue (\<lambda>q. q\<lparr>vq_avail := set_hi (vq_avail q) (ucast v)\<rparr>) m"
  "virtio_mmio_write ops m VIRTIO_MMIO_QUEUE_USED_LOW v = on_queue (\<lambda>q. q\<lparr>vq_used := set_lo (vq_used q) (ucast v)\<rparr>) m"
  "virtio_mmio_write ops m VIRTIO_MMIO_QUEUE_USED_HIGH v = on_queue (\<lambda>q. q\<lparr>vq_used := set_hi (vq_used q) (ucast v)\<rparr>) m"
  "virtio_mmio_write ops m VIRTIO_MMIO_INTERRUPT_ACK v = m\<lparr>vm_vdev := (vm_vdev m)\<lparr>vd_interrupt_status := vd_interrupt_status (vm_vdev m) AND NOT (ucast v)\<rparr>\<rparr>"
  "virtio_mmio_write ops m VIRTIO_MMIO_STATUS v = (if (ucast v :: u32) = 0 then virtio_mmio_reset ops m else m\<lparr>vm_vdev := (vm_vdev m)\<lparr>vd_status := ucast v\<rparr>\<rparr>)"
  "virtio_mmio_write ops m VIRTIO_MMIO_DRIVER_FEATURES v = (if vm_driver_features_sel m = 0 then
       m\<lparr>vm_vdev := (vm_vdev m)\<lparr>vd_driver_features := set_lo (vd_driver_features (vm_vdev m)) (ucast v)\<rparr>\<rparr>
     else if vm_driver_features_sel m = 1 then
       m\<lparr>vm_vdev := (vm_vdev m)\<lparr>vd_driver_features := set_hi (vd_driver_features (vm_vdev m)) (ucast v)\<rparr>\<rparr>
     else m)"
  by (simp_all add: virtio_mmio_write_def Let_def vm_simps)

lemma virtio_mmio_write_other: "off \<notin> set write_registers \<Longrightarrow> virtio_mmio_write ops m off v = m"
  by (simp add: virtio_mmio_write_def write_registers_def)

section \<open>Invariant\<close>

text \<open>
  What no guest write changes: the identity of the device, the shape of its queue array and the
  driver's own state.
\<close>

definition same_identity :: "'o virtio_device \<Rightarrow> 'o virtio_device \<Rightarrow> bool" where
  "same_identity a b \<longleftrightarrow> vd_device_id a = vd_device_id b \<and> vd_vendor_id a = vd_vendor_id b \<and>
     vd_queue_count a = vd_queue_count b \<and> vd_queue_size a = vd_queue_size b \<and>
     vd_opaque a = vd_opaque b \<and> length (vd_queues a) = length (vd_queues b)"

lemma same_identity_refl [simp]: "same_identity a a"
  by (simp add: same_identity_def)

lemma same_identity_trans: "same_identity a b \<Longrightarrow> same_identity b c \<Longrightarrow> same_identity a c"
  by (simp add: same_identity_def)

lemma same_identity_wf: "same_identity a b \<Longrightarrow> vdev_wf a \<longleftrightarrow> vdev_wf b"
  by (simp add: same_identity_def vdev_wf_def)

lemma on_queue_identity: "same_identity (vm_vdev (on_queue f mmio)) (vm_vdev mmio)"
  by (simp add: on_queue_def same_identity_def split: option.splits)

lemma reset_identity:
  "no_reset_hook ops \<Longrightarrow> same_identity (virtio_device_reset ops dev) dev"
  by (auto simp: virtio_device_reset_def same_identity_def no_reset_hook_def Let_def split: option.splits)

lemma write_identity:
  assumes "no_reset_hook ops"
  shows "same_identity (vm_vdev (virtio_mmio_write ops mmio off v)) (vm_vdev mmio)"
proof (cases "off \<in> set write_registers")
  case True
  then show ?thesis
    using on_queue_identity reset_identity [OF assms, of "vm_vdev mmio"]
    by (auto simp: write_registers_def virtio_mmio_write_simps virtio_mmio_reset_def)
      (simp_all add: same_identity_def)
next
  case False
  then show ?thesis by (simp add: virtio_mmio_write_other)
qed

lemma writes_identity:
  assumes "no_reset_hook ops"
  shows "same_identity (vm_vdev (virtio_mmio_writes ops mmio ws)) (vm_vdev mmio)"
proof (induction ws arbitrary: mmio)
  case (Cons w ws)
  obtain off v where w: "w = (off, v)" by fastforce
  show ?case
    unfolding w virtio_mmio_writes.simps
    by (rule same_identity_trans [OF Cons.IH write_identity [OF assms]])
qed simp

lemma virtio_mmio_init_fresh:
  assumes "vdev_wf vdev" and "no_reset_hook ops"
  shows "virtio_mmio_init ops vdev =
    \<lparr>vm_vdev = fresh_device (vd_device_id vdev) (vd_vendor_id vdev) (vd_queue_count vdev)
       (vd_queue_size vdev) (vd_opaque vdev),
     vm_device_features_sel = 0, vm_driver_features_sel = 0, vm_queue_sel = 0\<rparr>"
  using assms by (simp add: virtio_mmio_init_def virtio_mmio_reset_def virtio_device_reset_fresh)

lemma virtio_mmio_reset_init:
  assumes id: "same_identity (vm_vdev m) vdev" and wf: "vdev_wf vdev" and "no_reset_hook ops"
  shows "virtio_mmio_reset ops m = virtio_mmio_init ops vdev"
proof -
  have "vdev_wf (vm_vdev m)" using id wf same_identity_wf by blast
  with assms show ?thesis
    by (cases m) (simp add: virtio_mmio_init_fresh virtio_mmio_reset_def virtio_device_reset_fresh same_identity_def)
qed

section \<open>Halves of 64-bit fields\<close>

lemma mask32_numeral: "(0xffffffff :: u64) = mask 32"
  by (simp add: mask_numeral)

lemma set_halves:
  "set_hi (set_lo x (ucast a)) (ucast (drop_bit 32 a)) = a"
  "set_lo (set_hi x (ucast (drop_bit 32 a))) (ucast a) = a"
  unfolding set_lo_def set_hi_def mask32_numeral
  by (rule bit_word_eqI, auto simp: bit_simps)+

lemma lo_set_lo: "ucast (set_lo x v) = v"
  and hi_set_lo: "(ucast (drop_bit 32 (set_lo x v)) :: u32) = ucast (drop_bit 32 x)"
  and hi_set_hi: "ucast (drop_bit 32 (set_hi x v)) = v"
  and lo_set_hi: "(ucast (set_hi x v) :: u32) = ucast x"
  unfolding set_lo_def set_hi_def mask32_numeral
  by (rule bit_word_eqI, auto simp: bit_simps dest: bit_imp_le_length)+

section \<open>Queue registers act on the selected queue\<close>

definition sel_valid :: "'o virtio_mmio \<Rightarrow> bool" where
  "sel_valid m \<longleftrightarrow> vdev_wf (vm_vdev m) \<and> vm_queue_sel m < vd_queue_count (vm_vdev m)"

definition sel_queue :: "'o virtio_mmio \<Rightarrow> virtio_queue" where
  "sel_queue m = vd_queues (vm_vdev m) ! unat (vm_queue_sel m)"

definition put_queue :: "'o virtio_mmio \<Rightarrow> virtio_queue \<Rightarrow> 'o virtio_mmio" where
  "put_queue m q = m\<lparr>vm_vdev := (vm_vdev m)\<lparr>vd_queues :=
     (vd_queues (vm_vdev m))[unat (vm_queue_sel m) := q]\<rparr>\<rparr>"

lemma on_queue_valid: "sel_valid m \<Longrightarrow> on_queue f m = put_queue m (f (sel_queue m))"
  by (auto simp: sel_valid_def on_queue_def virtio_mmio_queue_def put_queue_def sel_queue_def)

lemma on_queue_invalid: "\<not> vm_queue_sel m < vd_queue_count (vm_vdev m) \<Longrightarrow> on_queue f m = m"
  by (simp add: on_queue_def virtio_mmio_queue_def)

lemma sel_index: "sel_valid m \<Longrightarrow> unat (vm_queue_sel m) < length (vd_queues (vm_vdev m))"
  by (simp add: sel_valid_def vdev_wf_def word_less_nat_alt)

lemma put_queue_simps [simp]:
  "sel_valid (put_queue m q) = sel_valid m"
  "sel_valid m \<Longrightarrow> sel_queue (put_queue m q) = q"
  "put_queue (put_queue m q) q' = put_queue m q'"
  using sel_index [of m] by (auto simp: sel_valid_def put_queue_def sel_queue_def vdev_wf_def)

lemma on_queue_other:
  assumes "j \<noteq> vm_queue_sel m"
  shows "virtio_mmio_queue (on_queue f m) j = virtio_mmio_queue m j"
proof -
  have "unat j \<noteq> unat (vm_queue_sel m)" using assms by (metis word_unat_eq_iff)
  then show ?thesis by (simp add: on_queue_def virtio_mmio_queue_def)
qed

section \<open>Properties\<close>

text \<open>For the closed instances: a device without an operation table.\<close>

abbreviation no_ops :: "(unit, unit) virtio_device_ops option" where
  "no_ops \<equiv> None"



text \<open>The register writes of a Linux driver that sets up the selected queue.\<close>

definition queue_setup :: "u64 \<Rightarrow> u64 \<Rightarrow> u64 \<Rightarrow> u64 \<Rightarrow> u64 \<Rightarrow> (u64 \<times> u64) list" where
  "queue_setup n ready desc avail used =
     [(VIRTIO_MMIO_QUEUE_NUM, n),
      (VIRTIO_MMIO_QUEUE_DESC_LOW, desc), (VIRTIO_MMIO_QUEUE_DESC_HIGH, drop_bit 32 desc),
      (VIRTIO_MMIO_QUEUE_AVAIL_LOW, avail), (VIRTIO_MMIO_QUEUE_AVAIL_HIGH, drop_bit 32 avail),
      (VIRTIO_MMIO_QUEUE_USED_LOW, used), (VIRTIO_MMIO_QUEUE_USED_HIGH, drop_bit 32 used),
      (VIRTIO_MMIO_QUEUE_READY, ready)]"

text \<open>
  C30: the register sequence of a Linux driver programs the selected queue exactly. After the writes
  of size, readiness and the low and high halves of the three ring addresses, the selected queue
  holds the 32-bit size and readiness and the full 64-bit addresses, its backend cursor is
  unchanged, and nothing else of the transport or the device has changed.
\<close>

theorem queue_setup_programs_queue:
  assumes "sel_valid m"
  shows "virtio_mmio_writes ops m (queue_setup n ready desc avail used) =
    put_queue m \<lparr>vq_num = ucast n, vq_ready = ucast ready, vq_desc = desc, vq_avail = avail, vq_used = used,
      vq_last_avail_idx = vq_last_avail_idx (sel_queue m)\<rparr>"
  using assms
  by (simp add: queue_setup_def virtio_mmio_write_simps on_queue_valid set_halves)
    (cases "sel_queue m", simp)

theorem queue_setup_programs_queue_witness:
  "vd_queues (vm_vdev (virtio_mmio_writes no_ops
      \<lparr>vm_vdev = fresh_device 3 7 2 256 (), vm_device_features_sel = 0, vm_driver_features_sel = 0, vm_queue_sel = 1\<rparr>
      (queue_setup 128 1 0x0123456789abcdef 0xfedcba9876543210 0x2468135713572468))) =
   [fresh_queue 256, \<lparr>vq_num = 128, vq_ready = 1, vq_desc = 0x0123456789abcdef, vq_avail = 0xfedcba9876543210,
      vq_used = 0x2468135713572468, vq_last_avail_idx = 0\<rparr>]"
  by (subst queue_setup_programs_queue)
    (simp_all add: sel_valid_def fresh_device_def vdev_wf_def put_queue_def sel_queue_def fresh_queue_def
      replicate_2)

text \<open>The registers that belong to the selected queue.\<close>

definition queue_registers :: "u64 list" where
  "queue_registers =
     [VIRTIO_MMIO_QUEUE_NUM, VIRTIO_MMIO_QUEUE_READY, VIRTIO_MMIO_QUEUE_DESC_LOW, VIRTIO_MMIO_QUEUE_DESC_HIGH,
      VIRTIO_MMIO_QUEUE_AVAIL_LOW, VIRTIO_MMIO_QUEUE_AVAIL_HIGH, VIRTIO_MMIO_QUEUE_USED_LOW,
      VIRTIO_MMIO_QUEUE_USED_HIGH]"

text \<open>
  Queue registers are confined to the selected queue. No register write other than a reset
  changes a queue that is not the selected one, and while the selector is out of range no write to
  a queue register changes anything.
\<close>

theorem queue_write_confined:
  "(off \<noteq> VIRTIO_MMIO_STATUS \<and> j \<noteq> vm_queue_sel m \<longrightarrow>
     virtio_mmio_queue (virtio_mmio_write ops m off v) j = virtio_mmio_queue m j) \<and>
   (off \<in> set queue_registers \<and> \<not> vm_queue_sel m < vd_queue_count (vm_vdev m) \<longrightarrow>
     virtio_mmio_write ops m off v = m)"
proof (intro conjI impI; elim conjE)
  assume st: "off \<noteq> VIRTIO_MMIO_STATUS" and j: "j \<noteq> vm_queue_sel m"
  show "virtio_mmio_queue (virtio_mmio_write ops m off v) j = virtio_mmio_queue m j"
  proof (cases "off \<in> set write_registers")
    case True
    with st show ?thesis
      by (auto simp: write_registers_def virtio_mmio_write_simps on_queue_other [OF j])
        (simp_all add: virtio_mmio_queue_def)
  next
    case False
    then show ?thesis by (simp add: virtio_mmio_write_other)
  qed
next
  assume "off \<in> set queue_registers" and "\<not> vm_queue_sel m < vd_queue_count (vm_vdev m)"
  then show "virtio_mmio_write ops m off v = m"
    by (auto simp: queue_registers_def virtio_mmio_write_simps on_queue_invalid)
qed

theorem queue_write_confined_witness:
  "virtio_mmio_write no_ops
     \<lparr>vm_vdev = fresh_device 2 7 1 256 (), vm_device_features_sel = 0, vm_driver_features_sel = 0, vm_queue_sel = 9\<rparr>
     VIRTIO_MMIO_QUEUE_READY 1 =
   \<lparr>vm_vdev = fresh_device 2 7 1 256 (), vm_device_features_sel = 0, vm_driver_features_sel = 0, vm_queue_sel = 9\<rparr>"
  using queue_write_confined [of VIRTIO_MMIO_QUEUE_READY 0
      "\<lparr>vm_vdev = fresh_device 2 7 1 256 (), vm_device_features_sel = 0, vm_driver_features_sel = 0, vm_queue_sel = 9\<rparr>"
      no_ops 1]
  by (simp add: queue_registers_def fresh_device_def)

end
