(* ===== verification/Host_Files.thy ===== *)
theory Host_Files
  imports Chiplets_Prelude "HOL-Library.Sublist"
begin

text \<open>
  The POSIX calls the drivers make on host files (\<open>open\<close>, \<open>close\<close>, \<open>fstat\<close>, \<open>pread\<close>, \<open>pwrite\<close>,
  \<open>write\<close>, \<open>fsync\<close>), and the two retry loops of \<^verbatim>\<open>src/drivers/virtio-blkd.c\<close> and the one of
  \<^verbatim>\<open>src/drivers/virtio-consoled.c\<close> over them. A call may be interrupted, may fail, and may transfer
  fewer bytes than asked for: what happens to the next calls is the list \<open>h_script\<close> of the host
  state, and once that list is used up every call transfers all it can. So only finitely many calls
  are interrupted, which is what makes the loops end; the lemmas hold for every script.
\<close>

section \<open>Host state and system calls\<close>

datatype errno = EINTR | EIO | EBADF | ENOENT

datatype 'a sysret = Err errno | Ret 'a

datatype outcome = Interrupted | Broken | Partial nat

record open_file =
  of_path :: string
  of_readable :: bool
  of_writable :: bool
  of_append :: bool

text \<open>
  \<open>h_files\<close> is what reads of a file see, \<open>h_disk\<close> what survives a crash of the host (the contents at
  the last successful \<open>fsync\<close>), \<open>h_heap\<close> the largest block \<open>malloc\<close> and \<open>realloc\<close> can return. \<open>h_pos\<close> are the
  file offsets of the descriptors and \<open>h_maps\<close> the lengths of the memory mappings the process holds.
\<close>

record host =
  h_files :: "string \<rightharpoonup> u8 list"
  h_disk :: "string \<rightharpoonup> u8 list"
  h_fds :: "int \<rightharpoonup> open_file"
  h_next_fd :: int
  h_script :: "outcome list"
  h_heap :: nat
  h_pos :: "int \<Rightarrow> nat"
  h_maps :: "nat list"

text \<open>The number of bytes, out of \<open>n\<close>, that the next call transfers; a short transfer moves at least one.\<close>

definition transfer :: "nat \<Rightarrow> host \<Rightarrow> nat sysret \<times> host" where
  "transfer n h = (case h_script h of
      [] \<Rightarrow> (Ret n, h)
    | out # rest \<Rightarrow>
        ((case out of Interrupted \<Rightarrow> Err EINTR | Broken \<Rightarrow> Err EIO | Partial k \<Rightarrow> Ret (min n (Suc k))),
         h\<lparr>h_script := rest\<rparr>))"

definition file_put :: "u8 list \<Rightarrow> nat \<Rightarrow> u8 list \<Rightarrow> u8 list" where
  "file_put c off bs =
     (if bs = [] then c
      else take off c @ replicate (off - length c) 0 @ bs @ drop (off + length bs) c)"

definition set_file :: "string \<Rightarrow> u8 list \<Rightarrow> host \<Rightarrow> host" where
  "set_file path c h = h\<lparr>h_files := (h_files h)(path \<mapsto> c)\<rparr>"

definition sys_open :: "string \<Rightarrow> bool \<Rightarrow> bool \<Rightarrow> bool \<Rightarrow> bool \<Rightarrow> host \<Rightarrow> int \<times> host" where
  "sys_open path readable writable creat appending h = (case transfer 0 h of
      (Err _, h') \<Rightarrow> (- 1, h')
    | (Ret _, h') \<Rightarrow>
        if h_files h' path = None \<and> \<not> creat then (- 1, h')
        else (h_next_fd h',
              h'\<lparr>h_files := (if h_files h' path = None then (h_files h')(path \<mapsto> []) else h_files h'),
                 h_fds := (h_fds h')(h_next_fd h' \<mapsto>
                    \<lparr>of_path = path, of_readable = readable, of_writable = writable, of_append = appending\<rparr>),
                 h_pos := (h_pos h')(h_next_fd h' := 0),
                 h_next_fd := h_next_fd h' + 1\<rparr>))"

definition sys_close :: "int \<Rightarrow> host \<Rightarrow> host" where
  "sys_close fd h = h\<lparr>h_fds := (h_fds h)(fd := None)\<rparr>"

text \<open>The bookkeeping of \<open>mmap\<close> and \<open>munmap\<close>; what a mapping shows is modelled where it is used.\<close>

definition hold_map :: "nat \<Rightarrow> host \<Rightarrow> host" where
  "hold_map len h = h\<lparr>h_maps := len # h_maps h\<rparr>"

definition sys_munmap :: "nat \<Rightarrow> host \<Rightarrow> host" where
  "sys_munmap len h = h\<lparr>h_maps := remove1 len (h_maps h)\<rparr>"

definition sys_fstat :: "int \<Rightarrow> host \<Rightarrow> nat sysret \<times> host" where
  "sys_fstat fd h = (case h_fds h fd of
      None \<Rightarrow> (Err EBADF, h)
    | Some f \<Rightarrow> (case transfer 0 h of
          (Err e, h') \<Rightarrow> (Err e, h')
        | (Ret _, h') \<Rightarrow> (case h_files h' (of_path f) of
              None \<Rightarrow> (Err EIO, h')
            | Some c \<Rightarrow> (Ret (length c), h'))))"

definition pread :: "int \<Rightarrow> nat \<Rightarrow> nat \<Rightarrow> host \<Rightarrow> u8 list sysret \<times> host" where
  "pread fd n off h = (case h_fds h fd of
      None \<Rightarrow> (Err EBADF, h)
    | Some f \<Rightarrow>
        if \<not> of_readable f then (Err EBADF, h)
        else (case transfer n h of
            (Err e, h') \<Rightarrow> (Err e, h')
          | (Ret k, h') \<Rightarrow> (case h_files h' (of_path f) of
                None \<Rightarrow> (Err EIO, h')
              | Some c \<Rightarrow> (Ret (take k (drop off c)), h'))))"

definition pwrite :: "int \<Rightarrow> u8 list \<Rightarrow> nat \<Rightarrow> host \<Rightarrow> nat sysret \<times> host" where
  "pwrite fd bs off h = (case h_fds h fd of
      None \<Rightarrow> (Err EBADF, h)
    | Some f \<Rightarrow>
        if \<not> of_writable f then (Err EBADF, h)
        else (case transfer (length bs) h of
            (Err e, h') \<Rightarrow> (Err e, h')
          | (Ret k, h') \<Rightarrow> (case h_files h' (of_path f) of
                None \<Rightarrow> (Err EIO, h')
              | Some c \<Rightarrow> (Ret k, set_file (of_path f) (file_put c off (take k bs)) h'))))"

text \<open>
  \<open>write\<close>: the bytes go to the end of a file opened with \<open>O_APPEND\<close> and otherwise to the offset of the
  descriptor, which moves behind them.
\<close>

definition sys_write :: "int \<Rightarrow> u8 list \<Rightarrow> host \<Rightarrow> nat sysret \<times> host" where
  "sys_write fd bs h = (case h_fds h fd of
      None \<Rightarrow> (Err EBADF, h)
    | Some f \<Rightarrow>
        if \<not> of_writable f then (Err EBADF, h)
        else (case transfer (length bs) h of
            (Err e, h') \<Rightarrow> (Err e, h')
          | (Ret k, h') \<Rightarrow> (case h_files h' (of_path f) of
                None \<Rightarrow> (Err EIO, h')
              | Some c \<Rightarrow>
                  let pos = (if of_append f then length c else h_pos h' fd)
                  in (Ret k, (set_file (of_path f) (file_put c pos (take k bs)) h')\<lparr>h_pos := (h_pos h')(fd := pos + k)\<rparr>))))"

definition fsync :: "int \<Rightarrow> host \<Rightarrow> unit sysret \<times> host" where
  "fsync fd h = (case h_fds h fd of
      None \<Rightarrow> (Err EBADF, h)
    | Some f \<Rightarrow> (case transfer 0 h of
          (Err e, h') \<Rightarrow> (Err e, h')
        | (Ret _, h') \<Rightarrow> (Ret (), h'\<lparr>h_disk := (h_disk h')(of_path f := h_files h' (of_path f))\<rparr>)))"

lemma set_file_simps [simp]:
  "h_files (set_file p c h) = (h_files h)(p \<mapsto> c)" "h_fds (set_file p c h) = h_fds h"
  "h_disk (set_file p c h) = h_disk h" "h_heap (set_file p c h) = h_heap h"
  "h_script (set_file p c h) = h_script h" "h_next_fd (set_file p c h) = h_next_fd h"
  "h_pos (set_file p c h) = h_pos h" "h_maps (set_file p c h) = h_maps h"
  "set_file p d (set_file p c h) = set_file p d h"
  "set_file p c (h\<lparr>h_script := s\<rparr>) = (set_file p c h)\<lparr>h_script := s\<rparr>"
  "set_file p c (h\<lparr>h_pos := k\<rparr>) = (set_file p c h)\<lparr>h_pos := k\<rparr>"
  by (simp_all add: set_file_def)

lemma set_file_same: "h_files h p = Some c \<Longrightarrow> set_file p c h = h"
  by (simp add: set_file_def fun_upd_idem)

section \<open>The retry loops\<close>

text \<open>Besides the result, \<open>pread_all\<close> returns the bytes it has put into the buffer.\<close>

lemma transfer_EINTR: "transfer n h = (Err EINTR, h') \<Longrightarrow> length (h_script h') < length (h_script h)"
  by (auto simp: transfer_def split: list.splits outcome.splits)

lemma transfer_script: "transfer n h = (r, h') \<Longrightarrow> suffix (h_script h') (h_script h)"
  by (auto simp: transfer_def suffix_def split: list.splits)

lemma transfer_script_le: "transfer n h = (r, h') \<Longrightarrow> length (h_script h') \<le> length (h_script h)"
  by (auto dest: transfer_script suffix_length_le)

lemma transfer_Ret: "transfer n h = (Ret k, h') \<Longrightarrow> k \<le> n \<and> (0 < n \<longrightarrow> 0 < k)"
  by (auto simp: transfer_def split: list.splits outcome.splits)

lemma transfer_host: "transfer n h = (r, h') \<Longrightarrow> h' = h\<lparr>h_script := h_script h'\<rparr>"
  by (auto simp: transfer_def split: list.splits)

lemma transfer_Err: "transfer n h = (Err e, h') \<Longrightarrow> e \<noteq> EINTR \<Longrightarrow> Broken \<in> set (h_script h)"
  by (auto simp: transfer_def split: list.splits outcome.splits)

lemma pread_EINTR: "pread fd n off h = (Err EINTR, h') \<Longrightarrow> length (h_script h') < length (h_script h)"
  by (auto simp: pread_def split: option.splits if_splits prod.splits sysret.splits dest: transfer_EINTR)

lemma pwrite_EINTR: "pwrite fd bs off h = (Err EINTR, h') \<Longrightarrow> length (h_script h') < length (h_script h)"
  by (auto simp: pwrite_def split: option.splits if_splits prod.splits sysret.splits dest: transfer_EINTR)

lemma sys_write_EINTR: "sys_write fd bs h = (Err EINTR, h') \<Longrightarrow> length (h_script h') < length (h_script h)"
  by (auto simp: sys_write_def Let_def split: option.splits if_splits prod.splits sysret.splits dest: transfer_EINTR)

lemma pread_script: "pread fd n off h = (Ret x, h') \<Longrightarrow> length (h_script h') \<le> length (h_script h)"
  by (auto simp: pread_def split: option.splits if_splits prod.splits sysret.splits
      dest: transfer_script_le)

lemma pwrite_script: "pwrite fd bs off h = (Ret x, h') \<Longrightarrow> length (h_script h') \<le> length (h_script h)"
  by (auto simp: pwrite_def split: option.splits if_splits prod.splits sysret.splits
      dest: transfer_script_le)

lemma sys_write_script: "sys_write fd bs h = (Ret x, h') \<Longrightarrow> length (h_script h') \<le> length (h_script h)"
  by (auto simp: sys_write_def Let_def split: option.splits if_splits prod.splits sysret.splits
      dest: transfer_script_le)

function pread_all :: "int \<Rightarrow> nat \<Rightarrow> nat \<Rightarrow> host \<Rightarrow> (bool \<times> u8 list) \<times> host" where
  "pread_all fd len off h =
     (if len = 0 then ((True, []), h)
      else case pread fd len off h of
        (Err e, h') \<Rightarrow> if e = EINTR then pread_all fd len off h' else ((False, []), h')
      | (Ret bs, h') \<Rightarrow>
          if bs = [] then ((False, []), h')
          else case pread_all fd (len - length bs) (off + length bs) h' of
            ((ok, rest), h'') \<Rightarrow> ((ok, bs @ rest), h''))"
  by pat_completeness auto
termination
  by (relation "measure (\<lambda>(fd, len, off, h). len + length (h_script h))")
    (auto dest!: pread_EINTR [OF sym] pread_script [OF sym] simp: diff_less_mono2 neq_Nil_conv intro!: add_less_le_mono)

function pwrite_all :: "int \<Rightarrow> u8 list \<Rightarrow> nat \<Rightarrow> host \<Rightarrow> bool \<times> host" where
  "pwrite_all fd bs off h =
     (if bs = [] then (True, h)
      else case pwrite fd bs off h of
        (Err e, h') \<Rightarrow> if e = EINTR then pwrite_all fd bs off h' else (False, h')
      | (Ret k, h') \<Rightarrow>
          if k = 0 then (False, h')
          else pwrite_all fd (drop k bs) (off + k) h')"
  by pat_completeness auto
termination
  by (relation "measure (\<lambda>(fd, bs, off, h). length bs + length (h_script h))")
    (auto dest!: pwrite_EINTR [OF sym] pwrite_script [OF sym] simp: neq_Nil_conv intro!: add_less_le_mono)

function write_all :: "int \<Rightarrow> u8 list \<Rightarrow> host \<Rightarrow> bool \<times> host" where
  "write_all fd bs h =
     (if bs = [] then (True, h)
      else case sys_write fd bs h of
        (Err e, h') \<Rightarrow> if e = EINTR then write_all fd bs h' else (False, h')
      | (Ret k, h') \<Rightarrow>
          if k = 0 then (False, h')
          else write_all fd (drop k bs) h')"
  by pat_completeness auto
termination
  by (relation "measure (\<lambda>(fd, bs, h). length bs + length (h_script h))")
    (auto dest!: sys_write_EINTR [OF sym] sys_write_script [OF sym] simp: neq_Nil_conv intro!: add_less_le_mono)

declare pread_all.simps [simp del] pwrite_all.simps [simp del] write_all.simps [simp del]

section \<open>What the loops do\<close>

text \<open>
  \<open>opened h fd f c\<close>: the descriptor is open on a file with contents \<open>c\<close>. Whatever the script says, the
  loops transfer a prefix of the request and report success exactly when that prefix is all of it;
  if no call fails they succeed whenever the file has the bytes.
\<close>

definition opened :: "host \<Rightarrow> int \<Rightarrow> open_file \<Rightarrow> u8 list \<Rightarrow> bool" where
  "opened h fd f c \<longleftrightarrow> h_fds h fd = Some f \<and> h_files h (of_path f) = Some c"

lemma opened_script [simp]: "opened (h\<lparr>h_script := s\<rparr>) fd f c = opened h fd f c"
  by (simp add: opened_def)

lemma pread_cases:
  assumes "opened h fd f c" and "of_readable f" and "0 < len"
  obtains (eintr) s' where "pread fd len off h = (Err EINTR, h\<lparr>h_script := s'\<rparr>)"
      "suffix s' (h_script h)" "length s' < length (h_script h)"
  | (broken) e s' where "pread fd len off h = (Err e, h\<lparr>h_script := s'\<rparr>)" "e \<noteq> EINTR"
      "suffix s' (h_script h)" "Broken \<in> set (h_script h)"
  | (got) k s' where "pread fd len off h = (Ret (take k (drop off c)), h\<lparr>h_script := s'\<rparr>)"
      "suffix s' (h_script h)" "0 < k" "k \<le> len"
proof -
  obtain r h' where t: "transfer len h = (r, h')" by fastforce
  have h': "h' = h\<lparr>h_script := h_script h'\<rparr>" and suf: "suffix (h_script h') (h_script h)"
    using t by (rule transfer_host, rule transfer_script)
  have content: "h_files h' (of_path f) = Some c" using assms(1) by (subst h') (simp add: opened_def)
  show thesis
  proof (cases r)
    case (Err e)
    have pr: "pread fd len off h = (Err e, h\<lparr>h_script := h_script h'\<rparr>)"
      using assms t Err h' by (simp add: pread_def opened_def)
    show ?thesis
    proof (cases "e = EINTR")
      case True
      with pr suf t Err show ?thesis using transfer_EINTR eintr by blast
    next
      case False
      with pr suf t Err show ?thesis using transfer_Err broken by blast
    qed
  next
    case (Ret k)
    have "pread fd len off h = (Ret (take k (drop off c)), h\<lparr>h_script := h_script h'\<rparr>)"
      using assms t Ret h' content by (simp add: pread_def opened_def)
    with suf t Ret assms(3) show ?thesis using transfer_Ret got by blast
  qed
qed

lemma pread_all_spec:
  assumes "opened h fd f c" and "of_readable f"
  shows "\<exists>k s'. pread_all fd len off h = ((k = len, take k (drop off c)), h\<lparr>h_script := s'\<rparr>) \<and>
    suffix s' (h_script h) \<and> k \<le> len \<and> k \<le> length c - off \<and>
    (Broken \<notin> set (h_script h) \<longrightarrow> off + len \<le> length c \<longrightarrow> k = len)"
  using assms
proof (induction fd len off h rule: pread_all.induct)
  case (1 fd len off h)
  show ?case
  proof (cases "len = 0")
    case True
    then show ?thesis by (intro exI [of _ 0] exI [of _ "h_script h"]) (simp add: pread_all.simps)
  next
    case False
    then have "0 < len" by simp
    with 1(3,4) show ?thesis
    proof (cases rule: pread_cases [where off = off])
      case (eintr s')
      from 1(1) [OF False eintr(1) [symmetric]] 1(3,4) obtain k s'' where
        "pread_all fd len off (h\<lparr>h_script := s'\<rparr>) = ((k = len, take k (drop off c)), h\<lparr>h_script := s''\<rparr>)"
        "suffix s'' s'" "k \<le> len" "k \<le> length c - off"
        "Broken \<notin> set s' \<longrightarrow> off + len \<le> length c \<longrightarrow> k = len" by auto
      with False eintr show ?thesis
        by (intro exI [of _ k] exI [of _ s''])
          (auto simp: pread_all.simps [of fd len off h] dest: suffix_order.trans set_mono_suffix)
    next
      case (broken e s')
      with False show ?thesis
        by (intro exI [of _ 0] exI [of _ s']) (auto simp: pread_all.simps [of fd len off h])
    next
      case (got k s')
      let ?bs = "take k (drop off c)"
      show ?thesis
      proof (cases "?bs = []")
        case True
        with False got have "length c \<le> off" by (auto simp: drop_eq_Nil)
        with False got True show ?thesis
          by (intro exI [of _ 0] exI [of _ s']) (auto simp: pread_all.simps [of fd len off h])
      next
        case ne: False
        let ?n = "length ?bs"
        from 1(2) [OF False got(1) [symmetric] refl ne] 1(3,4) obtain j s'' where
          j: "pread_all fd (len - ?n) (off + ?n) (h\<lparr>h_script := s'\<rparr>) =
              ((j = len - ?n, take j (drop (off + ?n) c)), h\<lparr>h_script := s''\<rparr>)"
          "suffix s'' s'" "j \<le> len - ?n" "j \<le> length c - (off + ?n)"
          "Broken \<notin> set s' \<longrightarrow> off + ?n + (len - ?n) \<le> length c \<longrightarrow> j = len - ?n" by auto
        have n: "?n \<le> len" "?n \<le> length c - off" "?bs = take ?n (drop off c)"
          using got by (auto simp: min_def)
        have app: "?bs @ take j (drop (off + ?n) c) = take (?n + j) (drop off c)"
          by (subst n(3)) (simp add: take_add add.commute [of off])
        have "suffix s'' (h_script h)" using j(2) got(2) by (rule suffix_order.trans)
        moreover have "pread_all fd len off h =
            ((?n + j = len, take (?n + j) (drop off c)), h\<lparr>h_script := s''\<rparr>)"
          using False ne got j(1,3) n app by (auto simp: pread_all.simps [of fd len off h])
        moreover have "Broken \<notin> set (h_script h) \<longrightarrow> off + len \<le> length c \<longrightarrow> ?n + j = len"
          using j(5) n got(2) by (auto dest: set_mono_suffix)
        moreover have "?n + j \<le> len" "?n + j \<le> length c - off"
          using j(3,4) n(1,2) by linarith+
        ultimately show ?thesis
          by (intro exI [of _ "?n + j"] exI [of _ s'']) blast
      qed
    qed
  qed
qed

lemma file_put_Nil [simp]: "file_put c off [] = c"
  by (simp add: file_put_def)

lemma length_file_put [simp]: "off + length bs \<le> length c \<Longrightarrow> length (file_put c off bs) = length c"
  by (auto simp: file_put_def)

lemma file_put_append:
  assumes "off + length (as @ bs) \<le> length c"
  shows "file_put (file_put c off as) (off + length as) bs = file_put c off (as @ bs)"
  using assms by (cases as; cases bs) (auto simp: file_put_def min_def ac_simps)

lemma file_put_same: "off + length bs \<le> length c \<Longrightarrow> take (length bs) (drop off (file_put c off bs)) = bs"
  by (auto simp: file_put_def)

lemma file_put_elsewhere:
  assumes "off + length bs \<le> length c" and "i < off \<or> off + length bs \<le> i"
  shows "file_put c off bs ! i = c ! i"
  using assms by (auto simp: file_put_def nth_append)

lemma pwrite_cases:
  assumes "opened h fd f c" and "of_writable f" and "bs \<noteq> []"
  obtains (eintr) s' where "pwrite fd bs off h = (Err EINTR, h\<lparr>h_script := s'\<rparr>)"
      "suffix s' (h_script h)" "length s' < length (h_script h)"
  | (broken) e s' where "pwrite fd bs off h = (Err e, h\<lparr>h_script := s'\<rparr>)" "e \<noteq> EINTR"
      "suffix s' (h_script h)" "Broken \<in> set (h_script h)"
  | (put) k s' where "pwrite fd bs off h = (Ret k, (set_file (of_path f) (file_put c off (take k bs)) h)\<lparr>h_script := s'\<rparr>)"
      "suffix s' (h_script h)" "0 < k" "k \<le> length bs"
proof -
  obtain r h' where t: "transfer (length bs) h = (r, h')" by fastforce
  have h': "h' = h\<lparr>h_script := h_script h'\<rparr>" and suf: "suffix (h_script h') (h_script h)"
    using t by (rule transfer_host, rule transfer_script)
  have content: "h_files h' = h_files h" by (subst h') simp
  have upd: "set_file p x h' = (set_file p x h)\<lparr>h_script := h_script h'\<rparr>" for p x
    by (subst h') simp
  show thesis
  proof (cases r)
    case (Err e)
    have pr: "pwrite fd bs off h = (Err e, h\<lparr>h_script := h_script h'\<rparr>)"
      using assms t Err h' by (simp add: pwrite_def opened_def)
    show ?thesis
    proof (cases "e = EINTR")
      case True
      with pr suf t Err show ?thesis using transfer_EINTR eintr by blast
    next
      case False
      with pr suf t Err show ?thesis using transfer_Err broken by blast
    qed
  next
    case (Ret k)
    have "pwrite fd bs off h =
        (Ret k, (set_file (of_path f) (file_put c off (take k bs)) h)\<lparr>h_script := h_script h'\<rparr>)"
      using assms t Ret content upd by (simp add: pwrite_def opened_def)
    with suf t Ret assms(3) show ?thesis using transfer_Ret [of "length bs" h k h'] put by auto
  qed
qed

lemma pwrite_all_spec:
  assumes "opened h fd f c" and "of_writable f" and "off + length bs \<le> length c"
  shows "\<exists>k s'. pwrite_all fd bs off h = 
      (k = length bs, (set_file (of_path f) (file_put c off (take k bs)) h)\<lparr>h_script := s'\<rparr>) \<and>
    suffix s' (h_script h) \<and> k \<le> length bs \<and> (Broken \<notin> set (h_script h) \<longrightarrow> k = length bs)"
  using assms
proof (induction fd bs off h arbitrary: c rule: pwrite_all.induct)
  case (1 fd bs off h)
  have same: "set_file (of_path f) c h = h"
    using 1(3) by (simp add: opened_def set_file_same)
  show ?case
  proof (cases "bs = []")
    case True
    then show ?thesis
      by (intro exI [of _ 0] exI [of _ "h_script h"]) (simp add: pwrite_all.simps same)
  next
    case False
    from 1(3,4) False show ?thesis
    proof (cases rule: pwrite_cases [where off = off])
      case (eintr s')
      from 1(1) [OF False eintr(1) [symmetric] refl refl, of c] 1(3-5) obtain k s'' where
        "pwrite_all fd bs off (h\<lparr>h_script := s'\<rparr>) = (k = length bs,
           (set_file (of_path f) (file_put c off (take k bs)) h)\<lparr>h_script := s''\<rparr>)"
        "suffix s'' s'" "k \<le> length bs" "Broken \<notin> set s' \<longrightarrow> k = length bs" by auto
      with False eintr show ?thesis
        by (intro exI [of _ k] exI [of _ s''])
          (auto simp: pwrite_all.simps [of fd bs off h] dest: suffix_order.trans set_mono_suffix)
    next
      case (broken e s')
      with False show ?thesis
        by (intro exI [of _ 0] exI [of _ s']) (auto simp: pwrite_all.simps [of fd bs off h] same)
    next
      case (put k s')
      let ?h = "(set_file (of_path f) (file_put c off (take k bs)) h)\<lparr>h_script := s'\<rparr>"
      have "k \<noteq> 0" using put by simp
      have "opened ?h fd f (file_put c off (take k bs))"
        using 1(3) by (simp add: opened_def)
      moreover have "off + k + length (drop k bs) \<le> length (file_put c off (take k bs))"
        using 1(5) put(4) by simp
      ultimately obtain j s'' where
        j: "pwrite_all fd (drop k bs) (off + k) ?h = (j = length (drop k bs),
             (set_file (of_path f) (file_put (file_put c off (take k bs)) (off + k) (take j (drop k bs))) ?h)
               \<lparr>h_script := s''\<rparr>)"
        "suffix s'' s'" "j \<le> length (drop k bs)" "Broken \<notin> set s' \<longrightarrow> j = length (drop k bs)"
        using 1(2) [OF False put(1) [symmetric] refl \<open>k \<noteq> 0\<close>, of "file_put c off (take k bs)"] 1(4) by auto
      have "file_put (file_put c off (take k bs)) (off + k) (take j (drop k bs)) =
          file_put c off (take (k + j) bs)"
        using file_put_append [of off "take k bs" "take j (drop k bs)" c] 1(5) put(4) j(3)
        by (simp add: take_add min.absorb2)
      with j False put \<open>k \<noteq> 0\<close> show ?thesis
        by (intro exI [of _ "k + j"] exI [of _ s''])
          (auto simp: pwrite_all.simps [of fd bs off h] dest: suffix_order.trans set_mono_suffix)
    qed
  qed
qed

text \<open>The next \<open>write\<close> goes to the end of the file.\<close>

definition at_end :: "host \<Rightarrow> int \<Rightarrow> open_file \<Rightarrow> u8 list \<Rightarrow> bool" where
  "at_end h fd f c \<longleftrightarrow> of_append f \<or> h_pos h fd = length c"

lemma at_end_script [simp]: "at_end (h\<lparr>h_script := s\<rparr>) fd f c = at_end h fd f c"
  by (simp add: at_end_def)

lemma file_put_end: "file_put c (length c) bs = c @ bs"
  by (simp add: file_put_def)

lemma sys_write_cases:
  assumes "opened h fd f c" and "of_writable f" and "bs \<noteq> []" and "at_end h fd f c"
  obtains (eintr) s' where "sys_write fd bs h = (Err EINTR, h\<lparr>h_script := s'\<rparr>)"
      "suffix s' (h_script h)" "length s' < length (h_script h)"
  | (broken) e s' where "sys_write fd bs h = (Err e, h\<lparr>h_script := s'\<rparr>)" "e \<noteq> EINTR"
      "suffix s' (h_script h)" "Broken \<in> set (h_script h)"
  | (put) k s' where "sys_write fd bs h =
        (Ret k, (set_file (of_path f) (c @ take k bs) h)\<lparr>h_script := s', h_pos := (h_pos h)(fd := length c + k)\<rparr>)"
      "suffix s' (h_script h)" "0 < k" "k \<le> length bs"
proof -
  obtain r h' where t: "transfer (length bs) h = (r, h')" by fastforce
  have h': "h' = h\<lparr>h_script := h_script h'\<rparr>" and suf: "suffix (h_script h') (h_script h)"
    using t by (rule transfer_host, rule transfer_script)
  have content: "h_files h' = h_files h" "h_pos h' = h_pos h" by (subst h', simp)+
  have upd: "set_file p x h' = (set_file p x h)\<lparr>h_script := h_script h'\<rparr>" for p x
    by (subst h') simp
  show thesis
  proof (cases r)
    case (Err e)
    have pr: "sys_write fd bs h = (Err e, h\<lparr>h_script := h_script h'\<rparr>)"
      using assms t Err h' by (simp add: sys_write_def opened_def)
    show ?thesis
    proof (cases "e = EINTR")
      case True
      with pr suf t Err show ?thesis using transfer_EINTR eintr by blast
    next
      case False
      with pr suf t Err show ?thesis using transfer_Err broken by blast
    qed
  next
    case (Ret k)
    have "sys_write fd bs h =
        (Ret k, (set_file (of_path f) (c @ take k bs) h)\<lparr>h_script := h_script h', h_pos := (h_pos h)(fd := length c + k)\<rparr>)"
      using assms t Ret content upd by (auto simp: sys_write_def opened_def at_end_def file_put_end)
    with suf t Ret assms(3) show ?thesis using transfer_Ret [of "length bs" h k h'] put by auto
  qed
qed

lemma write_all_spec:
  assumes "opened h fd f c" and "of_writable f" and "at_end h fd f c"
  shows "\<exists>k s' pos. write_all fd bs h =
      (k = length bs, (set_file (of_path f) (c @ take k bs) h)\<lparr>h_script := s', h_pos := pos\<rparr>) \<and>
    (of_append f \<or> pos fd = length c + k) \<and>
    suffix s' (h_script h) \<and> k \<le> length bs \<and> (Broken \<notin> set (h_script h) \<longrightarrow> k = length bs)"
  using assms
proof (induction fd bs h arbitrary: c rule: write_all.induct)
  case (1 fd bs h)
  have same: "set_file (of_path f) c h = h"
    using 1(3) by (simp add: opened_def set_file_same)
  have pos: "of_append f \<or> h_pos h fd = length c" using 1(5) by (simp add: at_end_def)
  show ?case
  proof (cases "bs = []")
    case True
    then show ?thesis
      using pos by (intro exI [of _ 0] exI [of _ "h_script h"] exI [of _ "h_pos h"]) (simp add: write_all.simps same)
  next
    case False
    from 1(3,4) False 1(5) show ?thesis
    proof (cases rule: sys_write_cases)
      case (eintr s')
      from 1(1) [OF False eintr(1) [symmetric] refl refl, of c] 1(3-5) obtain k s'' p where
        "write_all fd bs (h\<lparr>h_script := s'\<rparr>) = (k = length bs,
           (set_file (of_path f) (c @ take k bs) h)\<lparr>h_script := s'', h_pos := p\<rparr>)" "of_append f \<or> p fd = length c + k"
        "suffix s'' s'" "k \<le> length bs" "Broken \<notin> set s' \<longrightarrow> k = length bs" by auto
      with False eintr show ?thesis
        by (intro exI [of _ k] exI [of _ s''] exI [of _ p])
          (auto simp: write_all.simps [of fd bs h] dest: suffix_order.trans set_mono_suffix)
    next
      case (broken e s')
      with False pos show ?thesis
        by (intro exI [of _ 0] exI [of _ s'] exI [of _ "h_pos h"]) (auto simp: write_all.simps [of fd bs h] same)
    next
      case (put k s')
      let ?h = "(set_file (of_path f) (c @ take k bs) h)\<lparr>h_script := s', h_pos := (h_pos h)(fd := length c + k)\<rparr>"
      have "k \<noteq> 0" using put by simp
      have op: "opened ?h fd f (c @ take k bs)" "at_end ?h fd f (c @ take k bs)"
        using 1(3) put(4) by (simp_all add: opened_def at_end_def)
      obtain j s'' p where
        j: "write_all fd (drop k bs) ?h = (j = length (drop k bs),
             (set_file (of_path f) ((c @ take k bs) @ take j (drop k bs)) ?h)\<lparr>h_script := s'', h_pos := p\<rparr>)"
        "of_append f \<or> p fd = length (c @ take k bs) + j"
        "suffix s'' s'" "j \<le> length (drop k bs)" "Broken \<notin> set s' \<longrightarrow> j = length (drop k bs)"
        using 1(2) [OF False put(1) [symmetric] refl \<open>k \<noteq> 0\<close> op(1) 1(4) op(2)] by auto
      with False put \<open>k \<noteq> 0\<close> show ?thesis
        by (intro exI [of _ "k + j"] exI [of _ s''] exI [of _ p])
          (auto simp: write_all.simps [of fd bs h] take_add dest: suffix_order.trans set_mono_suffix)
    qed
  qed
qed

section \<open>What the loops never do\<close>

lemma pread_host: "pread fd n off h = (r, h') \<Longrightarrow> h' = h\<lparr>h_script := h_script h'\<rparr>"
  by (auto simp: pread_def split: option.splits if_splits prod.splits sysret.splits dest: transfer_host)

lemma pread_length: "pread fd n off h = (Ret bs, h') \<Longrightarrow> length bs \<le> n"
  by (auto simp: pread_def split: option.splits if_splits prod.splits sysret.splits dest: transfer_Ret)

lemma script_update_trans:
  "h' = h\<lparr>h_script := s\<rparr> \<Longrightarrow> h'' = h'\<lparr>h_script := s'\<rparr> \<Longrightarrow> h'' = h\<lparr>h_script := s'\<rparr>"
  by simp

lemma pread_all_frame:
  assumes "pread_all fd len off h = ((ok, bs), h')"
  shows "h' = h\<lparr>h_script := h_script h'\<rparr> \<and> length bs \<le> len \<and> (ok \<longleftrightarrow> length bs = len)"
  using assms
proof (induction fd len off h arbitrary: ok bs rule: pread_all.induct)
  case (1 fd len off h)
  obtain r g where pr: "pread fd len off h = (r, g)" by fastforce
  have g: "g = h\<lparr>h_script := h_script g\<rparr>" using pr by (rule pread_host)
  show ?case
  proof (cases "len = 0")
    case True
    with 1(3) show ?thesis by (auto simp: pread_all.simps [of fd 0 off h])
  next
    case False
    show ?thesis
    proof (cases r)
      case (Err e)
      show ?thesis
      proof (cases "e = EINTR")
        case True
        with 1(3) False pr Err have "pread_all fd len off g = ((ok, bs), h')"
          by (simp add: pread_all.simps [of fd len off h])
        with 1(1) [OF False pr [symmetric] Err True] have
          "h' = g\<lparr>h_script := h_script h'\<rparr>" "length bs \<le> len" "ok \<longleftrightarrow> length bs = len" by auto
        with g show ?thesis using script_update_trans by blast
      next
        case ne: False
        with 1(3) False pr Err have "h' = g" "bs = []" "\<not> ok"
          by (auto simp: pread_all.simps [of fd len off h])
        with g False show ?thesis by (metis le0 list.size(3))
      qed
    next
      case (Ret xs)
      have xs: "length xs \<le> len" using pr Ret pread_length by blast
      show ?thesis
      proof (cases "xs = []")
        case True
        with 1(3) False pr Ret have "h' = g" "bs = []" "\<not> ok"
          by (auto simp: pread_all.simps [of fd len off h])
        with g False show ?thesis by (metis le0 list.size(3))
      next
        case ne: False
        obtain rest where rec: "pread_all fd (len - length xs) (off + length xs) g = ((ok, rest), h')"
          and bs: "bs = xs @ rest"
          using 1(3) False pr Ret ne by (auto simp: pread_all.simps [of fd len off h] split: prod.splits)
        with 1(2) [OF False pr [symmetric] Ret ne] have
          "h' = g\<lparr>h_script := h_script h'\<rparr>" "length rest \<le> len - length xs"
          "ok \<longleftrightarrow> length rest = len - length xs" by auto
        moreover from this have "h' = h\<lparr>h_script := h_script h'\<rparr>" using g script_update_trans by blast
        ultimately show ?thesis using xs bs by auto
      qed
    qed
  qed
qed

lemma pwrite_all_unwritable:
  assumes "h_fds h fd = Some f" and "\<not> of_writable f"
  shows "pwrite_all fd bs off h = (bs = [], h)"
  using assms by (simp add: pwrite_all.simps [of fd bs off h] pwrite_def)

lemma transfer_frame:
  "h_files (snd (transfer n h)) = h_files h" "h_fds (snd (transfer n h)) = h_fds h"
  "h_heap (snd (transfer n h)) = h_heap h" "h_maps (snd (transfer n h)) = h_maps h"
  by (auto simp: transfer_def split: list.splits)

lemma fsync_frame:
  "h_files (snd (fsync fd h)) = h_files h" "h_fds (snd (fsync fd h)) = h_fds h" "h_maps (snd (fsync fd h)) = h_maps h"
  using transfer_frame [of 0 h]
  by (auto simp: fsync_def split: option.splits prod.splits sysret.splits)

lemma pwrite_held: "pwrite fd bs off h = (r, h') \<Longrightarrow> h_fds h' = h_fds h \<and> h_maps h' = h_maps h"
  using transfer_frame [of "length bs" h]
  by (auto simp: pwrite_def split: option.splits if_splits prod.splits sysret.splits)

lemma pwrite_all_held:
  "h_fds (snd (pwrite_all fd bs off h)) = h_fds h \<and> h_maps (snd (pwrite_all fd bs off h)) = h_maps h"
proof (induction fd bs off h rule: pwrite_all.induct)
  case (1 fd bs off h)
  obtain r h' where p: "pwrite fd bs off h = (r, h')" by fastforce
  with pwrite_held have h': "h_fds h' = h_fds h" "h_maps h' = h_maps h" by blast+
  from 1 p h' show ?case
    by (cases r) (auto simp: pwrite_all.simps [of fd bs off h])
qed

lemma fsync_script: "suffix (h_script (snd (fsync fd h))) (h_script h)"
  "h_heap (snd (fsync fd h)) = h_heap h"
  using transfer_frame [of 0 h] transfer_script [of 0 h]
  by (auto simp: fsync_def split: option.splits prod.splits sysret.splits)

lemma fsync_durable:
  assumes "opened h fd f c" and "fsync fd h = (Ret u, h')"
  shows "h_disk h' (of_path f) = Some c"
  using assms transfer_frame [of 0 h]
  by (auto simp: fsync_def opened_def split: prod.splits sysret.splits)

end
