(* ===== verification/Driver.thy ===== *)
theory Driver
  imports Virtio_Mmio Host_Files
begin

unbundle bit_operations_syntax

text \<open>
  What the two drivers have in common. The state of a daemon is the transport with the device it
  serves, the state of the fabric, and the host. \<open>ack_notify\<close>, the wait for an available chain, the
  service loop over a queue and the dispatch of a register write are written out in both
  \<^verbatim>\<open>src/drivers/virtio-blkd.c\<close> and \<^verbatim>\<open>src/drivers/virtio-consoled.c\<close> with the same statements; here they
  are written once, over the function that processes one chain, and each driver instantiates them.
\<close>

section \<open>State of a daemon\<close>

record ('o, 'f) daemon =
  dm_mmio :: "'o virtio_mmio"
  dm_fab :: 'f
  dm_host :: host

abbreviation dm_vdev :: "('o, 'f) daemon \<Rightarrow> 'o virtio_device" where
  "dm_vdev s \<equiv> vm_vdev (dm_mmio s)"

abbreviation dm_opaque :: "('o, 'f) daemon \<Rightarrow> 'o" where
  "dm_opaque s \<equiv> vd_opaque (dm_vdev s)"

definition set_vdev :: "('o virtio_device \<Rightarrow> 'o virtio_device) \<Rightarrow> ('o, 'f) daemon \<Rightarrow> ('o, 'f) daemon" where
  "set_vdev g s = s\<lparr>dm_mmio := (dm_mmio s)\<lparr>vm_vdev := g (dm_vdev s)\<rparr>\<rparr>"

definition set_opaque :: "('o \<Rightarrow> 'o) \<Rightarrow> ('o, 'f) daemon \<Rightarrow> ('o, 'f) daemon" where
  "set_opaque g = set_vdev (\<lambda>d. d\<lparr>vd_opaque := g (vd_opaque d)\<rparr>)"

text \<open>A call of the fabric and a call on host files, as actions of the daemon.\<close>

definition on_fab :: "('f, 'a) act \<Rightarrow> (('o, 'f) daemon, 'a) act" where
  "on_fab m = (\<lambda>s. case m (dm_fab s) of (r, f) \<Rightarrow> (r, s\<lparr>dm_fab := f\<rparr>))"

definition on_host :: "(host \<Rightarrow> 'a \<times> host) \<Rightarrow> (('o, 'f) daemon, 'a) act" where
  "on_host m = (\<lambda>s. case m (dm_host s) of (x, h) \<Rightarrow> (OK x, s\<lparr>dm_host := h\<rparr>))"

text \<open>\<open>&dev->queues[i]\<close>; the drivers index their queue arrays with constants or checked indices.\<close>

definition dev_queue :: "nat \<Rightarrow> (('o, 'f) daemon, virtio_queue) act" where
  "dev_queue i = (\<lambda>s.
     if i < length (vd_queues (dm_vdev s)) then (OK (vd_queues (dm_vdev s) ! i), s) else (Trap, s))"

definition upd_queue :: "nat \<Rightarrow> (virtio_queue \<Rightarrow> virtio_queue) \<Rightarrow> ('o, 'f) daemon \<Rightarrow> ('o, 'f) daemon" where
  "upd_queue i g = set_vdev (\<lambda>d. d\<lparr>vd_queues := (vd_queues d)[i := g (vd_queues d ! i)]\<rparr>)"

lemma fst_on_fab: "fst (on_fab m s) = fst (m (dm_fab s))"
  by (simp add: on_fab_def split: prod.splits)

section \<open>Notification handling shared by the drivers\<close>

definition ack_notify :: "'f fabric_ops \<Rightarrow> (('o, 'f) daemon, unit) act" where
  "ack_notify F = (\<lambda>s.
     if vd_interrupt_status (dm_vdev s) AND VIRTIO_INTERRUPT_VRING \<noteq> 0
     then on_fab (fabric_raise_irq F) s else on_fab (fabric_lower_irq F) s)"

text \<open>The retries of an empty poll: up to twenty sleeps of a millisecond.\<close>

fun next_avail_retry :: "'f fabric_ops \<Rightarrow> virtio_queue \<Rightarrow> nat \<Rightarrow> ('f, u16 option) act" where
  "next_avail_retry F q 0 = ret None"
| "next_avail_retry F q (Suc n) =
     bnd (modify (fabric_usleep F 1000)) (\<lambda>_.
     bnd (virtio_next_avail F q) (\<lambda>next.
     case next of None \<Rightarrow> next_avail_retry F q n | Some head \<Rightarrow> ret (Some head)))"

definition wait_avail :: "'f fabric_ops \<Rightarrow> virtio_queue \<Rightarrow> ('f, u16 option) act" where
  "wait_avail F q =
     bnd (virtio_next_avail F q) (\<lambda>next.
     case next of None \<Rightarrow> next_avail_retry F q 20 | Some head \<Rightarrow> ret (Some head))"

text \<open>
  The service loop, one unit of fuel per iteration; \<open>process\<close> is the driver's chain function, which
  returns the length to report. The result tells whether any chain was completed.
\<close>

fun service_loop ::
  "'f fabric_ops \<Rightarrow> (u16 \<Rightarrow> (('o, 'f) daemon, u32) act) \<Rightarrow> nat \<Rightarrow> nat \<Rightarrow> bool \<Rightarrow> (('o, 'f) daemon, bool) act" where
  "service_loop F process i 0 used_any = spin"
| "service_loop F process i (Suc n) used_any =
     bnd (dev_queue i) (\<lambda>q.
     bnd (on_fab (wait_avail F q)) (\<lambda>next.
     case next of
       None \<Rightarrow> ret used_any
     | Some head \<Rightarrow>
         bnd (process head) (\<lambda>used_len.
         bnd (dev_queue i) (\<lambda>q.
         bnd (on_fab (virtio_add_used F q head used_len)) (\<lambda>_.
         bnd (modify (upd_queue i (\<lambda>q. q\<lparr>vq_last_avail_idx := vq_last_avail_idx q + 1\<rparr>))) (\<lambda>_.
         service_loop F process i n True))))))"

definition raise_vring :: "'f fabric_ops \<Rightarrow> (('o, 'f) daemon, unit) act" where
  "raise_vring F =
     bnd (modify (set_vdev (\<lambda>d. d\<lparr>vd_interrupt_status := vd_interrupt_status d OR VIRTIO_INTERRUPT_VRING\<rparr>))) (\<lambda>_.
     on_fab (fabric_raise_irq F))"

definition service_queue ::
  "'f fabric_ops \<Rightarrow> (u16 \<Rightarrow> (('o, 'f) daemon, u32) act) \<Rightarrow> nat \<Rightarrow> nat \<Rightarrow> (('o, 'f) daemon, unit) act" where
  "service_queue F process i fuel =
     bnd (service_loop F process i fuel False) (\<lambda>used_any.
     if used_any then raise_vring F else ack_notify F)"

section \<open>Register accesses\<close>

text \<open>
  The write callback of a driver: the transport applies the write; clearing the status and
  acknowledging an interrupt lower the line; a notification goes to the driver's queue handler,
  called through the operation table.
\<close>

definition driver_mmio_write ::
  "'f fabric_ops \<Rightarrow> ('o, ('o, 'f) daemon) virtio_device_ops \<Rightarrow> u64 \<Rightarrow> u64 \<Rightarrow> u32 \<Rightarrow> (('o, 'f) daemon, unit) act" where
  "driver_mmio_write F ops offset raw_value len =
     bnd (modify (\<lambda>s. s\<lparr>dm_mmio := virtio_mmio_write (Some ops) (dm_mmio s) offset raw_value\<rparr>)) (\<lambda>_.
     bnd (if offset = VIRTIO_MMIO_STATUS \<and> raw_value = 0 then on_fab (fabric_lower_irq F) else ret ()) (\<lambda>_.
     bnd (if offset = VIRTIO_MMIO_INTERRUPT_ACK then on_fab (fabric_lower_irq F) else ret ()) (\<lambda>_.
     if offset = VIRTIO_MMIO_QUEUE_NOTIFY then
       (case op_notify_queue ops of None \<Rightarrow> trap | Some notify \<Rightarrow> notify (ucast raw_value))
     else ret ())))"

definition driver_mmio_read ::
  "('o, ('o, 'f) daemon) virtio_device_ops \<Rightarrow> u64 \<Rightarrow> u32 \<Rightarrow> ('o, 'f) daemon \<Rightarrow> u64" where
  "driver_mmio_read ops offset len s = virtio_mmio_read (Some ops) (dm_mmio s) offset len"

text \<open>How the dispatch treats the three kinds of registers.\<close>

lemma driver_write_plain:
  assumes "off \<noteq> VIRTIO_MMIO_STATUS" and "off \<noteq> VIRTIO_MMIO_INTERRUPT_ACK" and "off \<noteq> VIRTIO_MMIO_QUEUE_NOTIFY"
  shows "driver_mmio_write F ops off v len s = (OK (), s\<lparr>dm_mmio := virtio_mmio_write (Some ops) (dm_mmio s) off v\<rparr>)"
  using assms by (simp add: driver_mmio_write_def bnd_def)

lemma driver_write_notify:
  assumes "op_notify_queue ops = Some notify"
  shows "driver_mmio_write F ops VIRTIO_MMIO_QUEUE_NOTIFY v len s = notify (ucast v) s"
proof -
  have "VIRTIO_MMIO_QUEUE_NOTIFY \<notin> set write_registers" by (simp add: write_registers_def vm_simps)
  moreover have "VIRTIO_MMIO_QUEUE_NOTIFY \<noteq> VIRTIO_MMIO_STATUS" "VIRTIO_MMIO_QUEUE_NOTIFY \<noteq> VIRTIO_MMIO_INTERRUPT_ACK"
    by (simp_all add: vm_simps)
  ultimately show ?thesis
    using assms by (simp add: driver_mmio_write_def bnd_def virtio_mmio_write_other)
qed

section \<open>Invariants of the shared parts\<close>

lemma set_vdev_simps [simp]:
  "dm_vdev (set_vdev g s) = g (dm_vdev s)" "dm_fab (set_vdev g s) = dm_fab s"
  "dm_host (set_vdev g s) = dm_host s"
  by (simp_all add: set_vdev_def)

lemma set_opaque_simps [simp]:
  "dm_vdev (set_opaque k s) = (dm_vdev s)\<lparr>vd_opaque := k (dm_opaque s)\<rparr>"
  "dm_fab (set_opaque k s) = dm_fab s" "dm_host (set_opaque k s) = dm_host s"
  by (simp_all add: set_opaque_def)

lemma upd_queue_simps [simp]:
  "dm_vdev (upd_queue i k s) = (dm_vdev s)\<lparr>vd_queues := (vd_queues (dm_vdev s))[i := k (vd_queues (dm_vdev s) ! i)]\<rparr>"
  "dm_fab (upd_queue i k s) = dm_fab s" "dm_host (upd_queue i k s) = dm_host s"
  by (simp_all add: upd_queue_def)

text \<open>
  What the invariants of the drivers look at: the driver's own part, the number of queues and the
  host. Such an invariant is kept by every shared step, whatever the fabric does.
\<close>

definition host_inv :: "('o \<Rightarrow> host \<Rightarrow> bool) \<Rightarrow> ('o, 'f) daemon \<Rightarrow> bool" where
  "host_inv P s \<longleftrightarrow> P (dm_opaque s) (dm_host s)"

lemma host_inv_on_fab [intro]: "keeps (host_inv P) (on_fab m)"
  by (rule keepsI) (simp add: host_inv_def on_fab_def split: prod.splits)

lemma host_inv_dev_queue [intro]: "keeps (host_inv P) (dev_queue i)"
  by (rule keepsI) (simp add: host_inv_def dev_queue_def)

lemma host_inv_ack_notify [intro]: "keeps (host_inv P) (ack_notify F)"
  unfolding ack_notify_def using host_inv_on_fab [of P] by (auto simp: keeps_def)

lemma host_inv_raise_vring [intro]: "keeps (host_inv P) (raise_vring F)"
  unfolding raise_vring_def by (intro keeps_bnd keeps_modify) (auto simp: host_inv_def)

lemma host_inv_service_loop:
  assumes "\<And>head. keeps (host_inv P) (process head)"
  shows "keeps (host_inv P) (service_loop F process i n used)"
proof (induction n arbitrary: used)
  case (Suc n)
  have upd: "keeps (host_inv P) (modify (upd_queue i k))" for k :: "virtio_queue \<Rightarrow> virtio_queue"
    by (rule keeps_modify) (simp add: host_inv_def)
  show ?case
    unfolding service_loop.simps
    by (intro keeps_bnd keeps_option host_inv_dev_queue host_inv_on_fab assms upd Suc.IH keeps_basic)
qed simp

lemma host_inv_service_queue:
  assumes "\<And>head. keeps (host_inv P) (process head)"
  shows "keeps (host_inv P) (service_queue F process i fuel)"
  unfolding service_queue_def
  by (intro keeps_bnd keeps_if host_inv_service_loop assms host_inv_raise_vring host_inv_ack_notify)

lemma host_inv_mmio_write:
  assumes "op_reset ops = None" and "\<And>notify v. op_notify_queue ops = Some notify \<Longrightarrow> keeps (host_inv P) (notify v)"
  shows "keeps (host_inv P) (driver_mmio_write F ops off v len)"
proof -
  have "vd_opaque (vm_vdev (virtio_mmio_write (Some ops) m off v)) = vd_opaque (vm_vdev m)" for m :: "'a virtio_mmio"
    using write_identity [of "Some ops" m off v] assms(1) by (simp add: no_reset_hook_def same_identity_def)
  then have "keeps (host_inv P) (modify (\<lambda>s. s\<lparr>dm_mmio := virtio_mmio_write (Some ops) (dm_mmio s) off v\<rparr>))"
    by (intro keeps_modify) (simp add: host_inv_def)
  with assms(2) show ?thesis
    unfolding driver_mmio_write_def
    by (intro keeps_bnd keeps_if keeps_option host_inv_on_fab keeps_basic) auto
qed

text \<open>Likewise for what an invariant of the fabric's state needs: every fabric operation keeps it.\<close>

definition fab_inv :: "('f \<Rightarrow> bool) \<Rightarrow> ('o, 'f) daemon \<Rightarrow> bool" where
  "fab_inv P s \<longleftrightarrow> P (dm_fab s)"

lemma fab_inv_on_fab: "keeps P m \<Longrightarrow> keeps (fab_inv P) (on_fab m)"
  by (rule keepsI) (auto simp: fab_inv_def on_fab_def keeps_def split: prod.splits)

lemma fab_inv_host: "keeps (fab_inv P) (on_host m)"
  by (rule keepsI) (simp add: fab_inv_def on_host_def split: prod.splits)

lemma fab_inv_dev_queue: "keeps (fab_inv P) (dev_queue i)"
  by (rule keepsI) (simp add: fab_inv_def dev_queue_def)

lemma fab_inv_vdev: "keeps (fab_inv P) (modify (set_vdev g))" "keeps (fab_inv P) (modify (upd_queue i k))"
  "keeps (fab_inv P) (modify (\<lambda>s. s\<lparr>dm_mmio := h s\<rparr>))"
  by (rule keeps_modify, simp add: fab_inv_def)+

context fabric_keeps
begin

lemmas fab_parts = keeps_bnd keeps_if keeps_option keeps_prod keeps_attempt keeps_basic fab_inv_dev_queue fab_inv_vdev
  fab_inv_host

lemma keeps_next_avail: "keeps P (virtio_next_avail F q)"
  unfolding virtio_next_avail_def Let_def by (intro fab_parts keeps_read_u16)

lemma keeps_add_used: "keeps P (virtio_add_used F q head len)"
  unfolding virtio_add_used_def Let_def by (intro fab_parts keeps_read_u16 keeps_write)

lemma keeps_read_desc: "keeps P (virtio_read_desc F q i)"
  unfolding virtio_read_desc_def by (intro fab_parts keeps_read_into)

lemma keeps_retry: "keeps P (next_avail_retry F q n)"
proof (induction n)
  case (Suc n)
  show ?case unfolding next_avail_retry.simps
    by (intro fab_parts keeps_next_avail keeps_modify Suc.IH) (rule keeps_usleep)
qed (simp add: keeps_def)

lemma keeps_wait_avail: "keeps P (wait_avail F q)"
  unfolding wait_avail_def by (intro fab_parts keeps_next_avail keeps_retry)

lemma fab_inv_ack_notify: "keeps (fab_inv P) (ack_notify F)"
  using fab_inv_on_fab [OF keeps_raise] fab_inv_on_fab [OF keeps_lower] by (auto simp: ack_notify_def keeps_def)

lemma fab_inv_service_queue:
  assumes "\<And>head. keeps (fab_inv P) (process head)"
  shows "keeps (fab_inv P) (service_queue F process i n)"
proof -
  have "keeps (fab_inv P) (service_loop F process i n used)" for used
  proof (induction n arbitrary: used)
    case (Suc n)
    show ?case unfolding service_loop.simps
      by (intro fab_parts fab_inv_on_fab keeps_wait_avail keeps_add_used assms Suc.IH)
  qed simp
  then show ?thesis unfolding service_queue_def raise_vring_def
    by (intro fab_parts fab_inv_ack_notify fab_inv_on_fab keeps_raise)
qed

lemma fab_inv_mmio_write:
  assumes "\<And>notify v. op_notify_queue ops = Some notify \<Longrightarrow> keeps (fab_inv P) (notify v)"
  shows "keeps (fab_inv P) (driver_mmio_write F ops off v len)"
  unfolding driver_mmio_write_def by (intro fab_parts fab_inv_on_fab keeps_lower assms)

end

end
