(* ===== verification/Config_Args.thy ===== *)
theory Config_Args
  imports Chiplets_Prelude
begin

text \<open>
  The C string functions the argument parsers of the daemons use (\<open>strtok_r\<close> over one separator,
  \<open>strchr\<close>), and the helpers \<open>copy_value\<close> and \<open>parse_bool_value\<close> of the drivers. A C string is the
  list of its characters without the terminator.
\<close>

text \<open>\<open>strchr(s, c)\<close> as the text before the first \<open>c\<close> and the text after it.\<close>

fun split_first :: "char \<Rightarrow> string \<Rightarrow> (string \<times> string) option" where
  "split_first c [] = None"
| "split_first c (x # xs) =
     (if x = c then Some ([], xs) else map_option (\<lambda>(a, b). (x # a, b)) (split_first c xs))"

text \<open>The tokens \<open>strtok_r\<close> returns one after the other: the nonempty pieces between separators.\<close>

function strtok :: "char \<Rightarrow> string \<Rightarrow> string list" where
  "strtok c s =
     (let rest = dropWhile (\<lambda>x. x = c) s in
      if rest = [] then []
      else takeWhile (\<lambda>x. x \<noteq> c) rest # strtok c (dropWhile (\<lambda>x. x \<noteq> c) rest))"
  by pat_completeness auto
termination
proof (relation "measure (\<lambda>(c, s). length s)", goal_cases)
  case (2 c s rest)
  then have hd: "hd rest \<noteq> c" by (metis (mono_tags) hd_dropWhile)
  have "rest \<noteq> []" using 2 by simp
  with hd have "length (dropWhile (\<lambda>x. x \<noteq> c) rest) < length rest"
    by (cases rest) (auto simp: less_Suc_eq_le length_dropWhile_le)
  also have "length rest \<le> length s" using 2 by (simp add: length_dropWhile_le)
  finally show ?case by simp
qed simp

declare strtok.simps [simp del]

text \<open>The destination has \<open>out_len\<close> bytes; on success it holds the value.\<close>

definition copy_value :: "string \<Rightarrow> nat \<Rightarrow> string option" where
  "copy_value value out_len = (if length value \<ge> out_len then None else Some value)"

definition parse_bool_value :: "string \<Rightarrow> bool option" where
  "parse_bool_value value =
     (if value = ''true'' \<or> value = ''1'' then Some True
      else if value = ''false'' \<or> value = ''0'' then Some False
      else None)"

lemma split_first_join: "split_first c s = Some (a, b) \<longleftrightarrow> s = a @ c # b \<and> c \<notin> set a"
proof (induction s arbitrary: a)
  case (Cons x xs)
  then show ?case by (cases a) auto
qed simp

lemma split_first_None: "split_first c s = None \<longleftrightarrow> c \<notin> set s"
  by (induction s) auto

lemma strtok_clean: "t \<in> set (strtok c s) \<Longrightarrow> t \<noteq> [] \<and> c \<notin> set t"
proof (induction c s rule: strtok.induct)
  case (1 c s)
  define rest where "rest = dropWhile (\<lambda>x. x = c) s"
  show ?case
  proof (cases "rest = []")
    case True
    with 1(2) show ?thesis by (simp add: strtok.simps [of c s] rest_def)
  next
    case False
    then have "hd rest \<noteq> c" unfolding rest_def by (metis (mono_tags) hd_dropWhile)
    with False have "takeWhile (\<lambda>x. x \<noteq> c) rest \<noteq> []" by (cases rest) auto
    with 1 False show ?thesis
      by (auto simp: strtok.simps [of c s] rest_def [symmetric] Let_def dest: set_takeWhileD)
  qed
qed

lemma strtok_sep: "strtok c (c # s) = strtok c s"
  by (simp add: strtok.simps [of c "c # s"] strtok.simps [of c s])

lemma strtok_Nil [simp]: "strtok c [] = []"
  by (simp add: strtok.simps)

lemma strtok_token:
  assumes "t \<noteq> []" and "c \<notin> set t"
  shows "strtok c (t @ c # s) = t # strtok c s" and "strtok c t = [t]"
proof -
  obtain x xs where t: "t = x # xs" using assms(1) by (cases t) auto
  have tw: "takeWhile (\<lambda>x. x \<noteq> c) t = t" "dropWhile (\<lambda>x. x \<noteq> c) t = []"
    using assms(2) by (auto simp: takeWhile_eq_all_conv dropWhile_eq_Nil_conv)
  have tw2: "takeWhile (\<lambda>x. x \<noteq> c) (t @ c # s) = t \<and> dropWhile (\<lambda>x. x \<noteq> c) (t @ c # s) = c # s"
    using assms(2) by (induction t) auto
  have "dropWhile (\<lambda>x. x = c) (t @ c # s) = t @ c # s" "dropWhile (\<lambda>x. x = c) t = t"
    using assms(2) by (auto simp: t)
  with tw tw2 assms(1) show "strtok c (t @ c # s) = t # strtok c s" "strtok c t = [t]"
    by (simp_all add: strtok.simps [of c "t @ c # s"] strtok.simps [of c t] strtok_sep del: dropWhile_eq_Nil_conv takeWhile_eq_all_conv)
qed

text \<open>Joining clean tokens with the separator and splitting again gives the tokens back.\<close>

fun join_with :: "char \<Rightarrow> string list \<Rightarrow> string" where
  "join_with c [] = []"
| "join_with c [t] = t"
| "join_with c (t # ts) = t @ c # join_with c ts"

lemma strtok_join:
  assumes "\<forall>t \<in> set ts. t \<noteq> [] \<and> c \<notin> set t"
  shows "strtok c (join_with c ts) = ts"
  using assms by (induction c ts rule: join_with.induct) (auto simp: strtok_token)

end
