(* ===== verification/Linux_Uio.thy ===== *)
theory Linux_Uio
  imports Driver Config_Args
begin

unbundle bit_operations_syntax

text \<open>
  The Linux UIO fabric, \<^verbatim>\<open>src/fabrics/linux_uio.c\<close>: endpoint parsing, the mapped register and DMA
  windows, DMA, the deferred interrupt level, and the event loop that turns register changes into
  device callbacks. The two windows are memory the guest writes too: what it does to them while the
  daemon sleeps or waits for an interrupt is an argument of the functions concerned, and a run of the
  daemon is a function of the list of wake-ups it receives.
\<close>

section \<open>Mapped windows\<close>

definition UIO_NOTIFY_IDLE :: u32 where "UIO_NOTIFY_IDLE = 0xffffffff"
definition UIO_IRQ_CONTROL_OFFSET :: u64 where "UIO_IRQ_CONTROL_OFFSET = 0x200"

record uio_config =
  uc_path :: string
  uc_irq_control_offset :: u64
  uc_dma_base :: u64

text \<open>
  A mapping: \<open>um_mapped\<close> tells whether \<open>addr\<close> is not NULL, \<open>um_mem\<close> is what is mapped there, by offset,
  and \<open>um_len\<close> the length given to \<open>mmap\<close>; an access outside of it faults.
\<close>

record uio_mapping =
  um_mapped :: bool
  um_mem :: memory
  um_len :: nat
  um_size :: u64

record uio_state =
  us_fd :: int
  us_config :: uio_config
  us_mmio :: uio_mapping
  us_dma :: uio_mapping
  us_pending_irq_level :: int

definition region_ok :: "uio_mapping \<Rightarrow> u64 \<Rightarrow> nat \<Rightarrow> bool" where
  "region_ok rg off n \<longleftrightarrow> um_mapped rg \<and> unat off + n \<le> um_len rg"

definition uio_load_le32 :: "u64 \<Rightarrow> (uio_state, u32) act" where
  "uio_load_le32 off = (\<lambda>g.
     if region_ok (us_mmio g) off 4 then (OK (virtio_load_le32 (mem_read (um_mem (us_mmio g)) off 4)), g)
     else (Trap, g))"

definition uio_store_le32 :: "u64 \<Rightarrow> u32 \<Rightarrow> (uio_state, unit) act" where
  "uio_store_le32 off value = (\<lambda>g.
     if region_ok (us_mmio g) off 4
     then (OK (), g\<lparr>us_mmio := (us_mmio g)\<lparr>um_mem := mem_write (um_mem (us_mmio g)) off (virtio_store_le32 value)\<rparr>\<rparr>)
     else (Trap, g))"

section \<open>Numbers and endpoints\<close>

text \<open>\<open>strtoull\<close> and \<open>strtoul\<close>: white space, a sign, the prefixes of base 0, digits, saturation with ERANGE.\<close>

definition is_space :: "char \<Rightarrow> bool" where
  "is_space c \<longleftrightarrow> c = CHR '' '' \<or> (9 \<le> (of_char c :: nat) \<and> (of_char c :: nat) \<le> 13)"

definition digit_val :: "char \<Rightarrow> nat option" where
  "digit_val c = (let n = (of_char c :: nat) in
     if 48 \<le> n \<and> n \<le> 57 then Some (n - 48)
     else if 97 \<le> n \<and> n \<le> 122 then Some (n - 87)
     else if 65 \<le> n \<and> n \<le> 90 then Some (n - 55)
     else None)"

definition digit_in :: "nat \<Rightarrow> char \<Rightarrow> bool" where
  "digit_in base c \<longleftrightarrow> (case digit_val c of None \<Rightarrow> False | Some d \<Rightarrow> d < base)"

definition digits_value :: "nat \<Rightarrow> string \<Rightarrow> nat" where
  "digits_value base ds = foldl (\<lambda>acc c. acc * base + (case digit_val c of None \<Rightarrow> 0 | Some d \<Rightarrow> d)) 0 ds"

text \<open>The base and the text after the prefix, for base 0.\<close>

definition hex_prefixed :: "string \<Rightarrow> bool" where
  "hex_prefixed s \<longleftrightarrow> 2 < length s \<and> s ! 0 = CHR ''0'' \<and> (s ! 1 = CHR ''x'' \<or> s ! 1 = CHR ''X'') \<and> digit_in 16 (s ! 2)"

definition auto_base :: "string \<Rightarrow> nat \<times> string" where
  "auto_base s =
     (if hex_prefixed s then (16, drop 2 s)
      else if s \<noteq> [] \<and> hd s = CHR ''0'' then (8, s)
      else (10, s))"

text \<open>Base 16 accepts the prefix too.\<close>

definition strip_hex :: "string \<Rightarrow> string" where
  "strip_hex s = (if hex_prefixed s then drop 2 s else s)"

text \<open>The value, the rest of the text, and whether \<open>errno\<close> was set; \<open>None\<close> when there is no number.\<close>

definition strtoull :: "nat \<Rightarrow> string \<Rightarrow> (u64 \<times> string \<times> bool) option" where
  "strtoull base0 s =
     (let s1 = dropWhile is_space s;
          neg = (s1 \<noteq> [] \<and> hd s1 = CHR ''-'');
          s2 = (if s1 \<noteq> [] \<and> (hd s1 = CHR ''-'' \<or> hd s1 = CHR ''+'') then tl s1 else s1);
          (base, s3) = (if base0 = 0 then auto_base s2 else (base0, if base0 = 16 then strip_hex s2 else s2));
          ds = takeWhile (digit_in base) s3;
          v = digits_value base ds
      in if ds = [] then None
         else if v \<ge> 2 ^ 64 then Some (0xffffffffffffffff, dropWhile (digit_in base) s3, True)
         else Some (if neg then - of_nat v else of_nat v, dropWhile (digit_in base) s3, False))"

definition parse_u64 :: "string \<Rightarrow> u64 option" where
  "parse_u64 value =
     (if value = [] then None
      else case strtoull 0 value of
        None \<Rightarrow> None
      | Some (parsed, rest, erange) \<Rightarrow> if erange \<or> rest \<noteq> [] then None else Some parsed)"

definition parse_endpoint :: "string \<Rightarrow> uio_config option" where
  "parse_endpoint endpoint =
     (if endpoint = [] then None
      else let value = (if take 4 endpoint = ''uio:'' then drop 4 endpoint else endpoint) in
        case split_first (CHR '':'') value of
          None \<Rightarrow>
            if value = [] \<or> length value \<ge> 256 then None
            else Some \<lparr>uc_path = value, uc_irq_control_offset = UIO_IRQ_CONTROL_OFFSET, uc_dma_base = 0\<rparr>
        | Some (path, rest) \<Rightarrow>
            if path = [] \<or> length path \<ge> 256 then None
            else let (offset, base) = (case split_first (CHR '':'') rest of
                         None \<Rightarrow> (rest, None) | Some (o', b) \<Rightarrow> (o', Some b)) in
              if offset = [] \<or> length offset \<ge> 64 then None
              else case parse_u64 offset of
                None \<Rightarrow> None
              | Some irq \<Rightarrow>
                  (case base of
                     None \<Rightarrow> Some \<lparr>uc_path = path, uc_irq_control_offset = irq, uc_dma_base = 0\<rparr>
                   | Some b \<Rightarrow> (case parse_u64 b of
                       None \<Rightarrow> None
                     | Some dma \<Rightarrow> Some \<lparr>uc_path = path, uc_irq_control_offset = irq, uc_dma_base = dma\<rparr>)))"

text \<open>The text after the last slash, \<open>strrchr(path, '/') + 1\<close> or the whole path.\<close>

definition base_name :: "string \<Rightarrow> string" where
  "base_name path = rev (takeWhile (\<lambda>c. c \<noteq> CHR ''/'') (rev path))"

definition uio_index_from_path :: "string \<Rightarrow> u32 option" where
  "uio_index_from_path path =
     (let base = base_name path in
      if take 3 base \<noteq> ''uio'' then None
      else case strtoull 10 (drop 3 base) of
        None \<Rightarrow> (if drop 3 base = [] then Some 0 else None)
      | Some (parsed, rest, erange) \<Rightarrow>
          if erange \<or> rest \<noteq> [] \<or> parsed > 0xffffffff then None else Some (ucast parsed))"

section \<open>DMA\<close>

definition dma_offset :: "uio_state \<Rightarrow> u64 \<Rightarrow> u32 \<Rightarrow> u64 option" where
  "dma_offset g gpa len =
     (if gpa < uc_dma_base (us_config g) then None
      else let offset = gpa - uc_dma_base (us_config g) in
        if offset \<le> um_size (us_dma g) \<and> ucast len \<le> um_size (us_dma g) - offset then Some offset else None)"

definition uio_dma_read_into :: "u64 \<Rightarrow> u32 \<Rightarrow> (uio_state, u8 list) act" where
  "uio_dma_read_into gpa len = (\<lambda>g.
     if len = 0 then (OK [], g)
     else case dma_offset g gpa len of
       None \<Rightarrow> (Fail, g)
     | Some offset \<Rightarrow>
         if region_ok (us_dma g) offset (unat len)
         then (OK (mem_read (um_mem (us_dma g)) offset (unat len)), g)
         else (Trap, g))"

definition uio_dma_read :: "nat \<Rightarrow> u64 \<Rightarrow> u32 \<Rightarrow> (uio_state, u8 list) act" where
  "uio_dma_read heap gpa len =
     (if len = 0 then ret []
      else if unat len > heap then fail
      else uio_dma_read_into gpa len)"

definition uio_dma_map :: "u64 \<Rightarrow> u32 \<Rightarrow> (uio_state, u64 option) act" where
  "uio_dma_map gpa len = (\<lambda>g.
     if len = 0 then (OK None, g)
     else case dma_offset g gpa len of
       None \<Rightarrow> (Fail, g)
     | Some offset \<Rightarrow> (OK (Some offset), g))"

text \<open>A store of bytes through a pointer that \<open>uio_dma_map\<close> returned.\<close>

definition uio_ptr_store :: "u64 option \<Rightarrow> u8 list \<Rightarrow> (uio_state, unit) act" where
  "uio_ptr_store p bs = (\<lambda>g.
     if bs = [] then (OK (), g)
     else case p of
       None \<Rightarrow> (Trap, g)
     | Some offset \<Rightarrow>
         if region_ok (us_dma g) offset (length bs)
         then (OK (), g\<lparr>us_dma := (us_dma g)\<lparr>um_mem := mem_write (um_mem (us_dma g)) offset bs\<rparr>\<rparr>)
         else (Trap, g))"

definition uio_dma_unmap :: "u64 option \<Rightarrow> u32 \<Rightarrow> (uio_state, unit) act" where
  "uio_dma_unmap p len = ret ()"

definition uio_dma_read_u16 :: "u64 \<Rightarrow> (uio_state, u16) act" where
  "uio_dma_read_u16 gpa = bnd (uio_dma_read_into gpa 2) (\<lambda>data. ret (virtio_load_le16 data))"

definition uio_dma_write :: "u64 \<Rightarrow> u8 list \<Rightarrow> u32 \<Rightarrow> (uio_state, unit) act" where
  "uio_dma_write gpa data len = (\<lambda>g.
     if len = 0 then (OK (), g)
     else case dma_offset g gpa len of
       None \<Rightarrow> (Fail, g)
     | Some offset \<Rightarrow>
         if region_ok (us_dma g) offset (unat len) \<and> unat len \<le> length data
         then (OK (), g\<lparr>us_dma := (us_dma g)\<lparr>um_mem := mem_write (um_mem (us_dma g)) offset (take (unat len) data)\<rparr>\<rparr>)
         else (Trap, g))"

definition uio_raise_irq :: "(uio_state, unit) act" where
  "uio_raise_irq = modify (\<lambda>g. g\<lparr>us_pending_irq_level := 1\<rparr>)"

definition uio_lower_irq :: "(uio_state, unit) act" where
  "uio_lower_irq = modify (\<lambda>g. g\<lparr>us_pending_irq_level := 0\<rparr>)"

text \<open>What the guest does to the two windows.\<close>

type_synonym window_update = "memory \<times> memory \<Rightarrow> memory \<times> memory"

definition guest_acts :: "window_update \<Rightarrow> uio_state \<Rightarrow> uio_state" where
  "guest_acts u g =
     (case u (um_mem (us_mmio g), um_mem (us_dma g)) of (m, d) \<Rightarrow>
        g\<lparr>us_mmio := (us_mmio g)\<lparr>um_mem := m\<rparr>, us_dma := (us_dma g)\<lparr>um_mem := d\<rparr>\<rparr>)"

definition uio_ops :: "(nat \<Rightarrow> window_update) \<Rightarrow> uio_state fabric_ops" where
  "uio_ops env =
     \<lparr>fabric_dma_read = uio_dma_read, fabric_dma_read_into = uio_dma_read_into,
      fabric_dma_map = uio_dma_map, fabric_ptr_store = uio_ptr_store, fabric_dma_unmap = uio_dma_unmap,
      fabric_dma_read_u16 = uio_dma_read_u16, fabric_dma_write = uio_dma_write,
      fabric_raise_irq = uio_raise_irq, fabric_lower_irq = uio_lower_irq,
      fabric_usleep = (\<lambda>t. guest_acts (env t))\<rparr>"

section \<open>The windows as guest memory\<close>

text \<open>
  \<open>uio_ram\<close> is guest memory as the DMA window shows it, by guest physical address; \<open>uio_reach\<close> are the
  ranges inside the window; \<open>uio_live\<close> says that the window is mapped with its whole size.
\<close>

definition uio_live :: "uio_state \<Rightarrow> bool" where
  "uio_live g \<longleftrightarrow> um_mapped (us_dma g) \<and> um_len (us_dma g) = unat (um_size (us_dma g))"

definition uio_ram :: "uio_state \<Rightarrow> memory" where
  "uio_ram g = (\<lambda>gpa. um_mem (us_dma g) (gpa - uc_dma_base (us_config g)))"

definition uio_reach :: "uio_state \<Rightarrow> u64 \<Rightarrow> nat \<Rightarrow> bool" where
  "uio_reach g gpa n \<longleftrightarrow> n = 0 \<or> uc_dma_base (us_config g) \<le> gpa \<and>
     unat (gpa - uc_dma_base (us_config g)) + n \<le> unat (um_size (us_dma g))"

lemma dma_offset_reach:
  assumes "len \<noteq> 0"
  shows "dma_offset g gpa len =
    (if uio_reach g gpa (unat len) then Some (gpa - uc_dma_base (us_config g)) else None)"
proof -
  let ?o = "gpa - uc_dma_base (us_config g)" and ?n = "um_size (us_dma g)"
  have "(?o \<le> ?n \<and> ucast len \<le> ?n - ?o) \<longleftrightarrow> unat ?o + unat len \<le> unat ?n"
    using assms by (auto simp: word_le_nat_alt unat_sub unat_ucast_u32)
  with assms show ?thesis
    by (auto simp: dma_offset_def Let_def uio_reach_def not_less unat_eq_0)
qed

lemma uio_reach_region:
  "uio_live g \<Longrightarrow> uio_reach g gpa n \<Longrightarrow> n \<noteq> 0 \<Longrightarrow> region_ok (us_dma g) (gpa - uc_dma_base (us_config g)) n"
  by (auto simp: uio_live_def uio_reach_def region_ok_def)

lemma uio_ram_read: "mem_read (um_mem (us_dma g)) (gpa - uc_dma_base (us_config g)) n = mem_read (uio_ram g) gpa n"
  by (rule nth_equalityI) (simp_all add: uio_ram_def algebra_simps)

lemma uio_ram_write:
  "uio_ram (g\<lparr>us_dma := (us_dma g)\<lparr>um_mem := mem_write (um_mem (us_dma g)) (gpa - uc_dma_base (us_config g)) d\<rparr>\<rparr>) =
   mem_write (uio_ram g) gpa d"
  by (rule ext) (simp add: uio_ram_def mem_write_def)

lemma uio_read_into_eq:
  "uio_live g \<Longrightarrow> uio_dma_read_into gpa n g =
     (if uio_reach g gpa (unat n) then (OK (mem_read (uio_ram g) gpa (unat n)), g) else (Fail, g))"
  by (auto simp: uio_dma_read_into_def dma_offset_reach uio_reach_region uio_ram_read uio_reach_def unat_eq_0)

lemma uio_write_eq:
  assumes "uio_live g" and "length d = unat n"
  shows "uio_dma_write gpa d n g =
     (if uio_reach g gpa (unat n)
      then (OK (), g\<lparr>us_dma := (us_dma g)\<lparr>um_mem := mem_write (um_mem (us_dma g)) (gpa - uc_dma_base (us_config g)) d\<rparr>\<rparr>)
      else (Fail, g))"
proof (cases "n = 0")
  case True
  with assms show ?thesis by (simp add: uio_dma_write_def uio_reach_def)
next
  case False
  with assms show ?thesis
    by (simp add: uio_dma_write_def dma_offset_reach uio_reach_region unat_eq_0)
qed

lemma uio_window_update [simp]:
  "uio_live (g\<lparr>us_dma := (us_dma g)\<lparr>um_mem := m\<rparr>\<rparr>) = uio_live g"
  "uio_reach (g\<lparr>us_dma := (us_dma g)\<lparr>um_mem := m\<rparr>\<rparr>) = uio_reach g"
  by (auto simp: uio_live_def uio_reach_def fun_eq_iff)

lemma uio_irq_update [simp]:
  "uio_live (g\<lparr>us_pending_irq_level := l\<rparr>) = uio_live g" "uio_ram (g\<lparr>us_pending_irq_level := l\<rparr>) = uio_ram g"
  "uio_reach (g\<lparr>us_pending_irq_level := l\<rparr>) = uio_reach g"
  by (auto simp: uio_live_def uio_ram_def uio_reach_def fun_eq_iff)

lemma uio_map_eq:
  "uio_dma_map gpa n g = (if n = 0 then (OK None, g)
     else if uio_reach g gpa (unat n) then (OK (Some (gpa - uc_dma_base (us_config g))), g) else (Fail, g))"
  by (simp add: uio_dma_map_def dma_offset_reach)

lemma uio_store_eq:
  assumes "uio_live g" and "uio_reach g gpa (unat n)" and "length d \<le> unat n" and "n \<noteq> 0"
  shows "\<exists>h. uio_ptr_store (Some (gpa - uc_dma_base (us_config g))) d g = (OK (), h) \<and>
     uio_live h \<and> uio_ram h = mem_write (uio_ram g) gpa d \<and> uio_reach h = uio_reach g"
proof -
  have "region_ok (us_dma g) (gpa - uc_dma_base (us_config g)) (length d)"
    using uio_reach_region [OF assms(1,2)] assms(3,4) by (auto simp: region_ok_def unat_eq_0)
  with assms(1) show ?thesis by (auto simp: uio_ptr_store_def uio_ram_write)
qed

section \<open>The fabric contract\<close>

interpretation uio: guest_map "uio_ops env" uio_live uio_ram uio_reach "\<lambda>g. us_pending_irq_level g = 1"
proof (unfold_locales, goal_cases)
  case (2 a)
  show ?case by (simp add: uio_ops_def uio_dma_read_u16_def)
next
  case (6 f a n)
  show ?case
  proof (cases "uio_reach f a (unat n)")
    case True
    with 6 show ?thesis
      using uio_store_eq [OF 6 True] by (auto simp: uio_ops_def uio_map_eq uio_ptr_store_def)
  next
    case False
    with 6 show ?thesis by (auto simp: uio_ops_def uio_map_eq uio_reach_def)
  qed
qed (auto simp: uio_ops_def uio_read_into_eq uio_write_eq uio_ram_write uio_raise_irq_def uio_lower_irq_def
    uio_dma_unmap_def)

interpretation uio_bounds: guest_bounds "uio_ops env" uio_live uio_ram uio_reach
  by unfold_locales (auto simp: uio_ops_def uio_dma_read_def uio_read_into_eq uio_write_eq)

interpretation uio_alloc: guest_alloc "uio_ops env" uio_live uio_ram uio_reach "\<lambda>g. us_pending_irq_level g = 1"
  by unfold_locales (auto simp: uio_ops_def uio_dma_read_def uio_read_into_eq mem_read_def unat_eq_0)

lemma uio_safe_read_into: "safe uio_live (uio_dma_read_into a n)"
  by (rule safeI) (simp add: uio_read_into_eq)

lemma guest_acts_live [simp]: "uio_live (guest_acts u g) = uio_live g"
  by (simp add: guest_acts_def uio_live_def split: prod.splits)

lemma uio_store_safe:
  assumes "uio_live f" and "uio_dma_map a n f = (OK p, g)" and "length d \<le> unat n"
  shows "fst (uio_ptr_store p d g) \<noteq> Trap \<and> uio_live (snd (uio_ptr_store p d g))"
proof (cases "n = 0")
  case True
  with assms show ?thesis by (auto simp: uio_map_eq uio_ptr_store_def)
next
  case False
  with assms(2) have r: "uio_reach f a (unat n)" "p = Some (a - uc_dma_base (us_config f))" "g = f"
    by (auto simp: uio_map_eq split: if_splits)
  from uio_store_eq [OF assms(1) r(1) assms(3) False] r show ?thesis by auto
qed

interpretation uio_safety: fabric_safe "uio_ops env" uio_live
proof (unfold_locales, goal_cases)
  case (1 heap a n)
  show ?case by (auto simp: uio_ops_def uio_dma_read_def intro: uio_safe_read_into)
next
  case (10 a n f d g)
  then show ?case by (auto simp: uio_ops_def uio_dma_read_into_def split: option.splits if_splits)
next
  case (11 f a n p g d)
  then show ?case using uio_store_safe by (simp add: uio_ops_def)
qed (auto simp: uio_ops_def safe_def uio_read_into_eq uio_dma_read_u16_def bnd_def uio_write_eq uio_map_eq
    uio_dma_unmap_def uio_raise_irq_def uio_lower_irq_def)

interpretation uio_return: fabric_ends "uio_ops env"
  by unfold_locales
    (auto simp: ends_def uio_ops_def uio_dma_read_def uio_dma_read_into_def uio_dma_read_u16_def uio_dma_write_def
      uio_dma_map_def uio_ptr_store_def uio_dma_unmap_def uio_raise_irq_def uio_lower_irq_def bnd_def
      split: option.splits)

end
