(* ===== verification/Chains.thy ===== *)
theory Chains
  imports Driver
begin

unbundle bit_operations_syntax

text \<open>
  Descriptor chains in guest memory, shared by the two drivers: the flags of \<^verbatim>\<open>linux/virtio_ring.h\<close>, the
  cleared queue and device of the drivers' \<open>memset\<close>, the chain that starts at a descriptor
  (\<open>chain_at\<close>, \<open>decode_chain\<close>) and the bytes its buffers hold (\<open>out_data\<close>).
\<close>

definition VRING_DESC_F_NEXT :: u16 where
  "VRING_DESC_F_NEXT = 1"

definition VRING_DESC_F_WRITE :: u16 where
  "VRING_DESC_F_WRITE = 2"

definition zero_queue :: virtio_queue where
  "zero_queue = \<lparr>vq_num = 0, vq_ready = 0, vq_desc = 0, vq_avail = 0, vq_used = 0, vq_last_avail_idx = 0\<rparr>"

definition zero_vdev :: "virtio_queue list \<Rightarrow> 'o \<Rightarrow> 'o virtio_device" where
  "zero_vdev queues opaque =
     \<lparr>vd_device_id = 0, vd_vendor_id = 0, vd_queue_count = 0, vd_queue_size = 0, vd_queues = queues,
      vd_driver_features = 0, vd_status = 0, vd_interrupt_status = 0, vd_config_generation = 0,
      vd_opaque = opaque\<rparr>"

fun chain_at :: "memory \<Rightarrow> (u64 \<Rightarrow> nat \<Rightarrow> bool) \<Rightarrow> virtio_queue \<Rightarrow> u16 \<Rightarrow> virtio_desc list \<Rightarrow> bool" where
  "chain_at m rch q i [] \<longleftrightarrow> False"
| "chain_at m rch q i (d # ds) \<longleftrightarrow> rch (desc_addr q i) 16 \<and> desc_at m q i = d \<and>
     (if ds = [] then ds_flags d AND VRING_DESC_F_NEXT = 0
      else ds_flags d AND VRING_DESC_F_NEXT \<noteq> 0 \<and> chain_at m rch q (ds_next d) ds)"

fun chain_idx :: "u16 \<Rightarrow> virtio_desc list \<Rightarrow> u16 list" where
  "chain_idx i [] = []"
| "chain_idx i (d # ds) = i # chain_idx (ds_next d) ds"

definition off_table :: "virtio_queue \<Rightarrow> u16 list \<Rightarrow> u64 \<Rightarrow> nat \<Rightarrow> bool" where
  "off_table q js a n \<longleftrightarrow> (\<forall>j \<in> set js. apart a n (desc_addr q j) 16)"

lemma chain_at_write:
  "chain_at m rch q i ds \<Longrightarrow> off_table q (chain_idx i ds) a (length bs) \<Longrightarrow>
   chain_at (mem_write m a bs) rch q i ds"
  by (induction ds arbitrary: i) (auto simp: off_table_def desc_at_def mem_read_write_apart)

definition seg_bytes :: "virtio_desc list \<Rightarrow> nat" where
  "seg_bytes segs = sum_list (map (\<lambda>d. unat (ds_len d)) segs)"

definition out_data :: "memory \<Rightarrow> virtio_desc list \<Rightarrow> u8 list" where
  "out_data m segs = concat (map (\<lambda>d. mem_read m (ds_addr d) (unat (ds_len d))) segs)"

lemma seg_bytes_simps [simp]: "seg_bytes [] = 0" "seg_bytes (d # ds) = unat (ds_len d) + seg_bytes ds"
  by (simp_all add: seg_bytes_def)

lemma out_data_simps [simp]: "out_data m [] = []"
  "out_data m (d # ds) = mem_read m (ds_addr d) (unat (ds_len d)) @ out_data m ds"
  "length (out_data m segs) = seg_bytes segs"
  by (simp_all add: out_data_def seg_bytes_def length_concat comp_def)

lemma chain_at_tail:
  "chain_at m rch q i (d # ds) \<Longrightarrow> ds \<noteq> [] \<Longrightarrow> chain_at m rch q (ds_next d) ds"
  by simp

fun decode_chain :: "nat \<Rightarrow> memory \<Rightarrow> virtio_queue \<Rightarrow> u16 \<Rightarrow> virtio_desc list" where
  "decode_chain 0 m q i = []"
| "decode_chain (Suc n) m q i =
     (let d = desc_at m q i in
      if ds_flags d AND VRING_DESC_F_NEXT = 0 then [d] else d # decode_chain n m q (ds_next d))"

lemma on_fab_run: "m (dm_fab s) = (r, g) \<Longrightarrow> on_fab m s = (r, s\<lparr>dm_fab := g\<rparr>)"
  by (simp add: on_fab_def)

end
