(* ===== verification/Virtio_Blkd.thy ===== *)
theory Virtio_Blkd
  imports Chains Config_Args
begin

unbundle bit_operations_syntax

text \<open>
  The virtio-blk backend, \<^verbatim>\<open>src/drivers/virtio-blkd.h\<close> and \<^verbatim>\<open>src/drivers/virtio-blkd.c\<close>: the image
  backend, the device callbacks, the request processor and the fabric binding. The profiling
  counters and the messages on standard error have no effect on the device and are not modelled.
  The values of the constants from the Linux headers are those of \<^verbatim>\<open>linux/virtio_blk.h\<close>,
  \<^verbatim>\<open>linux/virtio_ring.h\<close>, \<^verbatim>\<open>linux/virtio_ids.h\<close> and \<^verbatim>\<open>linux/virtio_config.h\<close>.
\<close>

section \<open>Constants\<close>

named_theorems blk_consts \<open>constants of the block driver\<close>

definition BLKD_SECTOR_SIZE :: u64 where [blk_consts]: "BLKD_SECTOR_SIZE = 512"
definition BLKD_QUEUE_SIZE :: u32 where [blk_consts]: "BLKD_QUEUE_SIZE = 256"
definition BLKD_MAX_SEG_SIZE :: u32 where [blk_consts]: "BLKD_MAX_SEG_SIZE = 256 * 1024"
definition BLKD_MAX_SEGMENTS :: u32 where [blk_consts]: "BLKD_MAX_SEGMENTS = 128"

declare VRING_DESC_F_NEXT_def [blk_consts] VRING_DESC_F_WRITE_def [blk_consts]
definition VIRTIO_BLK_T_IN :: u32 where [blk_consts]: "VIRTIO_BLK_T_IN = 0"
definition VIRTIO_BLK_T_OUT :: u32 where [blk_consts]: "VIRTIO_BLK_T_OUT = 1"
definition VIRTIO_BLK_T_FLUSH :: u32 where [blk_consts]: "VIRTIO_BLK_T_FLUSH = 4"
definition VIRTIO_BLK_S_OK :: u8 where [blk_consts]: "VIRTIO_BLK_S_OK = 0"
definition VIRTIO_BLK_S_IOERR :: u8 where [blk_consts]: "VIRTIO_BLK_S_IOERR = 1"
definition VIRTIO_BLK_S_UNSUPP :: u8 where [blk_consts]: "VIRTIO_BLK_S_UNSUPP = 2"
definition VIRTIO_ID_BLOCK :: u32 where [blk_consts]: "VIRTIO_ID_BLOCK = 2"
definition INT64_MAX :: u64 where [blk_consts]: "INT64_MAX = 0x7fffffffffffffff"
definition UINT64_MAX :: u64 where [blk_consts]: "UINT64_MAX = 0xffffffffffffffff"

section \<open>State\<close>

record blkd_config =
  bc_image :: string
  bc_socket :: string
  bc_ram_access :: string
  bc_readonly :: bool

record blkd_block_backend =
  bb_fd :: int
  bb_image_len :: u64
  bb_readonly :: bool

text \<open>
  The driver's part of \<open>struct blkd_virtio_device\<close>. \<open>bd_io_buf\<close> is the block the pointer \<open>io_buf\<close> points
  to (empty for NULL); \<open>bd_io_buf_size\<close> is the size the driver believes it has.
\<close>

record blkd_virtio_device =
  bd_backend :: blkd_block_backend
  bd_capacity_sectors :: u64
  bd_io_buf :: "u8 list"
  bd_io_buf_size :: u32

type_synonym 'f blkd = "(blkd_virtio_device, 'f) daemon"

section \<open>Environment switches\<close>

text \<open>The argument is the result of \<open>getenv\<close>; the switches are read once and cached.\<close>

definition blkd_profile_enabled :: "string option \<Rightarrow> bool" where
  "blkd_profile_enabled value = (value = None \<or> value \<noteq> Some ''0'')"

definition blkd_direct_read_enabled :: "string option \<Rightarrow> bool" where
  "blkd_direct_read_enabled value = (value \<noteq> None \<and> value \<noteq> Some ''0'')"

definition blkd_debug_enabled :: "string option \<Rightarrow> bool" where
  "blkd_debug_enabled value = (value \<noteq> None \<and> value \<noteq> Some ''0'')"

section \<open>The image backend\<close>

definition blkd_block_open ::
  "string \<Rightarrow> bool \<Rightarrow> blkd_block_backend \<Rightarrow> host \<Rightarrow> (bool \<times> blkd_block_backend) \<times> host" where
  "blkd_block_open path readonly backend h =
     (case sys_open path True (\<not> readonly) False False h of (fd, h1) \<Rightarrow>
      if fd < 0 then ((False, backend\<lparr>bb_fd := fd\<rparr>), h1)
      else (case sys_fstat fd h1 of
          (Err _, h2) \<Rightarrow> ((False, backend\<lparr>bb_fd := - 1\<rparr>), sys_close fd h2)
        | (Ret st_size, h2) \<Rightarrow>
            ((True, backend\<lparr>bb_fd := fd, bb_image_len := of_nat st_size, bb_readonly := readonly\<rparr>), h2)))"

definition blkd_block_close :: "blkd_block_backend \<Rightarrow> host \<Rightarrow> blkd_block_backend \<times> host" where
  "blkd_block_close backend h =
     (if bb_fd backend \<ge> 0 then (backend\<lparr>bb_fd := - 1\<rparr>, sys_close (bb_fd backend) h) else (backend, h))"

text \<open>The second part of the result of a read is what has been put into the buffer.\<close>

definition blkd_block_read :: "blkd_block_backend \<Rightarrow> u64 \<Rightarrow> u64 \<Rightarrow> host \<Rightarrow> (bool \<times> u8 list) \<times> host" where
  "blkd_block_read backend offset len h =
     (if offset > bb_image_len backend \<or> len > bb_image_len backend - offset \<or> offset > INT64_MAX
      then ((False, []), h)
      else pread_all (bb_fd backend) (unat len) (unat offset) h)"

definition blkd_block_write :: "blkd_block_backend \<Rightarrow> u64 \<Rightarrow> u8 list \<Rightarrow> u64 \<Rightarrow> host \<Rightarrow> bool \<times> host" where
  "blkd_block_write backend offset buf len h =
     (if bb_readonly backend \<or> offset > bb_image_len backend \<or> len > bb_image_len backend - offset \<or>
         offset > INT64_MAX
      then (False, h)
      else pwrite_all (bb_fd backend) (take (unat len) buf) (unat offset) h)"

definition blkd_block_flush :: "blkd_block_backend \<Rightarrow> host \<Rightarrow> bool \<times> host" where
  "blkd_block_flush backend h =
     (case fsync (bb_fd backend) h of (Err _, h') \<Rightarrow> (False, h') | (Ret _, h') \<Rightarrow> (True, h'))"

section \<open>Device callbacks and initialisation\<close>

definition blkd_get_features :: "blkd_virtio_device virtio_device \<Rightarrow> u64" where
  "blkd_get_features dev =
     push_bit 1 1 OR push_bit 2 1 OR push_bit 6 1 OR push_bit 9 1 OR push_bit 32 1 OR push_bit 33 1"

definition blkd_get_config :: "blkd_virtio_device virtio_device \<Rightarrow> u64 \<Rightarrow> u32 \<Rightarrow> u64" where
  "blkd_get_config dev offset len =
     (if offset = 0 then ucast (ucast (bd_capacity_sectors (vd_opaque dev)) :: u32)
      else if offset = 4 then ucast (ucast (drop_bit 32 (bd_capacity_sectors (vd_opaque dev))) :: u32)
      else if offset = 8 then ucast BLKD_MAX_SEG_SIZE
      else if offset = 12 then ucast BLKD_MAX_SEGMENTS
      else if offset = 20 then BLKD_SECTOR_SIZE
      else 0)"

text \<open>
  \<open>memset\<close> clears the structure, the buffer and its size are kept over it; the queue array is the one
  queue of the structure. (\<open>zero_queue\<close> and \<open>zero_vdev\<close> are in \<open>Chains\<close>.)
\<close>

definition blkd_virtio_init ::
  "(blkd_virtio_device, 's) virtio_device_ops \<Rightarrow> blkd_block_backend \<Rightarrow>
   blkd_virtio_device virtio_device \<Rightarrow> blkd_virtio_device virtio_device" where
  "blkd_virtio_init ops backend dev =
     (let opaque = \<lparr>bd_backend = backend,
                    bd_capacity_sectors = bb_image_len backend div BLKD_SECTOR_SIZE,
                    bd_io_buf = bd_io_buf (vd_opaque dev),
                    bd_io_buf_size = bd_io_buf_size (vd_opaque dev)\<rparr>
      in virtio_device_init VIRTIO_ID_BLOCK VIRTIO_VENDOR_ID_LOCAL 1 BLKD_QUEUE_SIZE [zero_queue] opaque
           (Some ops) (zero_vdev [zero_queue] opaque))"

section \<open>The request buffer\<close>

text \<open>
  The bytes \<open>realloc\<close> adds to a block have no defined value; they are zero here, and every read of
  the buffer in \<open>process_chain\<close> comes after a store to the same bytes.
\<close>

definition ensure_io_buf :: "u32 \<Rightarrow> ('f blkd, unit) act" where
  "ensure_io_buf len = (\<lambda>s. let dev = dm_opaque s in
     if len \<le> bd_io_buf_size dev then (OK (), s)
     else if unat len > h_heap (dm_host s) then (Fail, s)
     else (OK (), set_opaque (\<lambda>d. d\<lparr>bd_io_buf := take (unat len) (bd_io_buf d) @
                                     replicate (unat len - length (bd_io_buf d)) 0,
                                   bd_io_buf_size := len\<rparr>) s))"

text \<open>Stores to and loads from the first bytes of the buffer; outside of the block they fault.\<close>

definition io_buf_store :: "u8 list \<Rightarrow> ('f blkd, unit) act" where
  "io_buf_store bs = (\<lambda>s.
     if length bs \<le> length (bd_io_buf (dm_opaque s))
     then (OK (), set_opaque (\<lambda>d. d\<lparr>bd_io_buf := bs @ drop (length bs) (bd_io_buf d)\<rparr>) s)
     else (Trap, s))"

definition io_buf_load :: "u32 \<Rightarrow> ('f blkd, u8 list) act" where
  "io_buf_load len = (\<lambda>s.
     if unat len \<le> length (bd_io_buf (dm_opaque s))
     then (OK (take (unat len) (bd_io_buf (dm_opaque s))), s)
     else (Trap, s))"

section \<open>Processing a chain\<close>

definition block_read :: "u64 \<Rightarrow> u32 \<Rightarrow> ('f blkd, bool \<times> u8 list) act" where
  "block_read pos len = (\<lambda>s. on_host (blkd_block_read (bd_backend (dm_opaque s)) pos (ucast len)) s)"

definition block_write :: "u64 \<Rightarrow> u8 list \<Rightarrow> u32 \<Rightarrow> ('f blkd, bool) act" where
  "block_write pos buf len = (\<lambda>s. on_host (blkd_block_write (bd_backend (dm_opaque s)) pos buf (ucast len)) s)"

definition block_flush :: "('f blkd, bool) act" where
  "block_flush = (\<lambda>s. on_host (blkd_block_flush (bd_backend (dm_opaque s))) s)"

text \<open>
  One data descriptor of a read request: \<open>pos\<close> is \<open>offset + data_len\<close>, the result is the status after
  it. The image is read through a direct mapping where that is enabled and the fabric grants it, and
  through the request buffer otherwise.
\<close>

definition direct_in ::
  "'f fabric_ops \<Rightarrow> u64 option \<Rightarrow> u32 \<Rightarrow> u64 \<Rightarrow> u8 \<Rightarrow> ('f blkd, u8) act" where
  "direct_in F dma_data len pos status =
     bnd (block_read pos len) (\<lambda>(ok, bytes).
     bnd (on_fab (fabric_ptr_store F dma_data bytes)) (\<lambda>_.
     bnd (on_fab (fabric_dma_unmap F dma_data len)) (\<lambda>_.
     ret (if ok then status else VIRTIO_BLK_S_IOERR))))"

definition buffered_in :: "'f fabric_ops \<Rightarrow> u64 \<Rightarrow> u32 \<Rightarrow> u64 \<Rightarrow> u8 \<Rightarrow> ('f blkd, u8) act" where
  "buffered_in F addr len pos status =
     bnd (attempt (ensure_io_buf len)) (\<lambda>enough.
     case enough of
       None \<Rightarrow> ret VIRTIO_BLK_S_IOERR
     | Some _ \<Rightarrow>
         bnd (block_read pos len) (\<lambda>(ok, bytes).
         bnd (io_buf_store bytes) (\<lambda>_.
         if \<not> ok then ret VIRTIO_BLK_S_IOERR
         else bnd (io_buf_load len) (\<lambda>data.
              bnd (attempt (on_fab (fabric_dma_write F addr data len))) (\<lambda>written.
              ret (if written = None then VIRTIO_BLK_S_IOERR else status))))))"

definition segment_in :: "'f fabric_ops \<Rightarrow> bool \<Rightarrow> virtio_desc \<Rightarrow> u64 \<Rightarrow> u8 \<Rightarrow> ('f blkd, u8) act" where
  "segment_in F direct_read desc pos status =
     (if ds_flags desc AND VRING_DESC_F_WRITE = 0 then ret VIRTIO_BLK_S_IOERR
      else if status \<noteq> VIRTIO_BLK_S_OK then ret status
      else bnd (if direct_read then attempt (on_fab (fabric_dma_map F (ds_addr desc) (ds_len desc)))
                else ret None) (\<lambda>mapped.
           case mapped of
             Some dma_data \<Rightarrow> direct_in F dma_data (ds_len desc) pos status
           | None \<Rightarrow> buffered_in F (ds_addr desc) (ds_len desc) pos status))"

definition segment_out :: "'f fabric_ops \<Rightarrow> virtio_desc \<Rightarrow> u64 \<Rightarrow> u8 \<Rightarrow> ('f blkd, u8) act" where
  "segment_out F desc pos status =
     (if ds_flags desc AND VRING_DESC_F_WRITE \<noteq> 0 then ret VIRTIO_BLK_S_IOERR
      else if status \<noteq> VIRTIO_BLK_S_OK then ret status
      else bnd (ensure_io_buf (ds_len desc)) (\<lambda>_.
           bnd (on_fab (fabric_dma_read_into F (ds_addr desc) (ds_len desc))) (\<lambda>data.
           bnd (io_buf_store data) (\<lambda>_.
           bnd (io_buf_load (ds_len desc)) (\<lambda>buf.
           bnd (block_write pos buf (ds_len desc)) (\<lambda>ok.
           ret (if ok then status else VIRTIO_BLK_S_IOERR)))))))"

text \<open>
  The loop over the descriptors after the header; one unit of fuel per descriptor. \<open>queue\<close> is
  \<open>dev->queue\<close>, which no statement of \<open>process_chain\<close> changes. The result is the status, the data length
  and the last descriptor.
\<close>

fun chain_loop ::
  "'f fabric_ops \<Rightarrow> bool \<Rightarrow> virtio_queue \<Rightarrow> u32 \<Rightarrow> u64 \<Rightarrow> nat \<Rightarrow> u8 \<Rightarrow> u32 \<Rightarrow> u16 \<Rightarrow> u32 \<Rightarrow>
   ('f blkd, u8 \<times> u32 \<times> virtio_desc) act" where
  "chain_loop F direct_read queue request_type offset 0 status data_len index chain_seen = spin"
| "chain_loop F direct_read queue request_type offset (Suc fuel) status data_len index chain_seen =
     bnd (guard (\<not> chain_seen + 1 > vq_num queue)) (\<lambda>_.
     bnd (on_fab (virtio_read_desc F queue index)) (\<lambda>desc.
     if ds_flags desc AND VRING_DESC_F_NEXT = 0 then ret (status, data_len, desc)
     else bnd (if request_type = VIRTIO_BLK_T_IN then
                 bnd (segment_in F direct_read desc (offset + ucast data_len) status) (\<lambda>st.
                 ret (st, data_len + ds_len desc))
               else if request_type = VIRTIO_BLK_T_OUT then
                 bnd (segment_out F desc (offset + ucast data_len) status) (\<lambda>st.
                 ret (st, data_len + ds_len desc))
               else ret (status, data_len)) (\<lambda>(st, dlen).
          chain_loop F direct_read queue request_type offset fuel st dlen (ds_next desc) (chain_seen + 1))))"

text \<open>The byte offset and the initial status of a request, from the two fields of its header.\<close>

definition request_offset :: "u64 \<Rightarrow> u64" where
  "request_offset sector = (if sector > UINT64_MAX div BLKD_SECTOR_SIZE then 0 else sector * BLKD_SECTOR_SIZE)"

definition request_status :: "u32 \<Rightarrow> u64 \<Rightarrow> u8" where
  "request_status request_type sector =
     (if request_type \<noteq> VIRTIO_BLK_T_IN \<and> request_type \<noteq> VIRTIO_BLK_T_OUT \<and> request_type \<noteq> VIRTIO_BLK_T_FLUSH
      then VIRTIO_BLK_S_UNSUPP
      else if sector > UINT64_MAX div BLKD_SECTOR_SIZE then VIRTIO_BLK_S_IOERR
      else VIRTIO_BLK_S_OK)"

text \<open>After the loop: the flush, the length to report, and the status byte.\<close>

definition finish_chain :: "'f fabric_ops \<Rightarrow> u32 \<Rightarrow> u8 \<Rightarrow> u32 \<Rightarrow> virtio_desc \<Rightarrow> ('f blkd, u32) act" where
  "finish_chain F request_type status data_len status_desc =
     bnd (if request_type = VIRTIO_BLK_T_FLUSH then
            bnd block_flush (\<lambda>ok. ret (if ok then status else VIRTIO_BLK_S_IOERR))
          else ret status) (\<lambda>status.
     bnd (on_fab (fabric_dma_write F (ds_addr status_desc) [status] 1)) (\<lambda>_.
     ret (if request_type = VIRTIO_BLK_T_IN then data_len + 1 else 1)))"

definition process_chain :: "'f fabric_ops \<Rightarrow> bool \<Rightarrow> nat \<Rightarrow> u16 \<Rightarrow> ('f blkd, u32) act" where
  "process_chain F direct_read fuel head =
     bnd (dev_queue 0) (\<lambda>queue.
     bnd (on_fab (virtio_read_desc F queue head)) (\<lambda>header_desc.
     bnd (guard (ds_flags header_desc AND VRING_DESC_F_NEXT \<noteq> 0)) (\<lambda>_.
     bnd (on_fab (fabric_dma_read_into F (ds_addr header_desc) 16)) (\<lambda>header.
     let request_type = virtio_load_le32 header;
         sector = virtio_load_le64 (drop 8 header)
     in bnd (chain_loop F direct_read queue request_type (request_offset sector) fuel
               (request_status request_type sector) 0 (ds_next header_desc) 0)
          (\<lambda>(status, data_len, status_desc). finish_chain F request_type status data_len status_desc)))))"

section \<open>Notification and the fabric binding\<close>

definition blkd_ack_notify :: "'f fabric_ops \<Rightarrow> ('f blkd, unit) act" where
  "blkd_ack_notify F = ack_notify F"

definition blkd_virtio_notify_queue :: "'f fabric_ops \<Rightarrow> bool \<Rightarrow> nat \<Rightarrow> u32 \<Rightarrow> ('f blkd, unit) act" where
  "blkd_virtio_notify_queue F direct_read fuel queue =
     bnd (dev_queue 0) (\<lambda>q.
     if queue \<noteq> 0 \<or> vq_ready q = 0 then blkd_ack_notify F
     else service_queue F (process_chain F direct_read fuel) 0 fuel)"

definition blkd_virtio_ops :: "'f fabric_ops \<Rightarrow> bool \<Rightarrow> nat \<Rightarrow> (blkd_virtio_device, 'f blkd) virtio_device_ops" where
  "blkd_virtio_ops F direct_read fuel =
     \<lparr>op_get_features = Some blkd_get_features, op_get_config = Some blkd_get_config,
      op_notify_queue = Some (blkd_virtio_notify_queue F direct_read fuel), op_reset = None\<rparr>"

definition blkd_connect :: "'f fabric_ops \<Rightarrow> bool \<Rightarrow> nat \<Rightarrow> blkd_block_backend \<Rightarrow> 'f blkd \<Rightarrow> 'f blkd" where
  "blkd_connect F direct_read fuel backend s =
     (let ops = blkd_virtio_ops F direct_read fuel
      in s\<lparr>dm_mmio := virtio_mmio_init (Some ops) (blkd_virtio_init ops backend (dm_vdev s))\<rparr>)"

definition blkd_mmio_read :: "'f fabric_ops \<Rightarrow> bool \<Rightarrow> nat \<Rightarrow> u64 \<Rightarrow> u32 \<Rightarrow> 'f blkd \<Rightarrow> u64" where
  "blkd_mmio_read F direct_read fuel = driver_mmio_read (blkd_virtio_ops F direct_read fuel)"

definition blkd_mmio_write :: "'f fabric_ops \<Rightarrow> bool \<Rightarrow> nat \<Rightarrow> u64 \<Rightarrow> u64 \<Rightarrow> u32 \<Rightarrow> ('f blkd, unit) act" where
  "blkd_mmio_write F direct_read fuel = driver_mmio_write F (blkd_virtio_ops F direct_read fuel)"

definition blkd_fabric_init_device ::
  "'f fabric_ops \<Rightarrow> bool \<Rightarrow> nat \<Rightarrow> blkd_block_backend \<Rightarrow> string \<Rightarrow> 'f blkd fabric_device" where
  "blkd_fabric_init_device F direct_read fuel backend socket_path =
     \<lparr>fdev_name = ''blkd'', fdev_socket_path = socket_path, fdev_addr = 0, fdev_size = 0x200,
      fdev_ops = Some \<lparr>fd_connect = Some (blkd_connect F direct_read fuel backend),
                       fd_read = Some (blkd_mmio_read F direct_read fuel),
                       fd_write = Some (blkd_mmio_write F direct_read fuel)\<rparr>\<rparr>"

section \<open>Configuration\<close>

text \<open>One \<open>key=value\<close> part; the first argument of \<open>blkd_parse_config_arg\<close> is the largest block \<open>strdup\<close> can get.\<close>

definition blkd_parse_part :: "string \<Rightarrow> blkd_config \<Rightarrow> blkd_config option" where
  "blkd_parse_part part cfg =
     (case split_first (CHR ''='') part of
        None \<Rightarrow> None
      | Some (key, value) \<Rightarrow>
          if key = ''image'' then map_option (\<lambda>v. cfg\<lparr>bc_image := v\<rparr>) (copy_value value 4096)
          else if key = ''socket'' then map_option (\<lambda>v. cfg\<lparr>bc_socket := v\<rparr>) (copy_value value 4096)
          else if key = ''ram_access'' then map_option (\<lambda>v. cfg\<lparr>bc_ram_access := v\<rparr>) (copy_value value 128)
          else if key = ''readonly'' then map_option (\<lambda>v. cfg\<lparr>bc_readonly := v\<rparr>) (parse_bool_value value)
          else if key \<noteq> ''name'' then None
          else Some cfg)"

fun blkd_parse_parts :: "string list \<Rightarrow> blkd_config \<Rightarrow> blkd_config option" where
  "blkd_parse_parts [] cfg = Some cfg"
| "blkd_parse_parts (part # parts) cfg =
     (case blkd_parse_part part cfg of None \<Rightarrow> None | Some cfg' \<Rightarrow> blkd_parse_parts parts cfg')"

definition blkd_parse_config_arg :: "nat \<Rightarrow> string \<Rightarrow> blkd_config option" where
  "blkd_parse_config_arg heap arg =
     (if length arg + 1 > heap then None
      else case blkd_parse_parts (strtok (CHR '','') arg)
                  \<lparr>bc_image = [], bc_socket = [], bc_ram_access = ''shared-mem'', bc_readonly = False\<rparr> of
          None \<Rightarrow> None
        | Some cfg \<Rightarrow> if bc_image cfg \<noteq> [] \<and> bc_socket cfg \<noteq> [] then Some cfg else None)"

text \<open>
  The daemon: \<open>run\<close> is the linked fabric's \<open>fabric_run\<close>, which takes the registered devices and returns
  whether it succeeded. The result is the exit status.
\<close>

definition blkd_main ::
  "('f blkd fabric \<Rightarrow> 'f blkd \<Rightarrow> bool \<times> 'f blkd) \<Rightarrow> 'f fabric_ops \<Rightarrow> bool \<Rightarrow> nat \<Rightarrow>
   string list \<Rightarrow> blkd_block_backend \<Rightarrow> 'f blkd fabric \<Rightarrow> 'f blkd \<Rightarrow> int \<times> 'f blkd" where
  "blkd_main run F direct_read fuel argv backend0 bus0 s =
     (if length argv \<noteq> 2 then (2, s)
      else case blkd_parse_config_arg (h_heap (dm_host s)) (argv ! 1) of
        None \<Rightarrow> (1, s)
      | Some cfg \<Rightarrow>
          (case blkd_block_open (bc_image cfg) (bc_readonly cfg) backend0 (dm_host s) of
            ((open_ok, backend), h) \<Rightarrow>
              let s1 = s\<lparr>dm_host := h\<rparr> in
              if \<not> open_ok then (1, s1)
              else let device = blkd_fabric_init_device F direct_read fuel backend (bc_socket cfg) in
                case fabric_register device (fabric_init bus0) of
                  (OK _, bus) \<Rightarrow> (case run bus s1 of (ok, s2) \<Rightarrow>
                      (if ok then 0 else 1, s2\<lparr>dm_host := snd (blkd_block_close backend (dm_host s2))\<rparr>))
                | (_, bus) \<Rightarrow> (1, s1\<lparr>dm_host := snd (blkd_block_close backend (dm_host s1))\<rparr>)))"

end
