(* ===== verification/Driver_Safety.thy ===== *)
theory Driver_Safety
  imports Chains
begin

unbundle bit_operations_syntax

text \<open>
  The part of memory safety the two drivers share: the events a guest can cause, the well-formedness
  of a daemon (\<open>drv_wf\<close>: the fabric's invariant, the driver's own invariant, the queue array of the
  right length and no ring whose size is zero modulo 65536), and that the service loop and the
  register dispatch keep it and never fault when the driver's chain processor does not.
\<close>

section \<open>Guest events\<close>

text \<open>
  What a guest can make a backend do: reconnect, and write any value to any register with any access
  width.
\<close>

datatype guest_event = Reconnect | MmioWrite u64 u64 u32

text \<open>
  A guest event the driver survives: any access but a write of the queue size whose low half is
  zero, which \<open>virtio_next_avail\<close> divides by.
\<close>

fun sane_event :: "guest_event \<Rightarrow> bool" where
  "sane_event Reconnect = True"
| "sane_event (MmioWrite off v len) = (off = VIRTIO_MMIO_QUEUE_NUM \<longrightarrow> (ucast v :: u16) \<noteq> 0)"

section \<open>Well-formed daemons\<close>

definition queues_ok :: "'o virtio_device \<Rightarrow> bool" where
  "queues_ok dev \<longleftrightarrow> (\<forall>q \<in> set (vd_queues dev). ring_size q \<noteq> 0) \<and> (ucast (vd_queue_size dev) :: u16) \<noteq> 0"

definition drv_wf :: "('o \<Rightarrow> bool) \<Rightarrow> nat \<Rightarrow> ('f \<Rightarrow> bool) \<Rightarrow> ('o, 'f) daemon \<Rightarrow> bool" where
  "drv_wf dok nq ok s \<longleftrightarrow> ok (dm_fab s) \<and> dok (dm_opaque s) \<and> length (vd_queues (dm_vdev s)) = nq \<and>
     unat (vd_queue_count (dm_vdev s)) = nq \<and> queues_ok (dm_vdev s)"

lemma safe_on_fab:
  assumes "safe ok m"
  shows "safe (drv_wf dok nq ok) (on_fab m)"
proof
  fix s assume s: "drv_wf dok nq ok s"
  obtain r f where m: "m (dm_fab s) = (r, f)" by fastforce
  then have "r \<noteq> Trap \<and> ok f" using safe_run [OF assms _ m] s by (simp add: drv_wf_def)
  with m s show "fst (on_fab m s) \<noteq> Trap \<and> drv_wf dok nq ok (snd (on_fab m s))"
    by (simp add: on_fab_def drv_wf_def)
qed

lemma safe_dev_queue: "i < nq \<Longrightarrow> safe (drv_wf dok nq ok) (dev_queue i)"
  by (rule safeI) (auto simp: dev_queue_def drv_wf_def)

lemma triple_dev_queue:
  "i < nq \<Longrightarrow> triple (drv_wf dok nq ok) (dev_queue i) (\<lambda>q s. drv_wf dok nq ok s \<and> ring_size q \<noteq> 0) (drv_wf dok nq ok)"
  by (auto simp: triple_def dev_queue_def drv_wf_def queues_ok_def)

context fabric_safe
begin

lemma safe_read_desc: "safe ok (virtio_read_desc F q i)"
  unfolding virtio_read_desc_def by (intro safe_bnd safe_read_into safe_basic)

lemma safe_next_avail: "ring_size q \<noteq> 0 \<Longrightarrow> safe ok (virtio_next_avail F q)"
  unfolding virtio_next_avail_def ring_size_def Let_def
  by (intro safe_bnd safe_read_u16 safe_if safe_basic) auto

lemma safe_retry: "ring_size q \<noteq> 0 \<Longrightarrow> safe ok (next_avail_retry F q n)"
  by (induction n) (auto intro!: safe_bnd safe_modify safe_usleep safe_next_avail safe_option)

lemma safe_wait_avail: "ring_size q \<noteq> 0 \<Longrightarrow> safe ok (wait_avail F q)"
  unfolding wait_avail_def by (intro safe_bnd safe_next_avail safe_option safe_retry safe_basic)

lemma safe_add_used: "ring_size q \<noteq> 0 \<Longrightarrow> safe ok (virtio_add_used F q head len)"
  unfolding virtio_add_used_def ring_size_def Let_def
  by (intro safe_bnd safe_read_u16 safe_if safe_write) auto

lemma safe_ack_notify: "safe (drv_wf dok nq ok) (ack_notify F)"
  using safe_on_fab [OF safe_raise, of dok nq] safe_on_fab [OF safe_lower, of dok nq]
  unfolding safe_def ack_notify_def by simp

lemma safe_raise_vring: "safe (drv_wf dok nq ok) (raise_vring F)"
  unfolding raise_vring_def
  by (intro safe_bnd safe_modify safe_on_fab safe_raise) (simp add: drv_wf_def queues_ok_def)

lemma safe_with_queue:
  assumes i: "i < nq" and "\<And>q. ring_size q \<noteq> 0 \<Longrightarrow> safe (drv_wf dok nq ok) (k q)"
  shows "safe (drv_wf dok nq ok) (bnd (dev_queue i) k)"
  unfolding safe_triple
proof (rule triple_bnd [OF triple_dev_queue [OF i]])
  fix q
  show "triple (\<lambda>s. drv_wf dok nq ok s \<and> ring_size q \<noteq> 0) (k q) (\<lambda>_. drv_wf dok nq ok) (drv_wf dok nq ok)"
    using assms(2) [of q] by (cases "ring_size q = 0") (auto simp: safe_triple triple_def)
qed

lemma safe_advance:
  "safe (drv_wf dok nq ok) (modify (upd_queue i (\<lambda>q. q\<lparr>vq_last_avail_idx := vq_last_avail_idx q + 1\<rparr>)))"
proof (rule safe_modify)
  fix s assume wf: "drv_wf dok nq ok s"
  let ?u = "\<lambda>q. q\<lparr>vq_last_avail_idx := vq_last_avail_idx q + 1\<rparr>"
  have "list_all (\<lambda>q. ring_size q \<noteq> 0) ((vd_queues (dm_vdev s))[i := ?u (vd_queues (dm_vdev s) ! i)])"
    using wf by (cases "i < length (vd_queues (dm_vdev s))")
      (auto simp: drv_wf_def queues_ok_def ring_size_def list_all_length nth_list_update)
  with wf show "drv_wf dok nq ok (upd_queue i ?u s)"
    by (simp add: drv_wf_def queues_ok_def list_all_iff)
qed

lemma safe_service_loop:
  assumes "i < nq" and "\<And>head. safe (drv_wf dok nq ok) (process head)"
  shows "safe (drv_wf dok nq ok) (service_loop F process i n used)"
proof (induction n arbitrary: used)
  case (Suc n)
  show ?case unfolding service_loop.simps
    by (intro safe_with_queue [OF assms(1)] safe_bnd [OF safe_on_fab [OF safe_wait_avail]] safe_option safe_basic
        safe_bnd [OF assms(2)] safe_bnd [OF safe_on_fab [OF safe_add_used]] safe_bnd [OF safe_advance] Suc.IH)
qed simp

lemma safe_service_queue:
  assumes "i < nq" and "\<And>head. safe (drv_wf dok nq ok) (process head)"
  shows "safe (drv_wf dok nq ok) (service_queue F process i n)"
  unfolding service_queue_def
  by (intro safe_bnd safe_if safe_service_loop assms safe_raise_vring safe_ack_notify)

end

lemma on_queue_queues_ok:
  assumes "queues_ok (vm_vdev m)" and "\<And>q. ring_size q \<noteq> 0 \<Longrightarrow> ring_size (g q) \<noteq> 0" and "vdev_wf (vm_vdev m)"
  shows "queues_ok (vm_vdev (on_queue g m))"
proof -
  have "\<forall>q \<in> set ((vd_queues (vm_vdev m))[i := g (vd_queues (vm_vdev m) ! i)]). ring_size q \<noteq> 0"
    if "i < length (vd_queues (vm_vdev m))" for i
    using assms(1,2) that by (auto simp: queues_ok_def dest!: set_update_subset_insert [THEN subsetD])
  with assms show ?thesis
    by (auto simp: on_queue_def virtio_mmio_queue_def queues_ok_def vdev_wf_def word_le_nat_alt not_le
        split: option.splits if_splits)
qed

lemma mmio_write_queues_ok:
  assumes "queues_ok (vm_vdev m)" and "vdev_wf (vm_vdev m)" and "no_reset_hook ops"
    and "off = VIRTIO_MMIO_QUEUE_NUM \<Longrightarrow> (ucast v :: u16) \<noteq> 0"
  shows "queues_ok (vm_vdev (virtio_mmio_write ops m off v))"
proof (cases "off \<in> set write_registers")
  case True
  have num: "queues_ok (vm_vdev (on_queue (\<lambda>q. q\<lparr>vq_num := ucast v\<rparr>) m))" if "(ucast v :: u16) \<noteq> 0"
    by (rule on_queue_queues_ok) (use assms that in \<open>auto simp: ring_size_def ucast_narrow\<close>)
  have other: "queues_ok (vm_vdev (on_queue g m))" if "\<And>q. ring_size (g q) = ring_size q" for g
    by (rule on_queue_queues_ok) (use assms that in auto)
  have reset: "queues_ok (virtio_device_reset ops (vm_vdev m))"
    using assms(1) by (simp add: virtio_device_reset_fresh [OF assms(2,3)] queues_ok_def fresh_device_def
        fresh_queue_def ring_size_def)
  from True assms(1,4) num reset show ?thesis
    unfolding write_registers_def
    by (auto simp: virtio_mmio_write_simps virtio_mmio_reset_def intro!: other)
      (auto simp: ring_size_def queues_ok_def)
next
  case False
  with assms show ?thesis by (simp add: virtio_mmio_write_other)
qed

context fabric_safe
begin

lemma safe_mmio_write_state:
  assumes "off = VIRTIO_MMIO_QUEUE_NUM \<Longrightarrow> (ucast v :: u16) \<noteq> 0" and "no_reset_hook (Some ops)"
  shows "safe (drv_wf dok nq ok) (modify (\<lambda>s. s\<lparr>dm_mmio := virtio_mmio_write (Some ops) (dm_mmio s) off v\<rparr>))"
proof (rule safe_modify)
  fix s assume s: "drv_wf dok nq ok s"
  have "same_identity (vm_vdev (virtio_mmio_write (Some ops) (dm_mmio s) off v)) (dm_vdev s)"
    by (rule write_identity [OF assms(2)])
  moreover have "queues_ok (vm_vdev (virtio_mmio_write (Some ops) (dm_mmio s) off v))"
    using s assms by (intro mmio_write_queues_ok) (auto simp: drv_wf_def vdev_wf_def)
  ultimately show "drv_wf dok nq ok (s\<lparr>dm_mmio := virtio_mmio_write (Some ops) (dm_mmio s) off v\<rparr>)"
    using s by (simp add: drv_wf_def same_identity_def)
qed

lemma safe_driver_mmio_write:
  assumes "off = VIRTIO_MMIO_QUEUE_NUM \<Longrightarrow> (ucast v :: u16) \<noteq> 0" and "op_reset ops = None"
    and "\<And>notify w. op_notify_queue ops = Some notify \<Longrightarrow> safe (drv_wf dok nq ok) (notify w)"
    and "op_notify_queue ops \<noteq> None"
  shows "safe (drv_wf dok nq ok) (driver_mmio_write F ops off v len)"
  unfolding driver_mmio_write_def using assms(3,4)
  by (intro safe_bnd safe_mmio_write_state assms(1) safe_if safe_on_fab safe_lower safe_basic)
    (auto simp: no_reset_hook_def assms(2))

end

end
