(* ===== verification/Blkd_Safety.thy ===== *)
theory Blkd_Safety
  imports Virtio_Blkd Driver_Safety
begin

unbundle bit_operations_syntax

text \<open>
  Safety of the block backend. \<open>confined\<close>: whatever a guest writes to the registers and to its memory,
  and whatever the fabric answers, the backend changes no file but its image, never changes the
  length of the image, and changes nothing at all when the image is read-only. The second half shows
  that no request makes the backend access memory outside its buffers, for every fabric that keeps
  its own promises.
\<close>

section \<open>The image and the other files\<close>

definition image_open :: "blkd_block_backend \<Rightarrow> host \<Rightarrow> bool" where
  "image_open b h \<longleftrightarrow> (\<exists>f c. opened h (bb_fd b) f c \<and> length c = unat (bb_image_len b))"

definition confined :: "blkd_block_backend \<Rightarrow> host \<Rightarrow> host \<Rightarrow> bool" where
  "confined b h0 h \<longleftrightarrow> h_fds h = h_fds h0 \<and>
     (\<forall>p. h_files h p = h_files h0 p \<or>
        \<not> bb_readonly b \<and>
        (\<exists>f c0 c. h_fds h0 (bb_fd b) = Some f \<and> of_path f = p \<and> of_writable f \<and>
           h_files h0 p = Some c0 \<and> h_files h p = Some c \<and> length c = length c0))"

lemma confined_refl [simp]: "confined b h h"
  by (simp add: confined_def)

lemma confined_frame:
  "confined b h0 h \<Longrightarrow> h_files h' = h_files h \<Longrightarrow> h_fds h' = h_fds h \<Longrightarrow> confined b h0 h'"
  by (simp add: confined_def)

lemma confined_image:
  assumes "confined b h0 h" and "opened h0 (bb_fd b) f c0"
  obtains c where "opened h (bb_fd b) f c" and "length c = length c0"
proof -
  have "\<exists>c. h_files h (of_path f) = Some c \<and> length c = length c0"
    using assms unfolding confined_def opened_def by (metis option.inject)
  with assms show ?thesis using that unfolding confined_def opened_def by auto
qed

lemma block_read_confined:
  assumes "confined b h0 h"
  shows "confined b h0 (snd (blkd_block_read b pos len h))"
proof (cases "pread_all (bb_fd b) (unat len) (unat pos) h")
  case (Pair r h')
  obtain ok bs where r: "r = (ok, bs)" by fastforce
  with Pair have "h' = h\<lparr>h_script := h_script h'\<rparr>" using pread_all_frame by blast
  then have "h_files h' = h_files h" "h_fds h' = h_fds h"
    by (metis host.select_convs host.simps host.surjective)+
  with Pair assms show ?thesis by (auto simp: blkd_block_read_def intro: confined_frame)
qed

lemma in_image:
  assumes "\<not> offset > image_len" and "\<not> len > image_len - (offset :: u64)"
  shows "unat offset + unat len \<le> unat image_len"
proof -
  have "unat (image_len - offset) = unat image_len - unat offset" "unat offset \<le> unat image_len"
    using assms(1) by (simp_all add: unat_sub not_less word_le_nat_alt)
  moreover have "unat len \<le> unat (image_len - offset)"
    using assms(2) by (simp add: not_less word_le_nat_alt)
  ultimately show ?thesis by linarith
qed

lemma set_file_confined:
  assumes "confined b h0 h" and "image_open b h0" and "opened h (bb_fd b) f c" and "of_writable f"
    and "\<not> bb_readonly b" and "length c' = length c"
  shows "confined b h0 (set_file (of_path f) c' h)"
proof -
  obtain f0 c0 where o: "opened h0 (bb_fd b) f0 c0" using assms(2) by (auto simp: image_open_def)
  with assms(1,3) have "f0 = f" by (auto simp: confined_def opened_def)
  with o assms obtain d where "opened h (bb_fd b) f d" "length d = length c0"
    using confined_image by blast
  with assms(3) have "length c = length c0" by (simp add: opened_def)
  with assms o \<open>f0 = f\<close> show ?thesis by (auto simp: confined_def opened_def)
qed

lemma block_write_confined:
  assumes c: "confined b h0 h" and io: "image_open b h0"
  shows "confined b h0 (snd (blkd_block_write b pos buf len h))"
proof (cases "bb_readonly b \<or> pos > bb_image_len b \<or> len > bb_image_len b - pos \<or> pos > INT64_MAX")
  case True
  with c show ?thesis by (simp add: blkd_block_write_def)
next
  case False
  obtain f c0 where "opened h0 (bb_fd b) f c0" "length c0 = unat (bb_image_len b)"
    using io by (auto simp: image_open_def)
  with c obtain d where d: "opened h (bb_fd b) f d" "length d = unat (bb_image_len b)"
    using confined_image by metis
  let ?bs = "take (unat len) buf"
  have fit: "unat pos + length ?bs \<le> length d"
    using in_image [of "bb_image_len b" pos len] False d(2) by auto
  show ?thesis
  proof (cases "of_writable f")
    case True
    obtain k s' where w: "snd (pwrite_all (bb_fd b) ?bs (unat pos) h) =
        (set_file (of_path f) (file_put d (unat pos) (take k ?bs)) h)\<lparr>h_script := s'\<rparr>"
      using pwrite_all_spec [OF d(1) True fit] by (metis snd_conv)
    have "length (file_put d (unat pos) (take k ?bs)) = length d"
      using fit by (intro length_file_put) auto
    then have "confined b h0 (set_file (of_path f) (file_put d (unat pos) (take k ?bs)) h)"
      using c io d(1) True False by (intro set_file_confined) auto
    with w False show ?thesis by (auto simp: blkd_block_write_def intro: confined_frame)
  next
    case ro: False
    with d(1) have "pwrite_all (bb_fd b) ?bs (unat pos) h = (?bs = [], h)"
      by (intro pwrite_all_unwritable) (auto simp: opened_def)
    with False c show ?thesis by (simp add: blkd_block_write_def)
  qed
qed

lemma block_flush_confined:
  "confined b h0 h \<Longrightarrow> confined b h0 (snd (blkd_block_flush b h))"
  using fsync_frame [of "bb_fd b" h]
  by (auto simp: blkd_block_flush_def split: prod.splits sysret.splits intro: confined_frame)

section \<open>Every handler is confined\<close>

definition blk_inv :: "blkd_block_backend \<Rightarrow> host \<Rightarrow> blkd_virtio_device \<Rightarrow> host \<Rightarrow> bool" where
  "blk_inv b h0 d h \<longleftrightarrow> bd_backend d = b \<and> confined b h0 h \<and> image_open b h0"

text \<open>
  The requests reach the host only through the three calls of the block backend, and change only the
  request buffer of the driver: what these keep, every handler of the driver keeps.
\<close>

locale block_calls =
  fixes J :: "blkd_virtio_device \<Rightarrow> host \<Rightarrow> bool"
  assumes J_io_buf: "J d h \<Longrightarrow> J (d\<lparr>bd_io_buf := bs\<rparr>) h"
    and J_io_buf_size: "J d h \<Longrightarrow> J (d\<lparr>bd_io_buf_size := len\<rparr>) h"
    and J_read: "J d h \<Longrightarrow> blkd_block_read (bd_backend d) pos n h = (r, h') \<Longrightarrow> J d h'"
    and J_write: "J d h \<Longrightarrow> blkd_block_write (bd_backend d) pos buf n h = (ok, h') \<Longrightarrow> J d h'"
    and J_flush: "J d h \<Longrightarrow> blkd_block_flush (bd_backend d) h = (ok, h') \<Longrightarrow> J d h'"
begin

lemma keeps_ensure_io_buf: "keeps (host_inv J) (ensure_io_buf len)"
  by (rule keepsI) (auto simp: host_inv_def ensure_io_buf_def Let_def intro!: J_io_buf J_io_buf_size)

lemma keeps_io_buf: "keeps (host_inv J) (io_buf_store bs)" "keeps (host_inv J) (io_buf_load len)"
  by (rule keepsI, simp add: host_inv_def io_buf_store_def io_buf_load_def J_io_buf)+

lemma keeps_block_read: "keeps (host_inv J) (block_read pos len)"
  by (rule keepsI) (auto simp: host_inv_def block_read_def on_host_def elim: J_read split: prod.splits)

lemma keeps_block_write: "keeps (host_inv J) (block_write pos buf len)"
  by (rule keepsI) (auto simp: host_inv_def block_write_def on_host_def elim: J_write split: prod.splits)

lemma keeps_block_flush: "keeps (host_inv J) block_flush"
  by (rule keepsI) (auto simp: host_inv_def block_flush_def on_host_def elim: J_flush split: prod.splits)

lemmas keeps_parts = keeps_bnd keeps_if keeps_option keeps_prod keeps_attempt keeps_basic
  host_inv_on_fab host_inv_dev_queue keeps_ensure_io_buf keeps_io_buf keeps_block_read
  keeps_block_write keeps_block_flush

lemma keeps_segments: "keeps (host_inv J) (segment_in F dr desc pos st)"
  "keeps (host_inv J) (segment_out F desc pos st)"
  unfolding segment_in_def direct_in_def buffered_in_def segment_out_def
  by (intro keeps_parts)+

lemma keeps_chain_loop: "keeps (host_inv J) (chain_loop F dr q rt off n st dl i seen)"
proof (induction n arbitrary: st dl i seen)
  case (Suc n)
  show ?case unfolding chain_loop.simps by (intro keeps_parts keeps_segments Suc.IH)
qed simp

lemma keeps_process_chain: "keeps (host_inv J) (process_chain F dr n head)"
  unfolding process_chain_def finish_chain_def Let_def by (intro keeps_parts keeps_chain_loop)

lemma keeps_blkd_notify: "keeps (host_inv J) (blkd_virtio_notify_queue F dr n v)"
  unfolding blkd_virtio_notify_queue_def blkd_ack_notify_def
  by (intro keeps_parts host_inv_ack_notify host_inv_service_queue keeps_process_chain)

lemma keeps_blkd_mmio_write: "keeps (host_inv J) (blkd_mmio_write F dr n off v len)"
  unfolding blkd_mmio_write_def
  by (rule host_inv_mmio_write) (auto simp: blkd_virtio_ops_def keeps_blkd_notify)

end

interpretation image_calls: block_calls "blk_inv b h0" for b h0
proof (unfold_locales, goal_cases)
  case (3 d h pos n r h')
  then show ?case using block_read_confined [of b h0 h pos n] by (auto simp: blk_inv_def)
next
  case (4 d h pos buf n ok h')
  then show ?case using block_write_confined [of b h0 h pos buf n] by (auto simp: blk_inv_def)
next
  case (5 d h ok h')
  then show ?case using block_flush_confined [of b h0 h] by (auto simp: blk_inv_def)
qed (simp_all add: blk_inv_def)

text \<open>The same for what the process holds: no request opens or closes a file or changes a memory mapping.\<close>

interpretation held_calls: block_calls "\<lambda>_ h. h_fds h = fds \<and> h_maps h = maps" for fds maps
proof (unfold_locales, goal_cases)
  case (3 d h pos n r h')
  moreover from 3 have "h' = h \<or> h' = h\<lparr>h_script := h_script h'\<rparr>"
    using pread_all_frame by (cases r) (auto simp: blkd_block_read_def split: if_splits)
  then have "h_fds h' = h_fds h \<and> h_maps h' = h_maps h" by (metis host.select_convs(3,8) host.update_convs(5) host.surjective)
  ultimately show ?case by simp
next
  case (4 d h pos buf n ok h')
  then show ?case using pwrite_all_held [of "bb_fd (bd_backend d)" "take (unat n) buf" "unat pos" h]
    by (auto simp: blkd_block_write_def split: if_splits)
next
  case (5 d h ok h')
  then show ?case using fsync_frame [of "bb_fd (bd_backend d)" h]
    by (auto simp: blkd_block_flush_def split: prod.splits sysret.splits)
qed simp_all

text \<open>
  What a guest can make the backend do: reconnect, and write any value to any register with any
  access width. The sequence goes on after a failed write, as it does when QEMU reconnects.
\<close>

fun blkd_event :: "'f fabric_ops \<Rightarrow> bool \<Rightarrow> nat \<Rightarrow> blkd_block_backend \<Rightarrow> guest_event \<Rightarrow> 'f blkd \<Rightarrow> 'f blkd" where
  "blkd_event F dr n b Reconnect s = blkd_connect F dr n b s"
| "blkd_event F dr n b (MmioWrite off v len) s = snd (blkd_mmio_write F dr n off v len s)"

fun blkd_events :: "'f fabric_ops \<Rightarrow> bool \<Rightarrow> nat \<Rightarrow> blkd_block_backend \<Rightarrow> guest_event list \<Rightarrow> 'f blkd \<Rightarrow> 'f blkd" where
  "blkd_events F dr n b [] s = s"
| "blkd_events F dr n b (e # es) s = blkd_events F dr n b es (blkd_event F dr n b e s)"

lemma blkd_connect_state:
  "bd_backend (dm_opaque (blkd_connect F dr n b s)) = b" "dm_host (blkd_connect F dr n b s) = dm_host s"
  "dm_fab (blkd_connect F dr n b s) = dm_fab s"
  by (simp_all add: blkd_connect_def Let_def blkd_virtio_init_def virtio_device_init_def
      virtio_mmio_init_def virtio_mmio_reset_def virtio_device_reset_def blkd_virtio_ops_def zero_vdev_def)

lemma blkd_event_inv:
  "host_inv (blk_inv b h0) s \<Longrightarrow> host_inv (blk_inv b h0) (blkd_event F dr n b e s)"
proof (cases e)
  case Reconnect
  moreover assume "host_inv (blk_inv b h0) s"
  ultimately show ?thesis by (simp add: host_inv_def blk_inv_def blkd_connect_state)
next
  case (MmioWrite off v len)
  moreover assume "host_inv (blk_inv b h0) s"
  ultimately show ?thesis using keepsD [OF image_calls.keeps_blkd_mmio_write] by simp
qed

lemma blkd_events_inv:
  "host_inv (blk_inv b h0) s \<Longrightarrow> host_inv (blk_inv b h0) (blkd_events F dr n b es s)"
  by (induction es arbitrary: s) (simp_all add: blkd_event_inv)

text \<open>
  C2: isolation of the host. Once connected, whatever sequence of register writes and reconnects the
  guest performs, with whatever contents of its memory and whatever answers of the fabric, the block
  backend modifies no host file except its image, never changes the length of the image, and does
  not modify even the image when it was opened read-only.
\<close>

theorem image_confined:
  assumes "image_open b (dm_host s)"
  shows "confined b (dm_host s) (dm_host (blkd_events F dr n b (Reconnect # es) s))"
proof -
  have "host_inv (blk_inv b (dm_host s)) (blkd_connect F dr n b s)"
    using assms by (simp add: host_inv_def blk_inv_def blkd_connect_state)
  then have "host_inv (blk_inv b (dm_host s)) (blkd_events F dr n b (Reconnect # es) s)"
    by (simp add: blkd_events_inv)
  then show ?thesis by (simp add: host_inv_def blk_inv_def)
qed

theorem image_confined_witness:
  "\<forall>F dr n es mm f. confined \<lparr>bb_fd = 3, bb_image_len = 2, bb_readonly = False\<rparr>
     \<lparr>h_files = [''disk'' \<mapsto> [7, 8]], h_disk = Map.empty,
      h_fds = [3 \<mapsto> \<lparr>of_path = ''disk'', of_readable = True, of_writable = True, of_append = False\<rparr>],
      h_next_fd = 4, h_script = [Interrupted], h_heap = 4096, h_pos = (\<lambda>_. 0), h_maps = []\<rparr>
     (dm_host (blkd_events F dr n \<lparr>bb_fd = 3, bb_image_len = 2, bb_readonly = False\<rparr> (Reconnect # es)
        \<lparr>dm_mmio = (mm :: blkd_virtio_device virtio_mmio), dm_fab = (f :: nat),
         dm_host = \<lparr>h_files = [''disk'' \<mapsto> [7, 8]], h_disk = Map.empty,
           h_fds = [3 \<mapsto> \<lparr>of_path = ''disk'', of_readable = True, of_writable = True, of_append = False\<rparr>],
           h_next_fd = 4, h_script = [Interrupted], h_heap = 4096, h_pos = (\<lambda>_. 0), h_maps = []\<rparr>\<rparr>))"
proof (intro allI)
  fix F dr n es and mm :: "blkd_virtio_device virtio_mmio" and f :: nat
  let ?h = "\<lparr>h_files = [''disk'' \<mapsto> [7, 8]], h_disk = Map.empty,
      h_fds = [3 \<mapsto> \<lparr>of_path = ''disk'', of_readable = True, of_writable = True, of_append = False\<rparr>],
      h_next_fd = 4, h_script = [Interrupted], h_heap = 4096, h_pos = (\<lambda>_. 0), h_maps = []\<rparr>"
  let ?b = "\<lparr>bb_fd = 3, bb_image_len = 2, bb_readonly = False\<rparr>"
  have "image_open ?b (dm_host \<lparr>dm_mmio = mm, dm_fab = f, dm_host = ?h\<rparr>)"
    by (simp add: image_open_def opened_def)
  from image_confined [OF this]
  show "confined ?b ?h (dm_host (blkd_events F dr n ?b (Reconnect # es) \<lparr>dm_mmio = mm, dm_fab = f, dm_host = ?h\<rparr>))"
    by simp
qed

section \<open>No access outside a buffer\<close>

definition buf_wf :: "blkd_virtio_device \<Rightarrow> bool" where
  "buf_wf d \<longleftrightarrow> length (bd_io_buf d) = unat (bd_io_buf_size d)"

abbreviation blk_wf :: "('f \<Rightarrow> bool) \<Rightarrow> 'f blkd \<Rightarrow> bool" where
  "blk_wf \<equiv> drv_wf buf_wf (Suc 0)"

lemma safe_block:
  "safe (blk_wf ok) (block_read pos len)" "safe (blk_wf ok) (block_write pos buf len)" "safe (blk_wf ok) block_flush"
  by (rule safeI, simp add: block_read_def block_write_def block_flush_def on_host_def drv_wf_def split: prod.splits)+

lemma safe_ensure_io_buf: "safe (blk_wf ok) (ensure_io_buf len)"
  by (rule safeI) (auto simp: ensure_io_buf_def Let_def drv_wf_def buf_wf_def queues_ok_def)

lemma ensure_io_buf_size:
  "blk_wf ok s \<Longrightarrow> ensure_io_buf len s = (OK (), s') \<Longrightarrow> unat len \<le> length (bd_io_buf (dm_opaque s'))"
  by (auto simp: ensure_io_buf_def Let_def drv_wf_def buf_wf_def word_le_nat_alt split: if_splits)

lemma block_read_effect:
  assumes "block_read pos len s = (r, t)"
  obtains ok bs where "r = OK (ok, bs)" and "length bs \<le> unat len" and "ok \<Longrightarrow> length bs = unat len"
    and "dm_vdev t = dm_vdev s" and "dm_fab t = dm_fab s" and "dm_mmio t = dm_mmio s"
proof -
  obtain ok bs h where br: "blkd_block_read (bd_backend (dm_opaque s)) pos (ucast len) (dm_host s) = ((ok, bs), h)"
    by (metis prod.exhaust)
  have "length bs \<le> unat len \<and> (ok \<longrightarrow> length bs = unat len)"
    using br by (auto simp: blkd_block_read_def unat_ucast_u32 split: if_splits dest: pread_all_frame)
  with br assms show ?thesis using that by (auto simp: block_read_def on_host_def)
qed

text \<open>The state inside a segment: well formed and with room for \<open>len\<close> bytes in the buffer.\<close>

definition roomy :: "('f \<Rightarrow> bool) \<Rightarrow> u32 \<Rightarrow> 'f blkd \<Rightarrow> bool" where
  "roomy ok len s \<longleftrightarrow> blk_wf ok s \<and> unat len \<le> length (bd_io_buf (dm_opaque s))"

lemma triple_ensure: "triple (blk_wf ok) (ensure_io_buf len) (\<lambda>_. roomy ok len) (blk_wf ok)"
  unfolding triple_def
proof (intro allI impI)
  fix s assume s: "blk_wf ok s"
  obtain r t where e: "ensure_io_buf len s = (r, t)" by fastforce
  have "r \<noteq> Trap \<and> blk_wf ok t" using safe_run [OF safe_ensure_io_buf s e] .
  moreover have "r = OK () \<Longrightarrow> roomy ok len t"
    using calculation ensure_io_buf_size [OF s] e by (auto simp: roomy_def)
  ultimately show "case ensure_io_buf len s of (OK x, t) \<Rightarrow> roomy ok len t | (Trap, t) \<Rightarrow> False
      | (Fail, t) \<Rightarrow> blk_wf ok t | (Spin, t) \<Rightarrow> blk_wf ok t"
    using e by (cases r) auto
qed

lemma triple_block_read:
  "triple (roomy ok len) (block_read pos len)
     (\<lambda>(_, bs) s. roomy ok len s \<and> length bs \<le> unat len) (blk_wf ok)"
  unfolding triple_def
proof (intro allI impI)
  fix s :: "'a blkd" assume s: "roomy ok len s"
  obtain r t where b: "block_read pos len s = (r, t)" by fastforce
  then obtain okb bs where "r = OK (okb, bs)" "length bs \<le> unat len" "dm_vdev t = dm_vdev s" "dm_fab t = dm_fab s"
    using block_read_effect by metis
  with s b show "case block_read pos len s of
      (OK x, t) \<Rightarrow> (case x of (_, bs) \<Rightarrow> \<lambda>s. roomy ok len s \<and> length bs \<le> unat len) t
    | (Trap, t) \<Rightarrow> False | (Fail, t) \<Rightarrow> blk_wf ok t | (Spin, t) \<Rightarrow> blk_wf ok t"
    by (simp add: roomy_def drv_wf_def)
qed

lemma triple_io_buf_store:
  assumes "length bs \<le> unat len"
  shows "triple (roomy ok len) (io_buf_store bs) (\<lambda>_. roomy ok len) (blk_wf ok)"
  using assms by (auto simp: triple_def io_buf_store_def roomy_def drv_wf_def buf_wf_def queues_ok_def)

lemma triple_io_buf_load:
  "triple (roomy ok len) (io_buf_load len) (\<lambda>d s. roomy ok len s \<and> length d = unat len) (blk_wf ok)"
  by (auto simp: triple_def io_buf_load_def roomy_def)

lemma triple_on_fab:
  assumes "safe ok m"
  shows "triple (roomy ok len) (on_fab m) (\<lambda>_. roomy ok len) (blk_wf ok)"
  unfolding triple_def
proof (intro allI impI)
  fix s assume s: "roomy ok len s"
  obtain r f where m: "m (dm_fab s) = (r, f)" by fastforce
  then have "r \<noteq> Trap \<and> ok f" using safe_run [OF assms _ m] s by (simp add: roomy_def drv_wf_def)
  with m s show "case on_fab m s of (OK x, t) \<Rightarrow> roomy ok len t | (Trap, t) \<Rightarrow> False
      | (Fail, t) \<Rightarrow> blk_wf ok t | (Spin, t) \<Rightarrow> blk_wf ok t"
    by (cases r) (auto simp: on_fab_def roomy_def drv_wf_def)
qed

context fabric_safe
begin

lemma triple_read_into:
  "triple (roomy ok len) (on_fab (fabric_dma_read_into F a len))
     (\<lambda>d s. roomy ok len s \<and> length d \<le> unat len) (blk_wf ok)"
  unfolding triple_def
proof (intro allI impI)
  fix s assume s: "roomy ok len s"
  obtain r f where m: "fabric_dma_read_into F a len (dm_fab s) = (r, f)" by fastforce
  then have "r \<noteq> Trap \<and> ok f" using safe_run [OF safe_read_into _ m] s by (simp add: roomy_def drv_wf_def)
  with m s show "case on_fab (fabric_dma_read_into F a len) s of
      (OK d, t) \<Rightarrow> roomy ok len t \<and> length d \<le> unat len | (Trap, t) \<Rightarrow> False
    | (Fail, t) \<Rightarrow> blk_wf ok t | (Spin, t) \<Rightarrow> blk_wf ok t"
    by (cases r) (auto simp: on_fab_def roomy_def drv_wf_def dest: read_into_length)
qed

lemma triple_write:
  "triple (\<lambda>s. roomy ok len s \<and> length d = unat len) (on_fab (fabric_dma_write F a d len))
     (\<lambda>_. blk_wf ok) (blk_wf ok)"
  using safe_on_fab [OF safe_write [of d len a], of buf_wf "Suc 0"]
  by (auto simp: safe_triple triple_def roomy_def)

lemma safe_buffered_in: "safe (blk_wf ok) (buffered_in F addr len pos st)"
  unfolding safe_triple buffered_in_def
proof (rule triple_bnd [where R = "\<lambda>e s. (case e of None \<Rightarrow> blk_wf ok s | Some _ \<Rightarrow> roomy ok len s)"], goal_cases)
  case 1
  show ?case by (rule triple_attempt) (use triple_ensure in auto)
next
  case (2 e)
  show ?case
  proof (cases e)
    case None
    then show ?thesis by (simp add: triple_ret)
  next
    case (Some u)
    have load: "triple (roomy ok len) (bnd (io_buf_load len) (\<lambda>data.
          bnd (attempt (on_fab (fabric_dma_write F addr data len))) (\<lambda>written.
          ret (if written = None then VIRTIO_BLK_S_IOERR else st)))) (\<lambda>_. blk_wf ok) (blk_wf ok)"
      by (rule triple_bnd [OF triple_io_buf_load], rule triple_bnd [where R = "\<lambda>_. blk_wf ok"],
          rule triple_attempt [OF triple_write]) (auto intro: triple_ret)
    have store: "triple (\<lambda>s. roomy ok len s \<and> length bs \<le> unat len) (io_buf_store bs) (\<lambda>_. roomy ok len) (blk_wf ok)" for bs
      using triple_io_buf_store [of bs len ok] by (auto simp: triple_def)
    show ?thesis unfolding Some option.case prod.case_eq_if
      by (rule triple_bnd [OF triple_block_read], rule triple_bnd [OF triple_pre [OF store]])
        (auto intro!: triple_if triple_ret load simp: roomy_def split: prod.splits)
  qed
qed

lemma safe_direct_in:
  assumes "blk_wf ok s" and "fabric_dma_map F a len (dm_fab s) = (OK p, g)"
  shows "fst (direct_in F p len pos st (s\<lparr>dm_fab := g\<rparr>)) \<noteq> Trap \<and>
    blk_wf ok (snd (direct_in F p len pos st (s\<lparr>dm_fab := g\<rparr>)))"
proof -
  let ?s = "s\<lparr>dm_fab := g\<rparr>"
  have wf: "blk_wf ok ?s"
    using safe_run [OF safe_map _ assms(2)] assms(1) by (simp add: drv_wf_def)
  obtain r t where b: "block_read pos len ?s = (r, t)" by fastforce
  then obtain okb bs where r: "r = OK (okb, bs)" and len: "length bs \<le> unat len"
    and t: "dm_mmio t = dm_mmio ?s" "dm_fab t = g" using block_read_effect by (metis daemon.select_convs(2) daemon.surjective daemon.update_convs(2))
  have st: "fst (fabric_ptr_store F p bs g) \<noteq> Trap \<and> ok (snd (fabric_ptr_store F p bs g))"
    using assms len by (intro store_safe) (auto simp: drv_wf_def)
  obtain r' g' where pst: "fabric_ptr_store F p bs g = (r', g')" by fastforce
  have wf': "blk_wf ok (t\<lparr>dm_fab := g'\<rparr>)" using wf t st pst by (simp add: drv_wf_def)
  let ?k = "bnd (on_fab (fabric_dma_unmap F p len)) (\<lambda>_. ret (if okb then st else VIRTIO_BLK_S_IOERR))"
  have k: "safe (blk_wf ok) ?k" by (intro safe_bnd safe_on_fab safe_unmap safe_basic)
  have "direct_in F p len pos st ?s = bnd (on_fab (fabric_ptr_store F p bs)) (\<lambda>_. ?k) t"
    using b r by (simp add: direct_in_def bnd_OK)
  also have "\<dots> = (case r' of OK _ \<Rightarrow> ?k (t\<lparr>dm_fab := g'\<rparr>) | Fail \<Rightarrow> (Fail, t\<lparr>dm_fab := g'\<rparr>)
      | Trap \<Rightarrow> (Trap, t\<lparr>dm_fab := g'\<rparr>) | Spin \<Rightarrow> (Spin, t\<lparr>dm_fab := g'\<rparr>))"
    using pst t by (cases r') (simp_all add: bnd_def on_fab_def)
  finally show ?thesis using k wf' st pst by (cases r') (auto simp: safe_def)
qed

lemma safe_segment_in: "safe (blk_wf ok) (segment_in F dr desc pos st)"
proof
  fix s assume s: "blk_wf ok s"
  let ?a = "ds_addr desc" and ?n = "ds_len desc"
  obtain r g where m: "fabric_dma_map F ?a ?n (dm_fab s) = (r, g)" by fastforce
  have wf: "r \<noteq> Trap \<and> blk_wf ok (s\<lparr>dm_fab := g\<rparr>)"
    using safe_run [OF safe_map _ m] s by (simp add: drv_wf_def)
  have buf: "fst (buffered_in F ?a ?n pos st t) \<noteq> Trap \<and> blk_wf ok (snd (buffered_in F ?a ?n pos st t))"
    if "blk_wf ok t" for t using safe_buffered_in that by (simp add: safe_def)
  show "fst (segment_in F dr desc pos st s) \<noteq> Trap \<and> blk_wf ok (snd (segment_in F dr desc pos st s))"
    using s wf m buf [OF s] buf [of "s\<lparr>dm_fab := g\<rparr>"] safe_direct_in [OF s, of ?a ?n _ g pos st]
    by (cases r) (auto simp: segment_in_def bnd_def attempt_def on_fab_def)
qed

lemma safe_segment_out: "safe (blk_wf ok) (segment_out F desc pos st)"
proof -
  let ?n = "ds_len desc"
  have store: "triple (\<lambda>s. roomy ok ?n s \<and> length bs \<le> unat ?n) (io_buf_store bs) (\<lambda>_. roomy ok ?n) (blk_wf ok)" for bs
    using triple_io_buf_store [of bs ?n ok] by (auto simp: triple_def)
  have "safe (blk_wf ok) (bnd (block_write pos buf ?n) (\<lambda>okw. ret (if okw then st else VIRTIO_BLK_S_IOERR)))" for buf
    by (intro safe_bnd safe_block safe_basic)
  then have tail: "triple (\<lambda>s. roomy ok ?n s \<and> length buf = unat ?n)
      (bnd (block_write pos buf ?n) (\<lambda>okw. ret (if okw then st else VIRTIO_BLK_S_IOERR))) (\<lambda>_. blk_wf ok) (blk_wf ok)" for buf
    by (auto simp: safe_triple triple_def roomy_def)
  have "triple (blk_wf ok) (bnd (ensure_io_buf ?n) (\<lambda>_.
      bnd (on_fab (fabric_dma_read_into F (ds_addr desc) ?n)) (\<lambda>data.
      bnd (io_buf_store data) (\<lambda>_. bnd (io_buf_load ?n) (\<lambda>buf.
      bnd (block_write pos buf ?n) (\<lambda>okw. ret (if okw then st else VIRTIO_BLK_S_IOERR))))))) (\<lambda>_. blk_wf ok) (blk_wf ok)"
    by (rule triple_bnd [OF triple_ensure], rule triple_bnd [OF triple_read_into],
        rule triple_bnd [OF store], rule triple_bnd [OF triple_io_buf_load], rule tail)
  then show ?thesis unfolding segment_out_def by (intro safe_if safe_basic) (simp add: safe_triple)
qed

lemma safe_chain_loop: "safe (blk_wf ok) (chain_loop F dr q rt off n st dl i seen)"
proof (induction n arbitrary: st dl i seen)
  case (Suc n)
  show ?case unfolding chain_loop.simps
    by (intro safe_bnd safe_if safe_prod safe_basic safe_on_fab safe_read_desc safe_segment_in
        safe_segment_out Suc.IH)
qed simp

lemma safe_process_chain: "safe (blk_wf ok) (process_chain F dr n head)"
proof -
  have "safe ok (fabric_dma_write F a [st] 1)" for a st by (rule safe_write) simp
  then show ?thesis unfolding process_chain_def finish_chain_def Let_def
    by (intro safe_bnd safe_if safe_prod safe_basic safe_dev_queue safe_on_fab safe_read_desc
        safe_read_into safe_chain_loop safe_block) simp_all
qed

lemma safe_notify: "safe (blk_wf ok) (blkd_virtio_notify_queue F dr n v)"
  unfolding blkd_virtio_notify_queue_def blkd_ack_notify_def
  by (intro safe_bnd safe_dev_queue safe_if safe_ack_notify safe_service_queue safe_process_chain) auto

end

context fabric_safe
begin

lemma safe_blkd_mmio_write:
  assumes "off = VIRTIO_MMIO_QUEUE_NUM \<Longrightarrow> (ucast v :: u16) \<noteq> 0"
  shows "safe (blk_wf ok) (blkd_mmio_write F dr n off v len)"
  unfolding blkd_mmio_write_def using assms
  by (rule safe_driver_mmio_write) (auto simp: blkd_virtio_ops_def safe_notify)

end

lemma blkd_connect_wf:
  "ok (dm_fab s) \<Longrightarrow> buf_wf (dm_opaque s) \<Longrightarrow> blk_wf ok (blkd_connect F dr n b s)"
  by (simp add: drv_wf_def blkd_connect_def Let_def blkd_virtio_init_def virtio_device_init_def buf_wf_def
      virtio_mmio_init_def virtio_mmio_reset_def virtio_device_reset_def blkd_virtio_ops_def zero_vdev_def
      queues_ok_def fresh_queue_def ring_size_def BLKD_QUEUE_SIZE_def)

context fabric_safe
begin

lemma blkd_event_wf:
  assumes "blk_wf ok s" and "sane_event e"
  shows "blk_wf ok (blkd_event F dr n b e s)"
proof (cases e)
  case Reconnect
  with assms show ?thesis using blkd_connect_wf by (auto simp: drv_wf_def [of _ _ ok s])
next
  case (MmioWrite off v len)
  with assms safe_blkd_mmio_write [of off v dr n len] show ?thesis by (simp add: safe_def)
qed

lemma blkd_events_wf:
  "blk_wf ok s \<Longrightarrow> list_all sane_event es \<Longrightarrow> blk_wf ok (blkd_events F dr n b es s)"
  by (induction es arbitrary: s) (simp_all add: blkd_event_wf)

lemma blkd_no_fault:
  assumes "ok (dm_fab s)" and "buf_wf (dm_opaque s)" and "list_all sane_event es" and "sane_event (MmioWrite off v len)"
  shows "fst (blkd_mmio_write F dr n off v len (blkd_events F dr n b (Reconnect # es) s)) \<noteq> Trap"
proof -
  have "blk_wf ok (blkd_events F dr n b (Reconnect # es) s)"
    using assms by (simp add: blkd_events_wf blkd_connect_wf)
  with assms(4) safe_blkd_mmio_write [of off v dr n len] show ?thesis by (simp add: safe_def)
qed

end

section \<open>The fabric's own state\<close>

lemma fab_inv_block:
  "keeps (fab_inv P) (block_read pos len)" "keeps (fab_inv P) (block_write pos d len)" "keeps (fab_inv P) block_flush"
  "keeps (fab_inv P) (ensure_io_buf len)" "keeps (fab_inv P) (io_buf_store bs)" "keeps (fab_inv P) (io_buf_load len)"
  by (rule keepsI, simp add: fab_inv_def block_read_def block_write_def block_flush_def on_host_def
      ensure_io_buf_def io_buf_store_def io_buf_load_def Let_def split: prod.splits)+

context fabric_keeps
begin

lemma fab_inv_segments:
  "keeps (fab_inv P) (segment_in F dr d pos st)" "keeps (fab_inv P) (segment_out F d pos st)"
  unfolding segment_in_def direct_in_def buffered_in_def segment_out_def
  by (intro fab_parts fab_inv_block fab_inv_on_fab keeps_read_into keeps_write keeps_map keeps_store keeps_unmap)+

lemma fab_inv_chain_loop: "keeps (fab_inv P) (chain_loop F dr q rt off n st dl i seen)"
proof (induction n arbitrary: st dl i seen)
  case (Suc n)
  show ?case unfolding chain_loop.simps
    by (intro fab_parts fab_inv_on_fab keeps_read_desc fab_inv_segments Suc.IH)
qed simp

lemma fab_inv_process_chain: "keeps (fab_inv P) (process_chain F dr n head)"
  unfolding process_chain_def finish_chain_def Let_def
  by (intro fab_parts fab_inv_block fab_inv_on_fab keeps_read_desc keeps_read_into keeps_write fab_inv_chain_loop)

lemma fab_inv_blkd_write: "keeps (fab_inv P) (blkd_mmio_write F dr n off v len)"
  unfolding blkd_mmio_write_def
  by (rule fab_inv_mmio_write)
    (auto simp: blkd_virtio_ops_def blkd_virtio_notify_queue_def blkd_ack_notify_def
      intro!: fab_parts fab_inv_ack_notify fab_inv_service_queue fab_inv_process_chain)

end

end
