(* ===== verification/Queue_Service.thy ===== *)
theory Queue_Service
  imports Chains
begin

unbundle bit_operations_syntax

text \<open>
  The service loop against its specification: the chains are taken in the order the driver made them
  available, each is processed and completed before the next is looked at, the loop ends when
  nothing is left, and the completion interrupt is raised once. The locale \<open>queue_service\<close> states what
  the loop needs of a chain processor; the drivers interpret it.
\<close>

section \<open>Specification\<close>

text \<open>
  \<open>spec m x q head\<close> is the effect of one chain: guest memory, the abstract state of the device and the
  length to report. \<open>serve_all\<close> is the effect of the first \<open>k\<close> chains, and \<open>serve_ok\<close> says that there are
  exactly \<open>k\<close> of them, each well formed when its turn comes, and that the rings are reachable.
\<close>

type_synonym 'x chain_spec = "memory \<Rightarrow> 'x \<Rightarrow> virtio_queue \<Rightarrow> u16 \<Rightarrow> memory \<times> 'x \<times> u32"

fun serve_all :: "'x chain_spec \<Rightarrow> nat \<Rightarrow> memory \<Rightarrow> 'x \<Rightarrow> virtio_queue \<Rightarrow> memory \<times> 'x \<times> virtio_queue" where
  "serve_all spec 0 m x q = (m, x, q)"
| "serve_all spec (Suc k) m x q =
     (let head = hd (pending m q); (m1, x1, len) = spec m x q head
      in serve_all spec k (used_push m1 q head len) x1 (consume q))"

definition rings_ok :: "(u64 \<Rightarrow> nat \<Rightarrow> bool) \<Rightarrow> memory \<Rightarrow> virtio_queue \<Rightarrow> bool" where
  "rings_ok rch m q \<longleftrightarrow> ring_size q \<noteq> 0 \<and> rch (vq_used q + 2) 2 \<and>
     rch (used_slot q (used_idx m q)) 4 \<and> rch (used_slot q (used_idx m q) + 4) 4"

fun serve_ok ::
  "(memory \<Rightarrow> 'x \<Rightarrow> virtio_queue \<Rightarrow> u16 \<Rightarrow> bool) \<Rightarrow> (u64 \<Rightarrow> nat \<Rightarrow> bool) \<Rightarrow> 'x chain_spec \<Rightarrow>
   nat \<Rightarrow> memory \<Rightarrow> 'x \<Rightarrow> virtio_queue \<Rightarrow> bool" where
  "serve_ok good rch spec 0 m x q \<longleftrightarrow> rch (vq_avail q + 2) 2 \<and> pending m q = []"
| "serve_ok good rch spec (Suc k) m x q \<longleftrightarrow>
     rch (vq_avail q + 2) 2 \<and> pending m q \<noteq> [] \<and> rch (avail_slot q (vq_last_avail_idx q)) 2 \<and>
     good m x q (hd (pending m q)) \<and>
     (case spec m x q (hd (pending m q)) of (m1, x1, len) \<Rightarrow>
        rings_ok rch m1 q \<and> serve_ok good rch spec k (used_push m1 q (hd (pending m q)) len) x1 (consume q))"

section \<open>The loop\<close>

context guest_dma
begin

lemma retry_quiet:
  assumes quiet: "\<And>t g. live g \<Longrightarrow> live (fabric_usleep F t g) \<and> ram (fabric_usleep F t g) = ram g \<and>
      reach (fabric_usleep F t g) = reach g"
    and "live f" and "reach f (vq_avail q + 2) 2" and "pending (ram f) q = []"
  shows "\<exists>g. next_avail_retry F q n f = (OK None, g) \<and> live g \<and> ram g = ram f \<and> reach g = reach f"
  using assms(2-4)
proof (induction n arbitrary: f)
  case (Suc n)
  let ?f = "fabric_usleep F 1000 f"
  have q: "live ?f" "ram ?f = ram f" "reach ?f = reach f" using quiet Suc.prems by auto
  with Suc.prems next_avail_empty [of ?f q] obtain g where
    g: "virtio_next_avail F q ?f = (OK None, g)" "live g" "ram g = ram f" "reach g = reach f" by auto
  with Suc.IH [of g] Suc.prems obtain h where
    "next_avail_retry F q n g = (OK None, h)" "live h" "ram h = ram f" "reach h = reach f" by auto
  with g(1) show ?case by (auto simp: bnd_OK)
qed auto

lemma wait_avail_empty:
  assumes quiet: "\<And>t g. live g \<Longrightarrow> live (fabric_usleep F t g) \<and> ram (fabric_usleep F t g) = ram g \<and>
      reach (fabric_usleep F t g) = reach g"
    and "live f" and "reach f (vq_avail q + 2) 2" and "pending (ram f) q = []"
  shows "\<exists>g. wait_avail F q f = (OK None, g) \<and> live g \<and> ram g = ram f \<and> reach g = reach f"
proof -
  from assms(2-4) next_avail_empty [of f q] obtain g where
    g: "virtio_next_avail F q f = (OK None, g)" "live g" "ram g = ram f" "reach g = reach f" by auto
  with retry_quiet [OF quiet, of g q 20] assms(3,4) show ?thesis
    by (auto simp: wait_avail_def bnd_OK)
qed

lemma wait_avail_some:
  assumes "live f" and "reach f (vq_avail q + 2) 2" and "pending (ram f) q \<noteq> []"
    and "ring_size q \<noteq> 0" and "reach f (avail_slot q (vq_last_avail_idx q)) 2"
  shows "\<exists>g. wait_avail F q f = (OK (Some (hd (pending (ram f) q))), g) \<and>
    live g \<and> ram g = ram f \<and> reach g = reach f"
  using next_avail_some [OF assms] by (auto simp: wait_avail_def bnd_OK)

end

locale queue_service = guest_irq F live ram reach line
  for F :: "'f fabric_ops" and live ram reach line +
  fixes process :: "u16 \<Rightarrow> (('o, 'f) daemon, u32) act"
    and qi :: nat
    and ready :: "('o, 'f) daemon \<Rightarrow> 'x \<Rightarrow> bool"
    and good :: "(u64 \<Rightarrow> nat \<Rightarrow> bool) \<Rightarrow> nat \<Rightarrow> memory \<Rightarrow> 'x \<Rightarrow> virtio_queue \<Rightarrow> u16 \<Rightarrow> bool"
    and spec :: "'x chain_spec"
  assumes ready_live: "ready s x \<Longrightarrow> live (dm_fab s)"
  and ready_fab: "ready s x \<Longrightarrow> live g \<Longrightarrow> ready (s\<lparr>dm_fab := g\<rparr>) x"
  and ready_vdev: "ready s x \<Longrightarrow> vd_opaque (k (dm_vdev s)) = dm_opaque s \<Longrightarrow> ready (set_vdev k s) x"
  and process_spec:
    "ready s x \<Longrightarrow> qi < length (vd_queues (dm_vdev s)) \<Longrightarrow> vd_queues (dm_vdev s) ! qi = q \<Longrightarrow>
     good (reach (dm_fab s)) (h_heap (dm_host s)) (ram (dm_fab s)) x q head \<Longrightarrow>
     spec (ram (dm_fab s)) x q head = (m', x', len) \<Longrightarrow>
     \<exists>s'. process head s = (OK len, s') \<and> ready s' x' \<and> ram (dm_fab s') = m' \<and>
       reach (dm_fab s') = reach (dm_fab s) \<and> h_heap (dm_host s') = h_heap (dm_host s) \<and>
       (\<exists>opaque. dm_vdev s' = (dm_vdev s)\<lparr>vd_opaque := opaque\<rparr>)"
begin

lemma service_loop_ok:
  assumes quiet: "\<And>t g. live g \<Longrightarrow> live (fabric_usleep F t g) \<and> ram (fabric_usleep F t g) = ram g \<and>
      reach (fabric_usleep F t g) = reach g"
    and "ready s x" and "qi < length (vd_queues (dm_vdev s))" and "vd_queues (dm_vdev s) ! qi = q"
    and "serve_ok (good (reach (dm_fab s)) (h_heap (dm_host s))) (reach (dm_fab s)) spec k (ram (dm_fab s)) x q"
    and "k < n" and "serve_all spec k (ram (dm_fab s)) x q = (m', x', q')"
  shows "\<exists>s'. service_loop F process qi n used s = (OK (used \<or> 0 < k), s') \<and> ready s' x' \<and>
    ram (dm_fab s') = m' \<and> reach (dm_fab s') = reach (dm_fab s) \<and>
    (\<exists>opaque. dm_vdev s' = (dm_vdev s)\<lparr>vd_opaque := opaque, vd_queues := (vd_queues (dm_vdev s))[qi := q']\<rparr>)"
  using assms(2-)
proof (induction k arbitrary: s x q n used)
  case 0
  then obtain n' where n: "n = Suc n'" by (cases n) auto
  have l: "live (dm_fab s)" using 0(1) by (rule ready_live)
  obtain g where g: "wait_avail F q (dm_fab s) = (OK None, g)" "live g" "ram g = ram (dm_fab s)"
    "reach g = reach (dm_fab s)"
    using wait_avail_empty [OF quiet l, of q] 0 by auto
  have "service_loop F process qi n used s = (OK used, s\<lparr>dm_fab := g\<rparr>)"
    using n 0(2,3) g(1) by (simp add: bnd_def dev_queue_def on_fab_def)
  moreover have "vd_queues (dm_vdev s) = (vd_queues (dm_vdev s))[qi := q']" using 0 by auto
  ultimately show ?case using g ready_fab [OF 0(1) g(2)] 0
    by (auto intro!: exI [of _ "s\<lparr>dm_fab := g\<rparr>"] exI [of _ "dm_opaque s"])
next
  case (Suc k)
  obtain n' where n: "n = Suc n'" using Suc(6) by (cases n) auto
  let ?m = "ram (dm_fab s)" let ?head = "hd (pending ?m q)"
  obtain m1 x1 len where sp: "spec ?m x q ?head = (m1, x1, len)" by (metis prod.exhaust)
  have ok: "reach (dm_fab s) (vq_avail q + 2) 2" "pending ?m q \<noteq> []"
    "reach (dm_fab s) (avail_slot q (vq_last_avail_idx q)) 2"
    "good (reach (dm_fab s)) (h_heap (dm_host s)) ?m x q ?head" "rings_ok (reach (dm_fab s)) m1 q"
    and rest: "serve_ok (good (reach (dm_fab s)) (h_heap (dm_host s))) (reach (dm_fab s)) spec k
      (used_push m1 q ?head len) x1 (consume q)"
    using Suc(5) sp by auto
  have sz: "ring_size q \<noteq> 0" using ok(5) by (simp add: rings_ok_def)
  have l: "live (dm_fab s)" using Suc(2) by (rule ready_live)
  obtain g where g: "wait_avail F q (dm_fab s) = (OK (Some ?head), g)" "live g" "ram g = ?m" "reach g = reach (dm_fab s)"
    using wait_avail_some [OF l ok(1,2) sz ok(3)] by auto
  let ?s1 = "s\<lparr>dm_fab := g\<rparr>"
  obtain s2 opaque where s2: "process ?head ?s1 = (OK len, s2)" "ready s2 x1" "ram (dm_fab s2) = m1"
    "reach (dm_fab s2) = reach (dm_fab s)" "h_heap (dm_host s2) = h_heap (dm_host s)"
    "dm_vdev s2 = (dm_vdev s)\<lparr>vd_opaque := opaque\<rparr>"
    using process_spec [OF ready_fab [OF Suc(2) g(2)], of q ?head m1 x1 len] Suc(3,4) ok(4) sp g(3,4) by auto
  have l2: "live (dm_fab s2)" using s2(2) by (rule ready_live)
  obtain h where h: "virtio_add_used F q ?head len (dm_fab s2) = (OK (), h)" "live h"
    "ram h = used_push m1 q ?head len" "reach h = reach (dm_fab s)"
    using add_used_reach [OF l2 sz, of ?head len] ok(5) s2(3,4) by (auto simp: rings_ok_def)
  let ?s3 = "upd_queue qi (\<lambda>q. q\<lparr>vq_last_avail_idx := vq_last_avail_idx q + 1\<rparr>) (s2\<lparr>dm_fab := h\<rparr>)"
  have step: "service_loop F process qi n used s = service_loop F process qi n' True ?s3"
    using n Suc(3,4) g(1) s2(1,6) h(1) by (simp add: bnd_def dev_queue_def on_fab_def)
  have r3: "ready ?s3 x1"
    unfolding upd_queue_def by (rule ready_vdev [OF ready_fab [OF s2(2) h(2)]]) simp
  have q3: "qi < length (vd_queues (dm_vdev ?s3))" "vd_queues (dm_vdev ?s3) ! qi = consume q"
    using Suc(3,4) s2(6) by (simp_all add: consume_def)
  have "serve_all spec k (used_push m1 q ?head len) x1 (consume q) = (m', x', q')"
    using Suc(7) sp by (simp add: Let_def)
  then obtain s' opaque' where "service_loop F process qi n' True ?s3 = (OK True, s')" "ready s' x'"
    "ram (dm_fab s') = m'" "reach (dm_fab s') = reach (dm_fab s)"
    "dm_vdev s' = (dm_vdev ?s3)\<lparr>vd_opaque := opaque', vd_queues := (vd_queues (dm_vdev ?s3))[qi := q']\<rparr>"
    using Suc(1) [OF r3 q3, of n' True] rest h s2(5) Suc(6) n by auto
  then show ?case using step s2(6) by auto
qed

lemma service_queue_ok:
  assumes quiet: "\<And>t g. live g \<Longrightarrow> live (fabric_usleep F t g) \<and> ram (fabric_usleep F t g) = ram g \<and>
      reach (fabric_usleep F t g) = reach g"
    and "ready s x" and "qi < length (vd_queues (dm_vdev s))" and "vd_queues (dm_vdev s) ! qi = q"
    and "serve_ok (good (reach (dm_fab s)) (h_heap (dm_host s))) (reach (dm_fab s)) spec k (ram (dm_fab s)) x q"
    and "k < n" and "serve_all spec k (ram (dm_fab s)) x q = (m', x', q')" and "0 < k"
  shows "\<exists>s'. service_queue F process qi n s = (OK (), s') \<and> ready s' x' \<and>
    ram (dm_fab s') = m' \<and> line (dm_fab s') \<and>
    vd_queues (dm_vdev s') = (vd_queues (dm_vdev s))[qi := q'] \<and>
    vd_interrupt_status (dm_vdev s') = vd_interrupt_status (dm_vdev s) OR VIRTIO_INTERRUPT_VRING"
proof -
  obtain s1 opaque where s1: "service_loop F process qi n False s = (OK True, s1)" "ready s1 x'"
    "ram (dm_fab s1) = m'"
    "dm_vdev s1 = (dm_vdev s)\<lparr>vd_opaque := opaque, vd_queues := (vd_queues (dm_vdev s))[qi := q']\<rparr>"
    using service_loop_ok [OF assms(1-7), of False] assms(8) by auto
  let ?s2 = "set_vdev (\<lambda>d. d\<lparr>vd_interrupt_status := vd_interrupt_status d OR VIRTIO_INTERRUPT_VRING\<rparr>) s1"
  have r2: "ready ?s2 x'" by (rule ready_vdev [OF s1(2)]) simp
  have "live (dm_fab ?s2)" using r2 by (rule ready_live)
  then obtain g where g: "fabric_raise_irq F (dm_fab s1) = (OK (), g)" "live g" "ram g = m'" "line g"
    using raise_ok [of "dm_fab ?s2"] s1(3) by auto
  have "service_queue F process qi n s = (OK (), ?s2\<lparr>dm_fab := g\<rparr>)"
    using s1(1) g(1) by (simp add: service_queue_def raise_vring_def bnd_OK on_fab_def)
  with g s1(4) ready_fab [OF r2 g(2)] show ?thesis by auto
qed

end

end
