(* ===== verification/Blkd_Refine.thy ===== *)
theory Blkd_Refine
  imports Blkd_Safety Queue_Service
begin

unbundle bit_operations_syntax

text \<open>
  What a block request does, against its specification: a read request fills its buffers with the
  bytes of the image, a write request replaces the bytes of the image by the contents of its
  buffers, a flush makes the image durable, and an unknown request changes nothing; each reports its
  status in the last byte of the chain. The lemmas are proved for every fabric with the contract
  \<open>guest_map\<close> and hold whatever interruptions and short transfers the host has.
\<close>

section \<open>The effect of the data buffers\<close>

text \<open>The effect of the data buffers of a read on guest memory.\<close>

fun in_writes :: "u8 list \<Rightarrow> nat \<Rightarrow> virtio_desc list \<Rightarrow> memory \<Rightarrow> memory" where
  "in_writes img pos [] m = m"
| "in_writes img pos (d # ds) m =
     in_writes img (pos + unat (ds_len d)) ds (mem_write m (ds_addr d) (take (unat (ds_len d)) (drop pos img)))"

text \<open>Buffers that do not overlap hold, after a read request, the bytes of the image in order.\<close>

fun disjoint_segs :: "virtio_desc list \<Rightarrow> bool" where
  "disjoint_segs [] \<longleftrightarrow> True"
| "disjoint_segs (d # ds) \<longleftrightarrow>
     (\<forall>e \<in> set ds. apart (ds_addr e) (unat (ds_len e)) (ds_addr d) (unat (ds_len d))) \<and> disjoint_segs ds"

lemma in_writes_elsewhere:
  assumes "\<forall>d \<in> set segs. apart (ds_addr d) (unat (ds_len d)) a n" and "pos + seg_bytes segs \<le> length c"
  shows "mem_read (in_writes c pos segs m) a n = mem_read m a n"
  using assms
proof (induction segs arbitrary: pos m)
  case (Cons d segs)
  then show ?case by (simp add: mem_read_write_apart)
qed simp

lemma in_writes_data:
  assumes "disjoint_segs segs" and "pos + seg_bytes segs \<le> length c"
  shows "out_data (in_writes c pos segs m) segs = take (seg_bytes segs) (drop pos c)"
  using assms
proof (induction segs arbitrary: pos m)
  case (Cons d segs)
  let ?bs = "take (unat (ds_len d)) (drop pos c)" let ?m = "mem_write m (ds_addr d) ?bs"
  have len: "length ?bs = unat (ds_len d)" using Cons.prems by simp
  have small: "unat (ds_len d) \<le> 2 ^ 64" using unat_lt_u32 [of "ds_len d"] by simp
  have "mem_read (in_writes c (pos + unat (ds_len d)) segs ?m) (ds_addr d) (unat (ds_len d)) = ?bs"
    using Cons.prems in_writes_elsewhere [of segs "ds_addr d" "unat (ds_len d)" "pos + unat (ds_len d)" c ?m]
      mem_read_write_same [of ?bs "unat (ds_len d)" m "ds_addr d"] len small by auto
  moreover have "out_data (in_writes c (pos + unat (ds_len d)) segs ?m) segs =
      take (seg_bytes segs) (drop (pos + unat (ds_len d)) c)"
    using Cons by auto
  ultimately show ?case by (simp add: take_add add.commute [of pos])
qed simp

section \<open>States of the backend\<close>

text \<open>
  \<open>blk_ready live s f c\<close>: the fabric is up, the image is open on a readable file with contents \<open>c\<close> of
  the length the backend recorded, no host call is about to fail, and the request buffer is well
  formed. \<open>blk_after\<close>: a later state of the same device, with image \<open>c'\<close> and guest memory \<open>m\<close>.
\<close>

definition blk_ready :: "('f \<Rightarrow> bool) \<Rightarrow> 'f blkd \<Rightarrow> open_file \<Rightarrow> u8 list \<Rightarrow> bool" where
  "blk_ready live s f c \<longleftrightarrow> live (dm_fab s) \<and> opened (dm_host s) (bb_fd (bd_backend (dm_opaque s))) f c \<and>
     of_readable f \<and> length c = unat (bb_image_len (bd_backend (dm_opaque s))) \<and> length c < 2 ^ 63 \<and>
     Broken \<notin> set (h_script (dm_host s)) \<and> buf_wf (dm_opaque s)"

definition blk_after ::
  "('f \<Rightarrow> bool) \<Rightarrow> ('f \<Rightarrow> memory) \<Rightarrow> ('f \<Rightarrow> u64 \<Rightarrow> nat \<Rightarrow> bool) \<Rightarrow> open_file \<Rightarrow>
   'f blkd \<Rightarrow> 'f blkd \<Rightarrow> u8 list \<Rightarrow> memory \<Rightarrow> bool" where
  "blk_after live ram reach f s s' c' m \<longleftrightarrow> blk_ready live s' f c' \<and> ram (dm_fab s') = m \<and>
     reach (dm_fab s') = reach (dm_fab s) \<and> h_heap (dm_host s') = h_heap (dm_host s) \<and>
     h_files (dm_host s') = (h_files (dm_host s))(of_path f \<mapsto> c') \<and>
     bd_backend (dm_opaque s') = bd_backend (dm_opaque s) \<and>
     (\<exists>opaque. dm_vdev s' = (dm_vdev s)\<lparr>vd_opaque := opaque\<rparr>)"

lemma blk_after_trans:
  "blk_after live ram reach f s s1 c1 m1 \<Longrightarrow> blk_after live ram reach f s1 s2 c2 m2 \<Longrightarrow>
   blk_after live ram reach f s s2 c2 m2"
  by (fastforce simp: blk_after_def)

lemma blk_after_refl:
  assumes "blk_ready live s f c" and "ram (dm_fab s) = m"
  shows "blk_after live ram reach f s s c m"
  using assms by (auto simp: blk_after_def blk_ready_def opened_def fun_upd_idem intro: exI [of _ "dm_opaque s"])

lemma blk_after_fab:
  assumes "blk_ready live s f c" and "live g" and "ram g = m" and "reach g = reach (dm_fab s)"
  shows "blk_after live ram reach f s (s\<lparr>dm_fab := g\<rparr>) c m"
  using assms by (auto simp: blk_after_def blk_ready_def opened_def fun_upd_idem intro: exI [of _ "dm_opaque s"])

lemma ensure_io_buf_ok:
  assumes "blk_ready live s f c" and "unat len \<le> h_heap (dm_host s)"
  shows "\<exists>s'. ensure_io_buf len s = (OK (), s') \<and> blk_after live ram reach f s s' c (ram (dm_fab s)) \<and>
    unat len \<le> length (bd_io_buf (dm_opaque s')) \<and> dm_fab s' = dm_fab s"
proof (cases "len \<le> bd_io_buf_size (dm_opaque s)")
  case True
  with assms show ?thesis
    by (auto simp: ensure_io_buf_def Let_def blk_after_refl blk_ready_def buf_wf_def word_le_nat_alt)
next
  case False
  with assms show ?thesis
    by (auto simp: ensure_io_buf_def Let_def blk_after_def blk_ready_def buf_wf_def opened_def fun_upd_idem)
qed

lemma io_buf_store_load:
  assumes "blk_ready live s f c" and "length bs = unat len" and "unat len \<le> length (bd_io_buf (dm_opaque s))"
  shows "\<exists>s'. io_buf_store bs s = (OK (), s') \<and> blk_after live ram reach f s s' c (ram (dm_fab s)) \<and>
    dm_fab s' = dm_fab s \<and> io_buf_load len s' = (OK bs, s')"
  using assms
  by (auto simp: io_buf_store_def io_buf_load_def blk_after_def blk_ready_def buf_wf_def opened_def fun_upd_idem)

lemma pos_in_image:
  assumes "unat pos + unat (len :: u32) \<le> unat (bb_image_len b)" and "unat (bb_image_len b) < 2 ^ 63"
  shows "\<not> pos > bb_image_len b" "\<not> ucast len > bb_image_len b - pos" "\<not> pos > INT64_MAX"
proof -
  have "unat (bb_image_len b - pos) = unat (bb_image_len b) - unat pos"
    using assms(1) by (intro unat_sub) (simp add: word_le_nat_alt)
  then show "\<not> pos > bb_image_len b" "\<not> ucast len > bb_image_len b - pos" "\<not> pos > INT64_MAX"
    using assms by (auto simp: word_less_nat_alt unat_ucast_u32 INT64_MAX_def)
qed

lemma block_read_ok:
  assumes r: "blk_ready live s f c" and fit: "unat pos + unat len \<le> length c"
  shows "\<exists>s'. block_read pos len s = (OK (True, take (unat len) (drop (unat pos) c)), s') \<and>
    blk_after live ram reach f s s' c (ram (dm_fab s)) \<and> dm_fab s' = dm_fab s \<and> dm_mmio s' = dm_mmio s"
proof -
  let ?b = "bd_backend (dm_opaque s)"
  have op: "opened (dm_host s) (bb_fd ?b) f c" "of_readable f" and len: "length c = unat (bb_image_len ?b)"
    and nb: "Broken \<notin> set (h_script (dm_host s))" and small: "length c < 2 ^ 63"
    using r by (auto simp: blk_ready_def)
  obtain s' where p: "pread_all (bb_fd ?b) (unat len) (unat pos) (dm_host s) =
      ((True, take (unat len) (drop (unat pos) c)), (dm_host s)\<lparr>h_script := s'\<rparr>)"
      "suffix s' (h_script (dm_host s))"
    using pread_all_spec [OF op, of "unat len" "unat pos"] nb fit by auto
  have "Broken \<notin> set s'" using p(2) nb set_mono_suffix by blast
  moreover have "block_read pos len s = (OK (True, take (unat len) (drop (unat pos) c)),
      s\<lparr>dm_host := (dm_host s)\<lparr>h_script := s'\<rparr>\<rparr>)"
    using p(1) pos_in_image [of pos len ?b] fit len small
    by (simp add: block_read_def on_host_def blkd_block_read_def unat_ucast_u32)
  ultimately show ?thesis using r
    by (auto simp: blk_after_def blk_ready_def opened_def fun_upd_idem intro: exI [of _ "dm_opaque s"])
qed

lemma block_write_ok:
  assumes r: "blk_ready live s f c" and fit: "unat pos + unat len \<le> length c" and d: "length d = unat len"
    and w: "of_writable f" "\<not> bb_readonly (bd_backend (dm_opaque s))"
  shows "\<exists>s'. block_write pos d len s = (OK True, s') \<and>
    blk_after live ram reach f s s' (file_put c (unat pos) d) (ram (dm_fab s))"
proof -
  let ?b = "bd_backend (dm_opaque s)" and ?c = "file_put c (unat pos) d"
  have op: "opened (dm_host s) (bb_fd ?b) f c" and len: "length c = unat (bb_image_len ?b)"
    and nb: "Broken \<notin> set (h_script (dm_host s))" and small: "length c < 2 ^ 63"
    using r by (auto simp: blk_ready_def)
  obtain s' where p: "pwrite_all (bb_fd ?b) d (unat pos) (dm_host s) =
      (True, (set_file (of_path f) ?c (dm_host s))\<lparr>h_script := s'\<rparr>)" "suffix s' (h_script (dm_host s))"
    using pwrite_all_spec [OF op w(1), of "unat pos" d] nb fit d by auto
  have "Broken \<notin> set s'" using p(2) nb set_mono_suffix by blast
  moreover have "block_write pos d len s = (OK True, s\<lparr>dm_host := (set_file (of_path f) ?c (dm_host s))\<lparr>h_script := s'\<rparr>\<rparr>)"
    using p(1) pos_in_image [of pos len ?b] fit len small d w
    by (simp add: block_write_def on_host_def blkd_block_write_def unat_ucast_u32)
  moreover have "length ?c = length c" using fit d by simp
  ultimately show ?thesis using r
    by (auto simp: blk_after_def blk_ready_def opened_def intro: exI [of _ "dm_opaque s"])
qed

section \<open>One data descriptor\<close>

context guest_map
begin

lemma blk_read_desc:
  assumes "blk_ready live s f c" and "reach (dm_fab s) (desc_addr q i) 16"
  shows "\<exists>s'. on_fab (virtio_read_desc F q i) s = (OK (desc_at (ram (dm_fab s)) q i), s') \<and>
    blk_after live ram reach f s s' c (ram (dm_fab s)) \<and> dm_host s' = dm_host s"
proof -
  have "live (dm_fab s)" using assms(1) by (simp add: blk_ready_def)
  from read_desc_reach [OF this assms(2)] obtain g where
    "virtio_read_desc F q i (dm_fab s) = (OK (desc_at (ram (dm_fab s)) q i), g)"
    "live g" "ram g = ram (dm_fab s)" "reach g = reach (dm_fab s)" by auto
  with assms(1) show ?thesis by (auto simp: on_fab_run intro: blk_after_fab)
qed

lemma blk_read_into:
  assumes "blk_ready live s f c" and "reach (dm_fab s) a (unat n)"
  shows "\<exists>s'. on_fab (fabric_dma_read_into F a n) s = (OK (mem_read (ram (dm_fab s)) a (unat n)), s') \<and>
    blk_after live ram reach f s s' c (ram (dm_fab s)) \<and> dm_mmio s' = dm_mmio s \<and> dm_host s' = dm_host s"
proof -
  have "live (dm_fab s)" using assms(1) by (simp add: blk_ready_def)
  from read_reach [OF this assms(2)] obtain g where
    "fabric_dma_read_into F a n (dm_fab s) = (OK (mem_read (ram (dm_fab s)) a (unat n)), g)"
    "live g" "ram g = ram (dm_fab s)" "reach g = reach (dm_fab s)" by auto
  with assms(1) show ?thesis by (auto simp: on_fab_run intro: blk_after_fab)
qed

lemma blk_dma_write:
  assumes "blk_ready live s f c" and "reach (dm_fab s) a (unat n)" and "length d = unat n"
  shows "\<exists>s'. on_fab (fabric_dma_write F a d n) s = (OK (), s') \<and>
    blk_after live ram reach f s s' c (mem_write (ram (dm_fab s)) a d)"
proof -
  have "live (dm_fab s)" using assms(1) by (simp add: blk_ready_def)
  from write_reach [OF this assms(2,3)] obtain g where
    "fabric_dma_write F a d n (dm_fab s) = (OK (), g)"
    "live g" "ram g = mem_write (ram (dm_fab s)) a d" "reach g = reach (dm_fab s)" by auto
  with assms(1) show ?thesis by (auto simp: on_fab_run intro: blk_after_fab)
qed

lemma buffered_in_ok:
  assumes r: "blk_ready live s f c" and fit: "unat pos + unat len \<le> length c"
    and rch: "reach (dm_fab s) addr (unat len)" and heap: "unat len \<le> h_heap (dm_host s)"
  shows "\<exists>s'. buffered_in F addr len pos st s = (OK st, s') \<and>
    blk_after live ram reach f s s' c (mem_write (ram (dm_fab s)) addr (take (unat len) (drop (unat pos) c)))"
proof -
  let ?d = "take (unat len) (drop (unat pos) c)"
  have ld: "length ?d = unat len" using fit by simp
  obtain s1 where s1: "ensure_io_buf len s = (OK (), s1)" "blk_after live ram reach f s s1 c (ram (dm_fab s))"
    "unat len \<le> length (bd_io_buf (dm_opaque s1))" "dm_fab s1 = dm_fab s"
    using ensure_io_buf_ok [OF r heap] by blast
  have r1: "blk_ready live s1 f c" using s1(2) by (simp add: blk_after_def)
  obtain s2 where s2: "block_read pos len s1 = (OK (True, ?d), s2)"
    "blk_after live ram reach f s1 s2 c (ram (dm_fab s1))" "dm_fab s2 = dm_fab s1" "dm_mmio s2 = dm_mmio s1"
    using block_read_ok [OF r1 fit] by blast
  have r2: "blk_ready live s2 f c" using s2(2) by (simp add: blk_after_def)
  have room2: "unat len \<le> length (bd_io_buf (dm_opaque s2))" using s1(3) s2(4) by simp
  obtain s3 where s3: "io_buf_store ?d s2 = (OK (), s3)" "blk_after live ram reach f s2 s3 c (ram (dm_fab s2))"
    "dm_fab s3 = dm_fab s2" "io_buf_load len s3 = (OK ?d, s3)"
    using io_buf_store_load [OF r2 ld room2] by blast
  have r3: "blk_ready live s3 f c" using s3(2) by (simp add: blk_after_def)
  have "reach (dm_fab s3) addr (unat len)" using rch s1(4) s2(3) s3(3) by simp
  from blk_dma_write [OF r3 this ld] obtain s4 where
    s4: "on_fab (fabric_dma_write F addr ?d len) s3 = (OK (), s4)"
    "blk_after live ram reach f s3 s4 c (mem_write (ram (dm_fab s3)) addr ?d)" by blast
  have "buffered_in F addr len pos st s = (OK st, s4)"
    using s1(1) s2(1) s3(1,4) s4(1) by (simp add: buffered_in_def bnd_OK attempt_OK)
  moreover have "blk_after live ram reach f s s4 c (mem_write (ram (dm_fab s3)) addr ?d)"
    by (rule blk_after_trans [OF blk_after_trans [OF blk_after_trans [OF s1(2) s2(2)] s3(2)] s4(2)])
  ultimately show ?thesis using s1(4) s2(3) s3(3) by auto
qed

lemma direct_in_ok:
  assumes r: "blk_ready live s f c" and fit: "unat pos + unat len \<le> length c"
    and store: "\<forall>d. length d \<le> unat len \<longrightarrow> (\<exists>h. fabric_ptr_store F p d (dm_fab s) = (OK (), h) \<and>
       live h \<and> ram h = mem_write (ram (dm_fab s)) addr d \<and> reach h = reach (dm_fab s))"
  shows "\<exists>s'. direct_in F p len pos st s = (OK st, s') \<and>
    blk_after live ram reach f s s' c (mem_write (ram (dm_fab s)) addr (take (unat len) (drop (unat pos) c)))"
proof -
  let ?d = "take (unat len) (drop (unat pos) c)"
  obtain s1 where s1: "block_read pos len s = (OK (True, ?d), s1)"
    "blk_after live ram reach f s s1 c (ram (dm_fab s))" "dm_fab s1 = dm_fab s"
    using block_read_ok [OF r fit] by blast
  have r1: "blk_ready live s1 f c" using s1(2) by (simp add: blk_after_def)
  have "length ?d \<le> unat len" by simp
  with store s1(3) obtain h where h: "fabric_ptr_store F p ?d (dm_fab s1) = (OK (), h)"
    "live h" "ram h = mem_write (ram (dm_fab s)) addr ?d" "reach h = reach (dm_fab s1)" by metis
  let ?s2 = "s1\<lparr>dm_fab := h\<rparr>"
  have s2: "on_fab (fabric_ptr_store F p ?d) s1 = (OK (), ?s2)"
    "blk_after live ram reach f s1 ?s2 c (mem_write (ram (dm_fab s)) addr ?d)"
    using h r1 by (auto simp: on_fab_run intro: blk_after_fab)
  have r2: "blk_ready live ?s2 f c" using s2(2) by (simp add: blk_after_def)
  obtain g where g: "fabric_dma_unmap F p len h = (OK (), g)" "live g" "ram g = ram h" "reach g = reach h"
    using unmap_ok [OF h(2)] by blast
  have s3: "on_fab (fabric_dma_unmap F p len) ?s2 = (OK (), ?s2\<lparr>dm_fab := g\<rparr>)"
    "blk_after live ram reach f ?s2 (?s2\<lparr>dm_fab := g\<rparr>) c (mem_write (ram (dm_fab s)) addr ?d)"
    using g h r2 by (auto simp: on_fab_def intro!: blk_after_fab [of live ?s2 f c g, simplified])
  have "direct_in F p len pos st s = (OK st, ?s2\<lparr>dm_fab := g\<rparr>)"
    using s1(1) s2(1) s3(1) by (simp add: direct_in_def bnd_OK)
  moreover have "blk_after live ram reach f s (?s2\<lparr>dm_fab := g\<rparr>) c (mem_write (ram (dm_fab s)) addr ?d)"
    by (rule blk_after_trans [OF blk_after_trans [OF s1(2) s2(2)] s3(2)])
  ultimately show ?thesis by blast
qed

lemma segment_in_ok:
  assumes r: "blk_ready live s f c" and fit: "unat pos + unat (ds_len d) \<le> length c"
    and rch: "reach (dm_fab s) (ds_addr d) (unat (ds_len d))" and heap: "unat (ds_len d) \<le> h_heap (dm_host s)"
    and w: "ds_flags d AND VRING_DESC_F_WRITE \<noteq> 0"
  shows "\<exists>s'. segment_in F dr d pos VIRTIO_BLK_S_OK s = (OK VIRTIO_BLK_S_OK, s') \<and>
    blk_after live ram reach f s s' c
      (mem_write (ram (dm_fab s)) (ds_addr d) (take (unat (ds_len d)) (drop (unat pos) c)))"
proof -
  let ?a = "ds_addr d" and ?n = "ds_len d"
  have l: "live (dm_fab s)" using r by (simp add: blk_ready_def)
  show ?thesis
  proof (cases dr)
    case False
    with buffered_in_ok [OF r fit rch heap] w show ?thesis by (simp add: segment_in_def)
  next
    case True
    from map_or_refuse [OF l, of ?a ?n] show ?thesis
    proof (elim disjE exE conjE)
      fix g assume g: "fabric_dma_map F ?a ?n (dm_fab s) = (Fail, g)" "live g" "ram g = ram (dm_fab s)"
        "reach g = reach (dm_fab s)"
      let ?s = "s\<lparr>dm_fab := g\<rparr>"
      have a: "blk_after live ram reach f s ?s c (ram (dm_fab s))" using g r by (auto intro: blk_after_fab)
      then have "blk_ready live ?s f c" by (simp add: blk_after_def)
      from buffered_in_ok [OF this fit] rch heap g obtain s' where
        "buffered_in F ?a ?n pos VIRTIO_BLK_S_OK ?s = (OK VIRTIO_BLK_S_OK, s')"
        "blk_after live ram reach f ?s s' c (mem_write (ram (dm_fab s)) ?a (take (unat ?n) (drop (unat pos) c)))"
        by auto
      moreover from this have "segment_in F dr d pos VIRTIO_BLK_S_OK s = (OK VIRTIO_BLK_S_OK, s')"
        using g(1) w True by (simp add: segment_in_def bnd_OK attempt_Fail on_fab_run)
      ultimately show ?thesis using a blk_after_trans by blast
    next
      fix p g assume g: "fabric_dma_map F ?a ?n (dm_fab s) = (OK p, g)" "live g" "ram g = ram (dm_fab s)"
        "reach g = reach (dm_fab s)" "\<forall>d. length d \<le> unat ?n \<longrightarrow> (\<exists>h. fabric_ptr_store F p d g = (OK (), h) \<and>
             live h \<and> ram h = mem_write (ram (dm_fab s)) ?a d \<and> reach h = reach (dm_fab s))"
      let ?s = "s\<lparr>dm_fab := g\<rparr>"
      have a: "blk_after live ram reach f s ?s c (ram (dm_fab s))" using g r by (auto intro: blk_after_fab)
      then have "blk_ready live ?s f c" by (simp add: blk_after_def)
      from direct_in_ok [OF this fit, of p ?a] g obtain s' where
        "direct_in F p ?n pos VIRTIO_BLK_S_OK ?s = (OK VIRTIO_BLK_S_OK, s')"
        "blk_after live ram reach f ?s s' c (mem_write (ram (dm_fab s)) ?a (take (unat ?n) (drop (unat pos) c)))"
        by auto
      moreover from this have "segment_in F dr d pos VIRTIO_BLK_S_OK s = (OK VIRTIO_BLK_S_OK, s')"
        using g(1) w True by (simp add: segment_in_def bnd_OK attempt_OK on_fab_run)
      ultimately show ?thesis using a blk_after_trans by blast
    qed
  qed
qed

lemma segment_out_ok:
  assumes r: "blk_ready live s f c" and fit: "unat pos + unat (ds_len d) \<le> length c"
    and rch: "reach (dm_fab s) (ds_addr d) (unat (ds_len d))" and heap: "unat (ds_len d) \<le> h_heap (dm_host s)"
    and w: "ds_flags d AND VRING_DESC_F_WRITE = 0" "of_writable f" "\<not> bb_readonly (bd_backend (dm_opaque s))"
  shows "\<exists>s'. segment_out F d pos VIRTIO_BLK_S_OK s = (OK VIRTIO_BLK_S_OK, s') \<and>
    blk_after live ram reach f s s'
      (file_put c (unat pos) (mem_read (ram (dm_fab s)) (ds_addr d) (unat (ds_len d)))) (ram (dm_fab s))"
proof -
  let ?a = "ds_addr d" and ?n = "ds_len d"
  let ?d = "mem_read (ram (dm_fab s)) ?a (unat ?n)"
  obtain s1 where s1: "ensure_io_buf ?n s = (OK (), s1)" "blk_after live ram reach f s s1 c (ram (dm_fab s))"
    "unat ?n \<le> length (bd_io_buf (dm_opaque s1))" "dm_fab s1 = dm_fab s"
    using ensure_io_buf_ok [OF r heap] by blast
  have r1: "blk_ready live s1 f c" using s1(2) by (simp add: blk_after_def)
  obtain s2 where s2: "on_fab (fabric_dma_read_into F ?a ?n) s1 = (OK ?d, s2)"
    "blk_after live ram reach f s1 s2 c (ram (dm_fab s))" "dm_mmio s2 = dm_mmio s1"
    using blk_read_into [OF r1, of ?a ?n] rch s1(4) by auto
  have r2: "blk_ready live s2 f c" using s2(2) by (simp add: blk_after_def)
  obtain s3 where s3: "io_buf_store ?d s2 = (OK (), s3)" "blk_after live ram reach f s2 s3 c (ram (dm_fab s2))"
    "io_buf_load ?n s3 = (OK ?d, s3)"
    using io_buf_store_load [OF r2, of ?d ?n] s1(3) s2(3) by auto
  have r3: "blk_ready live s3 f c" and ro: "\<not> bb_readonly (bd_backend (dm_opaque s3))"
    and m3: "ram (dm_fab s3) = ram (dm_fab s)"
    using s1(2) s2(2) s3(2) w(3) by (auto simp: blk_after_def)
  obtain s4 where s4: "block_write pos ?d ?n s3 = (OK True, s4)"
    "blk_after live ram reach f s3 s4 (file_put c (unat pos) ?d) (ram (dm_fab s3))"
    using block_write_ok [OF r3 fit, of ?d] w ro by auto
  have "segment_out F d pos VIRTIO_BLK_S_OK s = (OK VIRTIO_BLK_S_OK, s4)"
    using s1(1) s2(1) s3(1,3) s4(1) w(1) by (simp add: segment_out_def bnd_OK)
  moreover have "blk_after live ram reach f s s4 (file_put c (unat pos) ?d) (ram (dm_fab s))"
    using blk_after_trans [OF blk_after_trans [OF blk_after_trans [OF s1(2) s2(2)] s3(2)] s4(2)] m3 by simp
  ultimately show ?thesis by blast
qed

section \<open>The descriptor loop\<close>

lemma chain_loop_step:
  assumes r: "blk_ready live s f c" and ch: "chain_at (ram (dm_fab s)) (reach (dm_fab s)) q i (d # ds)" and "ds \<noteq> []"
    and seen: "unat seen + 1 \<le> unat (vq_num q)"
  shows "\<exists>s1. blk_after live ram reach f s s1 c (ram (dm_fab s)) \<and> dm_host s1 = dm_host s \<and>
    chain_loop F dr q rt off (Suc n) st dl i seen s =
      bnd (if rt = VIRTIO_BLK_T_IN then
             bnd (segment_in F dr d (off + ucast dl) st) (\<lambda>st. ret (st, dl + ds_len d))
           else if rt = VIRTIO_BLK_T_OUT then
             bnd (segment_out F d (off + ucast dl) st) (\<lambda>st. ret (st, dl + ds_len d))
           else ret (st, dl)) (\<lambda>(st, dl). chain_loop F dr q rt off n st dl (ds_next d) (seen + 1)) s1"
proof -
  have rch: "reach (dm_fab s) (desc_addr q i) 16" and d: "desc_at (ram (dm_fab s)) q i = d"
    and nx: "ds_flags d AND VRING_DESC_F_NEXT \<noteq> 0" using ch assms(3) by auto
  obtain s1 where s1: "on_fab (virtio_read_desc F q i) s = (OK d, s1)"
    "blk_after live ram reach f s s1 c (ram (dm_fab s))" "dm_host s1 = dm_host s"
    using blk_read_desc [OF r rch] d by auto
  have "unat (seen + 1) = unat seen + 1"
    using seen unat_lt_u32 [of "vq_num q"] by (simp add: unat_word_ariths)
  then have ng: "\<not> seen + 1 > vq_num q" using seen by (simp add: word_less_nat_alt)
  show ?thesis using s1 nx ng by (intro exI [of _ s1]) (simp add: bnd_OK)
qed

lemma chain_loop_last:
  assumes r: "blk_ready live s f c" and ch: "chain_at (ram (dm_fab s)) (reach (dm_fab s)) q i [d]"
    and seen: "unat seen + 1 \<le> unat (vq_num q)"
  shows "\<exists>s1. blk_after live ram reach f s s1 c (ram (dm_fab s)) \<and> dm_host s1 = dm_host s \<and>
    chain_loop F dr q rt off (Suc n) st dl i seen s = (OK (st, dl, d), s1)"
proof -
  have rch: "reach (dm_fab s) (desc_addr q i) 16" and d: "desc_at (ram (dm_fab s)) q i = d"
    and nx: "ds_flags d AND VRING_DESC_F_NEXT = 0" using ch by auto
  obtain s1 where s1: "on_fab (virtio_read_desc F q i) s = (OK d, s1)"
    "blk_after live ram reach f s s1 c (ram (dm_fab s))" "dm_host s1 = dm_host s"
    using blk_read_desc [OF r rch] d by auto
  have "unat (seen + 1) = unat seen + 1"
    using seen unat_lt_u32 [of "vq_num q"] by (simp add: unat_word_ariths)
  then have ng: "\<not> seen + 1 > vq_num q" using seen by (simp add: word_less_nat_alt)
  show ?thesis using s1 nx ng by (intro exI [of _ s1]) (simp add: bnd_OK)
qed

end

text \<open>What a read and a write request need of their data descriptors.\<close>

definition in_seg_ok :: "(u64 \<Rightarrow> nat \<Rightarrow> bool) \<Rightarrow> nat \<Rightarrow> virtio_queue \<Rightarrow> u16 list \<Rightarrow> virtio_desc \<Rightarrow> bool" where
  "in_seg_ok rch heap q js d \<longleftrightarrow> ds_flags d AND VRING_DESC_F_WRITE \<noteq> 0 \<and> rch (ds_addr d) (unat (ds_len d)) \<and>
     unat (ds_len d) \<le> heap \<and> off_table q js (ds_addr d) (unat (ds_len d))"

definition out_seg_ok :: "(u64 \<Rightarrow> nat \<Rightarrow> bool) \<Rightarrow> nat \<Rightarrow> virtio_desc \<Rightarrow> bool" where
  "out_seg_ok rch heap d \<longleftrightarrow> ds_flags d AND VRING_DESC_F_WRITE = 0 \<and> rch (ds_addr d) (unat (ds_len d)) \<and>
     unat (ds_len d) \<le> heap"

lemma unat_pos:
  assumes "unat off + unat dl + n \<le> length c" and "length c < 2 ^ 63"
  shows "unat (off + ucast (dl :: u32) :: u64) = unat off + unat dl"
  using assms by (simp add: unat_word_ariths unat_ucast_u32)

lemma unat_dlen:
  assumes "unat dl + (unat n + k) < 2 ^ 32"
  shows "unat (dl + n :: u32) = unat dl + unat n"
  using assms by (simp add: unat_word_ariths)

context guest_map
begin

lemma chain_loop_in:
  assumes "blk_ready live s f c"
    and "chain_at (ram (dm_fab s)) (reach (dm_fab s)) q i (segs @ [st])"
    and "\<forall>d \<in> set segs. in_seg_ok (reach (dm_fab s)) (h_heap (dm_host s)) q (chain_idx i (segs @ [st])) d"
    and "unat off + unat dl + seg_bytes segs \<le> length c" and "unat dl + seg_bytes segs < 2 ^ 32"
    and "unat seen + length segs + 1 \<le> unat (vq_num q)" and "length segs < n"
  shows "\<exists>s'. chain_loop F dr q VIRTIO_BLK_T_IN off n VIRTIO_BLK_S_OK dl i seen s =
      (OK (VIRTIO_BLK_S_OK, dl + of_nat (seg_bytes segs), st), s') \<and>
    blk_after live ram reach f s s' c (in_writes c (unat off + unat dl) segs (ram (dm_fab s)))"
  using assms
proof (induction segs arbitrary: s i dl seen n)
  case Nil
  then obtain n' where "n = Suc n'" by (cases n) auto
  with Nil chain_loop_last [of s f c q i st seen] show ?case by (fastforce simp del: chain_loop.simps)
next
  case (Cons d segs)
  obtain n' where n: "n = Suc n'" using Cons(8) by (cases n) auto
  let ?js = "chain_idx i ((d # segs) @ [st])"
  let ?pos = "off + ucast dl" and ?bs = "take (unat (ds_len d)) (drop (unat off + unat dl) c)"
  have small: "length c < 2 ^ 63" using Cons(2) by (simp add: blk_ready_def)
  have pos: "unat ?pos = unat off + unat dl" using Cons(5) small by (intro unat_pos) auto
  obtain s1 where s1: "blk_after live ram reach f s s1 c (ram (dm_fab s))" and
    l1: "chain_loop F dr q VIRTIO_BLK_T_IN off n VIRTIO_BLK_S_OK dl i seen s =
      bnd (bnd (segment_in F dr d ?pos VIRTIO_BLK_S_OK) (\<lambda>st. ret (st, dl + ds_len d)))
       (\<lambda>(st, dl). chain_loop F dr q VIRTIO_BLK_T_IN off n' st dl (ds_next d) (seen + 1)) s1"
    using chain_loop_step [OF Cons(2), of q i d "segs @ [st]" seen dr VIRTIO_BLK_T_IN off n'] Cons(3,7) n by auto
  have seg: "in_seg_ok (reach (dm_fab s)) (h_heap (dm_host s)) q ?js d" using Cons(4) by simp
  have r1: "blk_ready live s1 f c" using s1 by (simp add: blk_after_def)
  obtain s2 where s2: "segment_in F dr d ?pos VIRTIO_BLK_S_OK s1 = (OK VIRTIO_BLK_S_OK, s2)"
    "blk_after live ram reach f s1 s2 c (mem_write (ram (dm_fab s)) (ds_addr d) ?bs)"
    using segment_in_ok [OF r1, of ?pos d dr] seg s1 Cons(5) pos by (auto simp: blk_after_def in_seg_ok_def)
  have s02: "blk_after live ram reach f s s2 c (mem_write (ram (dm_fab s)) (ds_addr d) ?bs)"
    by (rule blk_after_trans [OF s1 s2(2)])
  have r2: "blk_ready live s2 f c" "ram (dm_fab s2) = mem_write (ram (dm_fab s)) (ds_addr d) ?bs"
    "reach (dm_fab s2) = reach (dm_fab s)" "h_heap (dm_host s2) = h_heap (dm_host s)"
    using s02 by (auto simp: blk_after_def)
  have lbs: "length ?bs = unat (ds_len d)" using Cons(5) by simp
  have "chain_at (mem_write (ram (dm_fab s)) (ds_addr d) ?bs) (reach (dm_fab s)) q (ds_next d) (segs @ [st])"
    using Cons(3) seg lbs by (intro chain_at_write) (auto simp: in_seg_ok_def off_table_def)
  moreover have "\<forall>e \<in> set segs. in_seg_ok (reach (dm_fab s)) (h_heap (dm_host s)) q (chain_idx (ds_next d) (segs @ [st])) e"
    using Cons(4) by (auto simp: in_seg_ok_def off_table_def)
  moreover have dl: "unat (dl + ds_len d) = unat dl + unat (ds_len d)"
    using Cons(6) by (intro unat_dlen [of _ _ "seg_bytes segs"]) auto
  moreover have "unat (seen + 1) = unat seen + 1"
    using Cons(7) unat_lt_u32 [of "vq_num q"] by (simp add: unat_word_ariths)
  ultimately obtain s3 where
    s3: "chain_loop F dr q VIRTIO_BLK_T_IN off n' VIRTIO_BLK_S_OK (dl + ds_len d) (ds_next d) (seen + 1) s2 =
       (OK (VIRTIO_BLK_S_OK, dl + ds_len d + of_nat (seg_bytes segs), st), s3)"
    "blk_after live ram reach f s2 s3 c
       (in_writes c (unat off + (unat dl + unat (ds_len d))) segs (mem_write (ram (dm_fab s)) (ds_addr d) ?bs))"
    using Cons(1) [of s2 "ds_next d" "dl + ds_len d" "seen + 1" n'] r2 Cons(5-8) n by (auto simp: add.assoc)
  have "chain_loop F dr q VIRTIO_BLK_T_IN off n VIRTIO_BLK_S_OK dl i seen s =
      (OK (VIRTIO_BLK_S_OK, dl + of_nat (seg_bytes (d # segs)), st), s3)"
    unfolding l1 using s2(1) s3(1) by (simp add: bnd_OK add.assoc)
  with s3(2) show ?case using blk_after_trans [OF s02] by (auto simp: add.assoc)
qed

lemma chain_loop_out:
  assumes "blk_ready live s f c"
    and "chain_at (ram (dm_fab s)) (reach (dm_fab s)) q i (segs @ [st])"
    and "\<forall>d \<in> set segs. out_seg_ok (reach (dm_fab s)) (h_heap (dm_host s)) d"
    and "unat off + unat dl + seg_bytes segs \<le> length c" and "unat dl + seg_bytes segs < 2 ^ 32"
    and "unat seen + length segs + 1 \<le> unat (vq_num q)" and "length segs < n"
    and "of_writable f" and "\<not> bb_readonly (bd_backend (dm_opaque s))"
  shows "\<exists>s'. chain_loop F dr q VIRTIO_BLK_T_OUT off n VIRTIO_BLK_S_OK dl i seen s =
      (OK (VIRTIO_BLK_S_OK, dl + of_nat (seg_bytes segs), st), s') \<and>
    blk_after live ram reach f s s' (file_put c (unat off + unat dl) (out_data (ram (dm_fab s)) segs)) (ram (dm_fab s))"
  using assms
proof (induction segs arbitrary: s i dl seen n c)
  case Nil
  then obtain n' where "n = Suc n'" by (cases n) auto
  with Nil chain_loop_last [of s f c q i st seen] show ?case by (fastforce simp del: chain_loop.simps)
next
  case (Cons d segs)
  obtain n' where n: "n = Suc n'" using Cons(8) by (cases n) auto
  let ?pos = "off + ucast dl" and ?bs = "mem_read (ram (dm_fab s)) (ds_addr d) (unat (ds_len d))"
  let ?c = "file_put c (unat off + unat dl) ?bs"
  have small: "length c < 2 ^ 63" using Cons(2) by (simp add: blk_ready_def)
  have pos: "unat ?pos = unat off + unat dl" using Cons(5) small by (intro unat_pos) auto
  obtain s1 where s1: "blk_after live ram reach f s s1 c (ram (dm_fab s))" and
    l1: "chain_loop F dr q VIRTIO_BLK_T_OUT off n VIRTIO_BLK_S_OK dl i seen s =
      bnd (bnd (segment_out F d ?pos VIRTIO_BLK_S_OK) (\<lambda>st. ret (st, dl + ds_len d)))
       (\<lambda>(st, dl). chain_loop F dr q VIRTIO_BLK_T_OUT off n' st dl (ds_next d) (seen + 1)) s1"
    using chain_loop_step [OF Cons(2), of q i d "segs @ [st]" seen dr VIRTIO_BLK_T_OUT off n'] Cons(3,7) n
    by (auto simp: VIRTIO_BLK_T_OUT_def VIRTIO_BLK_T_IN_def)
  have seg: "out_seg_ok (reach (dm_fab s)) (h_heap (dm_host s)) d" using Cons(4) by simp
  have r1: "blk_ready live s1 f c" "\<not> bb_readonly (bd_backend (dm_opaque s1))"
    using s1 Cons(10) by (auto simp: blk_after_def)
  obtain s2 where s2: "segment_out F d ?pos VIRTIO_BLK_S_OK s1 = (OK VIRTIO_BLK_S_OK, s2)"
    "blk_after live ram reach f s1 s2 ?c (ram (dm_fab s))"
    using segment_out_ok [OF r1(1), of ?pos d] seg s1 Cons(5,9) pos r1(2) by (auto simp: blk_after_def out_seg_ok_def)
  have s02: "blk_after live ram reach f s s2 ?c (ram (dm_fab s))"
    by (rule blk_after_trans [OF s1 s2(2)])
  have r2: "blk_ready live s2 f ?c" "ram (dm_fab s2) = ram (dm_fab s)"
    "reach (dm_fab s2) = reach (dm_fab s)" "h_heap (dm_host s2) = h_heap (dm_host s)"
    "\<not> bb_readonly (bd_backend (dm_opaque s2))"
    using s02 Cons(10) by (auto simp: blk_after_def)
  have lc: "length ?c = length c" using Cons(5) by (intro length_file_put) simp
  have dl: "unat (dl + ds_len d) = unat dl + unat (ds_len d)"
    using Cons(6) by (intro unat_dlen [of _ _ "seg_bytes segs"]) auto
  have "unat (seen + 1) = unat seen + 1"
    using Cons(7) unat_lt_u32 [of "vq_num q"] by (simp add: unat_word_ariths)
  with dl lc obtain s3 where
    s3: "chain_loop F dr q VIRTIO_BLK_T_OUT off n' VIRTIO_BLK_S_OK (dl + ds_len d) (ds_next d) (seen + 1) s2 =
       (OK (VIRTIO_BLK_S_OK, dl + ds_len d + of_nat (seg_bytes segs), st), s3)"
    "blk_after live ram reach f s2 s3
       (file_put ?c (unat off + (unat dl + unat (ds_len d))) (out_data (ram (dm_fab s)) segs)) (ram (dm_fab s))"
    using Cons(1) [of s2 ?c "ds_next d" "dl + ds_len d" "seen + 1" n'] r2 Cons(3-9) n by (auto simp: add.assoc)
  have put: "file_put ?c (unat off + (unat dl + unat (ds_len d))) (out_data (ram (dm_fab s)) segs) =
      file_put c (unat off + unat dl) (?bs @ out_data (ram (dm_fab s)) segs)"
    using file_put_append [of "unat off + unat dl" ?bs "out_data (ram (dm_fab s)) segs" c] Cons(5)
    by (simp add: add.assoc)
  have "chain_loop F dr q VIRTIO_BLK_T_OUT off n VIRTIO_BLK_S_OK dl i seen s =
      (OK (VIRTIO_BLK_S_OK, dl + of_nat (seg_bytes (d # segs)), st), s3)"
    unfolding l1 using s2(1) s3(1) by (simp add: bnd_OK add.assoc)
  with s3(2) put show ?case using blk_after_trans [OF s02] by auto
qed

lemma chain_loop_skip:
  assumes "blk_ready live s f c"
    and "chain_at (ram (dm_fab s)) (reach (dm_fab s)) q i (segs @ [st])"
    and "unat seen + length segs + 1 \<le> unat (vq_num q)" and "length segs < n"
    and "rt \<noteq> VIRTIO_BLK_T_IN" and "rt \<noteq> VIRTIO_BLK_T_OUT"
  shows "\<exists>s'. chain_loop F dr q rt off n status dl i seen s = (OK (status, dl, st), s') \<and>
    blk_after live ram reach f s s' c (ram (dm_fab s)) \<and> dm_host s' = dm_host s"
  using assms
proof (induction segs arbitrary: s i seen n)
  case Nil
  then obtain n' where "n = Suc n'" by (cases n) auto
  with Nil chain_loop_last [of s f c q i st seen] show ?case by (fastforce simp del: chain_loop.simps)
next
  case (Cons d segs)
  obtain n' where n: "n = Suc n'" using Cons(5) by (cases n) auto
  obtain s1 where s1: "blk_after live ram reach f s s1 c (ram (dm_fab s))" and h1: "dm_host s1 = dm_host s" and
    l1: "chain_loop F dr q rt off n status dl i seen s =
      chain_loop F dr q rt off n' status dl (ds_next d) (seen + 1) s1"
    using chain_loop_step [OF Cons(2), of q i d "segs @ [st]" seen dr rt off n'] Cons(3,4,6,7) n by auto
  have "unat (seen + 1) = unat seen + 1"
    using Cons(4) unat_lt_u32 [of "vq_num q"] by (simp add: unat_word_ariths)
  then obtain s2 where "chain_loop F dr q rt off n' status dl (ds_next d) (seen + 1) s1 = (OK (status, dl, st), s2)"
    "blk_after live ram reach f s1 s2 c (ram (dm_fab s))" "dm_host s2 = dm_host s"
    using Cons(1) [of s1 "ds_next d" "seen + 1" n'] Cons(3-7) s1 h1 n by (auto simp: blk_after_def)
  with l1 s1 show ?case using blk_after_trans by metis
qed

end

section \<open>A whole request\<close>

text \<open>
  \<open>blk_chain\<close>: a well-formed chain of a header, data descriptors and a status descriptor, that fits
  into the queue and lies in reachable memory.
\<close>

definition blk_chain ::
  "memory \<Rightarrow> (u64 \<Rightarrow> nat \<Rightarrow> bool) \<Rightarrow> virtio_queue \<Rightarrow> u16 \<Rightarrow> virtio_desc \<Rightarrow> virtio_desc list \<Rightarrow> virtio_desc \<Rightarrow> bool" where
  "blk_chain m rch q head hdr segs st \<longleftrightarrow> chain_at m rch q head (hdr # segs @ [st]) \<and>
     rch (ds_addr hdr) 16 \<and> rch (ds_addr st) 1 \<and> length segs + 1 \<le> unat (vq_num q)"

definition req_type :: "memory \<Rightarrow> virtio_desc \<Rightarrow> u32" where
  "req_type m hdr = virtio_load_le32 (mem_read m (ds_addr hdr) 16)"

definition req_sector :: "memory \<Rightarrow> virtio_desc \<Rightarrow> u64" where
  "req_sector m hdr = virtio_load_le64 (drop 8 (mem_read m (ds_addr hdr) 16))"

lemma sector_in_range:
  assumes "unat sector * 512 < 2 ^ 63"
  shows "\<not> sector > UINT64_MAX div BLKD_SECTOR_SIZE" "unat (request_offset sector) = unat sector * 512"
proof -
  have "unat sector < 2 ^ 54" using assms by simp
  then show ng: "\<not> sector > UINT64_MAX div BLKD_SECTOR_SIZE"
    by (simp add: blk_consts word_less_nat_alt)
  with assms show "unat (request_offset sector) = unat sector * 512"
    by (simp add: request_offset_def BLKD_SECTOR_SIZE_def unat_word_ariths)
qed

context guest_map
begin

lemma process_chain_start:
  assumes r: "blk_ready live s f c" and q: "dev_queue 0 s = (OK q, s)"
    and ch: "blk_chain (ram (dm_fab s)) (reach (dm_fab s)) q head hdr segs st"
  shows "\<exists>s1. blk_after live ram reach f s s1 c (ram (dm_fab s)) \<and> dm_host s1 = dm_host s \<and>
    process_chain F dr n head s =
      bnd (chain_loop F dr q (req_type (ram (dm_fab s)) hdr) (request_offset (req_sector (ram (dm_fab s)) hdr)) n
            (request_status (req_type (ram (dm_fab s)) hdr) (req_sector (ram (dm_fab s)) hdr)) 0 (ds_next hdr) 0)
        (\<lambda>(status, dlen, sd). finish_chain F (req_type (ram (dm_fab s)) hdr) status dlen sd) s1"
proof -
  let ?m = "ram (dm_fab s)"
  have hdr: "reach (dm_fab s) (desc_addr q head) 16" "desc_at ?m q head = hdr"
    "ds_flags hdr AND VRING_DESC_F_NEXT \<noteq> 0" "reach (dm_fab s) (ds_addr hdr) 16"
    using ch by (auto simp: blk_chain_def)
  obtain s1 where s1: "on_fab (virtio_read_desc F q head) s = (OK hdr, s1)"
    "blk_after live ram reach f s s1 c ?m" "dm_host s1 = dm_host s"
    using blk_read_desc [OF r hdr(1)] hdr(2) by auto
  have r1: "blk_ready live s1 f c" "ram (dm_fab s1) = ?m" "reach (dm_fab s1) = reach (dm_fab s)"
    using s1(2) by (auto simp: blk_after_def)
  have "reach (dm_fab s1) (ds_addr hdr) (unat (16 :: u32))" using r1(3) hdr(4) by simp
  from blk_read_into [OF r1(1) this] r1(2) obtain s2 where
    s2: "on_fab (fabric_dma_read_into F (ds_addr hdr) 16) s1 = (OK (mem_read ?m (ds_addr hdr) 16), s2)"
    "blk_after live ram reach f s1 s2 c ?m" "dm_host s2 = dm_host s1" by auto
  from q s1(1,3) s2(1,3) hdr(3) show ?thesis
    by (intro exI [of _ s2] conjI blk_after_trans [OF s1(2) s2(2)])
      (simp_all add: process_chain_def bnd_OK Let_def req_type_def req_sector_def)
qed

lemma finish_chain_ok:
  assumes r: "blk_ready live s f c" and st: "reach (dm_fab s) (ds_addr st) 1" and "rt \<noteq> VIRTIO_BLK_T_FLUSH"
  shows "\<exists>s'. finish_chain F rt status dlen st s = (OK (if rt = VIRTIO_BLK_T_IN then dlen + 1 else 1), s') \<and>
    blk_after live ram reach f s s' c (mem_write (ram (dm_fab s)) (ds_addr st) [status])"
proof -
  have "reach (dm_fab s) (ds_addr st) (unat (1 :: u32))" using st by simp
  from blk_dma_write [OF r this, of "[status]"] obtain s' where
    "on_fab (fabric_dma_write F (ds_addr st) [status] 1) s = (OK (), s')"
    "blk_after live ram reach f s s' c (mem_write (ram (dm_fab s)) (ds_addr st) [status])" by auto
  with assms(3) show ?thesis by (auto simp: finish_chain_def bnd_OK)
qed

lemma process_chain_in:
  assumes r: "blk_ready live s f c" and q: "dev_queue 0 s = (OK q, s)"
    and ch: "blk_chain (ram (dm_fab s)) (reach (dm_fab s)) q head hdr segs st"
    and rt: "req_type (ram (dm_fab s)) hdr = VIRTIO_BLK_T_IN"
    and fit: "unat (req_sector (ram (dm_fab s)) hdr) * 512 + seg_bytes segs \<le> length c" "seg_bytes segs < 2 ^ 32"
    and segs: "\<forall>d \<in> set segs. in_seg_ok (reach (dm_fab s)) (h_heap (dm_host s)) q (chain_idx (ds_next hdr) (segs @ [st])) d"
    and n: "length segs < n"
  shows "\<exists>s'. process_chain F dr n head s = (OK (of_nat (seg_bytes segs) + 1), s') \<and>
    blk_after live ram reach f s s' c
      (mem_write (in_writes c (unat (req_sector (ram (dm_fab s)) hdr) * 512) segs (ram (dm_fab s)))
        (ds_addr st) [VIRTIO_BLK_S_OK])"
proof -
  let ?m = "ram (dm_fab s)" let ?sec = "req_sector ?m hdr"
  have "unat ?sec * 512 < 2 ^ 63" using r fit by (auto simp: blk_ready_def)
  note sec = sector_in_range [OF this]
  have status: "request_status (req_type ?m hdr) ?sec = VIRTIO_BLK_S_OK"
    using rt sec(1) by (simp add: request_status_def)
  obtain s1 where s1: "blk_after live ram reach f s s1 c ?m" and p: "process_chain F dr n head s =
      bnd (chain_loop F dr q VIRTIO_BLK_T_IN (request_offset ?sec) n VIRTIO_BLK_S_OK 0 (ds_next hdr) 0)
        (\<lambda>(status, dlen, sd). finish_chain F VIRTIO_BLK_T_IN status dlen sd) s1"
    using process_chain_start [OF r q ch, of dr n] rt status by auto
  have r1: "blk_ready live s1 f c" "ram (dm_fab s1) = ?m" "reach (dm_fab s1) = reach (dm_fab s)"
    "h_heap (dm_host s1) = h_heap (dm_host s)" using s1 by (auto simp: blk_after_def)
  have tail: "chain_at ?m (reach (dm_fab s)) q (ds_next hdr) (segs @ [st])" using ch by (simp add: blk_chain_def)
  obtain s2 where s2: "chain_loop F dr q VIRTIO_BLK_T_IN (request_offset ?sec) n VIRTIO_BLK_S_OK 0 (ds_next hdr) 0 s1 =
      (OK (VIRTIO_BLK_S_OK, of_nat (seg_bytes segs), st), s2)"
    "blk_after live ram reach f s1 s2 c (in_writes c (unat ?sec * 512) segs ?m)"
    using chain_loop_in [OF r1(1), of q "ds_next hdr" segs st "request_offset ?sec" 0 0 n dr]
      r1 tail segs fit sec(2) ch n by (auto simp: blk_chain_def)
  have r2: "blk_ready live s2 f c" "reach (dm_fab s2) (ds_addr st) 1"
    using s2(2) r1(3) ch by (auto simp: blk_after_def blk_chain_def)
  obtain s3 where s3: "finish_chain F VIRTIO_BLK_T_IN VIRTIO_BLK_S_OK (of_nat (seg_bytes segs)) st s2 =
      (OK (of_nat (seg_bytes segs) + 1), s3)"
    "blk_after live ram reach f s2 s3 c (mem_write (ram (dm_fab s2)) (ds_addr st) [VIRTIO_BLK_S_OK])"
    using finish_chain_ok [OF r2, of VIRTIO_BLK_T_IN] by (auto simp: VIRTIO_BLK_T_IN_def VIRTIO_BLK_T_FLUSH_def)
  have "process_chain F dr n head s = (OK (of_nat (seg_bytes segs) + 1), s3)"
    using p s2(1) s3(1) by (simp add: bnd_OK)
  moreover have "ram (dm_fab s2) = in_writes c (unat ?sec * 512) segs ?m" using s2(2) by (simp add: blk_after_def)
  ultimately show ?thesis
    using blk_after_trans [OF blk_after_trans [OF s1 s2(2)] s3(2)] by auto
qed

lemma process_chain_out:
  assumes r: "blk_ready live s f c" and q: "dev_queue 0 s = (OK q, s)"
    and ch: "blk_chain (ram (dm_fab s)) (reach (dm_fab s)) q head hdr segs st"
    and rt: "req_type (ram (dm_fab s)) hdr = VIRTIO_BLK_T_OUT"
    and fit: "unat (req_sector (ram (dm_fab s)) hdr) * 512 + seg_bytes segs \<le> length c" "seg_bytes segs < 2 ^ 32"
    and segs: "\<forall>d \<in> set segs. out_seg_ok (reach (dm_fab s)) (h_heap (dm_host s)) d"
    and w: "of_writable f" "\<not> bb_readonly (bd_backend (dm_opaque s))" and n: "length segs < n"
  shows "\<exists>s'. process_chain F dr n head s = (OK 1, s') \<and>
    blk_after live ram reach f s s'
      (file_put c (unat (req_sector (ram (dm_fab s)) hdr) * 512) (out_data (ram (dm_fab s)) segs))
      (mem_write (ram (dm_fab s)) (ds_addr st) [VIRTIO_BLK_S_OK])"
proof -
  let ?m = "ram (dm_fab s)" let ?sec = "req_sector ?m hdr"
  let ?c = "file_put c (unat ?sec * 512) (out_data ?m segs)"
  have "unat ?sec * 512 < 2 ^ 63" using r fit by (auto simp: blk_ready_def)
  note sec = sector_in_range [OF this]
  have status: "request_status (req_type ?m hdr) ?sec = VIRTIO_BLK_S_OK"
    using rt sec(1) by (simp add: request_status_def)
  obtain s1 where s1: "blk_after live ram reach f s s1 c ?m" and p: "process_chain F dr n head s =
      bnd (chain_loop F dr q VIRTIO_BLK_T_OUT (request_offset ?sec) n VIRTIO_BLK_S_OK 0 (ds_next hdr) 0)
        (\<lambda>(status, dlen, sd). finish_chain F VIRTIO_BLK_T_OUT status dlen sd) s1"
    using process_chain_start [OF r q ch, of dr n] rt status by auto
  have r1: "blk_ready live s1 f c" "ram (dm_fab s1) = ?m" "reach (dm_fab s1) = reach (dm_fab s)"
    "h_heap (dm_host s1) = h_heap (dm_host s)" "\<not> bb_readonly (bd_backend (dm_opaque s1))"
    using s1 w by (auto simp: blk_after_def)
  have tail: "chain_at ?m (reach (dm_fab s)) q (ds_next hdr) (segs @ [st])" using ch by (simp add: blk_chain_def)
  obtain s2 where s2: "chain_loop F dr q VIRTIO_BLK_T_OUT (request_offset ?sec) n VIRTIO_BLK_S_OK 0 (ds_next hdr) 0 s1 =
      (OK (VIRTIO_BLK_S_OK, of_nat (seg_bytes segs), st), s2)"
    "blk_after live ram reach f s1 s2 ?c ?m"
    using chain_loop_out [OF r1(1), of q "ds_next hdr" segs st "request_offset ?sec" 0 0 n dr]
      r1 tail segs fit sec(2) ch n w by (auto simp: blk_chain_def)
  have r2: "blk_ready live s2 f ?c" "reach (dm_fab s2) (ds_addr st) 1" "ram (dm_fab s2) = ?m"
    using s2(2) r1(3) ch by (auto simp: blk_after_def blk_chain_def)
  obtain s3 where s3: "finish_chain F VIRTIO_BLK_T_OUT VIRTIO_BLK_S_OK (of_nat (seg_bytes segs)) st s2 = (OK 1, s3)"
    "blk_after live ram reach f s2 s3 ?c (mem_write ?m (ds_addr st) [VIRTIO_BLK_S_OK])"
    using finish_chain_ok [OF r2(1,2), of VIRTIO_BLK_T_OUT] r2(3) by (auto simp: blk_consts)
  have "process_chain F dr n head s = (OK 1, s3)"
    using p s2(1) s3(1) by (simp add: bnd_OK)
  then show ?thesis
    using blk_after_trans [OF blk_after_trans [OF s1 s2(2)] s3(2)] by auto
qed

lemma process_chain_skip:
  assumes r: "blk_ready live s f c" and q: "dev_queue 0 s = (OK q, s)"
    and ch: "blk_chain (ram (dm_fab s)) (reach (dm_fab s)) q head hdr segs st"
    and rt: "req_type (ram (dm_fab s)) hdr = rt" "rt \<noteq> VIRTIO_BLK_T_IN" "rt \<noteq> VIRTIO_BLK_T_OUT"
    and n: "length segs < n"
  shows "\<exists>s'. blk_after live ram reach f s s' c (ram (dm_fab s)) \<and> dm_host s' = dm_host s \<and>
    process_chain F dr n head s =
      finish_chain F rt (request_status rt (req_sector (ram (dm_fab s)) hdr)) 0 st s'"
proof -
  let ?m = "ram (dm_fab s)" let ?sec = "req_sector ?m hdr"
  obtain s1 where s1: "blk_after live ram reach f s s1 c ?m" "dm_host s1 = dm_host s" and p: "process_chain F dr n head s =
      bnd (chain_loop F dr q rt (request_offset ?sec) n (request_status rt ?sec) 0 (ds_next hdr) 0)
        (\<lambda>(status, dlen, sd). finish_chain F rt status dlen sd) s1"
    using process_chain_start [OF r q ch, of dr n] rt(1) by auto
  have r1: "blk_ready live s1 f c" "ram (dm_fab s1) = ?m" "reach (dm_fab s1) = reach (dm_fab s)"
    using s1 by (auto simp: blk_after_def)
  have tail: "chain_at ?m (reach (dm_fab s)) q (ds_next hdr) (segs @ [st])" using ch by (simp add: blk_chain_def)
  obtain s2 where s2: "chain_loop F dr q rt (request_offset ?sec) n (request_status rt ?sec) 0 (ds_next hdr) 0 s1 =
      (OK (request_status rt ?sec, 0, st), s2)" "blk_after live ram reach f s1 s2 c ?m" "dm_host s2 = dm_host s1"
    using chain_loop_skip [OF r1(1), of q "ds_next hdr" segs st 0 n rt dr "request_offset ?sec" "request_status rt ?sec" 0]
      r1 tail ch n rt by (auto simp: blk_chain_def)
  show ?thesis using blk_after_trans [OF s1(1) s2(2)] p s1(2) s2(1,3) by (auto simp: bnd_OK)
qed

lemma process_chain_unsupported:
  assumes r: "blk_ready live s f c" and q: "dev_queue 0 s = (OK q, s)"
    and ch: "blk_chain (ram (dm_fab s)) (reach (dm_fab s)) q head hdr segs st"
    and rt: "req_type (ram (dm_fab s)) hdr \<notin> {VIRTIO_BLK_T_IN, VIRTIO_BLK_T_OUT, VIRTIO_BLK_T_FLUSH}"
    and n: "length segs < n"
  shows "\<exists>s'. process_chain F dr n head s = (OK 1, s') \<and>
    blk_after live ram reach f s s' c (mem_write (ram (dm_fab s)) (ds_addr st) [VIRTIO_BLK_S_UNSUPP])"
proof -
  let ?m = "ram (dm_fab s)" let ?rt = "req_type ?m hdr"
  have "?rt \<noteq> VIRTIO_BLK_T_IN" "?rt \<noteq> VIRTIO_BLK_T_OUT" "?rt \<noteq> VIRTIO_BLK_T_FLUSH" using rt by auto
  then obtain s1 where s1: "blk_after live ram reach f s s1 c ?m"
    "process_chain F dr n head s = finish_chain F ?rt VIRTIO_BLK_S_UNSUPP 0 st s1"
    using process_chain_skip [OF r q ch refl _ _ n, of dr] by (auto simp: request_status_def)
  have r1: "blk_ready live s1 f c" "reach (dm_fab s1) (ds_addr st) 1" "ram (dm_fab s1) = ?m"
    using s1(1) ch by (auto simp: blk_after_def blk_chain_def)
  with rt finish_chain_ok [OF r1(1,2), of ?rt VIRTIO_BLK_S_UNSUPP 0] obtain s2 where
    "finish_chain F ?rt VIRTIO_BLK_S_UNSUPP 0 st s1 = (OK 1, s2)"
    "blk_after live ram reach f s1 s2 c (mem_write ?m (ds_addr st) [VIRTIO_BLK_S_UNSUPP])" by auto
  with s1 show ?thesis using blk_after_trans by (metis (no_types, lifting))
qed

lemma block_flush_run:
  assumes r: "blk_ready live s f c"
  shows "\<exists>s'. block_flush s = (OK (fst (fsync (bb_fd (bd_backend (dm_opaque s))) (dm_host s)) = Ret ()), s') \<and>
    blk_after live ram reach f s s' c (ram (dm_fab s)) \<and>
    dm_host s' = snd (fsync (bb_fd (bd_backend (dm_opaque s))) (dm_host s))"
proof -
  let ?fd = "bb_fd (bd_backend (dm_opaque s))"
  obtain x h where f: "fsync ?fd (dm_host s) = (x, h)" by fastforce
  have h: "h_files h = h_files (dm_host s)" "h_fds h = h_fds (dm_host s)" "h_heap h = h_heap (dm_host s)"
    "suffix (h_script h) (h_script (dm_host s))"
    using fsync_frame [of ?fd "dm_host s"] fsync_script [of ?fd "dm_host s"] f by auto
  have nb: "Broken \<notin> set (h_script h)" using r h(4) set_mono_suffix by (auto simp: blk_ready_def)
  have "blk_after live ram reach f s (s\<lparr>dm_host := h\<rparr>) c (ram (dm_fab s))"
    using r h nb by (auto simp: blk_after_def blk_ready_def opened_def fun_upd_idem intro: exI [of _ "dm_opaque s"])
  with f show ?thesis
    by (cases x) (auto simp: block_flush_def blkd_block_flush_def on_host_def)
qed

lemma process_chain_flush:
  assumes r: "blk_ready live s f c" and q: "dev_queue 0 s = (OK q, s)"
    and ch: "blk_chain (ram (dm_fab s)) (reach (dm_fab s)) q head hdr segs st"
    and rt: "req_type (ram (dm_fab s)) hdr = VIRTIO_BLK_T_FLUSH"
    and sec: "req_sector (ram (dm_fab s)) hdr \<le> UINT64_MAX div BLKD_SECTOR_SIZE"
    and n: "length segs < n"
  shows "\<exists>s'. process_chain F dr n head s = (OK 1, s') \<and>
    (if fst (fsync (bb_fd (bd_backend (dm_opaque s))) (dm_host s)) = Ret ()
     then blk_after live ram reach f s s' c (mem_write (ram (dm_fab s)) (ds_addr st) [VIRTIO_BLK_S_OK]) \<and>
          h_disk (dm_host s') (of_path f) = Some c
     else blk_after live ram reach f s s' c (mem_write (ram (dm_fab s)) (ds_addr st) [VIRTIO_BLK_S_IOERR]))"
proof -
  let ?m = "ram (dm_fab s)" and ?fs = "fsync (bb_fd (bd_backend (dm_opaque s))) (dm_host s)"
  let ?st = "if fst ?fs = Ret () then VIRTIO_BLK_S_OK else VIRTIO_BLK_S_IOERR"
  have status: "request_status VIRTIO_BLK_T_FLUSH (req_sector ?m hdr) = VIRTIO_BLK_S_OK"
    using sec by (auto simp: request_status_def dest: leD)
  obtain s1 where s1: "blk_after live ram reach f s s1 c ?m" "dm_host s1 = dm_host s"
    "process_chain F dr n head s = finish_chain F VIRTIO_BLK_T_FLUSH VIRTIO_BLK_S_OK 0 st s1"
    using process_chain_skip [OF r q ch rt _ _ n, of dr] status by (auto simp: blk_consts)
  have r1: "blk_ready live s1 f c" "reach (dm_fab s1) (ds_addr st) 1" "ram (dm_fab s1) = ?m"
    "bd_backend (dm_opaque s1) = bd_backend (dm_opaque s)"
    using s1(1) ch by (auto simp: blk_after_def blk_chain_def)
  obtain s2 where s2: "block_flush s1 = (OK (fst ?fs = Ret ()), s2)" "blk_after live ram reach f s1 s2 c ?m"
    "dm_host s2 = snd ?fs"
    using block_flush_run [OF r1(1)] r1(3,4) s1(2) by auto
  have r2: "blk_ready live s2 f c" "reach (dm_fab s2) (ds_addr st) (unat (1 :: u32))" "ram (dm_fab s2) = ?m"
    using s2(2) r1(2) by (auto simp: blk_after_def)
  have live2: "live (dm_fab s2)" using r2(1) by (simp add: blk_ready_def)
  obtain g where g: "fabric_dma_write F (ds_addr st) [?st] 1 (dm_fab s2) = (OK (), g)" "live g"
    "ram g = mem_write ?m (ds_addr st) [?st]" "reach g = reach (dm_fab s2)"
    using write_reach [OF live2 r2(2), of "[?st]"] r2(3) by auto
  let ?s3 = "s2\<lparr>dm_fab := g\<rparr>"
  have a: "blk_after live ram reach f s ?s3 c (mem_write ?m (ds_addr st) [?st])"
    using r2(1) g(2-4) by (intro blk_after_trans [OF blk_after_trans [OF s1(1) s2(2)]] blk_after_fab)
  have "process_chain F dr n head s = (OK 1, ?s3)"
    using s1(3) s2(1) g(1) by (simp add: finish_chain_def bnd_OK on_fab_def blk_consts split: if_splits)
  moreover have "fst ?fs = Ret () \<Longrightarrow> h_disk (dm_host ?s3) (of_path f) = Some c"
    using r s2(3) fsync_durable [of "dm_host s" "bb_fd (bd_backend (dm_opaque s))" f c "()" "snd ?fs"]
    by (simp add: blk_ready_def prod_eq_iff)
  ultimately show ?thesis using a by (auto split: if_splits)
qed

end

section \<open>The device as a chain processor\<close>

text \<open>
  The request of a chain head, and its effect on guest memory and image with the length to report:
  the specification the service loop is proved against. Flushes, whose status depends on the host,
  are specified by the lemma above.
\<close>

definition blk_request :: "memory \<Rightarrow> virtio_queue \<Rightarrow> u16 \<Rightarrow> virtio_desc \<times> virtio_desc list \<times> virtio_desc" where
  "blk_request m q head =
     (let ds = decode_chain (Suc (unat (vq_num q))) m q head in (hd ds, butlast (tl ds), last ds))"

definition blk_serve :: "u8 list chain_spec" where
  "blk_serve m c q head =
     (case blk_request m q head of (hdr, segs, st) \<Rightarrow>
        let pos = unat (req_sector m hdr) * 512 in
        if req_type m hdr = VIRTIO_BLK_T_IN then
          (mem_write (in_writes c pos segs m) (ds_addr st) [VIRTIO_BLK_S_OK], c, of_nat (seg_bytes segs) + 1)
        else if req_type m hdr = VIRTIO_BLK_T_OUT then
          (mem_write m (ds_addr st) [VIRTIO_BLK_S_OK], file_put c pos (out_data m segs), 1)
        else (mem_write m (ds_addr st) [VIRTIO_BLK_S_UNSUPP], c, 1))"

definition blk_good ::
  "bool \<Rightarrow> nat \<Rightarrow> (u64 \<Rightarrow> nat \<Rightarrow> bool) \<Rightarrow> nat \<Rightarrow> memory \<Rightarrow> u8 list \<Rightarrow> virtio_queue \<Rightarrow> u16 \<Rightarrow> bool" where
  "blk_good wr n rch heap m c q head \<longleftrightarrow>
     (case blk_request m q head of (hdr, segs, st) \<Rightarrow>
        blk_chain m rch q head hdr segs st \<and> length segs < n \<and> req_type m hdr \<noteq> VIRTIO_BLK_T_FLUSH \<and>
        (req_type m hdr = VIRTIO_BLK_T_IN \<or> req_type m hdr = VIRTIO_BLK_T_OUT \<longrightarrow>
           unat (req_sector m hdr) * 512 + seg_bytes segs \<le> length c \<and> seg_bytes segs < 2 ^ 32) \<and>
        (req_type m hdr = VIRTIO_BLK_T_IN \<longrightarrow>
           (\<forall>d \<in> set segs. in_seg_ok rch heap q (chain_idx (ds_next hdr) (segs @ [st])) d)) \<and>
        (req_type m hdr = VIRTIO_BLK_T_OUT \<longrightarrow> wr \<and> (\<forall>d \<in> set segs. out_seg_ok rch heap d)))"

definition blk_srv_ready :: "('f \<Rightarrow> bool) \<Rightarrow> open_file \<Rightarrow> bool \<Rightarrow> 'f blkd \<Rightarrow> u8 list \<Rightarrow> bool" where
  "blk_srv_ready live f wr s c \<longleftrightarrow> blk_ready live s f c \<and>
     (wr \<longrightarrow> of_writable f \<and> \<not> bb_readonly (bd_backend (dm_opaque s)))"

context guest_map
begin

lemma process_chain_serve:
  assumes r: "blk_ready live s f c" and q: "dev_queue 0 s = (OK q, s)"
    and good: "blk_good wr n (reach (dm_fab s)) (h_heap (dm_host s)) (ram (dm_fab s)) c q head"
    and w: "wr \<Longrightarrow> of_writable f \<and> \<not> bb_readonly (bd_backend (dm_opaque s))"
    and sp: "blk_serve (ram (dm_fab s)) c q head = (m', c', len)"
  shows "\<exists>s'. process_chain F dr n head s = (OK len, s') \<and> blk_after live ram reach f s s' c' m'"
proof -
  let ?m = "ram (dm_fab s)"
  obtain hdr segs st where rq: "blk_request ?m q head = (hdr, segs, st)" by (metis prod.exhaust)
  have ch: "blk_chain ?m (reach (dm_fab s)) q head hdr segs st" and n: "length segs < n"
    and nf: "req_type ?m hdr \<noteq> VIRTIO_BLK_T_FLUSH"
    using good rq by (auto simp: blk_good_def)
  consider (rd) "req_type ?m hdr = VIRTIO_BLK_T_IN" | (wr) "req_type ?m hdr = VIRTIO_BLK_T_OUT"
    | (other) "req_type ?m hdr \<notin> {VIRTIO_BLK_T_IN, VIRTIO_BLK_T_OUT, VIRTIO_BLK_T_FLUSH}"
    using nf by auto
  then show ?thesis
  proof cases
    case rd
    with process_chain_in [OF r q ch rd _ _ _ n, of dr] good sp rq show ?thesis
      by (auto simp: blk_good_def blk_serve_def Let_def)
  next
    case wr
    moreover from wr have "req_type ?m hdr \<noteq> VIRTIO_BLK_T_IN" by (simp add: blk_consts)
    ultimately show ?thesis
      using process_chain_out [OF r q ch wr _ _ _ _ _ n, of dr] good sp rq w
      by (auto simp: blk_good_def blk_serve_def Let_def)
  next
    case other
    with process_chain_unsupported [OF r q ch other n, of dr] sp rq show ?thesis
      by (auto simp: blk_serve_def Let_def)
  qed
qed

lemma blk_queue_service:
  "queue_service F live ram reach line (process_chain F dr n) 0 (blk_srv_ready live f wr) (blk_good wr n) blk_serve"
proof (unfold_locales, goal_cases)
  case (4 s x q head m' x' len)
  then have "dev_queue 0 s = (OK q, s)" by (auto simp: dev_queue_def)
  with 4 process_chain_serve [of s f x q wr n head m' x' len dr] obtain s' where
    "process_chain F dr n head s = (OK len, s')" "blk_after live ram reach f s s' x' m'"
    by (auto simp: blk_srv_ready_def)
  with 4(1) show ?case by (auto simp: blk_after_def blk_srv_ready_def)
qed (auto simp: blk_srv_ready_def blk_ready_def)

text \<open>A notification, on any fabric with the contract and with a guest that is quiet meanwhile.\<close>

lemma blk_notify_ok:
  assumes quiet: "\<And>t g. live g \<Longrightarrow> live (fabric_usleep F t g) \<and> ram (fabric_usleep F t g) = ram g \<and>
      reach (fabric_usleep F t g) = reach g"
    and "blk_srv_ready live f wr s c" and "vd_queues (dm_vdev s) = [q]" and "vq_ready q \<noteq> 0"
    and "serve_ok (blk_good wr n (reach (dm_fab s)) (h_heap (dm_host s))) (reach (dm_fab s)) blk_serve k (ram (dm_fab s)) c q"
    and "0 < k" and "k < n" and "serve_all blk_serve k (ram (dm_fab s)) c q = (m', c', q')"
  shows "\<exists>s'. blkd_virtio_notify_queue F dr n 0 s = (OK (), s') \<and> live (dm_fab s') \<and> ram (dm_fab s') = m' \<and>
    h_files (dm_host s') (of_path f) = Some c' \<and> vd_queues (dm_vdev s') = [q'] \<and>
    vd_interrupt_status (dm_vdev s') = vd_interrupt_status (dm_vdev s) OR VIRTIO_INTERRUPT_VRING \<and> line (dm_fab s')"
proof -
  have "\<exists>s'. service_queue F (process_chain F dr n) 0 n s = (OK (), s') \<and>
      blk_srv_ready live f wr s' c' \<and> ram (dm_fab s') = m' \<and> line (dm_fab s') \<and>
      vd_queues (dm_vdev s') = (vd_queues (dm_vdev s))[0 := q'] \<and>
      vd_interrupt_status (dm_vdev s') = vd_interrupt_status (dm_vdev s) OR VIRTIO_INTERRUPT_VRING"
    by (rule queue_service.service_queue_ok [OF blk_queue_service quiet, where k = k and q = q and x = c])
      (use assms(2-) in auto)
  moreover have "blkd_virtio_notify_queue F dr n 0 s = service_queue F (process_chain F dr n) 0 n s"
    using assms(3,4) by (simp add: blkd_virtio_notify_queue_def bnd_def dev_queue_def)
  ultimately show ?thesis
    using assms(3) by (auto simp: blk_srv_ready_def blk_ready_def opened_def)
qed

end

end
