(* ===== verification/Uio_Blkd.thy ===== *)
theory Uio_Blkd
  imports Linux_Uio Blkd_Refine
begin

unbundle bit_operations_syntax

text \<open>
  The block backend over the UIO fabric: the contracts of \<open>Linux_Uio\<close> and the refinement of
  \<open>Blkd_Refine\<close> put together, with closed instances on a small guest.
\<close>

section \<open>A small guest\<close>

text \<open>
  Guest memory with a descriptor table at \<open>0x100\<close>: a request header at \<open>0x200\<close>, a data buffer of four
  bytes at \<open>0x300\<close> and a status byte at \<open>0x400\<close>; \<open>flags\<close> are those of the data descriptor and \<open>kind\<close> is the
  type of the request.
\<close>

definition demo_hdr :: virtio_desc where
  "demo_hdr = \<lparr>ds_addr = 0x200, ds_len = 16, ds_flags = 1, ds_next = 1\<rparr>"

definition demo_seg :: "u16 \<Rightarrow> virtio_desc" where
  "demo_seg flags = \<lparr>ds_addr = 0x300, ds_len = 4, ds_flags = flags, ds_next = 2\<rparr>"

definition demo_status :: virtio_desc where
  "demo_status = \<lparr>ds_addr = 0x400, ds_len = 1, ds_flags = 2, ds_next = 0\<rparr>"

lemma demo_desc_simps [simp]:
  "ds_addr demo_hdr = 0x200" "ds_len demo_hdr = 16" "ds_flags demo_hdr = 1" "ds_next demo_hdr = 1"
  "ds_addr (demo_seg fl) = 0x300" "ds_len (demo_seg fl) = 4" "ds_flags (demo_seg fl) = fl" "ds_next (demo_seg fl) = 2"
  "ds_addr demo_status = 0x400" "ds_len demo_status = 1" "ds_flags demo_status = 2" "ds_next demo_status = 0"
  by (simp_all add: demo_hdr_def demo_seg_def demo_status_def)

definition demo_ram :: "u32 \<Rightarrow> u16 \<Rightarrow> memory" where
  "demo_ram kind flags =
     mem_write (mem_write (\<lambda>_. 0) 0x100
       (concat (map virtio_encode_desc [demo_hdr, demo_seg flags, demo_status]))) 0x200 (virtio_store_le32 kind)"

definition demo_queue :: virtio_queue where
  "demo_queue = \<lparr>vq_num = 4, vq_ready = 1, vq_desc = 0x100, vq_avail = 0x500, vq_used = 0x600, vq_last_avail_idx = 0\<rparr>"

definition demo_backend :: blkd_block_backend where
  "demo_backend = \<lparr>bb_fd = 3, bb_image_len = 8, bb_readonly = False\<rparr>"

definition demo_file :: open_file where
  "demo_file = \<lparr>of_path = ''disk'', of_readable = True, of_writable = True, of_append = False\<rparr>"

definition demo_host :: host where
  "demo_host = \<lparr>h_files = [''disk'' \<mapsto> [1, 2, 3, 4, 5, 6, 7, 8]], h_disk = Map.empty,
     h_fds = [3 \<mapsto> demo_file], h_next_fd = 4, h_script = [Partial 1], h_heap = 4096, h_pos = (\<lambda>_. 0), h_maps = []\<rparr>"

definition demo_fab :: "memory \<Rightarrow> uio_state" where
  "demo_fab m = \<lparr>us_fd = 5, us_config = \<lparr>uc_path = ''/dev/uio0'', uc_irq_control_offset = 0x200, uc_dma_base = 0\<rparr>,
     us_mmio = \<lparr>um_mapped = True, um_mem = (\<lambda>_. 0), um_len = 4096, um_size = 4096\<rparr>,
     us_dma = \<lparr>um_mapped = True, um_mem = m, um_len = 4096, um_size = 4096\<rparr>,
     us_pending_irq_level = - 1\<rparr>"

definition demo_state :: "memory \<Rightarrow> uio_state blkd" where
  "demo_state m = \<lparr>dm_mmio = \<lparr>vm_vdev = \<lparr>vd_device_id = 2, vd_vendor_id = 0, vd_queue_count = 1, vd_queue_size = 256,
       vd_queues = [demo_queue], vd_driver_features = 0, vd_status = 15, vd_interrupt_status = 0,
       vd_config_generation = 0,
       vd_opaque = \<lparr>bd_backend = demo_backend, bd_capacity_sectors = 0, bd_io_buf = [], bd_io_buf_size = 0\<rparr>\<rparr>,
     vm_device_features_sel = 0, vm_driver_features_sel = 0, vm_queue_sel = 0\<rparr>,
     dm_fab = demo_fab m, dm_host = demo_host\<rparr>"

lemma demo_ready: "blk_ready uio_live (demo_state m) demo_file [1, 2, 3, 4, 5, 6, 7, 8]"
  by (simp add: blk_ready_def demo_state_def demo_fab_def demo_host_def demo_file_def demo_backend_def
      uio_live_def opened_def buf_wf_def)

lemma demo_dev_queue: "dev_queue 0 (demo_state m) = (OK demo_queue, demo_state m)"
  by (simp add: dev_queue_def demo_state_def)

lemma demo_uio_ram [simp]: "uio_ram (dm_fab (demo_state m)) = m"
  by (simp add: uio_ram_def demo_state_def demo_fab_def)

lemma demo_uio_reach: "uio_reach (dm_fab (demo_state m)) a n \<longleftrightarrow> n = 0 \<or> unat a + n \<le> 4096"
  by (simp add: uio_reach_def demo_state_def demo_fab_def)

lemma demo_desc:
  assumes "i < 3"
  shows "desc_at (demo_ram kind flags) demo_queue i = [demo_hdr, demo_seg flags, demo_status] ! unat i"
proof -
  have lt: "unat i < 3" using assms by (simp add: word_less_nat_alt)
  have "apart 0x200 4 (desc_addr demo_queue i) 16"
    using apart_offsets [of "16 * unat i" 16 256 4 "0x100"] lt
    by (subst apart_sym) (simp add: desc_addr_offset demo_queue_def)
  then have "desc_at (demo_ram kind flags) demo_queue i =
      desc_at (mem_write (\<lambda>_. 0) 0x100 (concat (map virtio_encode_desc [demo_hdr, demo_seg flags, demo_status]))) demo_queue i"
    by (simp add: demo_ram_def desc_at_apart)
  also have "\<dots> = [demo_hdr, demo_seg flags, demo_status] ! unat i"
    using desc_at_table [of i "[demo_hdr, demo_seg flags, demo_status]" "\<lambda>_. 0" demo_queue] lt
    by (simp add: demo_queue_def)
  finally show ?thesis .
qed

lemma demo_header:
  "req_type (demo_ram kind flags) demo_hdr = kind" "req_sector (demo_ram kind flags) demo_hdr = 0"
proof -
  have "mem_read (demo_ram kind flags) 0x200 16 = virtio_store_le32 kind @ replicate 12 0"
  proof -
    have "mem_read (demo_ram kind flags) 0x200 (4 + 12) =
        mem_read (demo_ram kind flags) 0x200 4 @ mem_read (demo_ram kind flags) 0x204 12"
      by (subst mem_read_append) simp
    moreover have "mem_read (demo_ram kind flags) 0x200 4 = virtio_store_le32 kind"
      by (simp add: demo_ram_def mem_read_write_same)
    moreover have "mem_read (demo_ram kind flags) 0x204 12 = replicate 12 0"
      by (simp add: demo_ram_def mem_read_write_apart apart_def) (simp add: mem_read_def map_replicate_const)
    ultimately show ?thesis by simp
  qed
  then show "req_type (demo_ram kind flags) demo_hdr = kind" "req_sector (demo_ram kind flags) demo_hdr = 0"
    by (simp_all add: req_type_def req_sector_def demo_hdr_def)
      (simp add: virtio_load_le64_def virtio_load_le32_def)
qed

lemma demo_chain:
  assumes "flags AND VRING_DESC_F_NEXT \<noteq> 0"
  shows "blk_chain (demo_ram kind flags) (uio_reach (dm_fab (demo_state m))) demo_queue 0 demo_hdr [demo_seg flags] demo_status"
  using assms demo_desc [of 0 kind flags] demo_desc [of 1 kind flags] demo_desc [of 2 kind flags]
  by (simp add: blk_chain_def demo_uio_reach demo_hdr_def demo_seg_def demo_status_def blk_consts
      desc_addr_def demo_queue_def)

lemma demo_in_seg:
  "in_seg_ok (uio_reach (dm_fab (demo_state m))) 4096 demo_queue (chain_idx 1 [demo_seg 3, demo_status]) (demo_seg 3)"
  by (simp add: in_seg_ok_def demo_uio_reach demo_seg_def demo_status_def off_table_def desc_addr_def
      demo_queue_def apart_def blk_consts)

lemma demo_out_seg: "out_seg_ok (uio_reach (dm_fab (demo_state m))) 4096 (demo_seg 1)"
  by (simp add: out_seg_ok_def demo_uio_reach demo_seg_def blk_consts)

lemma demo_heap: "h_heap (dm_host (demo_state m)) = 4096"
  by (simp add: demo_state_def demo_host_def)

lemma demo_writable: "of_writable demo_file" "\<not> bb_readonly (bd_backend (dm_opaque (demo_state m)))"
  by (simp_all add: demo_file_def demo_state_def demo_backend_def)

lemma demo_bytes: "seg_bytes [demo_seg flags] = 4"
  by (simp add: demo_seg_def)

section \<open>Requests\<close>

text \<open>The refinement lemmas of the block device at the UIO fabric.\<close>

lemmas uio_chain_in = guest_map.process_chain_in [OF uio.guest_map_axioms]
lemmas uio_chain_out = guest_map.process_chain_out [OF uio.guest_map_axioms]
lemmas uio_chain_flush = guest_map.process_chain_flush [OF uio.guest_map_axioms]
lemmas uio_chain_unsupported = guest_map.process_chain_unsupported [OF uio.guest_map_axioms]

text \<open>
  C16: a read request is served correctly. For a well-formed chain with a header, data buffers the
  device may write, and a status byte, whose sectors lie inside the image, the backend completes the
  request whatever interruptions and short transfers the host has and whether or not it reads
  directly into guest memory: the data buffers together hold the bytes of the image from the
  requested sector on, the status byte is OK, the reported length is the number of data bytes plus
  one, and the image is unchanged.
\<close>

theorem blk_read_request:
  assumes "blk_ready uio_live s f c" and "dev_queue 0 s = (OK q, s)"
    and "blk_chain (uio_ram (dm_fab s)) (uio_reach (dm_fab s)) q head hdr segs st"
    and "req_type (uio_ram (dm_fab s)) hdr = VIRTIO_BLK_T_IN"
    and "unat (req_sector (uio_ram (dm_fab s)) hdr) * 512 + seg_bytes segs \<le> length c"
    and "seg_bytes segs < 2 ^ 32"
    and "\<forall>d \<in> set segs. in_seg_ok (uio_reach (dm_fab s)) (h_heap (dm_host s)) q (chain_idx (ds_next hdr) (segs @ [st])) d"
    and "length segs < n"
    and "disjoint_segs segs" and "\<forall>d \<in> set segs. apart (ds_addr st) 1 (ds_addr d) (unat (ds_len d))"
  shows "\<exists>s'. process_chain (uio_ops env) dr n head s = (OK (of_nat (seg_bytes segs) + 1), s') \<and>
    out_data (uio_ram (dm_fab s')) segs =
      take (seg_bytes segs) (drop (unat (req_sector (uio_ram (dm_fab s)) hdr) * 512) c) \<and>
    uio_ram (dm_fab s') (ds_addr st) = VIRTIO_BLK_S_OK \<and>
    h_files (dm_host s') = h_files (dm_host s)"
proof -
  let ?m = "uio_ram (dm_fab s)" let ?pos = "unat (req_sector ?m hdr) * 512"
  let ?m' = "mem_write (in_writes c ?pos segs ?m) (ds_addr st) [VIRTIO_BLK_S_OK]"
  obtain s' where s': "process_chain (uio_ops env) dr n head s = (OK (of_nat (seg_bytes segs) + 1), s')"
    "blk_after uio_live uio_ram uio_reach f s s' c ?m'"
    using uio_chain_in [OF assms(1-8)] by blast
  have "out_data ?m' segs = out_data (in_writes c ?pos segs ?m) segs"
    using assms(10) by (simp add: out_data_def mem_read_write_apart cong: map_cong)
  also have "\<dots> = take (seg_bytes segs) (drop ?pos c)" by (rule in_writes_data [OF assms(9,5)])
  finally have data: "out_data ?m' segs = take (seg_bytes segs) (drop ?pos c)" .
  have "?m' (ds_addr st) = VIRTIO_BLK_S_OK" by (simp add: mem_write_def)
  moreover have "(h_files (dm_host s))(of_path f \<mapsto> c) = h_files (dm_host s)"
    using assms(1) by (simp add: blk_ready_def opened_def fun_upd_idem)
  ultimately show ?thesis using s' data by (auto simp: blk_after_def)
qed

theorem blk_read_request_witness:
  "\<exists>s'. process_chain (uio_ops (\<lambda>_. id)) True 2 0 (demo_state (demo_ram 0 3)) = (OK 5, s') \<and>
    out_data (uio_ram (dm_fab s')) [demo_seg 3] = [1, 2, 3, 4] \<and>
    uio_ram (dm_fab s') 0x400 = VIRTIO_BLK_S_OK \<and>
    h_files (dm_host s') = h_files demo_host"
proof -
  let ?s = "demo_state (demo_ram 0 3)"
  have "in_seg_ok (uio_reach (dm_fab ?s)) 4096 demo_queue (chain_idx (ds_next demo_hdr) ([demo_seg 3] @ [demo_status])) (demo_seg 3)"
    using demo_in_seg by (simp add: demo_hdr_def)
  moreover have "apart (ds_addr demo_status) 1 (ds_addr (demo_seg 3)) (unat (ds_len (demo_seg 3)))"
    by (simp add: demo_status_def demo_seg_def apart_def)
  moreover have "blk_chain (uio_ram (dm_fab ?s)) (uio_reach (dm_fab ?s)) demo_queue 0 demo_hdr [demo_seg 3] demo_status"
    using demo_chain [of 3 0 "demo_ram 0 3"] by (simp add: blk_consts)
  ultimately have "\<exists>s'. process_chain (uio_ops (\<lambda>_. id)) True 2 0 ?s = (OK (of_nat 4 + 1), s') \<and>
      out_data (uio_ram (dm_fab s')) [demo_seg 3] = take 4 (drop (unat (0 :: u64) * 512) [1, 2, 3, 4, 5, 6, 7, 8]) \<and>
      uio_ram (dm_fab s') (ds_addr demo_status) = VIRTIO_BLK_S_OK \<and> h_files (dm_host s') = h_files (dm_host ?s)"
    using blk_read_request [OF demo_ready demo_dev_queue, of "demo_ram 0 3" 0 demo_hdr "[demo_seg 3]" demo_status 2 "\<lambda>_. id" True]
    by (simp add: demo_header demo_bytes demo_heap VIRTIO_BLK_T_IN_def)
  then show ?thesis by (simp add: demo_status_def demo_state_def)
qed

text \<open>
  C17: a write request is served correctly. For a well-formed chain whose data buffers the device may
  read and whose sectors lie inside a writable image, the backend completes the request whatever
  interruptions and short transfers the host has: the image is changed exactly at the requested
  position, where it now holds the concatenated contents of the buffers, no other file changes, the
  status byte is OK and the reported length is one.
\<close>

theorem blk_write_request:
  assumes "blk_ready uio_live s f c" and "dev_queue 0 s = (OK q, s)"
    and "blk_chain (uio_ram (dm_fab s)) (uio_reach (dm_fab s)) q head hdr segs st"
    and "req_type (uio_ram (dm_fab s)) hdr = VIRTIO_BLK_T_OUT"
    and "unat (req_sector (uio_ram (dm_fab s)) hdr) * 512 + seg_bytes segs \<le> length c"
    and "seg_bytes segs < 2 ^ 32"
    and "\<forall>d \<in> set segs. out_seg_ok (uio_reach (dm_fab s)) (h_heap (dm_host s)) d"
    and "of_writable f" and "\<not> bb_readonly (bd_backend (dm_opaque s))" and "length segs < n"
  shows "\<exists>s'. process_chain (uio_ops env) dr n head s = (OK 1, s') \<and>
    h_files (dm_host s') = (h_files (dm_host s))(of_path f \<mapsto>
      file_put c (unat (req_sector (uio_ram (dm_fab s)) hdr) * 512) (out_data (uio_ram (dm_fab s)) segs)) \<and>
    uio_ram (dm_fab s') = mem_write (uio_ram (dm_fab s)) (ds_addr st) [VIRTIO_BLK_S_OK]"
  using uio_chain_out [OF assms, of env dr] by (auto simp: blk_after_def)

theorem blk_write_request_witness:
  "\<exists>s'. process_chain (uio_ops (\<lambda>_. id)) False 2 0
      (demo_state (mem_write (demo_ram 1 1) 0x300 [9, 8, 7, 6])) = (OK 1, s') \<and>
    h_files (dm_host s') ''disk'' = Some [9, 8, 7, 6, 5, 6, 7, 8]"
proof -
  let ?m = "mem_write (demo_ram 1 1) 0x300 [9, 8, 7, 6]" let ?s = "demo_state ?m"
  have "desc_at ?m demo_queue i = [demo_hdr, demo_seg 1, demo_status] ! unat i" if "i < 3" for i
  proof -
    have "unat i < 3" using that by (simp add: word_less_nat_alt)
    then have "apart 0x300 4 (desc_addr demo_queue i) 16"
      using apart_offsets [of "16 * unat i" 16 512 4 "0x100"]
      by (subst apart_sym) (simp add: desc_addr_offset demo_queue_def)
    then have "apart 0x300 (length [9, 8, 7, 6 :: u8]) (desc_addr demo_queue i) 16"
      by (simp add: eval_nat_numeral)
    from desc_at_apart [OF this] demo_desc [OF that] show ?thesis by simp
  qed
  from this [of 0] this [of 1] this [of 2]
  have chain: "blk_chain ?m (uio_reach (dm_fab ?s)) demo_queue 0 demo_hdr [demo_seg 1] demo_status"
    by (simp add: blk_chain_def demo_uio_reach blk_consts desc_addr_def demo_queue_def)
  have "mem_read ?m 0x200 16 = mem_read (demo_ram 1 1) 0x200 16"
    by (simp add: mem_read_write_apart apart_def)
  then have hdr: "req_type ?m demo_hdr = 1" "req_sector ?m demo_hdr = 0"
    using demo_header [of 1 1] by (simp_all add: req_type_def req_sector_def)
  have data: "out_data ?m [demo_seg 1] = [9, 8, 7, 6]"
    by (simp add: mem_read_write_same)
  have "\<exists>s'. process_chain (uio_ops (\<lambda>_. id)) False 2 0 ?s = (OK 1, s') \<and>
      h_files (dm_host s') = (h_files (dm_host ?s))(of_path demo_file \<mapsto>
        file_put [1, 2, 3, 4, 5, 6, 7, 8] (unat (req_sector ?m demo_hdr) * 512) (out_data ?m [demo_seg 1])) \<and>
      uio_ram (dm_fab s') = mem_write ?m (ds_addr demo_status) [VIRTIO_BLK_S_OK]"
    using blk_write_request [OF demo_ready demo_dev_queue, of ?m 0 demo_hdr "[demo_seg 1]" demo_status 2 "\<lambda>_. id" False]
      chain hdr demo_out_seg [of ?m]
    by (simp add: demo_heap demo_writable VIRTIO_BLK_T_OUT_def)
  then show ?thesis unfolding hdr data by (auto simp: file_put_def demo_file_def)
qed

text \<open>
  C18: a flush makes the image durable. A flush request is answered with the status OK exactly when
  the host's \<open>fsync\<close> of the image succeeds, in which case the contents that survive a crash are the
  current contents of the image; otherwise it is answered with an I/O error. It changes neither the
  files nor any guest memory but the status byte.
\<close>

theorem blk_flush_request:
  assumes "blk_ready uio_live s f c" and "dev_queue 0 s = (OK q, s)"
    and "blk_chain (uio_ram (dm_fab s)) (uio_reach (dm_fab s)) q head hdr segs st"
    and "req_type (uio_ram (dm_fab s)) hdr = VIRTIO_BLK_T_FLUSH"
    and "req_sector (uio_ram (dm_fab s)) hdr \<le> UINT64_MAX div BLKD_SECTOR_SIZE" and "length segs < n"
  shows "\<exists>s'. process_chain (uio_ops env) dr n head s = (OK 1, s') \<and>
    h_files (dm_host s') = h_files (dm_host s) \<and>
    (if fst (fsync (bb_fd (bd_backend (dm_opaque s))) (dm_host s)) = Ret ()
     then uio_ram (dm_fab s') = mem_write (uio_ram (dm_fab s)) (ds_addr st) [VIRTIO_BLK_S_OK] \<and>
          h_disk (dm_host s') (of_path f) = Some c
     else uio_ram (dm_fab s') = mem_write (uio_ram (dm_fab s)) (ds_addr st) [VIRTIO_BLK_S_IOERR])"
proof -
  have same: "(h_files (dm_host s))(of_path f \<mapsto> c) = h_files (dm_host s)"
    using assms(1) by (simp add: blk_ready_def opened_def fun_upd_idem)
  from uio_chain_flush [OF assms, of env dr] show ?thesis
    by (auto simp: blk_after_def same split: if_splits)
qed

theorem blk_flush_request_witness:
  "\<exists>s'. process_chain (uio_ops (\<lambda>_. id)) False 2 0 (demo_state (demo_ram 4 1)) = (OK 1, s') \<and>
    h_disk (dm_host s') ''disk'' = Some [1, 2, 3, 4, 5, 6, 7, 8]"
proof -
  let ?s = "demo_state (demo_ram 4 1)"
  have "blk_chain (uio_ram (dm_fab ?s)) (uio_reach (dm_fab ?s)) demo_queue 0 demo_hdr [demo_seg 1] demo_status"
    using demo_chain [of 1 4 "demo_ram 4 1"] by (simp add: blk_consts)
  moreover have "fst (fsync (bb_fd (bd_backend (dm_opaque ?s))) (dm_host ?s)) = Ret ()"
    by (simp add: fsync_def transfer_def demo_state_def demo_backend_def demo_host_def)
  ultimately obtain s' where "process_chain (uio_ops (\<lambda>_. id)) False 2 0 ?s = (OK 1, s')"
    "h_disk (dm_host s') (of_path demo_file) = Some [1, 2, 3, 4, 5, 6, 7, 8]"
    using blk_flush_request [OF demo_ready demo_dev_queue, of "demo_ram 4 1" 0 demo_hdr "[demo_seg 1]" demo_status 2 "\<lambda>_. id" False]
    by (auto simp: demo_header blk_consts)
  then show ?thesis by (auto simp: demo_file_def)
qed

text \<open>
  An unknown request changes nothing. A request that is neither read, write nor flush is completed
  with the status UNSUPP and length one, the files of the host are unchanged, and no guest memory
  but the status byte is written.
\<close>

theorem blk_unsupported_request:
  assumes "blk_ready uio_live s f c" and "dev_queue 0 s = (OK q, s)"
    and "blk_chain (uio_ram (dm_fab s)) (uio_reach (dm_fab s)) q head hdr segs st"
    and "req_type (uio_ram (dm_fab s)) hdr \<notin> {VIRTIO_BLK_T_IN, VIRTIO_BLK_T_OUT, VIRTIO_BLK_T_FLUSH}"
    and "length segs < n"
  shows "\<exists>s'. process_chain (uio_ops env) dr n head s = (OK 1, s') \<and>
    h_files (dm_host s') = h_files (dm_host s) \<and>
    uio_ram (dm_fab s') = mem_write (uio_ram (dm_fab s)) (ds_addr st) [VIRTIO_BLK_S_UNSUPP]"
proof -
  have same: "(h_files (dm_host s))(of_path f \<mapsto> c) = h_files (dm_host s)"
    using assms(1) by (simp add: blk_ready_def opened_def fun_upd_idem)
  from uio_chain_unsupported [OF assms, of env dr] show ?thesis by (auto simp: blk_after_def same)
qed

theorem blk_unsupported_request_witness:
  "\<exists>s'. process_chain (uio_ops (\<lambda>_. id)) False 2 0 (demo_state (demo_ram 8 1)) = (OK 1, s') \<and>
    uio_ram (dm_fab s') = mem_write (demo_ram 8 1) 0x400 [VIRTIO_BLK_S_UNSUPP]"
proof -
  let ?s = "demo_state (demo_ram 8 1)"
  have "blk_chain (uio_ram (dm_fab ?s)) (uio_reach (dm_fab ?s)) demo_queue 0 demo_hdr [demo_seg 1] demo_status"
    using demo_chain [of 1 8 "demo_ram 8 1"] by (simp add: blk_consts)
  then obtain s' where "process_chain (uio_ops (\<lambda>_. id)) False 2 0 ?s = (OK 1, s')"
    "uio_ram (dm_fab s') = mem_write (uio_ram (dm_fab ?s)) (ds_addr demo_status) [VIRTIO_BLK_S_UNSUPP]"
    using blk_unsupported_request [OF demo_ready demo_dev_queue, of "demo_ram 8 1" 0 demo_hdr "[demo_seg 1]" demo_status 2 "\<lambda>_. id" False]
    by (auto simp: demo_header blk_consts)
  then show ?thesis by auto
qed

end
