(* ===== verification/Blkd_Termination.thy ===== *)
theory Blkd_Termination
  imports Blkd_Safety
begin

unbundle bit_operations_syntax

text \<open>
  Termination of request processing. The guest owns the descriptor table and may link descriptors
  into a cycle; the loop of \<open>process_chain\<close> stops after as many descriptors as the queue has entries.
  The bound is compared as a 32-bit counter, so it is no bound for the largest 32-bit queue size.
\<close>

lemma ends_on_fab: "ends m \<Longrightarrow> ends (on_fab m)"
  by (auto simp: ends_def on_fab_def split: prod.splits) (metis fst_conv)

lemma ends_host: "ends (block_read pos len)" "ends (block_write pos d len)" "ends block_flush"
  "ends (ensure_io_buf len)" "ends (io_buf_store bs)" "ends (io_buf_load len)" "ends (dev_queue i)"
  by (simp_all add: ends_def block_read_def block_write_def block_flush_def on_host_def ensure_io_buf_def
      io_buf_store_def io_buf_load_def dev_queue_def Let_def split: prod.splits)

context fabric_ends
begin

lemma ends_read_desc: "ends (virtio_read_desc F q i)"
  unfolding virtio_read_desc_def by (intro ends_parts ends_read_into)

lemma ends_segments: "ends (segment_in F dr d pos st)" "ends (segment_out F d pos st)"
  unfolding segment_in_def direct_in_def buffered_in_def segment_out_def
  by (intro ends_parts ends_on_fab ends_host ends_read_into ends_write ends_map ends_store ends_unmap)+

lemma ends_chain_loop:
  assumes "vq_num q \<noteq> 0xffffffff" and "unat seen \<le> unat (vq_num q)" and "unat (vq_num q) < unat seen + n"
  shows "ends (chain_loop F dr q rt off n st dl i seen)"
  using assms(2,3)
proof (induction n arbitrary: st dl i seen)
  case (Suc n)
  have "unat (vq_num q) \<noteq> unat (0xffffffff :: u32)"
    using assms(1) by (simp only: word_unat_eq_iff not_False_eq_True)
  then have lt: "unat seen + 1 < 2 ^ 32"
    using Suc.prems(1) unat_lt_u32 [of "vq_num q"] by simp
  then have inc: "unat (seen + 1) = unat seen + 1" by (simp add: unat_word_ariths)
  show ?case
  proof (cases "seen + 1 > vq_num q")
    case True
    then show ?thesis by (simp add: ends_def)
  next
    case False
    then have "unat (seen + 1) \<le> unat (vq_num q)" by (simp add: word_less_nat_alt not_less)
    then have "ends (chain_loop F dr q rt off n st' dl' i' (seen + 1))" for st' dl' i'
      using Suc.prems(2) inc by (intro Suc.IH) auto
    then show ?thesis unfolding chain_loop.simps
      by (intro ends_parts ends_on_fab ends_read_desc ends_segments)
  qed
qed simp

lemma process_chain_ends:
  assumes "dev_queue 0 s = (OK q, s)" and "vq_num q \<noteq> 0xffffffff" and "unat (vq_num q) < n"
  shows "fst (process_chain F dr n head s) \<noteq> Spin"
proof -
  let ?k = "bnd (on_fab (virtio_read_desc F q head)) (\<lambda>hd.
     bnd (guard (ds_flags hd AND VRING_DESC_F_NEXT \<noteq> 0)) (\<lambda>_.
     bnd (on_fab (fabric_dma_read_into F (ds_addr hd) 16)) (\<lambda>header.
     bnd (chain_loop F dr q (virtio_load_le32 header) (request_offset (virtio_load_le64 (drop 8 header))) n
            (request_status (virtio_load_le32 header) (virtio_load_le64 (drop 8 header))) 0 (ds_next hd) 0)
       (\<lambda>(status, dlen, sd). finish_chain F (virtio_load_le32 header) status dlen sd))))"
  have "ends (chain_loop F dr q rt off n st dl i 0)" for rt off st dl i
    using assms(2,3) by (intro ends_chain_loop) auto
  then have "ends ?k" unfolding finish_chain_def
    by (intro ends_parts ends_on_fab ends_read_desc ends_read_into ends_write ends_host)
  then show ?thesis using assms(1) by (simp add: process_chain_def bnd_OK Let_def ends_def)
qed

end

end
