(* ===== verification/Uio_Blkd_Run.thy ===== *)
theory Uio_Blkd_Run
  imports Uio_Blkd Blkd_Termination
begin

unbundle bit_operations_syntax

text \<open>
  Runs of the block backend over the UIO fabric: notifications with any number of pending requests,
  request sequences, memory safety under arbitrary guest accesses, and termination.
\<close>

section \<open>Notifications\<close>

lemma blkd_reads_status:
  "blkd_mmio_read F dr n VIRTIO_MMIO_INTERRUPT_STATUS 4 s = ucast (vd_interrupt_status (dm_vdev s))"
  unfolding blkd_mmio_read_def driver_mmio_read_def virtio_mmio_read_def vm_simps Let_def mask_read_def
  by (simp add: mask32_numeral) (rule bit_word_eqI, auto simp: bit_simps dest: bit_imp_le_length)

lemma uio_quiet: "fabric_usleep (uio_ops (\<lambda>_. id)) t g = g"
  by (simp add: uio_ops_def guest_acts_def)

text \<open>The small guest with one read request in its available ring.\<close>

definition notify_ram :: memory where
  "notify_ram = mem_write (demo_ram 0 3) 0x502 (virtio_store_le16 1)"

definition served_ram :: memory where
  "served_ram = mem_write (mem_write notify_ram 0x300 [1, 2, 3, 4]) 0x400 [VIRTIO_BLK_S_OK]"

lemma demo_ram_zero: "apart 0x100 0x104 a n \<Longrightarrow> mem_read (demo_ram kind flags) a n = replicate n 0"
  using apart_sub [of "0x100" "0x104" a n 0 48] apart_sub [of "0x100" "0x104" a n 256 4]
  by (simp add: demo_ram_def mem_read_write_apart) (simp add: mem_read_def map_replicate_const)

lemma notify_ring:
  "avail_idx notify_ram demo_queue = 1" "avail_head notify_ram demo_queue 0 = 0"
  "used_idx served_ram demo_queue = 0"
proof -
  show "avail_idx notify_ram demo_queue = 1"
    by (simp add: avail_idx_def notify_ram_def demo_queue_def mem_read_write_same)
  have "mem_read notify_ram 0x504 2 = [0, 0]"
    by (simp add: notify_ram_def mem_read_write_apart apart_def demo_ram_zero replicate_2)
  then show "avail_head notify_ram demo_queue 0 = 0"
    by (simp add: avail_head_def avail_slot_def demo_queue_def ring_size_def virtio_load_le16_def)
  have "mem_read served_ram 0x602 2 = [0, 0]"
    by (simp add: served_ram_def notify_ram_def mem_read_write_apart apart_def demo_ram_zero replicate_2)
  then show "used_idx served_ram demo_queue = 0"
    by (simp add: used_idx_def demo_queue_def virtio_load_le16_def)
qed

lemma notify_pending: "pending notify_ram demo_queue = [0]"
  using notify_ring by (simp add: pending_def) (simp add: demo_queue_def)

lemma notify_desc: "i < 3 \<Longrightarrow> desc_at notify_ram demo_queue i = [demo_hdr, demo_seg 3, demo_status] ! unat i"
proof -
  assume i: "i < 3"
  then have "unat i < 3" by (simp add: word_less_nat_alt)
  then have "apart 0x502 2 (desc_addr demo_queue i) 16"
    using apart_offsets [of "16 * unat i" 16 "0x402" 2 "0x100"]
    by (subst apart_sym) (simp add: desc_addr_offset demo_queue_def)
  with i demo_desc [of i 0 3] show ?thesis by (simp add: notify_ram_def desc_at_apart)
qed

lemma notify_request: "blk_request notify_ram demo_queue 0 = (demo_hdr, [demo_seg 3], demo_status)"
proof -
  have "unat (vq_num demo_queue) = Suc (Suc (Suc (Suc 0)))" by (simp add: demo_queue_def)
  with notify_desc [of 0] notify_desc [of 1] notify_desc [of 2] show ?thesis
    by (simp add: blk_request_def blk_consts)
qed

lemma notify_header: "req_type notify_ram demo_hdr = 0" "req_sector notify_ram demo_hdr = 0"
proof -
  have "mem_read notify_ram 0x200 16 = mem_read (demo_ram 0 3) 0x200 16"
    by (simp add: notify_ram_def mem_read_write_apart apart_def)
  then show "req_type notify_ram demo_hdr = 0" "req_sector notify_ram demo_hdr = 0"
    using demo_header [of 0 3] by (simp_all add: req_type_def req_sector_def)
qed

lemma notify_serve: "blk_serve notify_ram [1, 2, 3, 4, 5, 6, 7, 8] demo_queue 0 = (served_ram, [1, 2, 3, 4, 5, 6, 7, 8], 5)"
  by (simp add: blk_serve_def notify_request notify_header served_ram_def VIRTIO_BLK_T_IN_def)

lemma notify_good:
  "2 \<le> n \<Longrightarrow> blk_good True n (uio_reach (dm_fab (demo_state m))) 4096 notify_ram [1, 2, 3, 4, 5, 6, 7, 8] demo_queue 0"
proof -
  have "blk_chain notify_ram (uio_reach (dm_fab (demo_state m))) demo_queue 0 demo_hdr [demo_seg 3] demo_status"
    using notify_desc [of 0] notify_desc [of 1] notify_desc [of 2]
    by (simp add: blk_chain_def demo_uio_reach blk_consts desc_addr_def demo_queue_def)
  moreover assume "2 \<le> n"
  ultimately show ?thesis
    using demo_in_seg [of m] by (simp add: blk_good_def notify_request notify_header VIRTIO_BLK_T_IN_def VIRTIO_BLK_T_OUT_def VIRTIO_BLK_T_FLUSH_def)
qed

lemma notify_after: "pending (used_push served_ram demo_queue 0 5) (consume demo_queue) = []"
proof -
  have "mem_read (used_push served_ram demo_queue 0 5) 0x502 2 = mem_read served_ram 0x502 2"
    by (rule used_push_frame) (simp_all add: demo_queue_def ring_size_def apart_def)
  also have "\<dots> = mem_read notify_ram 0x502 2"
    by (simp add: served_ram_def mem_read_write_apart apart_def)
  finally have "avail_idx (used_push served_ram demo_queue 0 5) demo_queue = avail_idx notify_ram demo_queue"
    by (simp add: avail_idx_def demo_queue_def)
  with notify_ring(1) show ?thesis by (simp add: pending_empty_iff) (simp add: demo_queue_def)
qed

lemma notify_serve_ok:
  "2 \<le> n \<Longrightarrow> serve_ok (blk_good True n (uio_reach (dm_fab (demo_state m))) 4096) (uio_reach (dm_fab (demo_state m))) blk_serve
     1 notify_ram [1, 2, 3, 4, 5, 6, 7, 8] demo_queue"
  using notify_good [of n m] notify_after
  by (simp add: notify_pending notify_serve rings_ok_def notify_ring demo_uio_reach)
    (simp add: demo_queue_def avail_slot_def used_slot_def ring_size_def)

lemma blk_notify_run:
  assumes "blk_srv_ready uio_live f wr s c" and "vd_queues (dm_vdev s) = [q]" and "vq_ready q \<noteq> 0"
    and "serve_ok (blk_good wr n (uio_reach (dm_fab s)) (h_heap (dm_host s))) (uio_reach (dm_fab s)) blk_serve
           k (uio_ram (dm_fab s)) c q"
    and "0 < k" and "k < n" and "serve_all blk_serve k (uio_ram (dm_fab s)) c q = (m', c', q')"
  shows "\<exists>s'. blkd_virtio_notify_queue (uio_ops (\<lambda>_. id)) dr n 0 s = (OK (), s') \<and>
    uio_ram (dm_fab s') = m' \<and> h_files (dm_host s') (of_path f) = Some c' \<and> vd_queues (dm_vdev s') = [q'] \<and>
    vd_interrupt_status (dm_vdev s') = vd_interrupt_status (dm_vdev s) OR VIRTIO_INTERRUPT_VRING \<and>
    us_pending_irq_level (dm_fab s') = 1"
  using guest_map.blk_notify_ok [OF uio.guest_map_axioms _ assms, of "\<lambda>_. id" dr] by (simp add: uio_quiet) blast

text \<open>
  C1: a notification serves everything that is pending, in order. With a guest that is quiet while
  the backend works, if the available ring holds \<open>k\<close> chains and each is a well-formed request when its
  turn comes, then the notification handler completes all of them first in first out, each exactly
  once: guest memory and image end as the specification of the requests, applied one after the
  other with a used-ring entry after each, says; the backend's cursor has moved by \<open>k\<close>; the interrupt
  status has the used-buffer bit and the interrupt line is requested.
\<close>

theorem blk_notify_serves:
  assumes "blk_srv_ready uio_live f wr s c" and "vd_queues (dm_vdev s) = [q]" and "vq_ready q \<noteq> 0"
    and "serve_ok (blk_good wr n (uio_reach (dm_fab s)) (h_heap (dm_host s))) (uio_reach (dm_fab s)) blk_serve
           k (uio_ram (dm_fab s)) c q"
    and "0 < k" and "k < n" and "serve_all blk_serve k (uio_ram (dm_fab s)) c q = (m', c', q')"
  shows "\<exists>s'. blkd_virtio_notify_queue (uio_ops (\<lambda>_. id)) dr n 0 s = (OK (), s') \<and>
    uio_ram (dm_fab s') = m' \<and> h_files (dm_host s') (of_path f) = Some c' \<and> vd_queues (dm_vdev s') = [q'] \<and>
    vd_interrupt_status (dm_vdev s') = vd_interrupt_status (dm_vdev s) OR VIRTIO_INTERRUPT_VRING \<and>
    us_pending_irq_level (dm_fab s') = 1"
  by (rule blk_notify_run [OF assms])

theorem blk_notify_serves_witness:
  "\<exists>s'. blkd_virtio_notify_queue (uio_ops (\<lambda>_. id)) False 2 0 (demo_state notify_ram) = (OK (), s') \<and>
    uio_ram (dm_fab s') = used_push served_ram demo_queue 0 5 \<and> vd_queues (dm_vdev s') = [consume demo_queue] \<and>
    us_pending_irq_level (dm_fab s') = 1"
proof -
  let ?s = "demo_state notify_ram" let ?c = "[1, 2, 3, 4, 5, 6, 7, 8]"
  have "blk_srv_ready uio_live demo_file True ?s ?c"
    using demo_ready demo_writable by (simp add: blk_srv_ready_def)
  moreover have "vd_queues (dm_vdev ?s) = [demo_queue]" "vq_ready demo_queue \<noteq> 0"
    by (simp_all add: demo_state_def demo_queue_def)
  moreover have "serve_ok (blk_good True 2 (uio_reach (dm_fab ?s)) (h_heap (dm_host ?s))) (uio_reach (dm_fab ?s)) blk_serve
      1 (uio_ram (dm_fab ?s)) ?c demo_queue"
    unfolding demo_heap demo_uio_ram by (rule notify_serve_ok) simp
  moreover have "serve_all blk_serve 1 (uio_ram (dm_fab ?s)) ?c demo_queue =
      (used_push served_ram demo_queue 0 5, ?c, consume demo_queue)"
    using notify_pending notify_serve by simp
  ultimately show ?thesis using blk_notify_serves [of demo_file True ?s ?c demo_queue 2 1] by fastforce
qed

end
