(* ===== verification/Uio_Blkd_Safety.thy ===== *)
theory Uio_Blkd_Safety
  imports Uio_Blkd_Run
begin

unbundle bit_operations_syntax

text \<open>
  The block backend on the UIO fabric against a guest that does not follow the protocol: it never
  accesses memory outside its buffers and mappings, and a request always ends, each with the one
  exception that the unchecked queue size register leaves. For the accesses to the request buffer the
  device object must have been initialised, which \<open>main\<close> does not do: \<open>stale_buffer_faults\<close>.
\<close>

section \<open>Faults\<close>

text \<open>
  C5: memory safety of an initialised device object. If the request-buffer fields of the device object
  describe a block when the device is first connected (a null pointer and the size zero do), then, once
  connected over a mapped UIO window, after any sequence of register writes and reconnects, with any
  contents of guest memory that may change at every pause of the daemon and any outcomes of the system
  calls, no register write makes the block backend fault: no access outside the request buffer, the queue
  array or the mapped window, and no division by zero. Excluded are queue sizes whose low 16 bits are
  zero. The first condition is one on \<open>main\<close>, where the device object is an uninitialised local variable
  and \<open>blkd_virtio_init\<close> keeps its buffer fields: the program does not establish it.
\<close>

theorem blk_no_fault:
  assumes "uio_live (dm_fab s)" and "buf_wf (dm_opaque s)" and "list_all sane_event es"
    and "sane_event (MmioWrite off v len)"
  shows "fst (blkd_mmio_write (uio_ops env) dr n off v len
                (blkd_events (uio_ops env) dr n b (Reconnect # es) s)) \<noteq> Trap"
  using fabric_safe.blkd_no_fault [OF uio_safety.fabric_safe_axioms assms] .

theorem blk_no_fault_witness:
  "\<forall>env n m. fst (blkd_mmio_write (uio_ops env) False n VIRTIO_MMIO_QUEUE_NOTIFY 0 4
     (blkd_events (uio_ops env) False n demo_backend
        [Reconnect, MmioWrite VIRTIO_MMIO_QUEUE_NUM 3 4, MmioWrite VIRTIO_MMIO_QUEUE_AVAIL_LOW 0x500 4,
         MmioWrite VIRTIO_MMIO_QUEUE_READY 1 4] (demo_state m))) \<noteq> Trap"
proof (intro allI)
  fix env n m
  have "uio_live (dm_fab (demo_state m))" "buf_wf (dm_opaque (demo_state m))"
    by (simp_all add: demo_state_def demo_fab_def uio_live_def buf_wf_def)
  then show "fst (blkd_mmio_write (uio_ops env) False n VIRTIO_MMIO_QUEUE_NOTIFY 0 4
     (blkd_events (uio_ops env) False n demo_backend
        [Reconnect, MmioWrite VIRTIO_MMIO_QUEUE_NUM 3 4, MmioWrite VIRTIO_MMIO_QUEUE_AVAIL_LOW 0x500 4,
         MmioWrite VIRTIO_MMIO_QUEUE_READY 1 4] (demo_state m))) \<noteq> Trap"
    by (rule blk_no_fault) (simp_all add: vm_simps)
qed

text \<open>
  The condition on the request buffer is needed: connecting keeps the two fields, and with a size that
  exceeds the block behind the pointer, \<open>ensure_io_buf\<close> allocates nothing and the first segment of a write
  request is stored outside of the block.
\<close>

lemma stale_buffer_faults:
  assumes "uio_live (dm_fab s)" and "uio_reach (dm_fab s) (ds_addr d) (unat (ds_len d))" and "ds_flags d AND VRING_DESC_F_WRITE = 0"
    and "ds_len d \<le> bd_io_buf_size (dm_opaque s)" and "length (bd_io_buf (dm_opaque s)) < unat (ds_len d)"
  shows "fst (segment_out (uio_ops env) d pos VIRTIO_BLK_S_OK (blkd_connect (uio_ops env) dr n b s)) = Trap"
proof -
  let ?c = "blkd_connect (uio_ops env) dr n b s"
  have buf: "bd_io_buf (dm_opaque ?c) = bd_io_buf (dm_opaque s)" "bd_io_buf_size (dm_opaque ?c) = bd_io_buf_size (dm_opaque s)"
    by (simp_all add: blkd_connect_def Let_def blkd_virtio_init_def virtio_device_init_def
      virtio_mmio_init_def virtio_mmio_reset_def virtio_device_reset_def blkd_virtio_ops_def zero_vdev_def)
  then have room: "ensure_io_buf (ds_len d) ?c = (OK (), ?c)" using assms(4) by (simp add: ensure_io_buf_def)
  obtain g where "fabric_dma_read_into (uio_ops env) (ds_addr d) (ds_len d) (dm_fab s) =
      (OK (mem_read (uio_ram (dm_fab s)) (ds_addr d) (unat (ds_len d))), g)"
    using uio.read_reach [OF assms(1,2)] by auto
  with room buf assms(3,5) show ?thesis
    by (simp add: segment_out_def bnd_def on_fab_def blkd_connect_state io_buf_store_def)
qed

text \<open>
  C37: the queue size register is not checked. When the guest has a ready queue with a chain in its
  available ring and writes a queue size whose low 16 bits are zero, the next notification divides
  by zero in \<open>virtio_next_avail\<close> and the daemon faults.
\<close>

theorem queue_size_zero_faults:
  assumes "uio_live (dm_fab s)" and "vd_queues (dm_vdev s) = [q]" and "vd_queue_count (dm_vdev s) = 1"
    and "vm_queue_sel (dm_mmio s) = 0" and "vq_ready q \<noteq> 0" and "(ucast v :: u16) = 0"
    and "uio_reach (dm_fab s) (vq_avail q + 2) 2" and "avail_idx (uio_ram (dm_fab s)) q \<noteq> vq_last_avail_idx q"
  shows "fst (blkd_mmio_write (uio_ops env) dr (Suc n) VIRTIO_MMIO_QUEUE_NOTIFY 0 4
                (snd (blkd_mmio_write (uio_ops env) dr (Suc n) VIRTIO_MMIO_QUEUE_NUM v 4 s))) = Trap"
proof -
  let ?q = "q\<lparr>vq_num := ucast v\<rparr>"
  let ?s = "s\<lparr>dm_mmio := put_queue (dm_mmio s) ?q\<rparr>"
  have sel: "sel_valid (dm_mmio s)" "sel_queue (dm_mmio s) = q"
    using assms(2-4) by (simp_all add: sel_valid_def sel_queue_def vdev_wf_def)
  have num: "blkd_mmio_write (uio_ops env) dr (Suc n) VIRTIO_MMIO_QUEUE_NUM v 4 s = (OK (), ?s)"
    unfolding blkd_mmio_write_def
    by (subst driver_write_plain) (use sel in \<open>simp_all add: virtio_mmio_write_simps(4) on_queue_valid\<close>, simp_all add: vm_simps)
  obtain g where g: "uio_dma_read_u16 (vq_avail q + 2) (dm_fab s) = (OK (avail_idx (uio_ram (dm_fab s)) q), g)"
    using uio.read_u16_reach [OF assms(1,7)] by (auto simp: uio_ops_def avail_idx_def)
  have "(ucast (ucast v :: u32) :: u16) = 0" using assms(6) by (simp add: ucast_narrow)
  with g assms(8) have "fst (virtio_next_avail (uio_ops env) ?q (dm_fab s)) = Trap"
    by (simp add: virtio_next_avail_def uio_ops_def bnd_def)
  then have "fst (wait_avail (uio_ops env) ?q (dm_fab s)) = Trap"
    by (simp add: wait_avail_def bnd_stops)
  moreover have queue: "dev_queue 0 ?s = (OK ?q, ?s)" using assms(2,4) by (simp add: dev_queue_def put_queue_def)
  ultimately have "fst (service_queue (uio_ops env) p 0 (Suc n) ?s) = Trap" for p
    unfolding service_queue_def by (intro bnd_stops) (simp add: bnd_OK bnd_stops fst_on_fab)
  with queue have "fst (blkd_virtio_notify_queue (uio_ops env) dr (Suc n) 0 ?s) = Trap"
    using assms(5) by (simp add: blkd_virtio_notify_queue_def bnd_OK)
  then show ?thesis unfolding num by (simp add: blkd_mmio_write_def blkd_virtio_ops_def driver_write_notify)
qed

theorem queue_size_zero_faults_witness:
  "\<forall>env n. fst (blkd_mmio_write (uio_ops env) False (Suc n) VIRTIO_MMIO_QUEUE_NOTIFY 0 4
     (snd (blkd_mmio_write (uio_ops env) False (Suc n) VIRTIO_MMIO_QUEUE_NUM 0x10000 4 (demo_state notify_ram)))) = Trap"
proof (intro allI)
  fix env n
  let ?s = "demo_state notify_ram"
  have "avail_idx (uio_ram (dm_fab ?s)) demo_queue \<noteq> vq_last_avail_idx demo_queue"
    using notify_ring(1) by (simp add: demo_queue_def)
  moreover have "uio_reach (dm_fab ?s) (vq_avail demo_queue + 2) 2"
    by (simp add: demo_uio_reach) (simp add: demo_queue_def)
  ultimately show "fst (blkd_mmio_write (uio_ops env) False (Suc n) VIRTIO_MMIO_QUEUE_NOTIFY 0 4
     (snd (blkd_mmio_write (uio_ops env) False (Suc n) VIRTIO_MMIO_QUEUE_NUM 0x10000 4 ?s))) = Trap"
    by (intro queue_size_zero_faults [where q = demo_queue])
      (simp_all add: demo_state_def demo_fab_def uio_live_def demo_queue_def)
qed

section \<open>Termination of a request\<close>

text \<open>
  C19: every request ends. Whatever descriptors the guest linked, cycles included, and whatever it
  changes meanwhile, processing one chain returns within as many descriptor reads as the queue has
  entries, for every queue size but the largest 32-bit value.
\<close>

theorem blk_chain_terminates:
  assumes "vd_queues (dm_vdev s) = [q]" and "vq_num q \<noteq> 0xffffffff" and "unat (vq_num q) < n"
  shows "fst (process_chain (uio_ops env) dr n head s) \<noteq> Spin"
  using assms
  by (intro fabric_ends.process_chain_ends [OF uio_return.fabric_ends_axioms, where q = q])
    (simp_all add: dev_queue_def)

text \<open>The chain of the example with its segment linked to itself.\<close>

definition cyclic_ram :: memory where
  "cyclic_ram = mem_write (\<lambda>_. 0) 0x100 (concat (map virtio_encode_desc
     [\<lparr>ds_addr = 0x200, ds_len = 16, ds_flags = 1, ds_next = 1\<rparr>, \<lparr>ds_addr = 0x300, ds_len = 4, ds_flags = 3, ds_next = 1\<rparr>]))"

theorem blk_chain_terminates_witness:
  "\<forall>env. fst (process_chain (uio_ops env) False 5 0 (demo_state cyclic_ram)) \<noteq> Spin"
proof
  fix env
  show "fst (process_chain (uio_ops env) False 5 0 (demo_state cyclic_ram)) \<noteq> Spin"
    by (rule blk_chain_terminates [where q = demo_queue]) (simp_all add: demo_state_def demo_queue_def)
qed

lemma cyclic_chain_loop:
  assumes "vq_num q = 0xffffffff" and "rt \<noteq> VIRTIO_BLK_T_IN" and "rt \<noteq> VIRTIO_BLK_T_OUT"
    and "uio_live (dm_fab s)" and "uio_reach (dm_fab s) (desc_addr q i) 16"
    and "ds_flags (desc_at (uio_ram (dm_fab s)) q i) AND VRING_DESC_F_NEXT \<noteq> 0"
    and "ds_next (desc_at (uio_ram (dm_fab s)) q i) = i"
  shows "fst (chain_loop (uio_ops env) dr q rt off n st dl i seen s) = Spin"
  using assms(4-7)
proof (induction n arbitrary: seen s)
  case (Suc n)
  obtain g where g: "virtio_read_desc (uio_ops env) q i (dm_fab s) = (OK (desc_at (uio_ram (dm_fab s)) q i), g)"
    "uio_live g" "uio_ram g = uio_ram (dm_fab s)" "uio_reach g = uio_reach (dm_fab s)"
    using uio.read_desc_reach [OF Suc.prems(1,2)] by blast
  have "\<not> seen + 1 > vq_num q"
    using assms(1) unat_lt_u32 [of "seen + 1"] by (simp add: word_less_nat_alt)
  moreover have "fst (chain_loop (uio_ops env) dr q rt off n st dl i (seen + 1) (s\<lparr>dm_fab := g\<rparr>)) = Spin"
    using Suc.prems g by (intro Suc.IH) auto
  ultimately show ?case
    using g(1) assms(2,3) Suc.prems(3,4) by (simp add: bnd_def on_fab_def guard_def)
qed (simp add: spin_def)

text \<open>
  The bound on a chain is no bound for the largest queue size. When the guest writes the queue
  size 0xffffffff and links a descriptor to itself, the 32-bit counter of descriptors wraps around and
  never exceeds the size: a flush request on that chain runs for ever, whatever the fuel.
\<close>

theorem blk_cyclic_chain_diverges:
  assumes "vd_queues (dm_vdev s) = [q]" and "vq_num q = 0xffffffff" and "uio_live (dm_fab s)"
    and "uio_reach (dm_fab s) (desc_addr q head) 16" and "desc_at (uio_ram (dm_fab s)) q head = hdr"
    and "ds_flags hdr AND VRING_DESC_F_NEXT \<noteq> 0" and "uio_reach (dm_fab s) (ds_addr hdr) 16"
    and "req_type (uio_ram (dm_fab s)) hdr = VIRTIO_BLK_T_FLUSH"
    and "uio_reach (dm_fab s) (desc_addr q (ds_next hdr)) 16"
    and "desc_at (uio_ram (dm_fab s)) q (ds_next hdr) = d"
    and "ds_flags d AND VRING_DESC_F_NEXT \<noteq> 0" and "ds_next d = ds_next hdr"
  shows "fst (process_chain (uio_ops env) dr n head s) = Spin"
proof -
  obtain g where g: "virtio_read_desc (uio_ops env) q head (dm_fab s) = (OK hdr, g)"
    "uio_live g" "uio_ram g = uio_ram (dm_fab s)" "uio_reach g = uio_reach (dm_fab s)"
    using uio.read_desc_reach [OF assms(3,4)] assms(5) by metis
  obtain h where h: "fabric_dma_read_into (uio_ops env) (ds_addr hdr) 16 g = (OK (mem_read (uio_ram (dm_fab s)) (ds_addr hdr) 16), h)"
    "uio_live h" "uio_ram h = uio_ram (dm_fab s)" "uio_reach h = uio_reach (dm_fab s)"
    using uio.read_reach [of g "ds_addr hdr" 16] g assms(7) by auto
  have "fst (chain_loop (uio_ops env) dr q VIRTIO_BLK_T_FLUSH off n st 0 (ds_next hdr) 0 (s\<lparr>dm_fab := h\<rparr>)) = Spin" for off st
    using assms h by (intro cyclic_chain_loop) (auto simp: blk_consts)
  then have "fst (bnd (chain_loop (uio_ops env) dr q VIRTIO_BLK_T_FLUSH off n st 0 (ds_next hdr) 0) k (s\<lparr>dm_fab := h\<rparr>)) = Spin" for off st k
    by (rule bnd_stops)
  then show ?thesis
    using assms(1,6,8) g(1) h(1)
    by (simp add: process_chain_def bnd_OK dev_queue_def on_fab_run guard_def req_type_def Let_def)
qed

text \<open>A queue of the largest size over a window of 4096 bytes; the header says flush.\<close>

definition wide_queue :: virtio_queue where
  "wide_queue = demo_queue\<lparr>vq_num := 0xffffffff\<rparr>"

definition wide_state :: "uio_state blkd" where
  "wide_state = set_vdev (\<lambda>d. d\<lparr>vd_queues := [wide_queue]\<rparr>)
     (demo_state (mem_write cyclic_ram 0x200 (virtio_store_le32 VIRTIO_BLK_T_FLUSH)))"

lemma wide_desc:
  "desc_at (uio_ram (dm_fab wide_state)) wide_queue 0 = \<lparr>ds_addr = 0x200, ds_len = 16, ds_flags = 1, ds_next = 1\<rparr>"
  "desc_at (uio_ram (dm_fab wide_state)) wide_queue 1 = \<lparr>ds_addr = 0x300, ds_len = 4, ds_flags = 3, ds_next = 1\<rparr>"
proof -
  let ?ds = "[\<lparr>ds_addr = 0x200, ds_len = 16, ds_flags = 1, ds_next = 1\<rparr>, \<lparr>ds_addr = 0x300, ds_len = 4, ds_flags = 3, ds_next = 1\<rparr>]"
  have "desc_at cyclic_ram wide_queue i = ?ds ! unat i" if "unat i < 2" for i
    using desc_at_table [of i ?ds "\<lambda>_. 0" wide_queue] that
    by (simp add: cyclic_ram_def wide_queue_def demo_queue_def)
  moreover have "desc_at (uio_ram (dm_fab wide_state)) wide_queue i = desc_at cyclic_ram wide_queue i" if "i = 0 \<or> i = 1" for i
    using that by (auto simp: wide_state_def wide_queue_def demo_queue_def desc_addr_def apart_def intro!: desc_at_apart)
  ultimately show
    "desc_at (uio_ram (dm_fab wide_state)) wide_queue 0 = \<lparr>ds_addr = 0x200, ds_len = 16, ds_flags = 1, ds_next = 1\<rparr>"
    "desc_at (uio_ram (dm_fab wide_state)) wide_queue 1 = \<lparr>ds_addr = 0x300, ds_len = 4, ds_flags = 3, ds_next = 1\<rparr>"
    by simp_all
qed

theorem blk_cyclic_chain_diverges_witness:
  "\<forall>env n. fst (process_chain (uio_ops env) False n 0 wide_state) = Spin"
proof (intro allI)
  fix env n
  let ?m = "uio_ram (dm_fab wide_state)"
  have "mem_read ?m 0x200 4 = virtio_store_le32 VIRTIO_BLK_T_FLUSH"
    by (simp add: wide_state_def mem_read_write_same)
  moreover have "req_type ?m \<lparr>ds_addr = 0x200, ds_len = 16, ds_flags = 1, ds_next = 1\<rparr> = virtio_load_le32 (mem_read ?m 0x200 4)"
    by (simp add: req_type_def virtio_load_le32_def)
  ultimately have "req_type ?m \<lparr>ds_addr = 0x200, ds_len = 16, ds_flags = 1, ds_next = 1\<rparr> = VIRTIO_BLK_T_FLUSH" by simp
  moreover have "uio_reach (dm_fab wide_state) a k \<longleftrightarrow> k = 0 \<or> unat a + k \<le> 4096" for a k
    by (simp add: wide_state_def demo_uio_reach)
  moreover have "desc_addr wide_queue 0 = 0x100" "desc_addr wide_queue 1 = 0x110" "vq_num wide_queue = 0xffffffff"
    by (simp_all add: desc_addr_def wide_queue_def demo_queue_def)
  moreover have "uio_live (dm_fab wide_state)" "vd_queues (dm_vdev wide_state) = [wide_queue]"
    by (simp_all add: wide_state_def demo_state_def demo_fab_def uio_live_def)
  ultimately show "fst (process_chain (uio_ops env) False n 0 wide_state) = Spin"
    by (intro blk_cyclic_chain_diverges [OF _ _ _ _ wide_desc(1), where
          d = "\<lparr>ds_addr = 0x300, ds_len = 4, ds_flags = 3, ds_next = 1\<rparr>"]) (simp_all add: wide_desc VRING_DESC_F_NEXT_def)
qed

end
