(* ===== verification/Uio_Loop.thy ===== *)
theory Uio_Loop
  imports Linux_Uio
begin

unbundle bit_operations_syntax

text \<open>
  The event loop of the UIO fabric, the second half of \<^verbatim>\<open>src/fabrics/linux_uio.c\<close>: mapping the two
  resources, publishing the device's registers in the shared window, finding the registers the guest
  has changed, the deferred interrupt level, and \<open>fabric_run\<close>. The window is shared with the guest:
  what the guest does to it while the daemon waits, and around each register the daemon looks at, is
  part of the wake-up \<open>uio_wake\<close>. \<open>fabric_run\<close> loops for ever, so it is a function of the list of
  wake-ups; after the last one the daemon is blocked, which is \<open>Spin\<close>.
\<close>

section \<open>Mapping a resource\<close>

fun decimal :: "nat \<Rightarrow> string" where
  "decimal n = (if n < 10 then [char_of (48 + n)] else decimal (n div 10) @ [char_of (48 + n mod 10)])"

declare decimal.simps [simp del]

definition text_of :: "u8 list \<Rightarrow> string" where
  "text_of bs = map (\<lambda>b. char_of (unat b)) bs"

text \<open>\<open>fgets\<close> into 64 bytes, cut at the newline; an empty file gives no line.\<close>

definition read_sysfs_u64 :: "string \<Rightarrow> host \<Rightarrow> u64 option" where
  "read_sysfs_u64 path h =
     (case h_files h path of
        None \<Rightarrow> None
      | Some c \<Rightarrow>
          if c = [] then None
          else parse_u64 (text_of (takeWhile (\<lambda>b. b \<noteq> 0 \<and> b \<noteq> 10) (take 63 c))))"

text \<open>One \<open>0x%lx\<close> of a scan format: the literal must be the next text, the number may follow white space.\<close>

definition scan_0x :: "string \<Rightarrow> (u64 \<times> string) option" where
  "scan_0x s = (if take 2 s = ''0x'' then map_option (\<lambda>(v, rest, _). (v, rest)) (strtoull 16 (drop 2 s)) else None)"

text \<open>
  \<open>fscanf(f, "0x%lx 0x%lx 0x%lx", &start, &end, &flags) == 3\<close>, with what the three variables hold
  afterwards and the text that is left.
\<close>

definition scan_line :: "string \<Rightarrow> u64 \<times> u64 \<times> u64 \<Rightarrow> bool \<times> (u64 \<times> u64 \<times> u64) \<times> string" where
  "scan_line s vals =
     (case vals of (start, end_addr, flags) \<Rightarrow>
      case scan_0x s of
        None \<Rightarrow> (False, (start, end_addr, flags), s)
      | Some (a, s1) \<Rightarrow>
          (case scan_0x (dropWhile is_space s1) of
             None \<Rightarrow> (False, (a, end_addr, flags), s1)
           | Some (b, s2) \<Rightarrow>
               (case scan_0x (dropWhile is_space s2) of
                  None \<Rightarrow> (False, (a, b, flags), s2)
                | Some (c, s3) \<Rightarrow> (True, (a, b, c), s3))))"

text \<open>
  The loop over the resource list; the argument is \<open>resource - current\<close>. The result tells whether
  \<open>current == resource\<close> after the loop, and the variables.
\<close>

fun scan_resources :: "nat \<Rightarrow> string \<Rightarrow> u64 \<times> u64 \<times> u64 \<Rightarrow> bool \<times> (u64 \<times> u64 \<times> u64)" where
  "scan_resources 0 s vals = (case scan_line s vals of (_, vals', _) \<Rightarrow> (True, vals'))"
| "scan_resources (Suc k) s vals =
     (case scan_line s vals of (ok, vals', rest) \<Rightarrow>
        if ok then scan_resources k rest vals' else (False, vals'))"

text \<open>The tail of \<open>map_resource\<close>, for what \<open>mmap\<close> returned.\<close>

definition mapping_done :: "uio_mapping \<Rightarrow> u64 \<Rightarrow> memory option \<Rightarrow> host \<Rightarrow> (bool \<times> uio_mapping) \<times> host" where
  "mapping_done mapping sz addr h =
     (case addr of
        None \<Rightarrow> ((False, mapping\<lparr>um_mapped := False\<rparr>), h)
      | Some m \<Rightarrow> ((True, \<lparr>um_mapped = True, um_mem = m, um_len = unat sz, um_size = sz\<rparr>), hold_map (unat sz) h))"

text \<open>The branch for devices that export no UIO maps: the size from the resource list of the PCI device.\<close>

definition map_pci_resource ::
  "(string \<Rightarrow> nat \<Rightarrow> nat \<Rightarrow> memory option) \<Rightarrow> string \<Rightarrow> nat \<Rightarrow> uio_mapping \<Rightarrow> host \<Rightarrow> (bool \<times> uio_mapping) \<times> host" where
  "map_pci_resource mmap dir resource mapping h =
     (case h_files h (dir @ ''/device/resource'') of
        None \<Rightarrow> ((False, mapping), h)
      | Some c \<Rightarrow>
          (case scan_resources resource (text_of c) (0, 0, 0) of (found, start, end_addr, _) \<Rightarrow>
            if \<not> found \<or> end_addr < start then ((False, mapping), h)
            else let size = end_addr - start + 1;
                     path = dir @ ''/device/resource'' @ decimal resource
                 in case sys_open path True True False False h of (fd, h1) \<Rightarrow>
                   if fd < 0 then ((False, mapping), h1)
                   else (case mapping_done mapping size (mmap path (unat size) 0) h1 of (r, h2) \<Rightarrow> (r, sys_close fd h2))))"

text \<open>
  \<open>mmap\<close> is the kernel's: the memory behind a range of a device file, or \<open>None\<close> for \<open>MAP_FAILED\<close>. The
  result is whether the call succeeded, and the mapping.
\<close>

definition map_resource ::
  "(string \<Rightarrow> nat \<Rightarrow> nat \<Rightarrow> memory option) \<Rightarrow> int \<Rightarrow> int \<Rightarrow> uio_config \<Rightarrow> nat \<Rightarrow> uio_mapping \<Rightarrow> host \<Rightarrow>
   (bool \<times> uio_mapping) \<times> host" where
  "map_resource mmap page_size fd config resource mapping h =
     (case (if page_size \<le> 0 then None else uio_index_from_path (uc_path config)) of
        None \<Rightarrow> ((False, mapping), h)
      | Some index \<Rightarrow>
          let dir = ''/sys/class/uio/uio'' @ decimal (unat index) in
          (case read_sysfs_u64 (dir @ ''/maps/map'' @ decimal resource @ ''/size'') h of
             None \<Rightarrow> map_pci_resource mmap dir resource mapping h
           | Some sz \<Rightarrow>
               if sz = 0 then map_pci_resource mmap dir resource mapping h
               else mapping_done mapping sz (case h_fds h fd of None \<Rightarrow> None
                       | Some f \<Rightarrow> mmap (of_path f) (unat sz) (resource * nat page_size)) h))"

definition unmap_region :: "uio_mapping \<Rightarrow> host \<Rightarrow> uio_mapping \<times> host" where
  "unmap_region m h =
     (if um_mapped m then (m\<lparr>um_mapped := False, um_size := 0\<rparr>, sys_munmap (unat (um_size m)) h) else (m, h))"

definition cleanup_uio :: "(('o, uio_state) daemon, unit) act" where
  "cleanup_uio = modify (\<lambda>s.
     case unmap_region (us_mmio (dm_fab s)) (dm_host s) of (mmio, h) \<Rightarrow>
     case unmap_region (us_dma (dm_fab s)) h of (dma, h) \<Rightarrow>
       let g = (dm_fab s)\<lparr>us_mmio := mmio, us_dma := dma\<rparr> in
       if us_fd g \<ge> 0
       then s\<lparr>dm_fab := g\<lparr>us_fd := - 1\<rparr>, dm_host := sys_close (us_fd g) h\<rparr>
       else s\<lparr>dm_fab := g, dm_host := h\<rparr>)"

section \<open>Publishing registers\<close>

definition reg_fits :: "'s fabric_device \<Rightarrow> u64 \<Rightarrow> uio_state \<Rightarrow> bool" where
  "reg_fits dev off g \<longleftrightarrow> off + 4 \<le> fdev_size dev \<and> off + 4 \<le> um_size (us_mmio g)"

definition publish :: "('o, uio_state) daemon fabric_device \<Rightarrow> u64 \<Rightarrow> (('o, uio_state) daemon, unit) act" where
  "publish dev off = bnd (dev_read dev off 4) (\<lambda>v. on_fab (uio_store_le32 off (ucast v)))"

definition published_registers :: "u64 list" where
  "published_registers =
     [VIRTIO_MMIO_MAGIC_VALUE, VIRTIO_MMIO_VERSION, VIRTIO_MMIO_DEVICE_ID, VIRTIO_MMIO_VENDOR_ID,
      VIRTIO_MMIO_DEVICE_FEATURES, VIRTIO_MMIO_QUEUE_NUM_MAX, VIRTIO_MMIO_INTERRUPT_STATUS,
      VIRTIO_MMIO_STATUS, VIRTIO_MMIO_CONFIG_GENERATION]"

fun publish_each :: "('o, uio_state) daemon fabric_device \<Rightarrow> u64 list \<Rightarrow> (('o, uio_state) daemon, unit) act" where
  "publish_each dev [] = ret ()"
| "publish_each dev (off # offs) =
     bnd (gets (\<lambda>s. reg_fits dev off (dm_fab s))) (\<lambda>fits.
     bnd (if fits then publish dev off else ret ()) (\<lambda>_.
     publish_each dev offs))"

text \<open>The loop over the configuration space, one unit of fuel per word.\<close>

fun publish_config :: "('o, uio_state) daemon fabric_device \<Rightarrow> nat \<Rightarrow> u64 \<Rightarrow> (('o, uio_state) daemon, unit) act" where
  "publish_config dev 0 off = spin"
| "publish_config dev (Suc n) off =
     bnd (gets (\<lambda>s. reg_fits dev off (dm_fab s))) (\<lambda>fits.
     if fits then bnd (publish dev off) (\<lambda>_. publish_config dev n (off + 4)) else ret ())"

definition refresh_read_registers :: "nat \<Rightarrow> ('o, uio_state) daemon fabric_device \<Rightarrow> (('o, uio_state) daemon, unit) act" where
  "refresh_read_registers n dev =
     bnd (publish_each dev published_registers) (\<lambda>_. publish_config dev n VIRTIO_MMIO_CONFIG)"

definition flush_pending_irq_level :: "(('o, uio_state) daemon, unit) act" where
  "flush_pending_irq_level =
     bnd (gets dm_fab) (\<lambda>g.
     if us_pending_irq_level g < 0 then ret ()
     else if uc_irq_control_offset (us_config g) + 4 > um_size (us_mmio g) then fail
     else bnd (on_fab (uio_store_le32 (uc_irq_control_offset (us_config g)) (if us_pending_irq_level g \<noteq> 0 then 1 else 0))) (\<lambda>_.
          modify (\<lambda>s. s\<lparr>dm_fab := (dm_fab s)\<lparr>us_pending_irq_level := - 1\<rparr>\<rparr>)))"

section \<open>Finding what the guest changed\<close>

definition queue_state_offsets :: "u64 list" where
  "queue_state_offsets =
     [VIRTIO_MMIO_QUEUE_NUM, VIRTIO_MMIO_QUEUE_READY, VIRTIO_MMIO_QUEUE_DESC_LOW, VIRTIO_MMIO_QUEUE_DESC_HIGH,
      VIRTIO_MMIO_QUEUE_AVAIL_LOW, VIRTIO_MMIO_QUEUE_AVAIL_HIGH, VIRTIO_MMIO_QUEUE_USED_LOW, VIRTIO_MMIO_QUEUE_USED_HIGH]"

text \<open>The two nested loops after a queue selection, over the pairs of their indices.\<close>

fun resync_queue_state ::
  "'s fabric_device \<Rightarrow> u64 list \<Rightarrow> (u64 \<times> nat) list \<Rightarrow> u32 list \<Rightarrow> (uio_state, u32 list) act" where
  "resync_queue_state dev offsets [] shadow = ret shadow"
| "resync_queue_state dev offsets ((q, j) # qs) shadow =
     bnd (gets (\<lambda>g. offsets ! j = q \<and> reg_fits dev (offsets ! j) g)) (\<lambda>hit.
     bnd (if hit then bnd (uio_load_le32 (offsets ! j)) (\<lambda>v. ret (shadow[j := v])) else ret shadow) (\<lambda>shadow.
     resync_queue_state dev offsets qs shadow))"

text \<open>
  One pass of the scan: register \<open>i\<close>, at \<open>off = offsets ! i\<close>. \<open>loaded\<close> is what the guest does between the
  load of the register and what the scan does about it, \<open>busy\<close> what it has done when the device returns from
  its callback.
\<close>

definition guest_window :: "window_update \<Rightarrow> (('o, uio_state) daemon, unit) act" where
  "guest_window u = modify (\<lambda>s. s\<lparr>dm_fab := guest_acts u (dm_fab s)\<rparr>)"

lemma guest_window_id [simp]: "guest_window id = ret ()"
  by (simp add: guest_window_def guest_acts_def ret_def fun_eq_iff)

definition poll_register ::
  "window_update \<Rightarrow> window_update \<Rightarrow> ('o, uio_state) daemon fabric_device \<Rightarrow> u64 list \<Rightarrow> nat \<Rightarrow> u32 list \<Rightarrow>
   (('o, uio_state) daemon, u32 list) act" where
  "poll_register loaded busy dev offsets i shadow =
     (let off = offsets ! i in
      bnd (gets (\<lambda>s. reg_fits dev off (dm_fab s))) (\<lambda>fits.
      if \<not> fits then ret shadow
      else bnd (on_fab (uio_load_le32 off)) (\<lambda>value.
      bnd (guest_window loaded) (\<lambda>_.
      if value = shadow ! i then ret shadow
      else if off = VIRTIO_MMIO_QUEUE_NOTIFY then
        bnd (on_fab (uio_store_le32 off UIO_NOTIFY_IDLE)) (\<lambda>_.
        bnd (dev_write dev off (ucast value) 4) (\<lambda>_.
        bnd (guest_window busy) (\<lambda>_.
        ret (shadow[i := UIO_NOTIFY_IDLE]))))
      else bnd (dev_write dev off (ucast value) 4) (\<lambda>_.
        bnd (guest_window busy) (\<lambda>_.
        let shadow = shadow[i := value] in
        if off = VIRTIO_MMIO_QUEUE_SEL then
          on_fab (resync_queue_state dev offsets (List.product queue_state_offsets [0..<length offsets]) shadow)
        else if off = VIRTIO_MMIO_INTERRUPT_ACK then
          bnd (on_fab (uio_store_le32 off 0)) (\<lambda>_. ret (shadow[i := 0]))
        else ret shadow))))))"

text \<open>
  The scan from register \<open>i\<close>, the first argument counting the registers left. What the guest does
  just before register \<open>i\<close> is looked at, after it was loaded and during its callback are the numbers \<open>3 * i\<close>,
  \<open>3 * i + 1\<close> and \<open>3 * i + 2\<close> of \<open>race\<close>.
\<close>

fun poll_from ::
  "nat \<Rightarrow> (nat \<Rightarrow> window_update) \<Rightarrow> ('o, uio_state) daemon fabric_device \<Rightarrow> u64 list \<Rightarrow> nat \<Rightarrow> u32 list \<Rightarrow>
   (('o, uio_state) daemon, u32 list) act" where
  "poll_from 0 race dev offsets i shadow = ret shadow"
| "poll_from (Suc k) race dev offsets i shadow =
     bnd (guest_window (race (3 * i))) (\<lambda>_.
     bnd (poll_register (race (3 * i + 1)) (race (3 * i + 2)) dev offsets i shadow) (\<lambda>shadow.
     poll_from k race dev offsets (Suc i) shadow))"

definition poll_write_registers ::
  "(nat \<Rightarrow> window_update) \<Rightarrow> ('o, uio_state) daemon fabric_device \<Rightarrow> u32 list \<Rightarrow> u64 list \<Rightarrow>
   (('o, uio_state) daemon, u32 list) act" where
  "poll_write_registers race dev shadow offsets = poll_from (length offsets) race dev offsets 0 shadow"

section \<open>The event loop\<close>

text \<open>
  A wake-up: an interrupt, with what the guest did before it and what it does during the scan, or a
  failure of the \<open>read\<close> or the \<open>write\<close> that wait for and re-enable the interrupt. Interrupted calls are
  retried by the code until one of the two happens.
\<close>

datatype uio_wake = Interrupt window_update "nat \<Rightarrow> window_update" | WaitFails

definition wait_for_uio_interrupt :: "uio_wake \<Rightarrow> (('o, uio_state) daemon, nat \<Rightarrow> window_update) act" where
  "wait_for_uio_interrupt w =
     (case w of
        WaitFails \<Rightarrow> fail
      | Interrupt before race \<Rightarrow>
          bnd (guest_window before) (\<lambda>_. ret race))"

definition write_offsets :: "u64 list" where
  "write_offsets =
     [VIRTIO_MMIO_DEVICE_FEATURES_SEL, VIRTIO_MMIO_DRIVER_FEATURES, VIRTIO_MMIO_DRIVER_FEATURES_SEL,
      VIRTIO_MMIO_QUEUE_SEL, VIRTIO_MMIO_QUEUE_NUM, VIRTIO_MMIO_QUEUE_DESC_LOW, VIRTIO_MMIO_QUEUE_DESC_HIGH,
      VIRTIO_MMIO_QUEUE_AVAIL_LOW, VIRTIO_MMIO_QUEUE_AVAIL_HIGH, VIRTIO_MMIO_QUEUE_USED_LOW,
      VIRTIO_MMIO_QUEUE_USED_HIGH, VIRTIO_MMIO_QUEUE_READY, VIRTIO_MMIO_INTERRUPT_ACK,
      VIRTIO_MMIO_QUEUE_NOTIFY, VIRTIO_MMIO_STATUS]"

text \<open>One turn of the loop; the result is the shadow of the next turn.\<close>

definition uio_turn ::
  "nat \<Rightarrow> ('o, uio_state) daemon fabric_device \<Rightarrow> uio_wake \<Rightarrow> u32 list \<Rightarrow> (('o, uio_state) daemon, u32 list) act" where
  "uio_turn n dev w shadow =
     bnd (wait_for_uio_interrupt w) (\<lambda>race.
     bnd (poll_write_registers race dev shadow write_offsets) (\<lambda>shadow.
     bnd (refresh_read_registers n dev) (\<lambda>_.
     bnd flush_pending_irq_level (\<lambda>_. ret shadow))))"

fun uio_serve ::
  "nat \<Rightarrow> ('o, uio_state) daemon fabric_device \<Rightarrow> uio_wake list \<Rightarrow> u32 list \<Rightarrow> (('o, uio_state) daemon, unit) act" where
  "uio_serve n dev [] shadow = spin"
| "uio_serve n dev (w # ws) shadow = bnd (uio_turn n dev w shadow) (uio_serve n dev ws)"

text \<open>The initial shadow: what the window holds, and the idle value for the notification register.\<close>

fun load_shadow :: "'s fabric_device \<Rightarrow> u64 list \<Rightarrow> (uio_state, u32 list) act" where
  "load_shadow dev [] = ret []"
| "load_shadow dev (off # offs) =
     bnd (if off + 4 \<le> fdev_size dev then uio_load_le32 off else ret 0) (\<lambda>v.
     bnd (load_shadow dev offs) (\<lambda>vs. ret (v # vs)))"

definition idle_shadow :: "u64 list \<Rightarrow> u32 list \<Rightarrow> u32 list" where
  "idle_shadow offs shadow = map2 (\<lambda>off v. if off = VIRTIO_MMIO_QUEUE_NOTIFY then UIO_NOTIFY_IDLE else v) offs shadow"

definition uio_setup :: "nat \<Rightarrow> ('o, uio_state) daemon fabric_device \<Rightarrow> (('o, uio_state) daemon, u32 list) act" where
  "uio_setup n dev =
     bnd (dev_connect dev) (\<lambda>_.
     bnd (on_fab (load_shadow dev write_offsets)) (\<lambda>shadow.
     bnd (on_fab (uio_store_le32 VIRTIO_MMIO_QUEUE_NOTIFY UIO_NOTIFY_IDLE)) (\<lambda>_.
     bnd (refresh_read_registers n dev) (\<lambda>_.
     ret (idle_shadow write_offsets shadow)))))"

text \<open>Opening and mapping; it fails after \<open>cleanup_uio\<close> has been called where the code calls it.\<close>

definition uio_open ::
  "(string \<Rightarrow> nat \<Rightarrow> nat \<Rightarrow> memory option) \<Rightarrow> int \<Rightarrow> ('o, uio_state) daemon fabric_device \<Rightarrow> (('o, uio_state) daemon, unit) act" where
  "uio_open mmap page_size dev =
     bnd (gets (\<lambda>s. parse_endpoint (fdev_socket_path dev))) (\<lambda>parsed.
     case parsed of
       None \<Rightarrow> fail
     | Some config \<Rightarrow>
         bnd (on_host (sys_open (uc_path config) True True False False)) (\<lambda>fd.
         bnd (modify (\<lambda>s. s\<lparr>dm_fab := (dm_fab s)\<lparr>us_config := config, us_fd := fd\<rparr>\<rparr>)) (\<lambda>_.
         if fd < 0 then fail
         else bnd (gets dm_fab) (\<lambda>g.
         bnd (on_host (map_resource mmap page_size fd config 0 (us_mmio g))) (\<lambda>(ok, mmio).
         bnd (modify (\<lambda>s. s\<lparr>dm_fab := (dm_fab s)\<lparr>us_mmio := mmio\<rparr>\<rparr>)) (\<lambda>_.
         bnd (if ok then on_host (map_resource mmap page_size fd config 1 (us_dma g)) else ret (False, us_dma g)) (\<lambda>(ok, dma).
         bnd (modify (\<lambda>s. s\<lparr>dm_fab := (dm_fab s)\<lparr>us_dma := dma\<rparr>\<rparr>)) (\<lambda>_.
         if \<not> ok \<or> um_size mmio < fdev_size dev then bnd cleanup_uio (\<lambda>_. fail)
         else ret ()))))))))"

definition uio_fabric_run ::
  "(string \<Rightarrow> nat \<Rightarrow> nat \<Rightarrow> memory option) \<Rightarrow> int \<Rightarrow> nat \<Rightarrow> uio_wake list \<Rightarrow> ('o, uio_state) daemon fabric \<Rightarrow>
   (('o, uio_state) daemon, bool) act" where
  "uio_fabric_run mmap page_size n wakes fabric =
     (if fb_device_count fabric \<noteq> 1 then ret False
      else case fb_devices fabric ! 0 of
        None \<Rightarrow> trap
      | Some dev \<Rightarrow>
          bnd (attempt (uio_open mmap page_size dev)) (\<lambda>opened.
          case opened of
            None \<Rightarrow> ret False
          | Some _ \<Rightarrow>
              bnd (uio_setup n dev) (\<lambda>shadow.
              bnd (attempt (uio_serve n dev wakes shadow)) (\<lambda>_.
              bnd cleanup_uio (\<lambda>_. ret False)))))"

section \<open>The register window\<close>

definition reg_value :: "uio_state \<Rightarrow> u64 \<Rightarrow> u32" where
  "reg_value g off = virtio_load_le32 (mem_read (um_mem (us_mmio g)) off 4)"

text \<open>The window is mapped with its whole size and covers the registers of the device.\<close>

definition window_ok :: "'s fabric_device \<Rightarrow> uio_state \<Rightarrow> bool" where
  "window_ok dev g \<longleftrightarrow> um_mapped (us_mmio g) \<and> um_len (us_mmio g) = unat (um_size (us_mmio g)) \<and>
     fdev_size dev \<le> um_size (us_mmio g) \<and> um_size (us_mmio g) \<le> 0x100000000"

text \<open>The offsets of a device are small numbers, so that adding the register width does not wrap around.\<close>

definition reg_in :: "'s fabric_device \<Rightarrow> u64 \<Rightarrow> bool" where
  "reg_in dev off \<longleftrightarrow> unat off + 4 \<le> unat (fdev_size dev)"

lemma reg_in_fits: "window_ok dev g \<Longrightarrow> reg_in dev off \<Longrightarrow> reg_fits dev off g"
proof -
  assume w: "window_ok dev g" and r: "reg_in dev off"
  then have "unat off + 4 \<le> unat (um_size (us_mmio g))"
    by (auto simp: window_ok_def reg_in_def word_le_nat_alt)
  moreover from this w have "unat off + 4 < 2 ^ 64" by (simp add: window_ok_def word_le_nat_alt)
  then have "unat (off + 4) = unat off + 4" by (simp add: unat_word_ariths)
  ultimately show ?thesis using r by (simp add: reg_fits_def reg_in_def word_le_nat_alt)
qed

lemma reg_region: "window_ok dev g \<Longrightarrow> reg_in dev off \<Longrightarrow> region_ok (us_mmio g) off 4"
  by (auto simp: window_ok_def reg_in_def region_ok_def word_le_nat_alt)

lemma load_reg: "window_ok dev g \<Longrightarrow> reg_in dev off \<Longrightarrow> uio_load_le32 off g = (OK (reg_value g off), g)"
  by (simp add: uio_load_le32_def reg_region reg_value_def)

definition set_reg :: "u64 \<Rightarrow> u32 \<Rightarrow> uio_state \<Rightarrow> uio_state" where
  "set_reg off v g = g\<lparr>us_mmio := (us_mmio g)\<lparr>um_mem := mem_write (um_mem (us_mmio g)) off (virtio_store_le32 v)\<rparr>\<rparr>"

lemma store_reg: "window_ok dev g \<Longrightarrow> reg_in dev off \<Longrightarrow> uio_store_le32 off v g = (OK (), set_reg off v g)"
  by (simp add: uio_store_le32_def reg_region set_reg_def)

lemma set_reg_simps [simp]:
  "window_ok dev (set_reg off v g) = window_ok dev g" "reg_value (set_reg off v g) off = v"
  "us_dma (set_reg off v g) = us_dma g" "us_config (set_reg off v g) = us_config g"
  "us_pending_irq_level (set_reg off v g) = us_pending_irq_level g" "us_fd (set_reg off v g) = us_fd g"
  "um_size (us_mmio (set_reg off v g)) = um_size (us_mmio g)"
  by (simp_all add: window_ok_def reg_value_def set_reg_def mem_read_write_same)

lemma set_reg_other: "apart off 4 off' 4 \<Longrightarrow> reg_value (set_reg off v g) off' = reg_value g off'"
  by (simp add: reg_value_def set_reg_def mem_read_write_apart)

end
