(* ===== verification/Uio_Scan.thy ===== *)
theory Uio_Scan
  imports Uio_Loop
begin

unbundle bit_operations_syntax

text \<open>
  The register scan of the UIO event loop against its specification: when the guest does not write
  during the scan, the scan delivers to the device exactly the writes that a comparison of the whole
  window with the shadow finds, in the order of the register table. Then what a turn of the loop
  leaves in the window.
\<close>

section \<open>The scan as a snapshot\<close>

text \<open>
  What the scan does with one changed register, and with a list of them: the notification register is
  set back to idle before the device is called, the acknowledge register is cleared after it.
\<close>

definition deliver_one :: "('o, uio_state) daemon fabric_device \<Rightarrow> u64 \<Rightarrow> u32 \<Rightarrow> (('o, uio_state) daemon, unit) act" where
  "deliver_one dev off v =
     bnd (if off = VIRTIO_MMIO_QUEUE_NOTIFY then on_fab (uio_store_le32 off UIO_NOTIFY_IDLE) else ret ()) (\<lambda>_.
     bnd (dev_write dev off (ucast v) 4) (\<lambda>_.
     if off = VIRTIO_MMIO_INTERRUPT_ACK then on_fab (uio_store_le32 off 0) else ret ()))"

fun deliver :: "('o, uio_state) daemon fabric_device \<Rightarrow> (u64 \<times> u32) list \<Rightarrow> (('o, uio_state) daemon, unit) act" where
  "deliver dev [] = ret ()"
| "deliver dev ((off, v) # es) = bnd (deliver_one dev off v) (\<lambda>_. deliver dev es)"

definition settle :: "u64 \<Rightarrow> u32 \<Rightarrow> u32" where
  "settle off v =
     (if off = VIRTIO_MMIO_QUEUE_NOTIFY then UIO_NOTIFY_IDLE else if off = VIRTIO_MMIO_INTERRUPT_ACK then 0 else v)"

definition resynced :: "u64 list \<Rightarrow> (u64 \<Rightarrow> u32) \<Rightarrow> u32 list \<Rightarrow> u32 list" where
  "resynced offsets w shadow = map2 (\<lambda>off v. if off \<in> set queue_state_offsets then w off else v) offsets shadow"

text \<open>
  The writes found by a scan of the registers from \<open>i\<close> on, and the shadow it leaves, as functions of
  the register values \<open>w\<close>.
\<close>

fun found_writes :: "nat \<Rightarrow> u64 list \<Rightarrow> (u64 \<Rightarrow> u32) \<Rightarrow> nat \<Rightarrow> u32 list \<Rightarrow> (u64 \<times> u32) list" where
  "found_writes 0 offsets w i shadow = []"
| "found_writes (Suc k) offsets w i shadow =
     (let off = offsets ! i in
      (if w off = shadow ! i then [] else [(off, w off)]) @
      found_writes k offsets w (Suc i)
        (if w off \<noteq> shadow ! i \<and> off = VIRTIO_MMIO_QUEUE_SEL then resynced offsets w shadow else shadow))"

definition next_shadow :: "u64 list \<Rightarrow> (u64 \<Rightarrow> u32) \<Rightarrow> nat \<Rightarrow> u32 list \<Rightarrow> u32 list" where
  "next_shadow offsets w i shadow =
     (let off = offsets ! i in
      if w off = shadow ! i then shadow
      else if off = VIRTIO_MMIO_QUEUE_SEL then resynced offsets w (shadow[i := w off])
      else shadow[i := settle off (w off)])"

fun left_shadow :: "nat \<Rightarrow> u64 list \<Rightarrow> (u64 \<Rightarrow> u32) \<Rightarrow> nat \<Rightarrow> u32 list \<Rightarrow> u32 list" where
  "left_shadow 0 offsets w i shadow = shadow"
| "left_shadow (Suc k) offsets w i shadow = left_shadow k offsets w (Suc i) (next_shadow offsets w i shadow)"

text \<open>The device's write callback leaves the register window alone.\<close>

definition keeps_window :: "('o, uio_state) daemon fabric_device \<Rightarrow> bool" where
  "keeps_window dev \<longleftrightarrow> (\<forall>off v s. us_mmio (dm_fab (snd (dev_write dev off v 4 s))) = us_mmio (dm_fab s))"

lemma reg_value_window: "us_mmio g = us_mmio h \<Longrightarrow> reg_value g off = reg_value h off"
  by (simp add: reg_value_def)

lemma window_ok_window: "us_mmio g = us_mmio h \<Longrightarrow> window_ok dev g = window_ok dev h"
  by (simp add: window_ok_def)

lemma deliver_one_window:
  assumes "keeps_window dev" and "window_ok dev (dm_fab s)" and "reg_in dev off"
    and "deliver_one dev off v s = (OK (), t)"
  shows "window_ok dev (dm_fab t) \<and>
    (\<forall>off'. off \<notin> {VIRTIO_MMIO_QUEUE_NOTIFY, VIRTIO_MMIO_INTERRUPT_ACK} \<or> apart off 4 off' 4 \<longrightarrow>
       reg_value (dm_fab t) off' = reg_value (dm_fab s) off')"
proof -
  let ?s = "if off = VIRTIO_MMIO_QUEUE_NOTIFY then s\<lparr>dm_fab := set_reg off UIO_NOTIFY_IDLE (dm_fab s)\<rparr> else s"
  have ok: "window_ok dev (dm_fab ?s)" and
    val: "\<forall>off'. off \<noteq> VIRTIO_MMIO_QUEUE_NOTIFY \<or> apart off 4 off' 4 \<longrightarrow> reg_value (dm_fab ?s) off' = reg_value (dm_fab s) off'"
    using assms(2) by (simp_all add: set_reg_other)
  have "(if off = VIRTIO_MMIO_QUEUE_NOTIFY then on_fab (uio_store_le32 off UIO_NOTIFY_IDLE) else ret ()) s = (OK (), ?s)"
    using store_reg [OF assms(2,3), of UIO_NOTIFY_IDLE] by (auto simp: on_fab_def)
  with assms(4) have "bnd (dev_write dev off (ucast v) 4) (\<lambda>_.
      if off = VIRTIO_MMIO_INTERRUPT_ACK then on_fab (uio_store_le32 off 0) else ret ()) ?s = (OK (), t)"
    by (simp add: deliver_one_def bnd_OK)
  then obtain u where u: "dev_write dev off (ucast v) 4 ?s = (OK (), u)"
    and t: "(if off = VIRTIO_MMIO_INTERRUPT_ACK then on_fab (uio_store_le32 off 0) else ret ()) u = (OK (), t)"
    by (auto simp: bnd_def split: prod.splits res.splits)
  have w: "us_mmio (dm_fab u) = us_mmio (dm_fab ?s)"
    using assms(1) u unfolding keeps_window_def by (metis snd_conv)
  then have ok': "window_ok dev (dm_fab u)" using ok window_ok_window by blast
  have "t = (if off = VIRTIO_MMIO_INTERRUPT_ACK then u\<lparr>dm_fab := set_reg off 0 (dm_fab u)\<rparr> else u)"
    using t store_reg [OF ok' assms(3), of 0] by (auto simp: on_fab_def split: if_splits)
  with ok' val reg_value_window [OF w] show ?thesis by (auto simp: set_reg_other)
qed

lemma resync_run:
  assumes "window_ok dev g" and "list_all (reg_in dev) offsets" and "\<forall>(q, j) \<in> set ps. j < length offsets"
    and "length shadow = length offsets"
  shows "resync_queue_state dev offsets ps shadow g =
    (OK (map (\<lambda>j. if (offsets ! j, j) \<in> set ps then reg_value g (offsets ! j) else shadow ! j) [0..<length offsets]), g)"
  using assms(3,4)
proof (induction ps arbitrary: shadow)
  case Nil
  then show ?case using map_nth [of shadow] by simp
next
  case (Cons p ps)
  obtain q j where p: "p = (q, j)" by fastforce
  with Cons.prems have j: "j < length offsets" by simp
  with assms(2) have r: "reg_in dev (offsets ! j)" by (simp add: list_all_length)
  let ?sh = "if offsets ! j = q then shadow[j := reg_value g (offsets ! j)] else shadow"
  have "resync_queue_state dev offsets (p # ps) shadow g = resync_queue_state dev offsets ps ?sh g"
    using reg_in_fits [OF assms(1) r] load_reg [OF assms(1) r] p by (cases "offsets ! j = q") (auto simp: bnd_def)
  also have "\<dots> = (OK (map (\<lambda>i. if (offsets ! i, i) \<in> set ps then reg_value g (offsets ! i) else ?sh ! i)
      [0..<length offsets]), g)"
    using Cons.prems by (intro Cons.IH) auto
  also have "map (\<lambda>i. if (offsets ! i, i) \<in> set ps then reg_value g (offsets ! i) else ?sh ! i) [0..<length offsets] =
      map (\<lambda>i. if (offsets ! i, i) \<in> set (p # ps) then reg_value g (offsets ! i) else shadow ! i) [0..<length offsets]"
    using p j Cons.prems(2) by (auto simp: nth_list_update)
  finally show ?case .
qed

lemma resync_all:
  assumes "window_ok dev g" and "list_all (reg_in dev) offsets" and "length shadow = length offsets"
  shows "resync_queue_state dev offsets (List.product queue_state_offsets [0..<length offsets]) shadow g =
    (OK (resynced offsets (reg_value g) shadow), g)"
proof -
  have "resync_queue_state dev offsets (List.product queue_state_offsets [0..<length offsets]) shadow g =
    (OK (map (\<lambda>j. if (offsets ! j, j) \<in> set (List.product queue_state_offsets [0..<length offsets])
       then reg_value g (offsets ! j) else shadow ! j) [0..<length offsets]), g)"
    by (rule resync_run [OF assms(1,2) _ assms(3)]) auto
  also have "map (\<lambda>j. if (offsets ! j, j) \<in> set (List.product queue_state_offsets [0..<length offsets])
       then reg_value g (offsets ! j) else shadow ! j) [0..<length offsets] = resynced offsets (reg_value g) shadow"
    using assms(3) by (intro nth_equalityI) (auto simp: resynced_def)
  finally show ?thesis .
qed

text \<open>What the scan does to the shadow once a changed register has been delivered.\<close>

definition poll_tail :: "'s fabric_device \<Rightarrow> u64 list \<Rightarrow> nat \<Rightarrow> u32 list \<Rightarrow> u32 \<Rightarrow> (('o, uio_state) daemon, u32 list) act" where
  "poll_tail dev offsets i shadow v =
     (let off = offsets ! i in
      if off = VIRTIO_MMIO_QUEUE_SEL
      then on_fab (resync_queue_state dev offsets (List.product queue_state_offsets [0..<length offsets]) (shadow[i := v]))
      else ret (shadow[i := settle off v]))"

lemma poll_register_run:
  assumes "window_ok dev (dm_fab s)" and "i < length offsets" and "reg_in dev (offsets ! i)"
  shows "poll_register id id dev offsets i shadow s =
    (let off = offsets ! i; v = reg_value (dm_fab s) off in
     if v = shadow ! i then (OK shadow, s)
     else bnd (deliver_one dev off v) (\<lambda>_. poll_tail dev offsets i shadow v) s)"
proof -
  have "reg_fits dev (offsets ! i) (dm_fab s)" using assms reg_in_fits by blast
  moreover have "on_fab (uio_load_le32 (offsets ! i)) s = (OK (reg_value (dm_fab s) (offsets ! i)), s)"
    using load_reg [OF assms(1,3)] by (simp add: on_fab_def)
  moreover have "VIRTIO_MMIO_QUEUE_NOTIFY \<noteq> VIRTIO_MMIO_QUEUE_SEL" "VIRTIO_MMIO_QUEUE_SEL \<noteq> VIRTIO_MMIO_INTERRUPT_ACK"
    "VIRTIO_MMIO_QUEUE_NOTIFY \<noteq> VIRTIO_MMIO_INTERRUPT_ACK" by (simp_all add: vm_simps)
  ultimately show ?thesis
    by (auto simp: poll_register_def poll_tail_def Let_def bnd_OK deliver_one_def bnd_assoc settle_def bnd_Pair ret_def)
qed

lemma length_resynced [simp]: "length shadow = length offsets \<Longrightarrow> length (resynced offsets w shadow) = length offsets"
  by (simp add: resynced_def)

lemma resynced_nth:
  "length shadow = length offsets \<Longrightarrow> j < length offsets \<Longrightarrow>
   resynced offsets w shadow ! j = (if offsets ! j \<in> set queue_state_offsets then w (offsets ! j) else shadow ! j)"
  by (simp add: resynced_def)

text \<open>Both functions only look at the window through the registers that are still to come.\<close>

lemma found_writes_cong:
  assumes "\<And>j. i \<le> j \<Longrightarrow> j < i + k \<Longrightarrow> w (offsets ! j) = w' (offsets ! j) \<and> shadow ! j = shadow' ! j"
    and "length shadow = length offsets" and "length shadow' = length offsets" and "i + k = length offsets"
  shows "found_writes k offsets w i shadow = found_writes k offsets w' i shadow'"
  using assms
proof (induction k arbitrary: i shadow shadow')
  case (Suc k)
  have i: "w (offsets ! i) = w' (offsets ! i)" "shadow ! i = shadow' ! i" using Suc.prems(1) [of i] by auto
  have "found_writes k offsets w (Suc i) shadow = found_writes k offsets w' (Suc i) shadow'"
    using Suc.prems by (intro Suc.IH) auto
  moreover have "found_writes k offsets w (Suc i) (resynced offsets w shadow) =
      found_writes k offsets w' (Suc i) (resynced offsets w' shadow')"
    using Suc.prems by (intro Suc.IH) (auto simp: resynced_nth)
  ultimately show ?case using i by (simp add: Let_def)
qed simp

lemma resynced_cong:
  assumes "\<And>off. off \<in> set offsets \<Longrightarrow> off \<in> set queue_state_offsets \<Longrightarrow> w off = w' off"
    and "length shadow = length offsets"
  shows "resynced offsets w shadow = resynced offsets w' shadow"
  using assms by (intro nth_equalityI) (auto simp: resynced_nth)

text \<open>
  The registers of a table whose words do not overlap: the scan is the delivery of what it finds.
  \<open>agrees\<close>: the window still has the values \<open>w\<close> in the registers that matter to the rest of the scan.
\<close>

definition agrees :: "u64 list \<Rightarrow> (u64 \<Rightarrow> u32) \<Rightarrow> nat \<Rightarrow> uio_state \<Rightarrow> bool" where
  "agrees offsets w i g \<longleftrightarrow>
     (\<forall>j < length offsets. i \<le> j \<or> offsets ! j \<in> set queue_state_offsets \<longrightarrow> reg_value g (offsets ! j) = w (offsets ! j))"

lemma agrees_after:
  assumes ap: "\<And>i j. i \<noteq> j \<Longrightarrow> i < length offsets \<Longrightarrow> j < length offsets \<Longrightarrow> apart (offsets ! i) 4 (offsets ! j) 4"
    and "agrees offsets w i (dm_fab s)" and "i < length offsets" and "keeps_window dev" and "window_ok dev (dm_fab s)"
    and "reg_in dev (offsets ! i)" and "deliver_one dev (offsets ! i) v s = (OK (), t)"
  shows "agrees offsets w (Suc i) (dm_fab t)"
proof -
  have q: "offsets ! i \<notin> {VIRTIO_MMIO_QUEUE_NOTIFY, VIRTIO_MMIO_INTERRUPT_ACK}" if "offsets ! i \<in> set queue_state_offsets"
    using that by (auto simp: queue_state_offsets_def vm_simps)
  have "reg_value (dm_fab t) (offsets ! j) = reg_value (dm_fab s) (offsets ! j)"
    if "j < length offsets" and "Suc i \<le> j \<or> offsets ! j \<in> set queue_state_offsets" for j
    using deliver_one_window [OF assms(4-7)] ap [of i j] assms(3) that q by (cases "i = j") auto
  with assms(2) show ?thesis by (auto simp: agrees_def)
qed

lemma poll_tail_run:
  assumes "window_ok dev (dm_fab t)" and "list_all (reg_in dev) offsets" and "length shadow = length offsets"
    and "agrees offsets w (Suc i) (dm_fab t)" and "w (offsets ! i) \<noteq> shadow ! i"
  shows "poll_tail dev offsets i shadow (w (offsets ! i)) t = (OK (next_shadow offsets w i shadow), t)"
proof -
  let ?sh = "shadow[i := w (offsets ! i)]"
  have "resynced offsets (reg_value (dm_fab t)) ?sh = resynced offsets w ?sh"
    using assms(3,4) by (intro resynced_cong) (auto simp: agrees_def in_set_conv_nth)
  with resync_all [OF assms(1,2), of ?sh] assms(3,5) show ?thesis
    by (auto simp: poll_tail_def next_shadow_def on_fab_def Let_def)
qed

lemma found_writes_next:
  assumes "w (offsets ! i) \<noteq> shadow ! i" and "i + Suc k = length offsets" and "length shadow = length offsets"
  shows "found_writes (Suc k) offsets w i shadow =
    (offsets ! i, w (offsets ! i)) # found_writes k offsets w (Suc i) (next_shadow offsets w i shadow)"
proof -
  have "found_writes k offsets w (Suc i) (next_shadow offsets w i shadow) = found_writes k offsets w (Suc i)
      (if offsets ! i = VIRTIO_MMIO_QUEUE_SEL then resynced offsets w shadow else shadow)"
    using assms by (intro found_writes_cong) (auto simp: resynced_nth next_shadow_def Let_def)
  with assms(1) show ?thesis by (simp add: Let_def)
qed

lemma length_next_shadow [simp]:
  "length shadow = length offsets \<Longrightarrow> length (next_shadow offsets w i shadow) = length offsets"
  by (simp add: next_shadow_def Let_def)

lemma poll_from_Suc:
  "poll_from (Suc k) (\<lambda>_. id) dev offsets i shadow s =
   bnd (poll_register id id dev offsets i shadow) (poll_from k (\<lambda>_. id) dev offsets (Suc i)) s"
  by simp

lemma poll_from_run:
  assumes dev: "keeps_window dev" and regs: "list_all (reg_in dev) offsets"
    and ap: "\<And>i j. i \<noteq> j \<Longrightarrow> i < length offsets \<Longrightarrow> j < length offsets \<Longrightarrow> apart (offsets ! i) 4 (offsets ! j) 4"
    and "window_ok dev (dm_fab s)" and "i + k = length offsets" and "length shadow = length offsets"
    and "agrees offsets w i (dm_fab s)"
  shows "poll_from k (\<lambda>_. id) dev offsets i shadow s =
    bnd (deliver dev (found_writes k offsets w i shadow)) (\<lambda>_. ret (left_shadow k offsets w i shadow)) s"
  using assms(4-7)
proof (induction k arbitrary: i shadow s)
  case (Suc k)
  let ?off = "offsets ! i" and ?v = "w (offsets ! i)" and ?sh = "next_shadow offsets w i shadow"
  let ?run = "\<lambda>sh. bnd (deliver dev (found_writes k offsets w (Suc i) sh)) (\<lambda>_. ret (left_shadow k offsets w (Suc i) sh))"
  have i: "i < length offsets" and r: "reg_in dev ?off"
    using Suc.prems(2) regs by (auto simp: list_all_length)
  have v: "reg_value (dm_fab s) ?off = ?v" using Suc.prems(4) i by (simp add: agrees_def)
  have IH: "poll_from k (\<lambda>_. id) dev offsets (Suc i) ?sh t = ?run ?sh t"
    if "window_ok dev (dm_fab t)" "agrees offsets w (Suc i) (dm_fab t)" for t
    using that Suc.prems(2,3) by (intro Suc.IH) simp_all
  show ?case
  proof (cases "?v = shadow ! i")
    case True
    then have "poll_register id id dev offsets i shadow s = (OK ?sh, s)"
      using poll_register_run [OF Suc.prems(1) i r, of shadow] v by (simp add: next_shadow_def)
    then have "poll_from (Suc k) (\<lambda>_. id) dev offsets i shadow s = poll_from k (\<lambda>_. id) dev offsets (Suc i) ?sh s"
      unfolding poll_from_Suc by (rule bnd_OK)
    also have "\<dots> = ?run ?sh s" using Suc.prems(1,4) by (intro IH) (simp_all add: agrees_def)
    also have "\<dots> = bnd (deliver dev (found_writes (Suc k) offsets w i shadow)) (\<lambda>_. ret (left_shadow (Suc k) offsets w i shadow)) s"
      using True by (simp add: next_shadow_def)
    finally show ?thesis .
  next
    case False
    have "poll_register id id dev offsets i shadow s = bnd (deliver_one dev ?off ?v) (\<lambda>_. poll_tail dev offsets i shadow ?v) s"
      unfolding poll_register_run [OF Suc.prems(1) i r, of shadow] Let_def v by (simp only: False if_False)
    then have "poll_from (Suc k) (\<lambda>_. id) dev offsets i shadow s =
        bnd (deliver_one dev ?off ?v) (\<lambda>_. bnd (poll_tail dev offsets i shadow ?v) (poll_from k (\<lambda>_. id) dev offsets (Suc i))) s"
      unfolding poll_from_Suc bnd_assoc [symmetric] by (rule bnd_run_cong)
    also have "\<dots> = bnd (deliver_one dev ?off ?v) (\<lambda>_. ?run ?sh) s"
    proof (rule bnd_cong_run)
      fix u t assume "deliver_one dev ?off ?v s = (OK u, t)"
      then have d: "deliver_one dev ?off ?v s = (OK (), t)" by simp
      have ok: "window_ok dev (dm_fab t)" using deliver_one_window [OF dev Suc.prems(1) r d] by simp
      have ag: "agrees offsets w (Suc i) (dm_fab t)"
        by (rule agrees_after [OF ap Suc.prems(4) i dev Suc.prems(1) r d])
      show "bnd (poll_tail dev offsets i shadow ?v) (poll_from k (\<lambda>_. id) dev offsets (Suc i)) t = ?run ?sh t"
        by (rule trans [OF bnd_OK [where m = "poll_tail dev offsets i shadow ?v" and k = "poll_from k (\<lambda>_. id) dev offsets (Suc i)",
            OF poll_tail_run [OF ok regs Suc.prems(3) ag False]] IH [OF ok ag]])
    qed
    also have "\<dots> = bnd (deliver dev (found_writes (Suc k) offsets w i shadow)) (\<lambda>_. ret (left_shadow (Suc k) offsets w i shadow)) s"
      using found_writes_next [where w = w, OF False Suc.prems(2,3)] by (simp add: bnd_assoc del: found_writes.simps)
    finally show ?thesis .
  qed
qed simp

section \<open>The scan of the device registers\<close>

text \<open>
  The specification of a scan: the registers whose value differs from the shadow, in the order of the
  table, except the registers of the queue when the guest has selected another queue.
\<close>

definition guest_writes :: "(u64 \<Rightarrow> u32) \<Rightarrow> u32 list \<Rightarrow> (u64 \<times> u32) list" where
  "guest_writes w shadow =
     [(off, w off). (off, old) \<leftarrow> zip write_offsets shadow, w off \<noteq> old \<and>
        \<not> (off \<in> set queue_state_offsets \<and> w VIRTIO_MMIO_QUEUE_SEL \<noteq> shadow ! 3)]"

text \<open>The shadow afterwards: the values seen, except that notification and acknowledgement are consumed.\<close>

definition scanned_shadow :: "(u64 \<Rightarrow> u32) \<Rightarrow> u32 list \<Rightarrow> u32 list" where
  "scanned_shadow w shadow = map2 (\<lambda>off old. if w off = old then old else settle off (w off)) write_offsets shadow"

lemma length_write_offsets [simp]: "length write_offsets = 15"
  by (simp add: write_offsets_def)

lemma found_writes_plain:
  assumes "VIRTIO_MMIO_QUEUE_SEL \<notin> set (drop i offsets)" and "i + k = length offsets" and "length shadow = length offsets"
  shows "found_writes k offsets w i shadow =
    [(off, w off). (off, old) \<leftarrow> zip (drop i offsets) (drop i shadow), w off \<noteq> old]"
  using assms
proof (induction k arbitrary: i)
  case (Suc k)
  then have d: "drop i offsets = offsets ! i # drop (Suc i) offsets" "drop i shadow = shadow ! i # drop (Suc i) shadow"
    by (simp_all add: Cons_nth_drop_Suc)
  with Suc.prems(1) have "offsets ! i \<noteq> VIRTIO_MMIO_QUEUE_SEL" by auto
  moreover have "found_writes k offsets w (Suc i) shadow =
      [(off, w off). (off, old) \<leftarrow> zip (drop (Suc i) offsets) (drop (Suc i) shadow), w off \<noteq> old]"
    using Suc.prems d by (intro Suc.IH) auto
  ultimately show ?case using d by (simp add: Let_def)
qed simp

lemma concat_map2_map2: "concat (map2 f xs (map2 g xs ys)) = concat (map2 (\<lambda>x y. f x (g x y)) xs ys)"
  by (induction xs ys rule: list_induct2') auto

lemma found_guest_writes:
  assumes "length shadow = 15"
  shows "found_writes 15 write_offsets w 0 shadow = guest_writes w shadow"
proof -
  obtain a0 a1 a2 a3 rest where sh: "shadow = a0 # a1 # a2 # a3 # rest" "length rest = 11"
    using assms by (auto simp: length_Suc_conv numeral_eq_Suc)
  define late where "late = drop 4 write_offsets"
  have wo: "write_offsets = [VIRTIO_MMIO_DEVICE_FEATURES_SEL, VIRTIO_MMIO_DRIVER_FEATURES, VIRTIO_MMIO_DRIVER_FEATURES_SEL,
      VIRTIO_MMIO_QUEUE_SEL] @ late" "length late = 11"
    by (simp_all add: late_def write_offsets_def)
  have sel: "VIRTIO_MMIO_QUEUE_SEL \<notin> set late" by (simp add: late_def write_offsets_def vm_simps)
  have early: "VIRTIO_MMIO_DEVICE_FEATURES_SEL \<noteq> VIRTIO_MMIO_QUEUE_SEL" "VIRTIO_MMIO_DRIVER_FEATURES \<noteq> VIRTIO_MMIO_QUEUE_SEL"
    "VIRTIO_MMIO_DRIVER_FEATURES_SEL \<noteq> VIRTIO_MMIO_QUEUE_SEL" by (simp_all add: vm_simps)
  have q: "VIRTIO_MMIO_DEVICE_FEATURES_SEL \<notin> set queue_state_offsets" "VIRTIO_MMIO_DRIVER_FEATURES \<notin> set queue_state_offsets"
    "VIRTIO_MMIO_DRIVER_FEATURES_SEL \<notin> set queue_state_offsets" "VIRTIO_MMIO_QUEUE_SEL \<notin> set queue_state_offsets"
    by (simp_all add: queue_state_offsets_def vm_simps)
  have plain: "found_writes 11 write_offsets w 4 sh' =
      [(off, w off). (off, old) \<leftarrow> zip late (drop 4 sh'), w off \<noteq> old]" if "length sh' = 15" for sh'
    using found_writes_plain [of 4 write_offsets 11 sh' w] sel that by (simp add: late_def)
  have rs: "drop 4 (resynced write_offsets w shadow) = map2 (\<lambda>off v. if off \<in> set queue_state_offsets then w off else v) late rest"
    using sh by (simp add: resynced_def late_def drop_map drop_zip)
  have nth: "write_offsets ! 0 = VIRTIO_MMIO_DEVICE_FEATURES_SEL" "write_offsets ! 1 = VIRTIO_MMIO_DRIVER_FEATURES"
    "write_offsets ! 2 = VIRTIO_MMIO_DRIVER_FEATURES_SEL" "write_offsets ! 3 = VIRTIO_MMIO_QUEUE_SEL"
    "shadow ! 0 = a0" "shadow ! 1 = a1" "shadow ! 2 = a2" "shadow ! 3 = a3"
    by (simp_all add: write_offsets_def sh(1))
  have skip: "found_writes m write_offsets w i shadow =
      (if w off = a then [] else [(off, w off)]) @ found_writes k write_offsets w j shadow"
    if "write_offsets ! i = off" and "shadow ! i = a" and "off \<noteq> VIRTIO_MMIO_QUEUE_SEL" and "m = Suc k" and "j = Suc i" for i j k m a off
    using that by (simp add: Let_def)
  have select: "found_writes 12 write_offsets w 3 shadow =
      (if w VIRTIO_MMIO_QUEUE_SEL = a3 then [] else [(VIRTIO_MMIO_QUEUE_SEL, w VIRTIO_MMIO_QUEUE_SEL)]) @
      found_writes 11 write_offsets w 4 (if w VIRTIO_MMIO_QUEUE_SEL \<noteq> a3 then resynced write_offsets w shadow else shadow)"
    using found_writes.simps(2) [of 11 write_offsets w 3 shadow] nth(4,8) by (simp add: Let_def split del: if_split)
  have unroll: "found_writes 15 write_offsets w 0 shadow =
      (if w VIRTIO_MMIO_DEVICE_FEATURES_SEL = a0 then [] else [(VIRTIO_MMIO_DEVICE_FEATURES_SEL, w VIRTIO_MMIO_DEVICE_FEATURES_SEL)]) @
      (if w VIRTIO_MMIO_DRIVER_FEATURES = a1 then [] else [(VIRTIO_MMIO_DRIVER_FEATURES, w VIRTIO_MMIO_DRIVER_FEATURES)]) @
      (if w VIRTIO_MMIO_DRIVER_FEATURES_SEL = a2 then [] else [(VIRTIO_MMIO_DRIVER_FEATURES_SEL, w VIRTIO_MMIO_DRIVER_FEATURES_SEL)]) @
      (if w VIRTIO_MMIO_QUEUE_SEL = a3 then [] else [(VIRTIO_MMIO_QUEUE_SEL, w VIRTIO_MMIO_QUEUE_SEL)]) @
      found_writes 11 write_offsets w 4 (if w VIRTIO_MMIO_QUEUE_SEL \<noteq> a3 then resynced write_offsets w shadow else shadow)"
    unfolding select [symmetric] append_assoc [symmetric]
    using skip [OF nth(1,5) early(1), of 15 14 1] skip [OF nth(2,6) early(2), of 14 13 2] skip [OF nth(3,7) early(3), of 13 12 3]
    by (simp split del: if_split)
  have tail: "found_writes 11 write_offsets w 4 (if w VIRTIO_MMIO_QUEUE_SEL \<noteq> a3 then resynced write_offsets w shadow else shadow) =
      [(off, w off). (off, old) \<leftarrow> zip late rest, w off \<noteq> old \<and> \<not> (off \<in> set queue_state_offsets \<and> w VIRTIO_MMIO_QUEUE_SEL \<noteq> a3)]"
  proof (cases "w VIRTIO_MMIO_QUEUE_SEL = a3")
    case True
    then show ?thesis using plain [of shadow] assms sh by simp
  next
    case False
    then show ?thesis
      using plain [of "resynced write_offsets w shadow"] assms rs
      by (auto simp: concat_map2_map2 intro!: arg_cong [where f = concat])
  qed
  have flip: "(if P \<noteq> (a :: u32) then x else []) = (if P = a then [] else x)" for P a and x :: "(u64 \<times> u32) list" by simp
  have "shadow ! 3 = a3" using sh by simp
  then have "guest_writes w shadow =
      (if w VIRTIO_MMIO_DEVICE_FEATURES_SEL = a0 then [] else [(VIRTIO_MMIO_DEVICE_FEATURES_SEL, w VIRTIO_MMIO_DEVICE_FEATURES_SEL)]) @
      (if w VIRTIO_MMIO_DRIVER_FEATURES = a1 then [] else [(VIRTIO_MMIO_DRIVER_FEATURES, w VIRTIO_MMIO_DRIVER_FEATURES)]) @
      (if w VIRTIO_MMIO_DRIVER_FEATURES_SEL = a2 then [] else [(VIRTIO_MMIO_DRIVER_FEATURES_SEL, w VIRTIO_MMIO_DRIVER_FEATURES_SEL)]) @
      (if w VIRTIO_MMIO_QUEUE_SEL = a3 then [] else [(VIRTIO_MMIO_QUEUE_SEL, w VIRTIO_MMIO_QUEUE_SEL)]) @
      [(off, w off). (off, old) \<leftarrow> zip late rest, w off \<noteq> old \<and> \<not> (off \<in> set queue_state_offsets \<and> w VIRTIO_MMIO_QUEUE_SEL \<noteq> a3)]"
    unfolding guest_writes_def wo(1) by (simp add: sh(1) q flip split del: if_split)
  then show ?thesis unfolding unroll tail by simp
qed

text \<open>A shadow in the middle of a scan that started from \<open>old\<close>.\<close>

definition half_scanned :: "u64 list \<Rightarrow> (u64 \<Rightarrow> u32) \<Rightarrow> u32 list \<Rightarrow> nat \<Rightarrow> u32 list \<Rightarrow> bool" where
  "half_scanned offsets w old i shadow \<longleftrightarrow> length shadow = length offsets \<and>
     (\<forall>j < length offsets.
        if j < i then shadow ! j = (if w (offsets ! j) = old ! j then old ! j else settle (offsets ! j) (w (offsets ! j)))
        else shadow ! j = old ! j \<or> offsets ! j \<in> set queue_state_offsets \<and> shadow ! j = w (offsets ! j))"

lemma settle_queue_state: "off \<in> set queue_state_offsets \<Longrightarrow> settle off v = v"
  by (auto simp: queue_state_offsets_def settle_def vm_simps)

lemma settle_sel: "settle VIRTIO_MMIO_QUEUE_SEL v = v"
  by (simp add: settle_def vm_simps)

lemma half_scanned_next:
  assumes h: "half_scanned offsets w old i shadow" and i: "i < length offsets"
  shows "half_scanned offsets w old (Suc i) (next_shadow offsets w i shadow)"
proof -
  have len: "length shadow = length offsets" using h by (simp add: half_scanned_def)
  have "if j < Suc i
      then next_shadow offsets w i shadow ! j = (if w (offsets ! j) = old ! j then old ! j else settle (offsets ! j) (w (offsets ! j)))
      else next_shadow offsets w i shadow ! j = old ! j \<or>
        offsets ! j \<in> set queue_state_offsets \<and> next_shadow offsets w i shadow ! j = w (offsets ! j)"
    if j: "j < length offsets" for j
  proof -
    have at: "if j < i then shadow ! j = (if w (offsets ! j) = old ! j then old ! j else settle (offsets ! j) (w (offsets ! j)))
        else shadow ! j = old ! j \<or> offsets ! j \<in> set queue_state_offsets \<and> shadow ! j = w (offsets ! j)"
      using h j by (simp add: half_scanned_def)
    have new: "next_shadow offsets w i shadow ! j =
        (if w (offsets ! i) = shadow ! i then shadow ! j
         else if offsets ! i = VIRTIO_MMIO_QUEUE_SEL \<and> offsets ! j \<in> set queue_state_offsets then w (offsets ! j)
         else if j = i then settle (offsets ! i) (w (offsets ! i)) else shadow ! j)"
      using i j len by (auto simp: next_shadow_def Let_def resynced_nth settle_sel)
    consider "j < i" | "j = i" | "i < j" by linarith
    then show ?thesis
    proof cases
      case 1
      with at have "shadow ! j = (if w (offsets ! j) = old ! j then old ! j else settle (offsets ! j) (w (offsets ! j)))" by simp
      moreover have "shadow ! j = w (offsets ! j)" if "offsets ! j \<in> set queue_state_offsets"
        using calculation settle_queue_state [OF that] by (cases "w (offsets ! j) = old ! j") simp_all
      then have "next_shadow offsets w i shadow ! j = shadow ! j" using 1 new by (auto split: if_splits)
      with calculation 1 show ?thesis by simp
    next
      case 2
      with at show ?thesis
        using settle_queue_state [of "offsets ! i" "w (offsets ! i)"] new
        by (cases "shadow ! i = old ! i"; cases "offsets ! i \<in> set queue_state_offsets"; cases "w (offsets ! i) = shadow ! i")
          (simp_all del: if_split)
    next
      case 3
      with at show ?thesis
        by (cases "shadow ! j = old ! j") (simp_all add: new)
    qed
  qed
  then show ?thesis using len by (simp add: half_scanned_def)
qed

lemma left_shadow_run:
  assumes "half_scanned offsets w old i shadow" and "i + k = length offsets" and "length old = length offsets"
  shows "left_shadow k offsets w i shadow =
    map2 (\<lambda>off old. if w off = old then old else settle off (w off)) offsets old"
  using assms(1,2)
proof (induction k arbitrary: i shadow)
  case 0
  with assms(3) show ?case by (intro nth_equalityI) (auto simp: half_scanned_def)
next
  case (Suc k)
  then show ?case using half_scanned_next [of offsets w old i shadow] by simp
qed

lemma write_offsets_apart:
  assumes "i \<noteq> j" and "i < length write_offsets" and "j < length write_offsets"
  shows "apart (write_offsets ! i) 4 (write_offsets ! j) 4"
proof -
  let ?p = "\<lambda>a b. a = b \<or> apart a 4 b 4"
  have "distinct write_offsets" by (simp add: write_offsets_def vm_simps)
  moreover have "list_all (\<lambda>a. list_all (?p a) write_offsets) write_offsets"
    by (simp add: write_offsets_def vm_simps apart_def)
  ultimately show ?thesis using assms by (auto simp: list_all_length nth_eq_iff_index_eq)
qed

lemma write_offsets_in: "unat (fdev_size dev) \<ge> 0x100 \<Longrightarrow> list_all (reg_in dev) write_offsets"
  by (simp add: write_offsets_def vm_simps reg_in_def)

lemma poll_run:
  assumes "keeps_window dev" and "window_ok dev (dm_fab s)" and "0x100 \<le> unat (fdev_size dev)" and "length shadow = 15"
  shows "poll_write_registers (\<lambda>_. id) dev shadow write_offsets s =
    bnd (deliver dev (guest_writes (reg_value (dm_fab s)) shadow))
        (\<lambda>_. ret (scanned_shadow (reg_value (dm_fab s)) shadow)) s"
proof -
  let ?w = "reg_value (dm_fab s)"
  have "poll_from 15 (\<lambda>_. id) dev write_offsets 0 shadow s =
      bnd (deliver dev (found_writes 15 write_offsets ?w 0 shadow)) (\<lambda>_. ret (left_shadow 15 write_offsets ?w 0 shadow)) s"
    using assms write_offsets_in write_offsets_apart by (intro poll_from_run) (simp_all add: agrees_def)
  also have "left_shadow 15 write_offsets ?w 0 shadow = scanned_shadow ?w shadow"
    unfolding scanned_shadow_def using assms(4) by (intro left_shadow_run) (simp_all add: half_scanned_def)
  finally show ?thesis using assms(4) by (simp only: poll_write_registers_def length_write_offsets found_guest_writes)
qed

end
