(* ===== verification/Register_Window.thy ===== *)
theory Register_Window
  imports Uio_Loop
begin

unbundle bit_operations_syntax

text \<open>
  What the two polled fabrics share: a window of 32-bit registers in memory, and the publication of the
  registers the guest reads. The locale \<open>register_window\<close> states the laws of such a window, \<open>publisher\<close>
  those of the two loops that fill it; their lemmas give the contents of the window after a refresh for
  the UIO window and for the aperture of the \<^verbatim>\<open>/dev/mem\<close> fabric.
\<close>

section \<open>The registers that are published\<close>

text \<open>The words of the configuration space of a device of 0x200 bytes.\<close>

definition config_words :: "nat \<Rightarrow> u64 list" where
  "config_words k = map (\<lambda>i. 0x200 - 4 * of_nat i) (rev [1..<Suc k])"

lemma config_words_Suc: "config_words (Suc k) = (0x200 - 4 * of_nat (Suc k)) # config_words k"
  by (simp add: config_words_def)

definition refreshed :: "u64 list" where
  "refreshed = published_registers @ config_words 64"

lemma unat_word_offset: "1 \<le> i \<Longrightarrow> i \<le> 64 \<Longrightarrow> unat (0x200 - 4 * of_nat i :: u64) = 0x200 - 4 * i"
proof -
  assume i: "1 \<le> i" "i \<le> 64"
  then have "unat (4 * of_nat i :: u64) = 4 * i" by (simp add: unat_word_ariths unat_of_nat_u64)
  with i show ?thesis by (simp add: unat_sub word_le_nat_alt)
qed

lemma unat_config_word: "off \<in> set (config_words 64) \<Longrightarrow> 0x100 \<le> unat off \<and> unat off + 4 \<le> 0x200 \<and> 4 dvd unat off"
  by (auto simp: config_words_def unat_word_offset intro: dvd_diff_nat)

lemma unat_published: "off \<in> set published_registers \<Longrightarrow> unat off < 0x100 \<and> 4 dvd unat off"
  by (auto simp: published_registers_def vm_simps)

lemma apart_words:
  assumes "4 dvd unat a" and "4 dvd unat b" and "a \<noteq> b"
  shows "apart a 4 b 4"
proof -
  have "4 \<le> unat (y - x)" if "4 dvd unat x" "4 dvd unat y" "x \<noteq> y" for x y :: u64
  proof -
    have "unat y = (unat x + unat (y - x)) mod 2 ^ 64"
      using unat_word_ariths(1) [of x "y - x"] by simp
    with that(2) have "4 dvd unat x + unat (y - x)" by (simp add: dvd_mod_iff)
    with that(1) have "4 dvd unat (y - x)" by (simp add: dvd_add_right_iff)
    moreover have "unat (y - x) \<noteq> 0" using that(3) by (simp add: unat_eq_0)
    ultimately show ?thesis by (auto elim!: dvdE)
  qed
  then show ?thesis using assms by (simp add: apart_def)
qed

lemma refreshed_dvd: "off \<in> set refreshed \<Longrightarrow> 4 dvd unat off \<and> unat off + 4 \<le> 0x200"
  using unat_config_word [of off] unat_published [of off] by (force simp: refreshed_def)

lemma notify_aligned:
  "4 dvd unat VIRTIO_MMIO_QUEUE_NOTIFY" "VIRTIO_MMIO_QUEUE_NOTIFY \<notin> set refreshed"
  "4 dvd unat VIRTIO_MMIO_INTERRUPT_STATUS" "VIRTIO_MMIO_INTERRUPT_STATUS \<in> set refreshed"
proof -
  have "VIRTIO_MMIO_QUEUE_NOTIFY \<notin> set (config_words 64)"
    using unat_config_word [of VIRTIO_MMIO_QUEUE_NOTIFY] by (auto simp: vm_simps)
  then show "VIRTIO_MMIO_QUEUE_NOTIFY \<notin> set refreshed"
    by (simp add: refreshed_def published_registers_def) (simp add: vm_simps)
qed (simp_all add: vm_simps refreshed_def published_registers_def)

section \<open>Windows\<close>

fun put_all :: "(u64 \<Rightarrow> u32 \<Rightarrow> 'g \<Rightarrow> 'g) \<Rightarrow> u64 list \<Rightarrow> (u64 \<Rightarrow> u32) \<Rightarrow> 'g \<Rightarrow> 'g" where
  "put_all put [] r g = g"
| "put_all put (off # offs) r g = put_all put offs r (put off (r off) g)"

lemma put_all_append: "put_all put (xs @ ys) r g = put_all put ys r (put_all put xs r g)"
  by (induction xs arbitrary: g) simp_all

lemma put_all_inv: "(\<And>off v g. P (put off v g) = P g) \<Longrightarrow> P (put_all put offs r g) = P g"
  by (induction offs arbitrary: g) simp_all

locale register_window =
  fixes ok :: "'g \<Rightarrow> bool"
    and val :: "'g \<Rightarrow> u64 \<Rightarrow> u32"
    and put :: "u64 \<Rightarrow> u32 \<Rightarrow> 'g \<Rightarrow> 'g"
  assumes put_ok: "ok (put off v g) = ok g"
  and put_same: "ok g \<Longrightarrow> val (put off v g) off = v"
  and put_other: "apart off 4 off' 4 \<Longrightarrow> val (put off v g) off' = val g off'"
begin

lemma put_all_ok [simp]: "ok (put_all put offs r g) = ok g"
  by (rule put_all_inv) (rule put_ok)

lemma put_all_other: "(\<And>o'. o' \<in> set offs \<Longrightarrow> apart o' 4 off 4) \<Longrightarrow> val (put_all put offs r g) off = val g off"
  by (induction offs arbitrary: g) (simp_all add: put_other)

lemma put_all_value:
  assumes "ok g" and "off \<in> set offs" and "\<And>o'. o' \<in> set offs \<Longrightarrow> o' = off \<or> apart o' 4 off 4"
  shows "val (put_all put offs r g) off = r off"
  using assms
proof (induction offs arbitrary: g)
  case (Cons o' offs)
  show ?case
  proof (cases "off \<in> set offs")
    case True
    with Cons show ?thesis by (simp add: put_ok)
  next
    case False
    then have "\<And>o'. o' \<in> set offs \<Longrightarrow> apart o' 4 off 4" using Cons.prems(3) by force
    moreover have "o' = off" using False Cons.prems(2) by simp
    ultimately show ?thesis using Cons.prems(1) by (simp add: put_all_other put_same)
  qed
qed simp

lemma refreshed_value: "ok g \<Longrightarrow> off \<in> set refreshed \<Longrightarrow> val (put_all put refreshed r g) off = r off"
  by (intro put_all_value) (use refreshed_dvd apart_words in \<open>blast+\<close>)

lemma refreshed_other: "4 dvd unat off \<Longrightarrow> off \<notin> set refreshed \<Longrightarrow> val (put_all put refreshed r g) off = val g off"
  by (intro put_all_other apart_words) (use refreshed_dvd in auto)

end

section \<open>Publication\<close>

text \<open>
  \<open>rd\<close> is what the device answers, which does not depend on the fabric; \<open>each\<close> publishes a list of registers
  and \<open>words\<close> the words from an offset to the end of the device, with fuel.
\<close>

locale publisher = register_window ok val put
  for ok :: "'g \<Rightarrow> bool" and val put +
  fixes rd :: "u64 \<Rightarrow> ('o, 'g) daemon \<Rightarrow> u64"
    and each :: "u64 list \<Rightarrow> (('o, 'g) daemon, unit) act"
    and words :: "nat \<Rightarrow> u64 \<Rightarrow> (('o, 'g) daemon, unit) act"
  assumes rd_fab: "rd off (s\<lparr>dm_fab := g\<rparr>) = rd off s"
  and each_Nil: "each [] s = (OK (), s)"
  and each_Cons: "ok (dm_fab s) \<Longrightarrow> unat off + 4 \<le> 0x200 \<Longrightarrow>
    each (off # offs) s = each offs (s\<lparr>dm_fab := put off (ucast (rd off s)) (dm_fab s)\<rparr>)"
  and words_end: "words (Suc n) 0x200 s = (OK (), s)"
  and words_next: "ok (dm_fab s) \<Longrightarrow> unat off + 4 \<le> 0x200 \<Longrightarrow>
    words (Suc n) off s = words n (off + 4) (s\<lparr>dm_fab := put off (ucast (rd off s)) (dm_fab s)\<rparr>)"
begin

lemma each_run:
  assumes "ok (dm_fab s)" and "\<forall>off \<in> set offs. unat off + 4 \<le> 0x200"
  shows "each offs s = (OK (), s\<lparr>dm_fab := put_all put offs (\<lambda>off. ucast (rd off s)) (dm_fab s)\<rparr>)"
  using assms
proof (induction offs arbitrary: s)
  case (Cons off offs)
  then show ?case by (simp add: each_Cons put_ok rd_fab)
qed (simp add: each_Nil)

lemma words_run:
  assumes "ok (dm_fab s)" and "k \<le> 64" and "k < n"
  shows "words n (0x200 - 4 * of_nat k) s =
    (OK (), s\<lparr>dm_fab := put_all put (config_words k) (\<lambda>off. ucast (rd off s)) (dm_fab s)\<rparr>)"
  using assms
proof (induction k arbitrary: n s)
  case 0
  then show ?case by (cases n) (simp_all add: words_end config_words_def)
next
  case (Suc k)
  obtain m where n: "n = Suc m" using Suc.prems by (cases n) auto
  let ?off = "0x200 - 4 * of_nat (Suc k) :: u64"
  have "unat ?off + 4 \<le> 0x200" using unat_word_offset [OF _ Suc.prems(2)] by simp
  moreover have "?off + 4 = 0x200 - 4 * of_nat k" by simp
  ultimately have "words n ?off s = words m (0x200 - 4 * of_nat k) (s\<lparr>dm_fab := put ?off (ucast (rd ?off s)) (dm_fab s)\<rparr>)"
    using words_next [OF Suc.prems(1), of ?off m] n by simp
  also have "\<dots> = (OK (), s\<lparr>dm_fab := put_all put (config_words (Suc k)) (\<lambda>off. ucast (rd off s)) (dm_fab s)\<rparr>)"
    using Suc.IH [of "s\<lparr>dm_fab := put ?off (ucast (rd ?off s)) (dm_fab s)\<rparr>" m] Suc.prems n
    by (simp add: put_ok rd_fab config_words_Suc)
  finally show ?case .
qed

lemma refresh_ok:
  assumes "ok (dm_fab s)" and "64 < n"
  shows "bnd (each published_registers) (\<lambda>_. words n VIRTIO_MMIO_CONFIG) s =
    (OK (), s\<lparr>dm_fab := put_all put refreshed (\<lambda>off. ucast (rd off s)) (dm_fab s)\<rparr>)"
proof -
  let ?s = "s\<lparr>dm_fab := put_all put published_registers (\<lambda>off. ucast (rd off s)) (dm_fab s)\<rparr>"
  have "each published_registers s = (OK (), ?s)"
    by (rule each_run [OF assms(1)]) (auto simp: published_registers_def vm_simps)
  moreover have c: "0x200 - 4 * of_nat 64 = VIRTIO_MMIO_CONFIG" by (simp add: vm_simps)
  have "words n VIRTIO_MMIO_CONFIG ?s =
      (OK (), ?s\<lparr>dm_fab := put_all put (config_words 64) (\<lambda>off. ucast (rd off ?s)) (dm_fab ?s)\<rparr>)"
    by (rule words_run [of ?s 64 n, unfolded c]) (use assms in simp_all)
  ultimately show ?thesis by (simp add: bnd_OK refreshed_def put_all_append rd_fab)
qed

end

section \<open>The UIO window\<close>

interpretation uio_regs: register_window "window_ok dev" reg_value set_reg
  by unfold_locales (simp_all add: set_reg_other)

lemma set_all_simps [simp]:
  "us_dma (put_all set_reg offs r g) = us_dma g" "us_config (put_all set_reg offs r g) = us_config g"
  "us_pending_irq_level (put_all set_reg offs r g) = us_pending_irq_level g"
  "um_size (us_mmio (put_all set_reg offs r g)) = um_size (us_mmio g)"
  by (induction offs arbitrary: g) simp_all

lemma publish_run:
  assumes "window_ok dev (dm_fab s)" and "reg_in dev off" and "dev_read dev off 4 s = (OK v, s)"
  shows "publish dev off s = (OK (), s\<lparr>dm_fab := set_reg off (ucast v) (dm_fab s)\<rparr>)"
  using assms store_reg [OF assms(1,2)] by (simp add: publish_def bnd_OK on_fab_def)

text \<open>The device's read callback is a function that does not look at the register window.\<close>

definition reads_device :: "('o, 'g) daemon fabric_device \<Rightarrow> (u64 \<Rightarrow> ('o, 'g) daemon \<Rightarrow> u64) \<Rightarrow> bool" where
  "reads_device dev rd \<longleftrightarrow> (\<forall>off s. dev_read dev off 4 s = (OK (rd off s), s)) \<and>
     (\<forall>off s g. rd off (s\<lparr>dm_fab := g\<rparr>) = rd off s)"

lemma uio_publisher:
  assumes "reads_device dev rd" and "fdev_size dev = 0x200"
  shows "publisher (window_ok dev) reg_value set_reg rd (publish_each dev) (publish_config dev)"
proof (unfold_locales, goal_cases)
  case (3 s off offs)
  then show ?case
    using assms publish_run [OF 3(1), of off] reg_in_fits [OF 3(1), of off] by (simp add: reg_in_def reads_device_def bnd_OK)
next
  case (5 s off n)
  then show ?case
    using assms publish_run [OF 5(1), of off] reg_in_fits [OF 5(1), of off] by (simp add: reg_in_def reads_device_def bnd_OK)
qed (use assms in \<open>auto simp: reads_device_def reg_fits_def\<close>)

lemma refresh_run:
  assumes "reads_device dev rd" and "fdev_size dev = 0x200" and "window_ok dev (dm_fab s)" and "64 < n"
  shows "refresh_read_registers n dev s =
    (OK (), s\<lparr>dm_fab := put_all set_reg refreshed (\<lambda>off. ucast (rd off s)) (dm_fab s)\<rparr>)"
  unfolding refresh_read_registers_def
  using publisher.refresh_ok [OF uio_publisher [OF assms(1,2)] assms(3,4)] by simp

end
