(* ===== verification/Uio_Turn.thy ===== *)
theory Uio_Turn
  imports Uio_Scan Register_Window Uio_Blkd_Run
begin

unbundle bit_operations_syntax

text \<open>
  A whole turn of the UIO event loop: after the scan, the registers the guest reads are published and
  only then is the interrupt line set. Composed with the block backend: a notification that the guest
  writes into the window ends with its requests in the used ring, the interrupt status in the window
  and the line raised.
\<close>

section \<open>The interrupt line\<close>

lemma flush_run:
  assumes "window_ok dev (dm_fab s)" and "us_pending_irq_level (dm_fab s) \<ge> 0"
    and "unat (uc_irq_control_offset (us_config (dm_fab s))) + 4 \<le> unat (um_size (us_mmio (dm_fab s)))"
  shows "flush_pending_irq_level s = (OK (), s\<lparr>dm_fab :=
    (set_reg (uc_irq_control_offset (us_config (dm_fab s))) (if us_pending_irq_level (dm_fab s) \<noteq> 0 then 1 else 0) (dm_fab s))
      \<lparr>us_pending_irq_level := - 1\<rparr>\<rparr>)"
proof -
  let ?o = "uc_irq_control_offset (us_config (dm_fab s))" and ?n = "um_size (us_mmio (dm_fab s))"
  have "unat ?o + 4 < 2 ^ 64" using assms(1,3) by (simp add: window_ok_def word_le_nat_alt)
  then have "unat (?o + 4) = unat ?o + 4" by (simp add: unat_word_ariths)
  then have "\<not> ?o + 4 > ?n" using assms(3) by (simp add: word_less_nat_alt)
  moreover have "region_ok (us_mmio (dm_fab s)) ?o 4"
    using assms(1,3) by (simp add: region_ok_def window_ok_def)
  ultimately show ?thesis using assms(2)
    by (simp add: flush_pending_irq_level_def bnd_def on_fab_def uio_store_le32_def set_reg_def)
qed

section \<open>The block device on the UIO fabric\<close>

interpretation uio_window: fabric_keeps "uio_ops (\<lambda>_. id)" "\<lambda>g. us_mmio g = m \<and> us_config g = c"
  by unfold_locales
    (auto simp: keeps_def uio_ops_def uio_dma_read_def uio_dma_read_into_def uio_dma_read_u16_def uio_dma_write_def
      uio_dma_map_def uio_ptr_store_def uio_dma_unmap_def uio_raise_irq_def uio_lower_irq_def bnd_def guest_acts_def
      split: option.splits)

abbreviation uio_blkd :: "bool \<Rightarrow> nat \<Rightarrow> blkd_block_backend \<Rightarrow> string \<Rightarrow> uio_state blkd fabric_device" where
  "uio_blkd dr n b path \<equiv> blkd_fabric_init_device (uio_ops (\<lambda>_. id)) dr n b path"

lemma uio_blkd_write: "dev_write (uio_blkd dr n b path) off v len = blkd_mmio_write (uio_ops (\<lambda>_. id)) dr n off v len"
  by (rule ext) (simp add: dev_write_def blkd_fabric_init_device_def)

lemma uio_blkd_size: "fdev_size (uio_blkd dr n b path) = 0x200"
  by (simp add: blkd_fabric_init_device_def)

lemma uio_blkd_frame:
  "us_mmio (dm_fab (snd (blkd_mmio_write (uio_ops (\<lambda>_. id)) dr n off v len s))) = us_mmio (dm_fab s)"
  "us_config (dm_fab (snd (blkd_mmio_write (uio_ops (\<lambda>_. id)) dr n off v len s))) = us_config (dm_fab s)"
  using keepsD [OF fabric_keeps.fab_inv_blkd_write [OF uio_window.fabric_keeps_axioms],
      of "us_mmio (dm_fab s)" "us_config (dm_fab s)" s dr n off v len]
  by (simp_all add: fab_inv_def)

lemma uio_blkd_keeps_window: "keeps_window (uio_blkd dr n b path)"
  by (simp add: keeps_window_def uio_blkd_write uio_blkd_frame)

lemma uio_blkd_reads:
  "reads_device (uio_blkd dr n b path) (\<lambda>off. blkd_mmio_read (uio_ops (\<lambda>_. id)) dr n off 4)"
  by (simp add: reads_device_def dev_read_def blkd_fabric_init_device_def blkd_mmio_read_def driver_mmio_read_def)

lemma set_reg_ram [simp]:
  "uio_live (set_reg off v g) = uio_live g" "uio_ram (set_reg off v g) = uio_ram g" "uio_reach (set_reg off v g) = uio_reach g"
  by (auto simp: uio_live_def uio_ram_def uio_reach_def fun_eq_iff)

lemma set_all_ram [simp]: "uio_ram (put_all set_reg offs r g) = uio_ram g"
  by (rule put_all_inv) simp

interpretation uio_publish: publisher "window_ok (uio_blkd dr n b path)" reg_value set_reg
  "\<lambda>off. blkd_mmio_read (uio_ops (\<lambda>_. id)) dr n off 4" "publish_each (uio_blkd dr n b path)" "publish_config (uio_blkd dr n b path)"
  by (rule uio_publisher [OF uio_blkd_reads uio_blkd_size])

text \<open>
  A turn that also tells the interrupt level the daemon had to write, or a negative number when it had
  none; what the machine around the daemon makes of that store depends on it.
\<close>

definition turn_tail :: "nat \<Rightarrow> ('o, uio_state) daemon fabric_device \<Rightarrow> (('o, uio_state) daemon, int) act" where
  "turn_tail n dev =
     bnd (refresh_read_registers n dev) (\<lambda>_.
     bnd (gets (\<lambda>s. us_pending_irq_level (dm_fab s))) (\<lambda>level.
     bnd flush_pending_irq_level (\<lambda>_. ret level)))"

definition uio_turn_level ::
  "nat \<Rightarrow> ('o, uio_state) daemon fabric_device \<Rightarrow> uio_wake \<Rightarrow> u32 list \<Rightarrow> (('o, uio_state) daemon, u32 list \<times> int) act" where
  "uio_turn_level n dev w shadow =
     bnd (wait_for_uio_interrupt w) (\<lambda>race.
     bnd (poll_write_registers race dev shadow write_offsets) (\<lambda>shadow.
     bnd (turn_tail n dev) (\<lambda>level. ret (shadow, level))))"

lemma turn_level: "uio_turn n dev w shadow s = bnd (uio_turn_level n dev w shadow) (\<lambda>(sh, _). ret sh) s"
  by (simp add: uio_turn_def uio_turn_level_def turn_tail_def bnd_assoc) (simp add: bnd_def split: prod.splits res.splits)

text \<open>
  The tail of a turn: the registers the guest reads are what the device answers, the others are as the
  scan left them, and a pending level has been written to the interrupt control word.
\<close>

lemma tail_run:
  assumes "reads_device dev rd" and "fdev_size dev = 0x200" and "window_ok dev (dm_fab u)" and "64 < n"
    and level: "us_pending_irq_level (dm_fab u) = level" and irq: "irq = uc_irq_control_offset (us_config (dm_fab u))"
    and "4 dvd unat irq" and "0x200 \<le> unat irq" and "unat irq + 4 \<le> unat (um_size (us_mmio (dm_fab u)))"
  shows "\<exists>v. turn_tail n dev u = (OK level, v) \<and> window_ok dev (dm_fab v) \<and> us_config (dm_fab v) = us_config (dm_fab u) \<and>
    um_size (us_mmio (dm_fab v)) = um_size (us_mmio (dm_fab u)) \<and> us_pending_irq_level (dm_fab v) < 0 \<and>
    dm_mmio v = dm_mmio u \<and> dm_host v = dm_host u \<and> uio_ram (dm_fab v) = uio_ram (dm_fab u) \<and>
    (0 \<le> level \<longrightarrow> reg_value (dm_fab v) irq = (if level \<noteq> 0 then 1 else 0)) \<and>
    (\<forall>off. 4 dvd unat off \<longrightarrow> unat off < 0x200 \<longrightarrow>
       reg_value (dm_fab v) off = (if off \<in> set refreshed then ucast (rd off u) else reg_value (dm_fab u) off))"
proof -
  let ?g = "put_all set_reg refreshed (\<lambda>off. ucast (rd off u)) (dm_fab u)"
  have val: "reg_value ?g off = (if off \<in> set refreshed then ucast (rd off u) else reg_value (dm_fab u) off)"
    if "4 dvd unat off" for off
    using uio_regs.refreshed_value [OF assms(3), of off "\<lambda>off. ucast (rd off u)"]
      uio_regs.refreshed_other [OF that, of "\<lambda>off. ucast (rd off u)" "dm_fab u"] by auto
  show ?thesis
  proof (cases "level < 0")
    case True
    then have "turn_tail n dev u = (OK level, u\<lparr>dm_fab := ?g\<rparr>)"
      using level refresh_run [OF assms(1-4)] by (simp add: turn_tail_def bnd_OK flush_pending_irq_level_def)
    with True level assms(3) val show ?thesis by (intro exI [of _ "u\<lparr>dm_fab := ?g\<rparr>"]) simp
  next
    case False
    define h where "h = set_reg irq (if level \<noteq> 0 then 1 else 0) ?g"
    let ?v = "u\<lparr>dm_fab := h\<lparr>us_pending_irq_level := - 1\<rparr>\<rparr>"
    have "flush_pending_irq_level (u\<lparr>dm_fab := ?g\<rparr>) = (OK (), ?v)"
      unfolding h_def using assms False by (subst flush_run [of dev]) simp_all
    then have run: "turn_tail n dev u = (OK level, ?v)"
      using refresh_run [OF assms(1-4)] level by (simp add: turn_tail_def bnd_OK)
    have same: "reg_value (h\<lparr>us_pending_irq_level := - 1\<rparr>) = reg_value h" "window_ok dev (h\<lparr>us_pending_irq_level := - 1\<rparr>) = window_ok dev h"
      by (simp_all add: fun_eq_iff reg_value_def window_ok_def)
    have "reg_value h off = reg_value ?g off" if "4 dvd unat off" "unat off < 0x200" for off
    proof -
      have "apart irq 4 off 4" using that assms(7,8) by (intro apart_words) auto
      then show ?thesis unfolding h_def by (rule set_reg_other)
    qed
    moreover have "reg_value h irq = (if level \<noteq> 0 then 1 else 0)" "window_ok dev h" "us_config h = us_config (dm_fab u)"
      "um_size (us_mmio h) = um_size (us_mmio (dm_fab u))" "uio_ram h = uio_ram (dm_fab u)"
      unfolding h_def using assms(3) by simp_all
    ultimately show ?thesis using run val by (intro exI [of _ ?v]) (simp add: same)
  qed
qed

lemma deliver_notify:
  assumes "window_ok (uio_blkd dr n b path) (dm_fab s)"
    and "blkd_virtio_notify_queue (uio_ops (\<lambda>_. id)) dr n v
           (s\<lparr>dm_fab := set_reg VIRTIO_MMIO_QUEUE_NOTIFY UIO_NOTIFY_IDLE (dm_fab s)\<rparr>) = (OK (), u)"
  shows "deliver (uio_blkd dr n b path) [(VIRTIO_MMIO_QUEUE_NOTIFY, v)] s = (OK (), u)"
    and "us_mmio (dm_fab u) = us_mmio (set_reg VIRTIO_MMIO_QUEUE_NOTIFY UIO_NOTIFY_IDLE (dm_fab s))"
    and "us_config (dm_fab u) = us_config (dm_fab s)"
proof -
  let ?dev = "uio_blkd dr n b path"
  let ?s = "s\<lparr>dm_fab := set_reg VIRTIO_MMIO_QUEUE_NOTIFY UIO_NOTIFY_IDLE (dm_fab s)\<rparr>"
  have "reg_in ?dev VIRTIO_MMIO_QUEUE_NOTIFY" by (simp add: reg_in_def uio_blkd_size vm_simps)
  then have "on_fab (uio_store_le32 VIRTIO_MMIO_QUEUE_NOTIFY UIO_NOTIFY_IDLE) s = (OK (), ?s)"
    using store_reg [OF assms(1)] by (simp add: on_fab_def)
  moreover have w: "blkd_mmio_write (uio_ops (\<lambda>_. id)) dr n VIRTIO_MMIO_QUEUE_NOTIFY (ucast v) 4 ?s = (OK (), u)"
    using assms(2) by (simp add: blkd_mmio_write_def blkd_virtio_ops_def driver_write_notify)
  moreover have "VIRTIO_MMIO_QUEUE_NOTIFY \<noteq> VIRTIO_MMIO_INTERRUPT_ACK" by (simp add: vm_simps)
  ultimately show "deliver ?dev [(VIRTIO_MMIO_QUEUE_NOTIFY, v)] s = (OK (), u)"
    by (simp add: deliver_one_def bnd_OK uio_blkd_write)
  show "us_mmio (dm_fab u) = us_mmio (set_reg VIRTIO_MMIO_QUEUE_NOTIFY UIO_NOTIFY_IDLE (dm_fab s))"
    "us_config (dm_fab u) = us_config (dm_fab s)"
    using w uio_blkd_frame [of dr n VIRTIO_MMIO_QUEUE_NOTIFY "ucast v" 4 ?s] by simp_all
qed

lemma notify_turn:
  assumes "window_ok (uio_blkd dr n b path) (dm_fab s)" and "length shadow = 15"
    and "guest_writes (reg_value (dm_fab s)) shadow = [(VIRTIO_MMIO_QUEUE_NOTIFY, v)]"
    and "blkd_virtio_notify_queue (uio_ops (\<lambda>_. id)) dr n v
           (s\<lparr>dm_fab := set_reg VIRTIO_MMIO_QUEUE_NOTIFY UIO_NOTIFY_IDLE (dm_fab s)\<rparr>) = (OK (), u)"
  shows "poll_write_registers (\<lambda>_. id) (uio_blkd dr n b path) shadow write_offsets s =
      (OK (scanned_shadow (reg_value (dm_fab s)) shadow), u)"
    and "us_mmio (dm_fab u) = us_mmio (set_reg VIRTIO_MMIO_QUEUE_NOTIFY UIO_NOTIFY_IDLE (dm_fab s))"
    and "us_config (dm_fab u) = us_config (dm_fab s)"
    and "deliver (uio_blkd dr n b path) [(VIRTIO_MMIO_QUEUE_NOTIFY, v)] s = (OK (), u)"
proof -
  note d = deliver_notify [OF assms(1,4)]
  then show "poll_write_registers (\<lambda>_. id) (uio_blkd dr n b path) shadow write_offsets s =
      (OK (scanned_shadow (reg_value (dm_fab s)) shadow), u)"
    using poll_run [OF uio_blkd_keeps_window assms(1) _ assms(2)] assms(3) by (simp add: uio_blkd_size bnd_OK del: deliver.simps)
  show "us_mmio (dm_fab u) = us_mmio (set_reg VIRTIO_MMIO_QUEUE_NOTIFY UIO_NOTIFY_IDLE (dm_fab s))"
    "us_config (dm_fab u) = us_config (dm_fab s)" "deliver (uio_blkd dr n b path) [(VIRTIO_MMIO_QUEUE_NOTIFY, v)] s = (OK (), u)"
    using d by blast+
qed

lemma notification_turn:
  assumes "t = s\<lparr>dm_fab := guest_acts before (dm_fab s)\<rparr>"
    and "window_ok (uio_blkd dr n b path) (dm_fab t)" and "length shadow = 15"
    and "guest_writes (reg_value (dm_fab t)) shadow = [(VIRTIO_MMIO_QUEUE_NOTIFY, 0)]"
    and "irq = uc_irq_control_offset (us_config (dm_fab t))" and "4 dvd unat irq" and "0x200 \<le> unat irq"
    and "unat irq + 4 \<le> unat (um_size (us_mmio (dm_fab t)))"
    and "blk_srv_ready uio_live f wr t c" and "vd_queues (dm_vdev t) = [q]" and "vq_ready q \<noteq> 0"
    and "serve_ok (blk_good wr n (uio_reach (dm_fab t)) (h_heap (dm_host t))) (uio_reach (dm_fab t)) blk_serve
           k (uio_ram (dm_fab t)) c q"
    and "0 < k" and "k < n" and "64 < n" and "serve_all blk_serve k (uio_ram (dm_fab t)) c q = (m', c', q')"
  shows "\<exists>sh v. uio_turn_level n (uio_blkd dr n b path) (Interrupt before (\<lambda>_. id)) shadow s = (OK (sh, 1), v) \<and>
    uio_ram (dm_fab v) = m' \<and> h_files (dm_host v) (of_path f) = Some c' \<and> vd_queues (dm_vdev v) = [q'] \<and>
    reg_value (dm_fab v) VIRTIO_MMIO_QUEUE_NOTIFY = UIO_NOTIFY_IDLE \<and>
    reg_value (dm_fab v) VIRTIO_MMIO_INTERRUPT_STATUS = vd_interrupt_status (dm_vdev t) OR VIRTIO_INTERRUPT_VRING \<and>
    reg_value (dm_fab v) irq = 1 \<and> us_config (dm_fab v) = us_config (dm_fab t)"
proof -
  let ?dev = "uio_blkd dr n b path"
  let ?t = "t\<lparr>dm_fab := set_reg VIRTIO_MMIO_QUEUE_NOTIFY UIO_NOTIFY_IDLE (dm_fab t)\<rparr>"
  have "\<exists>u. blkd_virtio_notify_queue (uio_ops (\<lambda>_. id)) dr n 0 ?t = (OK (), u) \<and>
    uio_ram (dm_fab u) = m' \<and> h_files (dm_host u) (of_path f) = Some c' \<and> vd_queues (dm_vdev u) = [q'] \<and>
    vd_interrupt_status (dm_vdev u) = vd_interrupt_status (dm_vdev ?t) OR VIRTIO_INTERRUPT_VRING \<and>
    us_pending_irq_level (dm_fab u) = 1"
    using assms by (intro blk_notify_run [where wr = wr and k = k and c = c and q = q])
      (simp_all add: blk_srv_ready_def blk_ready_def)
  then obtain u where u: "blkd_virtio_notify_queue (uio_ops (\<lambda>_. id)) dr n 0 ?t = (OK (), u)"
    "uio_ram (dm_fab u) = m'" "h_files (dm_host u) (of_path f) = Some c'" "vd_queues (dm_vdev u) = [q']"
    "vd_interrupt_status (dm_vdev u) = vd_interrupt_status (dm_vdev t) OR VIRTIO_INTERRUPT_VRING"
    "us_pending_irq_level (dm_fab u) = 1" by auto
  note poll = notify_turn [OF assms(2,3,4) u(1)]
  have "window_ok ?dev (dm_fab u)" using assms(2) poll(2) by (simp add: window_ok_window [OF poll(2)])
  then obtain v where v: "turn_tail n ?dev u = (OK 1, v)" "us_config (dm_fab v) = us_config (dm_fab u)"
    "dm_mmio v = dm_mmio u" "dm_host v = dm_host u" "uio_ram (dm_fab v) = uio_ram (dm_fab u)" "reg_value (dm_fab v) irq = 1"
    "\<forall>off. 4 dvd unat off \<longrightarrow> unat off < 0x200 \<longrightarrow> reg_value (dm_fab v) off =
       (if off \<in> set refreshed then ucast (blkd_mmio_read (uio_ops (\<lambda>_. id)) dr n off 4 u) else reg_value (dm_fab u) off)"
    using tail_run [where dev = ?dev and irq = irq, OF uio_blkd_reads uio_blkd_size _ assms(15) u(6)] assms(5-8) poll(2,3) by auto
  have "unat VIRTIO_MMIO_INTERRUPT_STATUS < 0x200" "unat VIRTIO_MMIO_QUEUE_NOTIFY < 0x200" by (simp_all add: vm_simps)
  then have regs: "reg_value (dm_fab v) VIRTIO_MMIO_INTERRUPT_STATUS =
      ucast (blkd_mmio_read (uio_ops (\<lambda>_. id)) dr n VIRTIO_MMIO_INTERRUPT_STATUS 4 u)"
    "reg_value (dm_fab v) VIRTIO_MMIO_QUEUE_NOTIFY = reg_value (dm_fab u) VIRTIO_MMIO_QUEUE_NOTIFY"
    using v(7) notify_aligned by auto
  have "reg_value (dm_fab u) VIRTIO_MMIO_QUEUE_NOTIFY = UIO_NOTIFY_IDLE"
    using reg_value_window [OF poll(2)] by simp
  moreover have "uio_turn_level n ?dev (Interrupt before (\<lambda>_. id)) shadow s =
      (OK (scanned_shadow (reg_value (dm_fab t)) shadow, 1), v)"
    using poll(1) v(1) assms(1)
    by (simp add: uio_turn_level_def wait_for_uio_interrupt_def guest_window_def bnd_OK)
  ultimately show ?thesis using u v(1-6) regs poll(3) by (simp add: blkd_reads_status)
qed

text \<open>
  C4: the whole path of a notification on the UIO fabric. The guest puts \<open>k\<close> well-formed chains into
  its available ring and the queue number 0 into the notification register; that is the only register
  it changed, and it is quiet until the daemon is done. Then the turn of the event loop for that
  interrupt completes all \<open>k\<close> requests as the specification of the requests says (memory, used ring,
  image and cursor), sets the notification register back to idle, publishes the interrupt status with
  the used-buffer bit in the window, and writes 1 to the interrupt control register.
\<close>

theorem uio_notification_served:
  assumes "t = s\<lparr>dm_fab := guest_acts before (dm_fab s)\<rparr>"
    and "window_ok (uio_blkd dr n b path) (dm_fab t)" and "length shadow = 15"
    and "guest_writes (reg_value (dm_fab t)) shadow = [(VIRTIO_MMIO_QUEUE_NOTIFY, 0)]"
    and "irq = uc_irq_control_offset (us_config (dm_fab t))" and "4 dvd unat irq" and "0x200 \<le> unat irq"
    and "unat irq + 4 \<le> unat (um_size (us_mmio (dm_fab t)))"
    and "blk_srv_ready uio_live f wr t c" and "vd_queues (dm_vdev t) = [q]" and "vq_ready q \<noteq> 0"
    and "serve_ok (blk_good wr n (uio_reach (dm_fab t)) (h_heap (dm_host t))) (uio_reach (dm_fab t)) blk_serve
           k (uio_ram (dm_fab t)) c q"
    and "0 < k" and "k < n" and "64 < n" and "serve_all blk_serve k (uio_ram (dm_fab t)) c q = (m', c', q')"
  shows "\<exists>sh v. uio_turn n (uio_blkd dr n b path) (Interrupt before (\<lambda>_. id)) shadow s = (OK sh, v) \<and>
    uio_ram (dm_fab v) = m' \<and> h_files (dm_host v) (of_path f) = Some c' \<and> vd_queues (dm_vdev v) = [q'] \<and>
    reg_value (dm_fab v) VIRTIO_MMIO_QUEUE_NOTIFY = UIO_NOTIFY_IDLE \<and>
    reg_value (dm_fab v) VIRTIO_MMIO_INTERRUPT_STATUS = vd_interrupt_status (dm_vdev t) OR VIRTIO_INTERRUPT_VRING \<and>
    reg_value (dm_fab v) irq = 1"
proof -
  from notification_turn [OF assms] obtain sh v where
    "uio_turn_level n (uio_blkd dr n b path) (Interrupt before (\<lambda>_. id)) shadow s = (OK (sh, 1), v)" and v: "uio_ram (dm_fab v) = m'"
    "h_files (dm_host v) (of_path f) = Some c'" "vd_queues (dm_vdev v) = [q']"
    "reg_value (dm_fab v) VIRTIO_MMIO_QUEUE_NOTIFY = UIO_NOTIFY_IDLE"
    "reg_value (dm_fab v) VIRTIO_MMIO_INTERRUPT_STATUS = vd_interrupt_status (dm_vdev t) OR VIRTIO_INTERRUPT_VRING"
    "reg_value (dm_fab v) irq = 1" by blast
  then have "uio_turn n (uio_blkd dr n b path) (Interrupt before (\<lambda>_. id)) shadow s = (OK sh, v)"
    by (simp add: turn_level bnd_OK)
  with v show ?thesis by blast
qed

text \<open>The small guest: its window is zero, so the notification register holds the queue number 0.\<close>

theorem uio_notification_served_witness:
  "\<exists>sh v. uio_turn 66 (uio_blkd False 66 demo_backend ''uio:/dev/uio0'') (Interrupt id (\<lambda>_. id))
      (replicate 13 0 @ [UIO_NOTIFY_IDLE, 0]) (demo_state notify_ram) = (OK sh, v) \<and>
    uio_ram (dm_fab v) = used_push served_ram demo_queue 0 5 \<and>
    reg_value (dm_fab v) VIRTIO_MMIO_INTERRUPT_STATUS = VIRTIO_INTERRUPT_VRING \<and> reg_value (dm_fab v) 0x200 = 1"
proof -
  let ?s = "demo_state notify_ram" and ?c = "[1, 2, 3, 4, 5, 6, 7, 8]" and ?sh = "replicate 13 0 @ [UIO_NOTIFY_IDLE, 0]"
  have t: "?s = ?s\<lparr>dm_fab := guest_acts id (dm_fab ?s)\<rparr>" by (simp add: guest_acts_def)
  have ready: "blk_srv_ready uio_live demo_file True ?s ?c"
    using demo_ready demo_writable by (simp add: blk_srv_ready_def)
  have serve: "serve_ok (blk_good True 66 (uio_reach (dm_fab ?s)) (h_heap (dm_host ?s))) (uio_reach (dm_fab ?s)) blk_serve
      1 (uio_ram (dm_fab ?s)) ?c demo_queue"
    unfolding demo_heap demo_uio_ram by (rule notify_serve_ok) simp
  have all: "serve_all blk_serve 1 (uio_ram (dm_fab ?s)) ?c demo_queue =
      (used_push served_ram demo_queue 0 5, ?c, consume demo_queue)"
    using notify_pending notify_serve by simp
  have zero: "reg_value (dm_fab ?s) off = 0" for off
    by (simp add: reg_value_def demo_state_def demo_fab_def mem_read_def virtio_load_le32_def upt_conv_Cons numeral_eq_Suc)
  have sh: "?sh = [0, 0, 0, 0, 0, 0, 0, 0, 0, 0, 0, 0, 0, UIO_NOTIFY_IDLE, 0]" by (simp add: numeral_eq_Suc)
  have writes: "guest_writes (reg_value (dm_fab ?s)) ?sh = [(VIRTIO_MMIO_QUEUE_NOTIFY, 0)]"
    unfolding sh guest_writes_def zero by (simp add: write_offsets_def UIO_NOTIFY_IDLE_def queue_state_offsets_def vm_simps)
  have win: "window_ok (uio_blkd False 66 demo_backend ''uio:/dev/uio0'') (dm_fab ?s)"
    by (simp add: window_ok_def uio_blkd_size demo_state_def demo_fab_def)
  have vd: "vd_queues (dm_vdev ?s) = [demo_queue]" "vq_ready demo_queue \<noteq> 0" "vd_interrupt_status (dm_vdev ?s) = 0"
    "0x200 = uc_irq_control_offset (us_config (dm_fab ?s))" "um_size (us_mmio (dm_fab ?s)) = 4096"
    by (simp_all add: demo_state_def demo_queue_def demo_fab_def)
  show ?thesis
    using uio_notification_served [OF t win _ writes vd(4) _ _ _ ready vd(1,2) serve _ _ _ all] vd by fastforce
qed

text \<open>
  C20: the UIO fabric turns what the guest left in the register window into device callbacks. If the
  guest does not write during a scan, the scan calls the device once for every register that differs
  from the shadow, with the value in the window, in the order of the register table, skipping the
  registers of the queue when the guest has just selected another queue; it stops at the first
  callback that fails; it sets the notification register back to idle before it calls the device and
  clears the acknowledge register after; and the shadow it keeps holds the values it has seen, with
  notifications and acknowledgements consumed.
\<close>

theorem poll_delivers:
  assumes "keeps_window dev" and "window_ok dev (dm_fab s)" and "0x100 \<le> unat (fdev_size dev)" and "length shadow = 15"
  shows "poll_write_registers (\<lambda>_. id) dev shadow write_offsets s =
    bnd (deliver dev (guest_writes (reg_value (dm_fab s)) shadow))
        (\<lambda>_. ret (scanned_shadow (reg_value (dm_fab s)) shadow)) s"
  by (rule poll_run [OF assms])

theorem poll_delivers_witness:
  "\<forall>m. poll_write_registers (\<lambda>_. id) (uio_blkd False 9 demo_backend ''uio:/dev/uio0'') (replicate 13 0 @ [0, 1]) write_offsets (demo_state m) =
   bnd (deliver (uio_blkd False 9 demo_backend ''uio:/dev/uio0'') [(VIRTIO_MMIO_STATUS, 0)]) (\<lambda>_. ret (replicate 15 0)) (demo_state m)"
proof
  fix m
  have win: "window_ok (uio_blkd False 9 demo_backend ''uio:/dev/uio0'') (dm_fab (demo_state m))"
    by (simp add: window_ok_def uio_blkd_size demo_state_def demo_fab_def)
  have zero: "reg_value (dm_fab (demo_state m)) = (\<lambda>off. 0)"
    by (rule ext) (simp add: reg_value_def demo_state_def demo_fab_def mem_read_def virtio_load_le32_def upt_conv_Cons numeral_eq_Suc)
  have "replicate 13 (0 :: u32) @ [0, 1] = [0, 0, 0, 0, 0, 0, 0, 0, 0, 0, 0, 0, 0, 0, 1]" by (simp add: numeral_eq_Suc)
  moreover have "guest_writes (\<lambda>off. 0) [0, 0, 0, 0, 0, 0, 0, 0, 0, 0, 0, 0, 0, 0, 1] = [(VIRTIO_MMIO_STATUS, 0)]"
    unfolding guest_writes_def by (simp add: write_offsets_def queue_state_offsets_def vm_simps)
  moreover have "scanned_shadow (\<lambda>off. 0) [0, 0, 0, 0, 0, 0, 0, 0, 0, 0, 0, 0, 0, 0, 1] = [0, 0, 0, 0, 0, 0, 0, 0, 0, 0, 0, 0, 0, 0, 0]"
    unfolding scanned_shadow_def by (simp add: write_offsets_def settle_def vm_simps)
  moreover have "replicate 15 (0 :: u32) = [0, 0, 0, 0, 0, 0, 0, 0, 0, 0, 0, 0, 0, 0, 0]" by (simp add: numeral_eq_Suc)
  ultimately show "poll_write_registers (\<lambda>_. id) (uio_blkd False 9 demo_backend ''uio:/dev/uio0'') (replicate 13 0 @ [0, 1]) write_offsets (demo_state m) =
   bnd (deliver (uio_blkd False 9 demo_backend ''uio:/dev/uio0'') [(VIRTIO_MMIO_STATUS, 0)]) (\<lambda>_. ret (replicate 15 0)) (demo_state m)"
    using poll_delivers [OF uio_blkd_keeps_window win, of "replicate 13 0 @ [0, 1]"] zero
    by (simp add: uio_blkd_size del: deliver.simps)
qed

end
