(* ===== verification/Qemu_Uio.thy ===== *)
theory Qemu_Uio
  imports Uio_Turn
begin

unbundle bit_operations_syntax

text \<open>
  QEMU's device \<open>axi\<close> in UIO mode, from \<^verbatim>\<open>patches/qemu/0001-chiplets-qemu-support.patch\<close>. Two machines share
  the register window: the guest that uses the device (role slave) and the machine that runs the daemon
  (role master). A store of the guest goes into the window and a message over the control socket
  interrupts the other machine; the daemon's store into the interrupt control word comes back as a
  message that moves the guest's interrupt line and acknowledges the notification. At the end,
  what a store of the guest looks like to the daemon's scan.
\<close>

section \<open>State and messages\<close>

definition AXI_MSG_FRONTEND_NOTIFY :: u16 where "AXI_MSG_FRONTEND_NOTIFY = 100"
definition AXI_MSG_FRONTEND_IRQ_ASSERT :: u16 where "AXI_MSG_FRONTEND_IRQ_ASSERT = 101"
definition AXI_MSG_FRONTEND_IRQ_DEASSERT :: u16 where "AXI_MSG_FRONTEND_IRQ_DEASSERT = 102"
definition AXI_MSG_FRONTEND_NOTIFY_ACK :: u16 where "AXI_MSG_FRONTEND_NOTIFY_ACK = 103"
definition AXI_CONTROL_IRQ_OFFSET :: u64 where "AXI_CONTROL_IRQ_OFFSET = 0x200"

lemmas frontend_kinds = AXI_MSG_FRONTEND_NOTIFY_def AXI_MSG_FRONTEND_IRQ_ASSERT_def
  AXI_MSG_FRONTEND_IRQ_DEASSERT_def AXI_MSG_FRONTEND_NOTIFY_ACK_def

datatype axi_role = AXI_ROLE_SLAVE | AXI_ROLE_MASTER

datatype axi_notify_policy = AXI_NOTIFY_POLICY_ALL | AXI_NOTIFY_POLICY_BARRIER

text \<open>
  What the control socket brings: a message of a kind (a control message is a header and nothing
  else), the end of the connection, or that the time for an acknowledgement has passed.
\<close>

datatype control_event = Arrives u16 | Hangup | Deadline

text \<open>
  \<open>au_shared\<close> is the shared register window, \<open>au_inbox\<close> what is on the control socket, \<open>au_far\<close> the state of the
  other machine; \<open>au_irq_edges\<close> counts the rising edges of the interrupt line.
\<close>

record 'w axi_uio =
  au_size :: u64
  au_role :: axi_role
  au_policy :: axi_notify_policy
  au_notify_ack :: bool
  au_control_fd :: bool
  au_async_pending :: bool
  au_ack_seq :: u32
  au_irq_wired :: bool
  au_irq :: bool
  au_irq_edges :: nat
  au_shared :: memory
  au_inbox :: "control_event list"
  au_far :: 'w

text \<open>
  The other machine: what it does on a message, to its own state and to the window, and what it sends
  back, up to the moment at which this end goes on. \<open>None\<close>: the message could not be sent.
\<close>

type_synonym 'w far_end = "u16 \<Rightarrow> memory \<Rightarrow> 'w \<Rightarrow> (control_event list \<times> memory \<times> 'w) option"

section \<open>The control socket\<close>

definition uio_set_irq :: "bool \<Rightarrow> 'w axi_uio \<Rightarrow> 'w axi_uio" where
  "uio_set_irq level s =
     (if au_irq_wired s
      then s\<lparr>au_irq := level, au_irq_edges := au_irq_edges s + (if level \<and> \<not> au_irq s then 1 else 0)\<rparr> else s)"

definition axi_control_close :: "'w axi_uio \<Rightarrow> 'w axi_uio" where
  "axi_control_close s = s\<lparr>au_control_fd := False, au_inbox := []\<rparr>"

text \<open>A connection of the other machine; \<open>accepted\<close> is whether \<open>accept\<close> returned one.\<close>

definition axi_control_accept :: "bool \<Rightarrow> 'w axi_uio \<Rightarrow> 'w axi_uio" where
  "axi_control_accept accepted s = (if accepted then (axi_control_close s)\<lparr>au_control_fd := True\<rparr> else s)"

definition axi_control_send :: "'w far_end \<Rightarrow> u16 \<Rightarrow> 'w axi_uio \<Rightarrow> bool \<times> 'w axi_uio" where
  "axi_control_send F kind s =
     (if \<not> au_control_fd s then (False, s)
      else case F kind (au_shared s) (au_far s) of
        None \<Rightarrow> (False, axi_control_close s)
      | Some (es, m, w) \<Rightarrow> (True, s\<lparr>au_inbox := au_inbox s @ es, au_shared := m, au_far := w\<rparr>))"

text \<open>The handler of the control socket, for the next event on it.\<close>

definition axi_control_event :: "control_event \<Rightarrow> 'w axi_uio \<Rightarrow> 'w axi_uio" where
  "axi_control_event e s =
     (case e of
        Hangup \<Rightarrow> axi_control_close s
      | Deadline \<Rightarrow> s
      | Arrives kind \<Rightarrow>
          if kind = AXI_MSG_FRONTEND_NOTIFY then uio_set_irq False (uio_set_irq True s)
          else if kind = AXI_MSG_FRONTEND_IRQ_ASSERT then uio_set_irq True s
          else if kind = AXI_MSG_FRONTEND_IRQ_DEASSERT then uio_set_irq False s
          else if kind = AXI_MSG_FRONTEND_NOTIFY_ACK then s\<lparr>au_async_pending := False, au_ack_seq := au_ack_seq s + 1\<rparr>
          else s)"

definition axi_control_read :: "'w axi_uio \<Rightarrow> 'w axi_uio" where
  "axi_control_read s = (case au_inbox s of [] \<Rightarrow> s | e # es \<Rightarrow> axi_control_event e (s\<lparr>au_inbox := es\<rparr>))"

text \<open>The main loop calls the handler as long as there is something to read.\<close>

fun handle_events :: "nat \<Rightarrow> 'w axi_uio \<Rightarrow> 'w axi_uio" where
  "handle_events 0 s = s"
| "handle_events (Suc k) s = handle_events k (axi_control_read s)"

text \<open>
  The loop of \<open>axi_wait_for_notify_ack\<close>, over what is on the socket: it ends with an acknowledgement, when
  the time has passed (nothing more arrives) or when the connection ends.
\<close>

fun await_ack :: "control_event list \<Rightarrow> 'w axi_uio \<Rightarrow> 'w axi_uio" where
  "await_ack [] s = s\<lparr>au_inbox := []\<rparr>"
| "await_ack (Deadline # es) s = s\<lparr>au_inbox := es\<rparr>"
| "await_ack (Hangup # es) s = axi_control_close s"
| "await_ack (Arrives kind # es) s =
     (if kind = AXI_MSG_FRONTEND_NOTIFY_ACK then s\<lparr>au_inbox := es\<rparr>
      else await_ack es
        (if kind = AXI_MSG_FRONTEND_IRQ_ASSERT then uio_set_irq True s
         else if kind = AXI_MSG_FRONTEND_IRQ_DEASSERT then uio_set_irq False s else s))"

definition axi_wait_for_notify_ack :: "'w far_end \<Rightarrow> 'w axi_uio \<Rightarrow> 'w axi_uio" where
  "axi_wait_for_notify_ack F s =
     (if \<not> au_control_fd s then s
      else case axi_control_send F AXI_MSG_FRONTEND_NOTIFY s of (sent, s1) \<Rightarrow>
        if \<not> sent then s1 else await_ack (au_inbox s1) s1)"

definition axi_uio_notify_backend :: "'w far_end \<Rightarrow> 'w axi_uio \<Rightarrow> 'w axi_uio" where
  "axi_uio_notify_backend F s =
     (if au_notify_ack s then axi_wait_for_notify_ack F s else snd (axi_control_send F AXI_MSG_FRONTEND_NOTIFY s))"

definition axi_uio_notify_backend_async :: "'w far_end \<Rightarrow> 'w axi_uio \<Rightarrow> 'w axi_uio" where
  "axi_uio_notify_backend_async F s =
     (if au_notify_ack s \<and> au_async_pending s then s
      else let s1 = snd (axi_control_send F AXI_MSG_FRONTEND_NOTIFY s) in s1\<lparr>au_async_pending := au_notify_ack s1\<rparr>)"

section \<open>Register accesses\<close>

definition axi_barrier_offsets :: "u64 list" where
  "axi_barrier_offsets =
     [VIRTIO_MMIO_DEVICE_FEATURES_SEL, VIRTIO_MMIO_DRIVER_FEATURES, VIRTIO_MMIO_DRIVER_FEATURES_SEL, VIRTIO_MMIO_QUEUE_SEL,
      VIRTIO_MMIO_QUEUE_READY, VIRTIO_MMIO_INTERRUPT_ACK, VIRTIO_MMIO_QUEUE_NOTIFY, VIRTIO_MMIO_STATUS]"

definition axi_uio_write_needs_backend :: "'w axi_uio \<Rightarrow> u64 \<Rightarrow> bool" where
  "axi_uio_write_needs_backend s addr \<longleftrightarrow> au_policy s = AXI_NOTIFY_POLICY_ALL \<or> addr \<in> set axi_barrier_offsets"

definition axi_uio_read :: "'w far_end \<Rightarrow> u64 \<Rightarrow> u32 \<Rightarrow> 'w axi_uio \<Rightarrow> u64 \<times> 'w axi_uio" where
  "axi_uio_read F addr len s =
     (if addr + ucast len > au_size s then (0, s)
      else let s1 = (if au_role s = AXI_ROLE_SLAVE \<and> au_policy s = AXI_NOTIFY_POLICY_ALL then axi_uio_notify_backend F s else s);
               n = unat len
           in (virtio_load_le64 (mem_read (au_shared s1) addr n @ replicate (8 - n) 0), s1))"

definition queue_offsets :: "u64 list" where
  "queue_offsets =
     [VIRTIO_MMIO_QUEUE_NUM, VIRTIO_MMIO_QUEUE_READY, VIRTIO_MMIO_QUEUE_DESC_LOW, VIRTIO_MMIO_QUEUE_DESC_HIGH,
      VIRTIO_MMIO_QUEUE_AVAIL_LOW, VIRTIO_MMIO_QUEUE_AVAIL_HIGH, VIRTIO_MMIO_QUEUE_USED_LOW, VIRTIO_MMIO_QUEUE_USED_HIGH]"

fun zero_registers :: "u64 \<Rightarrow> u64 list \<Rightarrow> memory \<Rightarrow> memory" where
  "zero_registers sz [] m = m"
| "zero_registers sz (off # offs) m =
     zero_registers sz offs (if off + 4 \<le> sz then mem_write m off (virtio_store_le32 0) else m)"

definition axi_uio_write :: "'w far_end \<Rightarrow> u64 \<Rightarrow> u64 \<Rightarrow> u32 \<Rightarrow> 'w axi_uio \<Rightarrow> 'w axi_uio" where
  "axi_uio_write F addr value len s =
     (if addr + ucast len > au_size s then s
      else let
        s1 = s\<lparr>au_shared := mem_write (au_shared s) addr (take (unat len) (virtio_store_le64 value))\<rparr>;
        s2 = (if au_role s = AXI_ROLE_SLAVE \<and> addr = VIRTIO_MMIO_QUEUE_SEL
              then s1\<lparr>au_shared := zero_registers (au_size s) queue_offsets (au_shared s1)\<rparr> else s1)
      in if au_role s = AXI_ROLE_SLAVE \<and> axi_uio_write_needs_backend s addr then
           (if au_policy s = AXI_NOTIFY_POLICY_BARRIER \<and> addr = VIRTIO_MMIO_QUEUE_NOTIFY
            then axi_uio_notify_backend_async F s2 else axi_uio_notify_backend F s2)
         else if au_role s = AXI_ROLE_MASTER \<and> addr = AXI_CONTROL_IRQ_OFFSET then
           snd (axi_control_send F AXI_MSG_FRONTEND_NOTIFY_ACK
             (snd (axi_control_send F (if value \<noteq> 0 then AXI_MSG_FRONTEND_IRQ_ASSERT else AXI_MSG_FRONTEND_IRQ_DEASSERT) s2)))
         else s2)"

section \<open>The window and the daemon's shadow\<close>

definition reg_at :: "memory \<Rightarrow> u64 \<Rightarrow> u32" where
  "reg_at m off = virtio_load_le32 (mem_read m off 4)"

lemma reg_value_at: "reg_value g = reg_at (um_mem (us_mmio g))"
  by (rule ext) (simp add: reg_value_def reg_at_def)

text \<open>The daemon has seen everything that is in the window.\<close>

definition synced :: "memory \<Rightarrow> u32 list \<Rightarrow> bool" where
  "synced m shadow \<longleftrightarrow> shadow = map (reg_at m) write_offsets"

lemma reg_at_write:
  assumes "off \<in> set write_offsets" and "off' \<in> set write_offsets"
  shows "reg_at (mem_write m off (virtio_store_le32 v)) off' = (if off' = off then v else reg_at m off')"
proof (cases "off' = off")
  case False
  from assms obtain i j where "off = write_offsets ! i" "off' = write_offsets ! j" "i < 15" "j < 15"
    by (auto simp: in_set_conv_nth)
  with False have "apart off 4 off' 4" using write_offsets_apart [of i j] by force
  with False show ?thesis by (simp add: reg_at_def mem_read_write_apart)
qed (simp add: reg_at_def mem_read_write_same)

lemma zero_registers_at:
  assumes "set offs \<subseteq> set write_offsets" and "0x100 \<le> unat sz" and "off \<in> set write_offsets"
  shows "reg_at (zero_registers sz offs m) off = (if off \<in> set offs then 0 else reg_at m off)"
  using assms(1)
proof (induction offs arbitrary: m)
  case (Cons o' offs)
  have "unat (o' + 4) \<le> unat sz"
  proof -
    have "unat o' + 4 \<le> 0x100" using Cons.prems by (auto simp: write_offsets_def vm_simps)
    moreover from this have "unat (o' + 4) = unat o' + 4" by (simp add: unat_word_ariths)
    ultimately show ?thesis using assms(2) by simp
  qed
  then have "o' + 4 \<le> sz" by (simp add: word_le_nat_alt)
  with Cons show ?case by (simp add: reg_at_write assms(3))
qed simp

lemma queue_offsets_set: "set queue_offsets = set queue_state_offsets" "set queue_offsets \<subseteq> set write_offsets"
  "VIRTIO_MMIO_QUEUE_SEL \<notin> set queue_offsets" "VIRTIO_MMIO_QUEUE_NOTIFY \<notin> set queue_offsets"
  "VIRTIO_MMIO_INTERRUPT_ACK \<notin> set queue_offsets" "VIRTIO_MMIO_STATUS \<notin> set queue_offsets"
  by (simp_all add: queue_offsets_def queue_state_offsets_def write_offsets_def) (simp_all add: vm_simps)

text \<open>The window after a store of the guest, before the other machine acts.\<close>

definition stored :: "'w axi_uio \<Rightarrow> u64 \<Rightarrow> u32 \<Rightarrow> memory" where
  "stored s off v =
     (let m = mem_write (au_shared s) off (virtio_store_le32 v) in
      if off = VIRTIO_MMIO_QUEUE_SEL then zero_registers (au_size s) queue_offsets m else m)"

lemma stored_at:
  assumes "0x100 \<le> unat (au_size s)" and "off \<in> set write_offsets" and "off' \<in> set write_offsets"
  shows "reg_at (stored s off v) off' =
    (if off = VIRTIO_MMIO_QUEUE_SEL \<and> off' \<in> set queue_offsets then 0 else if off' = off then v else reg_at (au_shared s) off')"
proof -
  let ?m = "mem_write (au_shared s) off (virtio_store_le32 v)"
  have "reg_at (zero_registers (au_size s) queue_offsets ?m) off' = (if off' \<in> set queue_offsets then 0 else reg_at ?m off')"
    by (rule zero_registers_at [OF queue_offsets_set(2) assms(1,3)])
  moreover have "reg_at ?m off' = (if off' = off then v else reg_at (au_shared s) off')" by (rule reg_at_write [OF assms(2,3)])
  ultimately show ?thesis unfolding stored_def Let_def by (cases "off = VIRTIO_MMIO_QUEUE_SEL") (simp_all only: if_True if_False simp_thms)
qed

text \<open>
  What a scan then finds: a store is seen when it changes the register; the selection of another queue
  hides the zeros that QEMU puts into the queue registers; the selection of the same queue shows them.
\<close>

definition seen_writes :: "memory \<Rightarrow> u64 \<Rightarrow> u32 \<Rightarrow> (u64 \<times> u32) list" where
  "seen_writes m off v =
     (if v \<noteq> reg_at m off then [(off, v)]
      else if off = VIRTIO_MMIO_QUEUE_SEL then [(o', 0). o' \<leftarrow> write_offsets, o' \<in> set queue_offsets \<and> reg_at m o' \<noteq> 0]
      else [])"

lemma guest_writes_map:
  "guest_writes w (map w' write_offsets) =
    [(off, w off). off \<leftarrow> write_offsets, w off \<noteq> w' off \<and>
       \<not> (off \<in> set queue_state_offsets \<and> w VIRTIO_MMIO_QUEUE_SEL \<noteq> w' VIRTIO_MMIO_QUEUE_SEL)]"
proof -
  have "map w' write_offsets ! 3 = w' VIRTIO_MMIO_QUEUE_SEL" by (simp add: write_offsets_def)
  moreover have "zip write_offsets (map w' write_offsets) = map (\<lambda>off. (off, w' off)) write_offsets"
    by (rule nth_equalityI) simp_all
  ultimately show ?thesis by (simp add: guest_writes_def comp_def)
qed

lemma pick_one:
  "distinct xs \<Longrightarrow> x \<in> set xs \<Longrightarrow> (\<And>y. y \<in> set xs \<Longrightarrow> P y \<longleftrightarrow> y = x) \<Longrightarrow> [f y. y \<leftarrow> xs, P y] = [f x]"
proof (induction xs)
  case (Cons a xs)
  show ?case
  proof (cases "a = x")
    case True
    with Cons.prems have "\<And>y. y \<in> set xs \<Longrightarrow> \<not> P y" by auto
    then have "[f y. y \<leftarrow> xs, P y] = []" by (induction xs) auto
    with True Cons.prems show ?thesis by simp
  qed (use Cons in auto)
qed simp

lemma distinct_write_offsets: "distinct write_offsets" "VIRTIO_MMIO_QUEUE_SEL \<in> set write_offsets"
  "VIRTIO_MMIO_QUEUE_NOTIFY \<in> set write_offsets" "VIRTIO_MMIO_STATUS \<in> set write_offsets"
  by (simp_all add: write_offsets_def) (simp_all add: vm_simps)

lemma comprehension_cong:
  "(\<And>x. x \<in> set xs \<Longrightarrow> P x = Q x \<and> (Q x \<longrightarrow> f x = g x)) \<Longrightarrow> [f x. x \<leftarrow> xs, P x] = [g x. x \<leftarrow> xs, Q x]"
  by (induction xs) auto

lemma guest_store_found:
  assumes "0x100 \<le> unat (au_size s)" and "off \<in> set write_offsets" and "synced (au_shared s) shadow"
  shows "guest_writes (reg_at (stored s off v)) shadow = seen_writes (au_shared s) off v"
proof -
  let ?m = "au_shared s" and ?w = "reg_at (stored s off v)" and ?sel = VIRTIO_MMIO_QUEUE_SEL
  note at = stored_at [OF assms(1,2), where v = v]
  have sel: "?w ?sel = (if off = ?sel then v else reg_at ?m ?sel)"
    using at [OF distinct_write_offsets(2)] queue_offsets_set(3) by simp
  have "guest_writes ?w shadow = [(o', ?w o'). o' \<leftarrow> write_offsets, ?w o' \<noteq> reg_at ?m o' \<and>
      \<not> (o' \<in> set queue_offsets \<and> ?w ?sel \<noteq> reg_at ?m ?sel)]"
    using assms(3) by (simp add: synced_def guest_writes_map queue_offsets_set(1))
  also have "\<dots> = seen_writes ?m off v"
  proof (cases "v = reg_at ?m off")
    case True
    then have "[(o', ?w o'). o' \<leftarrow> write_offsets, ?w o' \<noteq> reg_at ?m o' \<and> \<not> (o' \<in> set queue_offsets \<and> ?w ?sel \<noteq> reg_at ?m ?sel)] =
        [(o', 0). o' \<leftarrow> write_offsets, off = ?sel \<and> o' \<in> set queue_offsets \<and> reg_at ?m o' \<noteq> 0]"
    proof (intro comprehension_cong)
      fix o' assume o': "o' \<in> set write_offsets"
      show "(?w o' \<noteq> reg_at ?m o' \<and> \<not> (o' \<in> set queue_offsets \<and> ?w ?sel \<noteq> reg_at ?m ?sel)) =
          (off = ?sel \<and> o' \<in> set queue_offsets \<and> reg_at ?m o' \<noteq> 0) \<and>
        (off = ?sel \<and> o' \<in> set queue_offsets \<and> reg_at ?m o' \<noteq> 0 \<longrightarrow> (o', ?w o') = (o', 0))"
        unfolding sel at [OF o'] using True by auto
    qed
    with True show ?thesis by (cases "off = ?sel") (simp_all add: seen_writes_def)
  next
    case False
    then have "[(o', ?w o'). o' \<leftarrow> write_offsets, ?w o' \<noteq> reg_at ?m o' \<and> \<not> (o' \<in> set queue_offsets \<and> ?w ?sel \<noteq> reg_at ?m ?sel)] =
        [(off, ?w off)]"
    proof (intro pick_one distinct_write_offsets assms(2))
      fix o' assume o': "o' \<in> set write_offsets"
      show "(?w o' \<noteq> reg_at ?m o' \<and> \<not> (o' \<in> set queue_offsets \<and> ?w ?sel \<noteq> reg_at ?m ?sel)) = (o' = off)"
        unfolding sel at [OF o'] using False queue_offsets_set(3) by auto
    qed
    moreover have "?w off = v" unfolding at [OF assms(2)] using queue_offsets_set(3) by auto
    ultimately show ?thesis using False by (simp add: seen_writes_def)
  qed
  finally show ?thesis .
qed

end
