(* ===== verification/Uio_Link.thy ===== *)
theory Uio_Link
  imports Qemu_Uio
begin

unbundle bit_operations_syntax

text \<open>
  The two machines of the UIO mode together: the guest's QEMU, the QEMU of the machine that runs the
  daemon, and the daemon's event loop over the shared window. Register stores, register reads,
  notifications and interrupt acknowledgements of the guest, from the access of its virtual processor to
  the device model and back.
\<close>

section \<open>The machine of the daemon\<close>

record 'o backend =
  bk_qemu :: "u16 list axi_uio"
  bk_daemon :: "('o, uio_state) daemon"
  bk_shadow :: "u32 list"

text \<open>This machine's control messages go to the guest's QEMU: \<open>au_far\<close> collects them.\<close>

definition to_frontend :: "u16 list far_end" where
  "to_frontend kind m out = Some ([], m, out @ [kind])"

text \<open>
  What this machine does on a control message. An edge of its interrupt line ends the daemon's wait for
  the UIO interrupt, and a turn of the event loop runs on the shared window. The store of a pending
  level into the interrupt control word is the access \<open>axi_uio_write\<close> of this machine's QEMU. A daemon that
  returns from the turn with a failure has left the event loop and sends nothing. The answers are on
  the socket when the guest's QEMU starts to wait for them, that is, before its deadline; the case of a message
  that is handled only after the next one has been sent is \<open>late\<close> in \<open>Uio_Guest\<close>.
\<close>

definition backend_react :: "nat \<Rightarrow> ('o, uio_state) daemon fabric_device \<Rightarrow> 'o backend far_end" where
  "backend_react n dev kind m bk =
     (let q = axi_control_event (Arrives kind) ((bk_qemu bk)\<lparr>au_shared := m, au_far := []\<rparr>) in
      if au_irq_edges q = au_irq_edges (bk_qemu bk) then Some ([], m, bk\<lparr>bk_qemu := q\<rparr>)
      else case uio_turn_level n dev (Interrupt (\<lambda>(_, d). (m, d)) (\<lambda>_. id)) (bk_shadow bk) (bk_daemon bk) of
        (OK (sh, level), d) \<Rightarrow>
          let q1 = q\<lparr>au_shared := um_mem (us_mmio (dm_fab d))\<rparr>;
              q2 = (if level < 0 then q1
                    else axi_uio_write to_frontend (uc_irq_control_offset (us_config (dm_fab d))) (if level \<noteq> 0 then 1 else 0) 4 q1)
          in Some (map Arrives (au_far q2), au_shared q2, \<lparr>bk_qemu = q2, bk_daemon = d, bk_shadow = sh\<rparr>)
      | (_, d) \<Rightarrow> Some ([], um_mem (us_mmio (dm_fab d)), bk\<lparr>bk_qemu := q, bk_daemon := d\<rparr>))"

definition backend_ok :: "'w axi_uio \<Rightarrow> bool" where
  "backend_ok q \<longleftrightarrow> au_role q = AXI_ROLE_MASTER \<and> au_control_fd q \<and> au_irq_wired q \<and> \<not> au_irq q \<and> 0x204 \<le> unat (au_size q)"

definition frontend_ok :: "'w axi_uio \<Rightarrow> bool" where
  "frontend_ok s \<longleftrightarrow> au_role s = AXI_ROLE_SLAVE \<and> au_notify_ack s \<and> au_control_fd s \<and> au_irq_wired s \<and> au_inbox s = [] \<and>
     \<not> au_async_pending s \<and> 0x200 \<le> unat (au_size s)"

lemma backend_ok_update [simp]:
  "backend_ok (q\<lparr>au_shared := m\<rparr>) = backend_ok q" "backend_ok (q\<lparr>au_irq_edges := k\<rparr>) = backend_ok q"
  "backend_ok (r\<lparr>au_far := w\<rparr>) = backend_ok r"
  by (simp_all add: backend_ok_def)

text \<open>The messages of a turn.\<close>

definition turn_messages :: "int \<Rightarrow> control_event list" where
  "turn_messages level =
     (if level < 0 then []
      else [Arrives (if level \<noteq> 0 then AXI_MSG_FRONTEND_IRQ_ASSERT else AXI_MSG_FRONTEND_IRQ_DEASSERT),
            Arrives AXI_MSG_FRONTEND_NOTIFY_ACK])"

lemma mem_write_same: "reg_at m off = v \<Longrightarrow> mem_write m off (virtio_store_le32 v) = m"
proof
  fix x assume "reg_at m off = v"
  then have "virtio_store_le32 v = mem_read m off 4" unfolding reg_at_def by (metis length_mem_read store_load_le32)
  moreover have "m (off + of_nat (unat (x - off))) = m x" by simp
  ultimately show "mem_write m off (virtio_store_le32 v) x = m x" by (simp add: mem_write_def)
qed

lemma take_store_le64: "take 4 (virtio_store_le64 (ucast v)) = virtio_store_le32 v"
  by (simp add: virtio_store_le64_def)

lemma master_store:
  assumes "backend_ok q" and "reg_at (au_shared q) 0x200 = v"
  shows "axi_uio_write to_frontend 0x200 (ucast v) 4 q =
    q\<lparr>au_far := au_far q @ [if v \<noteq> 0 then AXI_MSG_FRONTEND_IRQ_ASSERT else AXI_MSG_FRONTEND_IRQ_DEASSERT, AXI_MSG_FRONTEND_NOTIFY_ACK]\<rparr>"
proof -
  have "\<not> 0x200 + 4 > au_size q" using assms(1) by (simp add: backend_ok_def word_less_nat_alt)
  moreover have "(ucast v = (0 :: u64)) = (v = 0)" by (metis ucast_0 ucast_back)
  moreover have "q\<lparr>au_shared := au_shared q\<rparr> = q" "q\<lparr>au_inbox := au_inbox q\<rparr> = q" by (cases q, simp)+
  ultimately show ?thesis
    using assms mem_write_same [OF assms(2)]
    by (simp add: axi_uio_write_def take_store_le64 backend_ok_def AXI_CONTROL_IRQ_OFFSET_def axi_control_send_def to_frontend_def Let_def)
qed

lemma react_turn:
  assumes "backend_ok (bk_qemu bk)"
    and "uio_turn_level n dev (Interrupt (\<lambda>(_, d). (m, d)) (\<lambda>_. id)) (bk_shadow bk) (bk_daemon bk) = (OK (sh, level), d)"
    and "uc_irq_control_offset (us_config (dm_fab d)) = 0x200"
    and "0 \<le> level \<longrightarrow> reg_value (dm_fab d) 0x200 = (if level \<noteq> 0 then 1 else 0)"
  shows "\<exists>q. backend_react n dev AXI_MSG_FRONTEND_NOTIFY m bk =
      Some (turn_messages level, um_mem (us_mmio (dm_fab d)), \<lparr>bk_qemu = q, bk_daemon = d, bk_shadow = sh\<rparr>) \<and> backend_ok q"
proof -
  let ?q = "(bk_qemu bk)\<lparr>au_far := [], au_irq_edges := Suc (au_irq_edges (bk_qemu bk)), au_shared := um_mem (us_mmio (dm_fab d))\<rparr>"
  have q: "axi_control_event (Arrives AXI_MSG_FRONTEND_NOTIFY) ((bk_qemu bk)\<lparr>au_shared := m, au_far := []\<rparr>) =
      ?q\<lparr>au_shared := m\<rparr>"
    using assms(1) by (cases "bk_qemu bk") (simp add: axi_control_event_def uio_set_irq_def backend_ok_def)
  have ok: "backend_ok ?q" using assms(1) by simp
  show ?thesis
  proof (cases "level < 0")
    case True
    with assms(1,2) show ?thesis by (simp add: backend_react_def q Let_def turn_messages_def)
  next
    case False
    let ?v = "if level \<noteq> 0 then 1 else 0 :: u32"
    have "reg_at (au_shared ?q) 0x200 = ?v" using assms(4) False by (simp add: reg_value_at)
    from master_store [OF ok this] have
      w: "axi_uio_write to_frontend 0x200 (if level \<noteq> 0 then 1 else 0) 4 ?q =
        ?q\<lparr>au_far := [if level \<noteq> 0 then AXI_MSG_FRONTEND_IRQ_ASSERT else AXI_MSG_FRONTEND_IRQ_DEASSERT, AXI_MSG_FRONTEND_NOTIFY_ACK]\<rparr>"
      by (cases "level = 0") simp_all
    from False assms w show ?thesis by (simp add: backend_react_def q Let_def turn_messages_def)
  qed
qed

section \<open>The guest's machine\<close>

lemma frontend_distinct [simp]:
  "AXI_MSG_FRONTEND_IRQ_ASSERT \<noteq> AXI_MSG_FRONTEND_NOTIFY" "AXI_MSG_FRONTEND_IRQ_DEASSERT \<noteq> AXI_MSG_FRONTEND_NOTIFY"
  "AXI_MSG_FRONTEND_NOTIFY_ACK \<noteq> AXI_MSG_FRONTEND_NOTIFY" "AXI_MSG_FRONTEND_IRQ_DEASSERT \<noteq> AXI_MSG_FRONTEND_IRQ_ASSERT"
  "AXI_MSG_FRONTEND_IRQ_ASSERT \<noteq> AXI_MSG_FRONTEND_NOTIFY_ACK" "AXI_MSG_FRONTEND_IRQ_DEASSERT \<noteq> AXI_MSG_FRONTEND_NOTIFY_ACK"
  "AXI_MSG_FRONTEND_NOTIFY_ACK \<noteq> AXI_MSG_FRONTEND_IRQ_ASSERT" "AXI_MSG_FRONTEND_NOTIFY_ACK \<noteq> AXI_MSG_FRONTEND_IRQ_DEASSERT"
  by (simp_all add: frontend_kinds)

lemma handle_two: "handle_events 2 s = axi_control_read (axi_control_read s)"
  by (simp add: numeral_2_eq_2)

lemma slave_fits: "frontend_ok s \<Longrightarrow> unat off + 4 \<le> 0x200 \<Longrightarrow> \<not> off + 4 > au_size s"
proof -
  assume "frontend_ok s" and o: "unat off + 4 \<le> 0x200"
  moreover from o have "unat (off + 4) = unat off + 4" by (simp add: unat_word_ariths)
  ultimately show ?thesis by (simp add: frontend_ok_def word_less_nat_alt)
qed

lemma write_offsets_fit: "off \<in> set write_offsets \<Longrightarrow> unat off + 4 \<le> 0x200"
  by (auto simp: write_offsets_def vm_simps)

lemma slave_store:
  assumes "frontend_ok s" and "off \<in> set write_offsets" and "axi_uio_write_needs_backend s off"
  shows "axi_uio_write F off (ucast v) 4 s =
    (if au_policy s = AXI_NOTIFY_POLICY_BARRIER \<and> off = VIRTIO_MMIO_QUEUE_NOTIFY
     then axi_uio_notify_backend_async F (s\<lparr>au_shared := stored s off v\<rparr>)
     else axi_uio_notify_backend F (s\<lparr>au_shared := stored s off v\<rparr>))"
  using slave_fits [OF assms(1) write_offsets_fit [OF assms(2)]] assms(1,3)
  by (simp add: axi_uio_write_def frontend_ok_def stored_def Let_def take_store_le64)

lemma notify_run:
  assumes "frontend_ok s" and "F AXI_MSG_FRONTEND_NOTIFY (au_shared s) (au_far s) = Some (es, m, w)"
  shows "axi_uio_notify_backend F s = await_ack es (s\<lparr>au_inbox := es, au_shared := m, au_far := w\<rparr>)"
  using assms by (simp add: axi_uio_notify_backend_def axi_wait_for_notify_ack_def axi_control_send_def frontend_ok_def)

lemma notify_run_level:
  assumes "frontend_ok s" and "F AXI_MSG_FRONTEND_NOTIFY (au_shared s) (au_far s) = Some (turn_messages level, m, w)"
  defines "t \<equiv> axi_uio_notify_backend F s"
  shows "au_shared t = m" and "au_far t = w" and "frontend_ok t" and "au_irq t = (if level < 0 then au_irq s else level \<noteq> 0)"
    and "au_policy t = au_policy s" and "au_size t = au_size s"
  using notify_run [where F = F, OF assms(1,2)] assms(1)
  by (auto simp: t_def turn_messages_def frontend_ok_def uio_set_irq_def)

text \<open>A notification, with either policy: at once, or when the main loop has handled what came back.\<close>

lemma notify_answered:
  assumes "frontend_ok s" and "0 \<le> level"
    and "F AXI_MSG_FRONTEND_NOTIFY (stored s VIRTIO_MMIO_QUEUE_NOTIFY v) (au_far s) = Some (turn_messages level, m, w)"
  defines "t \<equiv> handle_events 2 (axi_uio_write F VIRTIO_MMIO_QUEUE_NOTIFY (ucast v) 4 s)"
  shows "au_shared t = m \<and> au_far t = w \<and> frontend_ok t \<and> au_irq t = (level \<noteq> 0)"
proof -
  let ?s = "s\<lparr>au_shared := stored s VIRTIO_MMIO_QUEUE_NOTIFY v\<rparr>"
  have ok: "frontend_ok ?s" using assms(1) by (simp add: frontend_ok_def)
  have w: "axi_uio_write F VIRTIO_MMIO_QUEUE_NOTIFY (ucast v) 4 s =
    (if au_policy s = AXI_NOTIFY_POLICY_BARRIER then axi_uio_notify_backend_async F ?s else axi_uio_notify_backend F ?s)"
    by (subst slave_store [OF assms(1) distinct_write_offsets(3)])
      (simp_all add: axi_uio_write_needs_backend_def axi_barrier_offsets_def)
  show ?thesis
  proof (cases "au_policy s = AXI_NOTIFY_POLICY_BARRIER")
    case True
    with w assms(1-3) show ?thesis
      by (cases "level = 0") (auto simp: t_def axi_uio_notify_backend_async_def frontend_ok_def axi_control_send_def turn_messages_def Let_def
          handle_two axi_control_read_def axi_control_event_def uio_set_irq_def)
  next
    case False
    let ?t = "axi_uio_notify_backend F ?s"
    have "F AXI_MSG_FRONTEND_NOTIFY (au_shared ?s) (au_far ?s) = Some (turn_messages level, m, w)" using assms(3) by simp
    note r = notify_run_level [where F = F, OF ok this]
    have "handle_events 2 ?t = ?t" using r(3) by (simp add: handle_two axi_control_read_def frontend_ok_def)
    with r w False assms(2) show ?thesis by (simp add: t_def)
  qed
qed

section \<open>The link\<close>

lemma window_acts: "guest_acts (\<lambda>(_, d). (m, d)) g = g\<lparr>us_mmio := (us_mmio g)\<lparr>um_mem := m\<rparr>\<rparr>"
  by (cases g) (simp add: guest_acts_def)

lemma window_facts [simp]:
  "uio_live (g\<lparr>us_mmio := x\<rparr>) = uio_live g" "uio_ram (g\<lparr>us_mmio := x\<rparr>) = uio_ram g" "uio_reach (g\<lparr>us_mmio := x\<rparr>) = uio_reach g"
  "window_ok dev (g\<lparr>us_mmio := (us_mmio g)\<lparr>um_mem := m\<rparr>\<rparr>) = window_ok dev g"
  "reg_value (g\<lparr>us_mmio := (us_mmio g)\<lparr>um_mem := m\<rparr>\<rparr>) = reg_at m"
  by (auto simp: uio_live_def uio_ram_def uio_reach_def window_ok_def fun_eq_iff reg_value_at)

text \<open>The daemon behind the link, and its state when it looks at the window \<open>m\<close>.\<close>

abbreviation daemon_of :: "'o backend axi_uio \<Rightarrow> ('o, uio_state) daemon" where
  "daemon_of s \<equiv> bk_daemon (au_far s)"

definition put_window :: "memory \<Rightarrow> ('o, uio_state) daemon \<Rightarrow> ('o, uio_state) daemon" where
  "put_window m d = d\<lparr>dm_fab := (dm_fab d)\<lparr>us_mmio := (us_mmio (dm_fab d))\<lparr>um_mem := m\<rparr>\<rparr>\<rparr>"

lemma put_window_simps [simp]:
  "dm_mmio (put_window m d) = dm_mmio d" "dm_host (put_window m d) = dm_host d"
  "dm_fab (put_window m d) = (dm_fab d)\<lparr>us_mmio := (us_mmio (dm_fab d))\<lparr>um_mem := m\<rparr>\<rparr>"
  by (simp_all add: put_window_def)

text \<open>
  Both machines are connected, the daemon has mapped the window with its interrupt control word and is
  waiting; it has seen all stores of the guest and the window shows the status it has.
\<close>

definition linked :: "'s fabric_device \<Rightarrow> 'o backend axi_uio \<Rightarrow> bool" where
  "linked dev s \<longleftrightarrow> frontend_ok s \<and> backend_ok (bk_qemu (au_far s)) \<and> synced (au_shared s) (bk_shadow (au_far s)) \<and>
     reg_at (au_shared s) VIRTIO_MMIO_STATUS = vd_status (dm_vdev (daemon_of s)) \<and>
     reg_at (au_shared s) VIRTIO_MMIO_QUEUE_NOTIFY = UIO_NOTIFY_IDLE \<and> reg_at (au_shared s) VIRTIO_MMIO_INTERRUPT_ACK = 0 \<and>
     (let g = dm_fab (daemon_of s) in window_ok dev g \<and> uc_irq_control_offset (us_config g) = 0x200 \<and>
        0x204 \<le> unat (um_size (us_mmio g)) \<and> us_pending_irq_level g < 0)"

lemma synced_length: "synced m shadow \<Longrightarrow> length shadow = 15"
  by (simp add: synced_def)

text \<open>What the guest's store of queue number 0 looks like to the scan.\<close>

lemma notify_found:
  assumes "linked dev s"
  shows "guest_writes (reg_at (stored s VIRTIO_MMIO_QUEUE_NOTIFY 0)) (bk_shadow (au_far s)) = [(VIRTIO_MMIO_QUEUE_NOTIFY, 0)]"
proof -
  have "seen_writes (au_shared s) VIRTIO_MMIO_QUEUE_NOTIFY 0 = [(VIRTIO_MMIO_QUEUE_NOTIFY, 0)]"
    using assms by (simp add: seen_writes_def linked_def UIO_NOTIFY_IDLE_def)
  with guest_store_found [OF _ distinct_write_offsets(3), of s "bk_shadow (au_far s)" 0] assms show ?thesis
    by (simp add: linked_def frontend_ok_def)
qed

section \<open>A turn of the daemon\<close>

lemma turn_delivers:
  assumes "window_ok (uio_blkd dr n b path) (dm_fab d)" and "length shadow = 15"
    and "deliver (uio_blkd dr n b path) (guest_writes (reg_at m) shadow) (put_window m d) = (OK (), u)"
  shows "uio_turn_level n (uio_blkd dr n b path) (Interrupt (\<lambda>(_, d). (m, d)) (\<lambda>_. id)) shadow d =
    bnd (turn_tail n (uio_blkd dr n b path)) (\<lambda>level. ret (scanned_shadow (reg_at m) shadow, level)) u"
proof -
  let ?dev = "uio_blkd dr n b path"
  have "poll_write_registers (\<lambda>_. id) ?dev shadow write_offsets (put_window m d) = (OK (scanned_shadow (reg_at m) shadow), u)"
    using poll_run [OF uio_blkd_keeps_window _ _ assms(2), of dr n b path "put_window m d"] assms(1,3) by (simp add: uio_blkd_size bnd_OK)
  moreover have "d\<lparr>dm_fab := guest_acts (\<lambda>(_, d). (m, d)) (dm_fab d)\<rparr> = put_window m d"
    by (simp add: window_acts put_window_def)
  ultimately show ?thesis
    by (simp add: uio_turn_level_def wait_for_uio_interrupt_def guest_window_def bnd_OK)
qed

lemma write_offsets_word:
  assumes "off \<in> set write_offsets"
  shows "4 dvd unat off" and "unat off < 0x200" and "off \<in> set refreshed \<longleftrightarrow> off = VIRTIO_MMIO_STATUS"
proof -
  show "4 dvd unat off" "unat off < 0x200" using assms by (auto simp: write_offsets_def vm_simps)
  have "off \<notin> set (config_words 64)"
    using unat_config_word [of off] assms by (auto simp: write_offsets_def vm_simps)
  then show "off \<in> set refreshed \<longleftrightarrow> off = VIRTIO_MMIO_STATUS"
    using assms by (auto simp: refreshed_def published_registers_def write_offsets_def vm_simps)
qed

lemma settle_status: "settle VIRTIO_MMIO_STATUS v = v"
  by (simp add: settle_def) (simp add: vm_simps)

lemma scanned_synced:
  assumes "synced m0 shadow" and "\<And>off. off \<in> set write_offsets \<Longrightarrow>
    reg_at w off = (if reg_at m off = reg_at m0 off then reg_at m off else settle off (reg_at m off))"
  shows "synced w (scanned_shadow (reg_at m) shadow)"
proof -
  have "map2 f xs (map g xs) = map (\<lambda>x. f x (g x)) xs" for f :: "u64 \<Rightarrow> u32 \<Rightarrow> u32" and g xs
    by (induction xs) simp_all
  then show ?thesis using assms by (simp add: synced_def scanned_shadow_def)
qed

abbreviation blk_ops :: "bool \<Rightarrow> nat \<Rightarrow> (blkd_virtio_device, uio_state blkd) virtio_device_ops" where
  "blk_ops dr n \<equiv> blkd_virtio_ops (uio_ops (\<lambda>_. id)) dr n"

text \<open>Registers whose stores only change the transport and the device model.\<close>

definition config_store :: "u64 \<times> u32 \<Rightarrow> bool" where
  "config_store w \<longleftrightarrow> fst w \<in> set write_offsets \<and> fst w \<noteq> VIRTIO_MMIO_QUEUE_NOTIFY \<and> fst w \<noteq> VIRTIO_MMIO_INTERRUPT_ACK \<and>
     w \<noteq> (VIRTIO_MMIO_STATUS, 0)"

lemma ucast_zero: "(ucast (v :: u32) = (0 :: u64)) = (v = 0)"
  by (metis ucast_0 ucast_back)

lemma deliver_config:
  assumes "\<forall>w \<in> set ws. config_store w"
  shows "deliver (uio_blkd dr n b path) ws d =
    (OK (), d\<lparr>dm_mmio := virtio_mmio_writes (Some (blk_ops dr n)) (dm_mmio d) (map (\<lambda>(off, v). (off, ucast v)) ws)\<rparr>)"
  using assms
proof (induction ws arbitrary: d)
  case (Cons w ws)
  obtain off v where w: "w = (off, v)" by fastforce
  with Cons.prems have "off \<noteq> VIRTIO_MMIO_QUEUE_NOTIFY" "off \<noteq> VIRTIO_MMIO_INTERRUPT_ACK" "off = VIRTIO_MMIO_STATUS \<longrightarrow> v \<noteq> 0"
    by (auto simp: config_store_def)
  then have "deliver_one (uio_blkd dr n b path) off v d =
      (OK (), d\<lparr>dm_mmio := virtio_mmio_write (Some (blk_ops dr n)) (dm_mmio d) off (ucast v)\<rparr>)"
    by (auto simp: deliver_one_def uio_blkd_write blkd_mmio_write_def driver_mmio_write_def bnd_def ucast_zero)
  note step = bnd_OK [where m = "deliver_one (uio_blkd dr n b path) off v" and s = d and k = "\<lambda>_. deliver (uio_blkd dr n b path) ws", OF this]
  have ws: "\<forall>w \<in> set ws. config_store w" using Cons.prems by simp
  show ?case unfolding w deliver.simps step Cons.IH [OF ws] by (simp del: id_apply)
qed simp

lemma on_queue_status [simp]: "vd_status (vm_vdev (on_queue f mm)) = vd_status (vm_vdev mm)"
  by (simp add: on_queue_def split: option.split)

lemma status_after:
  "off \<noteq> VIRTIO_MMIO_STATUS \<Longrightarrow> vd_status (vm_vdev (virtio_mmio_write ops mm off v)) = vd_status (vm_vdev mm)"
  "(ucast v :: u32) \<noteq> 0 \<Longrightarrow> vd_status (vm_vdev (virtio_mmio_write ops mm VIRTIO_MMIO_STATUS v)) = ucast v"
proof -
  show "vd_status (vm_vdev (virtio_mmio_write ops mm off v)) = vd_status (vm_vdev mm)" if "off \<noteq> VIRTIO_MMIO_STATUS"
    using that by (cases "off \<in> set write_registers") (auto simp: write_registers_def virtio_mmio_write_simps virtio_mmio_write_other)
qed (simp add: virtio_mmio_write_simps)

lemma status_after_all:
  "\<forall>w \<in> set ws. fst w \<noteq> VIRTIO_MMIO_STATUS \<Longrightarrow> vd_status (vm_vdev (virtio_mmio_writes ops mm ws)) = vd_status (vm_vdev mm)"
  by (induction ws arbitrary: mm) (auto simp: status_after)

lemma status_after_seen:
  assumes "config_store (off, v)" and "reg_at m VIRTIO_MMIO_STATUS = vd_status (vm_vdev mm)"
  shows "vd_status (vm_vdev (virtio_mmio_writes ops mm (map (\<lambda>(off, v). (off, ucast v)) (seen_writes m off v)))) =
    (if off = VIRTIO_MMIO_STATUS then v else vd_status (vm_vdev mm))"
proof (cases "v = reg_at m off")
  case True
  then have "\<forall>w \<in> set (map (\<lambda>(off, v). (off, ucast v :: u64)) (seen_writes m off v)). fst w \<noteq> VIRTIO_MMIO_STATUS"
    using queue_offsets_set(6) by (auto simp: seen_writes_def)
  then show ?thesis using True assms(2) by (simp only: status_after_all) auto
next
  case False
  have "(ucast (ucast v :: u64) :: u32) \<noteq> 0" if "off = VIRTIO_MMIO_STATUS" using that assms(1) by (simp add: config_store_def)
  with False show ?thesis using status_after(1) [of off ops mm "ucast v"] status_after(2) [of "ucast v" ops mm] by (auto simp: seen_writes_def)
qed

lemma blkd_reads_status_reg: "blkd_mmio_read F dr n VIRTIO_MMIO_STATUS 4 s = ucast (vd_status (dm_vdev s))"
  unfolding blkd_mmio_read_def driver_mmio_read_def virtio_mmio_read_def vm_simps Let_def mask_read_def
  by (simp add: mask32_numeral) (rule bit_word_eqI, auto simp: bit_simps dest: bit_imp_le_length)

lemma seen_config: "config_store (off, v) \<Longrightarrow> \<forall>w \<in> set (seen_writes m off v). config_store w"
  using queue_offsets_set by (auto simp: seen_writes_def config_store_def)

text \<open>A turn of the daemon on the window \<open>m\<close>, when the device's callbacks leave \<open>u\<close>.\<close>

definition callbacks_leave :: "uio_state blkd fabric_device \<Rightarrow> 'w axi_uio \<Rightarrow> memory \<Rightarrow> uio_state blkd \<Rightarrow> u32 list \<Rightarrow> uio_state blkd \<Rightarrow> bool" where
  "callbacks_leave dev s m d shadow u \<longleftrightarrow> deliver dev (guest_writes (reg_at m) shadow) (put_window m d) = (OK (), u) \<and>
     window_ok dev (dm_fab u) \<and> us_config (dm_fab u) = us_config (dm_fab d) \<and> um_size (us_mmio (dm_fab u)) = um_size (us_mmio (dm_fab d)) \<and>
     vd_status (dm_vdev u) = reg_at m VIRTIO_MMIO_STATUS \<and>
     reg_value (dm_fab u) VIRTIO_MMIO_QUEUE_NOTIFY = UIO_NOTIFY_IDLE \<and> reg_value (dm_fab u) VIRTIO_MMIO_INTERRUPT_ACK = 0 \<and>
     (\<forall>off \<in> set write_offsets. reg_value (dm_fab u) off =
        (if reg_at m off = reg_at (au_shared s) off then reg_at m off else settle off (reg_at m off)))"

lemma turn_result:
  assumes "linked (uio_blkd dr n b path) s" and "64 < n" and d: "d = daemon_of s" and sh: "shadow = bk_shadow (au_far s)"
    and u: "callbacks_leave (uio_blkd dr n b path) s m d shadow u" and level: "level = us_pending_irq_level (dm_fab u)"
  shows "\<exists>e. uio_turn_level n (uio_blkd dr n b path) (Interrupt (\<lambda>(_, d). (m, d)) (\<lambda>_. id)) shadow d =
      (OK (scanned_shadow (reg_at m) shadow, level), e) \<and> dm_mmio e = dm_mmio u \<and> dm_host e = dm_host u \<and>
    uio_ram (dm_fab e) = uio_ram (dm_fab u) \<and> window_ok (uio_blkd dr n b path) (dm_fab e) \<and>
    uc_irq_control_offset (us_config (dm_fab e)) = 0x200 \<and> 0x204 \<le> unat (um_size (us_mmio (dm_fab e))) \<and> us_pending_irq_level (dm_fab e) < 0 \<and>
    (0 \<le> level \<longrightarrow> reg_value (dm_fab e) 0x200 = (if level \<noteq> 0 then 1 else 0)) \<and>
    (\<forall>off. 4 dvd unat off \<longrightarrow> unat off < 0x200 \<longrightarrow> reg_value (dm_fab e) off =
       (if off \<in> set refreshed then ucast (blkd_mmio_read (uio_ops (\<lambda>_. id)) dr n off 4 e) else reg_value (dm_fab u) off))"
proof -
  let ?dev = "uio_blkd dr n b path"
  have len: "length shadow = 15" and g: "window_ok ?dev (dm_fab d)" "uc_irq_control_offset (us_config (dm_fab d)) = 0x200"
    "0x204 \<le> unat (um_size (us_mmio (dm_fab d)))"
    using assms(1) d sh synced_length by (auto simp add: linked_def Let_def)
  have c: "deliver ?dev (guest_writes (reg_at m) shadow) (put_window m d) = (OK (), u)" "window_ok ?dev (dm_fab u)"
    "us_config (dm_fab u) = us_config (dm_fab d)" "um_size (us_mmio (dm_fab u)) = um_size (us_mmio (dm_fab d))"
    using u by (simp_all add: callbacks_leave_def)
  have "0x200 = uc_irq_control_offset (us_config (dm_fab u))" "4 dvd unat (0x200 :: u64)" "0x200 \<le> unat (0x200 :: u64)"
    "unat (0x200 :: u64) + 4 \<le> unat (um_size (us_mmio (dm_fab u)))" using g c by simp_all
  from tail_run [OF uio_blkd_reads uio_blkd_size c(2) assms(2) level [symmetric] this] obtain e where
    e: "turn_tail n ?dev u = (OK level, e)" "dm_mmio e = dm_mmio u" "dm_host e = dm_host u" "uio_ram (dm_fab e) = uio_ram (dm_fab u)"
    "window_ok ?dev (dm_fab e)" "us_config (dm_fab e) = us_config (dm_fab u)" "um_size (us_mmio (dm_fab e)) = um_size (us_mmio (dm_fab u))"
    "us_pending_irq_level (dm_fab e) < 0" "0 \<le> level \<longrightarrow> reg_value (dm_fab e) 0x200 = (if level \<noteq> 0 then 1 else 0)"
    "\<forall>off. 4 dvd unat off \<longrightarrow> unat off < 0x200 \<longrightarrow> reg_value (dm_fab e) off =
       (if off \<in> set refreshed then ucast (blkd_mmio_read (uio_ops (\<lambda>_. id)) dr n off 4 u) else reg_value (dm_fab u) off)"
    by blast
  have "uio_turn_level n ?dev (Interrupt (\<lambda>(_, d). (m, d)) (\<lambda>_. id)) shadow d = (OK (scanned_shadow (reg_at m) shadow, level), e)"
    unfolding turn_delivers [OF g(1) len c(1)] by (subst bnd_OK, rule e(1)) simp
  moreover have "blkd_mmio_read (uio_ops (\<lambda>_. id)) dr n off 4 u = blkd_mmio_read (uio_ops (\<lambda>_. id)) dr n off 4 e" for off
    using e(2) by (simp add: blkd_mmio_read_def driver_mmio_read_def)
  note regs = e(10) [unfolded this]
  moreover have "uc_irq_control_offset (us_config (dm_fab e)) = 0x200" "0x204 \<le> unat (um_size (us_mmio (dm_fab e)))"
    using e(6,7) g c by simp_all
  ultimately show ?thesis using e(2-5,8,9) regs by blast
qed

text \<open>The same turn, seen from the guest's machine, which has \<open>m\<close> in the window when it notifies.\<close>

lemma link_turn:
  assumes "linked (uio_blkd dr n b path) s" and "64 < n" and u: "callbacks_leave (uio_blkd dr n b path) s m (daemon_of s) (bk_shadow (au_far s)) u"
    and level: "level = us_pending_irq_level (dm_fab u)"
    and t: "t = axi_uio_notify_backend (backend_react n (uio_blkd dr n b path)) (s\<lparr>au_shared := m\<rparr>)"
  shows "linked (uio_blkd dr n b path) t" and "dm_mmio (daemon_of t) = dm_mmio u" and "au_irq t = (if level < 0 then au_irq s else level \<noteq> 0)"
    and "\<And>off. off \<in> set refreshed \<Longrightarrow> reg_at (au_shared t) off = ucast (blkd_mmio_read (uio_ops (\<lambda>_. id)) dr n off 4 (daemon_of t))"
    and "backend_react n (uio_blkd dr n b path) AXI_MSG_FRONTEND_NOTIFY m (au_far s) = Some (turn_messages level, au_shared t, au_far t)"
    and "uio_ram (dm_fab (daemon_of t)) = uio_ram (dm_fab u)" and "dm_host (daemon_of t) = dm_host u"
    and "\<And>off. off \<in> set write_offsets \<Longrightarrow> reg_at (au_shared t) off = reg_value (dm_fab u) off"
    and "au_policy t = au_policy s" and "au_size t = au_size s"
proof -
  let ?dev = "uio_blkd dr n b path" and ?sh = "scanned_shadow (reg_at m) (bk_shadow (au_far s))"
  have l: "frontend_ok s" "backend_ok (bk_qemu (au_far s))" "synced (au_shared s) (bk_shadow (au_far s))"
    using assms(1) by (simp_all add: linked_def Let_def)
  obtain e where turn: "uio_turn_level n ?dev (Interrupt (\<lambda>(_, d). (m, d)) (\<lambda>_. id)) (bk_shadow (au_far s)) (daemon_of s) = (OK (?sh, level), e)"
    and e: "dm_mmio e = dm_mmio u" "dm_host e = dm_host u" "uio_ram (dm_fab e) = uio_ram (dm_fab u)" "window_ok ?dev (dm_fab e)"
    "uc_irq_control_offset (us_config (dm_fab e)) = 0x200" "0x204 \<le> unat (um_size (us_mmio (dm_fab e)))" "us_pending_irq_level (dm_fab e) < 0"
    and irq: "0 \<le> level \<longrightarrow> reg_value (dm_fab e) 0x200 = (if level \<noteq> 0 then 1 else 0)"
    and regs: "\<forall>off. 4 dvd unat off \<longrightarrow> unat off < 0x200 \<longrightarrow> reg_value (dm_fab e) off =
       (if off \<in> set refreshed then ucast (blkd_mmio_read (uio_ops (\<lambda>_. id)) dr n off 4 e) else reg_value (dm_fab u) off)"
    using turn_result [OF assms(1,2) refl refl u level] by auto
  let ?w = "um_mem (us_mmio (dm_fab e))"
  from react_turn [OF l(2) turn e(5) irq] obtain q where
    r: "backend_react n ?dev AXI_MSG_FRONTEND_NOTIFY m (au_far s) = Some (turn_messages level, ?w, \<lparr>bk_qemu = q, bk_daemon = e, bk_shadow = ?sh\<rparr>)"
    and q: "backend_ok q" by auto
  have ok: "frontend_ok (s\<lparr>au_shared := m\<rparr>)" using l(1) by (simp add: frontend_ok_def)
  have "backend_react n ?dev AXI_MSG_FRONTEND_NOTIFY (au_shared (s\<lparr>au_shared := m\<rparr>)) (au_far (s\<lparr>au_shared := m\<rparr>)) =
      Some (turn_messages level, ?w, \<lparr>bk_qemu = q, bk_daemon = e, bk_shadow = ?sh\<rparr>)" using r by simp
  note run = notify_run_level [where F = "backend_react n ?dev", OF ok this, folded t]
  have st: "reg_at ?w VIRTIO_MMIO_STATUS = vd_status (dm_vdev e)"
    using regs write_offsets_word [OF distinct_write_offsets(4)] by (auto simp: reg_value_at blkd_reads_status_reg)
  have "reg_value (dm_fab u) VIRTIO_MMIO_STATUS = vd_status (dm_vdev u)"
    using u distinct_write_offsets(4) by (simp add: callbacks_leave_def settle_status)
  then have win: "reg_at ?w off = reg_value (dm_fab u) off" if "off \<in> set write_offsets" for off
    using regs write_offsets_word [OF that] st e(1) by (cases "off = VIRTIO_MMIO_STATUS") (auto simp: reg_value_at)
  have "synced ?w ?sh" using u win by (intro scanned_synced [OF l(3)]) (auto simp: callbacks_leave_def)
  moreover have "VIRTIO_MMIO_INTERRUPT_ACK \<in> set write_offsets" by (simp add: write_offsets_def)
  ultimately show "linked ?dev t"
    using run l q e u st win [OF distinct_write_offsets(3)] win [of VIRTIO_MMIO_INTERRUPT_ACK] by (simp add: linked_def Let_def callbacks_leave_def)
  show "reg_at (au_shared t) off = ucast (blkd_mmio_read (uio_ops (\<lambda>_. id)) dr n off 4 (daemon_of t))" if "off \<in> set refreshed" for off
    using regs refreshed_dvd [OF that] that run(1,2) by (auto simp: reg_value_at)
  show "dm_mmio (daemon_of t) = dm_mmio u" "au_irq t = (if level < 0 then au_irq s else level \<noteq> 0)" "dm_host (daemon_of t) = dm_host u"
    "uio_ram (dm_fab (daemon_of t)) = uio_ram (dm_fab u)"
    "backend_react n ?dev AXI_MSG_FRONTEND_NOTIFY m (au_far s) = Some (turn_messages level, au_shared t, au_far t)"
    using run r e by simp_all
  show "reg_at (au_shared t) off = reg_value (dm_fab u) off" if "off \<in> set write_offsets" for off
    using win [OF that] run(1) by simp
  show "au_policy t = au_policy s" "au_size t = au_size s" using run(5,6) by simp_all
qed

section \<open>What the callbacks leave\<close>

text \<open>Serving a queue does not touch the status register.\<close>

definition status_is :: "u32 \<Rightarrow> ('o, 'f) daemon \<Rightarrow> bool" where
  "status_is x s \<longleftrightarrow> vd_status (dm_vdev s) = x"

lemma status_parts:
  "keeps (status_is x) (on_fab m)" "keeps (status_is x) (on_host h)" "keeps (status_is x) (dev_queue i)"
  "keeps (status_is x) (modify (upd_queue i k))"
  by (auto simp: keeps_def status_is_def on_fab_def on_host_def dev_queue_def upd_queue_def set_vdev_def split: prod.splits)

lemma status_buffer:
  "keeps (status_is x) (ensure_io_buf len)" "keeps (status_is x) (io_buf_store bs)" "keeps (status_is x) (io_buf_load len)"
  "keeps (status_is x) (block_read pos len)" "keeps (status_is x) (block_write pos bs len)" "keeps (status_is x) block_flush"
  by (auto simp: keeps_def status_is_def ensure_io_buf_def io_buf_store_def io_buf_load_def block_read_def block_write_def block_flush_def
      set_opaque_def set_vdev_def on_host_def Let_def split: prod.splits)

lemmas status_keeps = keeps_bnd keeps_if keeps_option keeps_prod keeps_attempt keeps_basic status_parts status_buffer

lemma status_chain_loop: "keeps (status_is x) (chain_loop F dr q rt off n st dl i seen)"
proof (induction n arbitrary: st dl i seen)
  case (Suc n)
  show ?case
    unfolding chain_loop.simps segment_in_def segment_out_def direct_in_def buffered_in_def
    by (intro status_keeps Suc.IH)
qed simp

lemma status_process_chain: "keeps (status_is x) (process_chain F dr n head)"
  unfolding process_chain_def finish_chain_def Let_def by (intro status_keeps status_chain_loop)

lemma status_service_loop: "keeps (status_is x) (service_loop F (process_chain F dr n) i k used)"
proof (induction k arbitrary: used)
  case (Suc k)
  show ?case unfolding service_loop.simps by (intro status_keeps status_process_chain Suc.IH)
qed simp

lemma status_notify: "keeps (status_is x) (blkd_virtio_notify_queue F dr n q)"
proof -
  have "keeps (status_is x) (ack_notify F)" "keeps (status_is x) (raise_vring F)"
    by (auto simp: keeps_def status_is_def ack_notify_def raise_vring_def bnd_def on_fab_def set_vdev_def split: prod.splits res.splits)
  then show ?thesis
    unfolding blkd_virtio_notify_queue_def service_queue_def blkd_ack_notify_def by (intro status_keeps status_service_loop)
qed

lemma callbacks_config:
  assumes "linked (uio_blkd dr n b path) s" and "guest_writes (reg_at m) (bk_shadow (au_far s)) = ws" and "\<forall>w \<in> set ws. config_store w"
    and mm: "mm = virtio_mmio_writes (Some (blk_ops dr n)) (dm_mmio (daemon_of s)) (map (\<lambda>(off, v). (off, ucast v)) ws)"
    and "reg_at m VIRTIO_MMIO_QUEUE_NOTIFY = UIO_NOTIFY_IDLE" "reg_at m VIRTIO_MMIO_INTERRUPT_ACK = 0"
    and "reg_at m VIRTIO_MMIO_STATUS = vd_status (vm_vdev mm)"
  shows "callbacks_leave (uio_blkd dr n b path) s m (daemon_of s) (bk_shadow (au_far s)) ((put_window m (daemon_of s))\<lparr>dm_mmio := mm\<rparr>)"
  unfolding callbacks_leave_def assms(2) deliver_config [OF assms(3)] mm [symmetric]
  using assms(1,5-7) mm by (auto simp: linked_def Let_def settle_def)

lemma callbacks_notify:
  assumes "linked (uio_blkd dr n b path) s" and "d = daemon_of s" and m: "m = stored s VIRTIO_MMIO_QUEUE_NOTIFY 0"
    and "x = (put_window m d)\<lparr>dm_fab := set_reg VIRTIO_MMIO_QUEUE_NOTIFY UIO_NOTIFY_IDLE (dm_fab (put_window m d))\<rparr>"
    and u: "blkd_virtio_notify_queue (uio_ops (\<lambda>_. id)) dr n 0 x = (OK (), u)"
  shows "callbacks_leave (uio_blkd dr n b path) s m d (bk_shadow (au_far s)) u"
proof -
  let ?dev = "uio_blkd dr n b path" and ?N = VIRTIO_MMIO_QUEUE_NOTIFY
  have l: "synced (au_shared s) (bk_shadow (au_far s))" "window_ok ?dev (dm_fab d)" "0x100 \<le> unat (au_size s)"
    "reg_at (au_shared s) VIRTIO_MMIO_STATUS = vd_status (dm_vdev d)" "reg_at (au_shared s) ?N = UIO_NOTIFY_IDLE"
    "reg_at (au_shared s) VIRTIO_MMIO_INTERRUPT_ACK = 0"
    using assms(1,2) by (simp_all add: linked_def Let_def frontend_ok_def)
  have at: "reg_at m off = (if off = ?N then 0 else reg_at (au_shared s) off)" if "off \<in> set write_offsets" for off
    unfolding m by (subst stored_at [OF l(3) distinct_write_offsets(3) that]) (auto simp: vm_simps)
  have gw: "guest_writes (reg_value (dm_fab (put_window m d))) (bk_shadow (au_far s)) = [(?N, 0)]"
    using notify_found [OF assms(1)] m by simp
  note turn = notify_turn [OF _ synced_length [OF l(1)] gw, where b = b and path = path, OF _ u [unfolded assms(4)]]
  have w: "window_ok ?dev (dm_fab (put_window m d))" using l(2) by simp
  note frame = turn(2-4) [OF w]
  have val: "reg_value (dm_fab u) off = (if off = ?N then UIO_NOTIFY_IDLE else reg_at m off)" if "off \<in> set write_offsets" for off
  proof -
    have "reg_value (dm_fab u) off = reg_value (set_reg ?N UIO_NOTIFY_IDLE (dm_fab (put_window m d))) off"
      by (rule reg_value_window [OF frame(1)])
    also have "\<dots> = (if off = ?N then UIO_NOTIFY_IDLE else reg_at m off)"
      using reg_at_write [OF distinct_write_offsets(3) that] by (simp add: reg_value_at set_reg_def)
    finally show ?thesis .
  qed
  have "status_is (vd_status (dm_vdev d)) x" using assms(4) by (simp add: status_is_def)
  then have "status_is (vd_status (dm_vdev d)) u" using keeps_run [OF status_notify _ u] by blast
  moreover have "window_ok ?dev (dm_fab u)" using w window_ok_window [OF frame(1), of ?dev] by simp
  moreover have "um_size (us_mmio (dm_fab u)) = um_size (us_mmio (dm_fab d))" using frame(1) by simp
  moreover have ne: "VIRTIO_MMIO_INTERRUPT_ACK \<in> set write_offsets" "VIRTIO_MMIO_INTERRUPT_ACK \<noteq> ?N" "VIRTIO_MMIO_STATUS \<noteq> ?N"
    by (simp add: write_offsets_def) (simp_all add: vm_simps)
  moreover have "\<forall>off \<in> set write_offsets. reg_value (dm_fab u) off =
      (if reg_at m off = reg_at (au_shared s) off then reg_at m off else settle off (reg_at m off))"
  proof
    fix off assume "off \<in> set write_offsets"
    then show "reg_value (dm_fab u) off = (if reg_at m off = reg_at (au_shared s) off then reg_at m off else settle off (reg_at m off))"
      using val [of off] at [of off] l(5) by (cases "off = ?N") (simp_all add: settle_def UIO_NOTIFY_IDLE_def)
  qed
  moreover have "reg_value (dm_fab u) ?N = UIO_NOTIFY_IDLE" "reg_value (dm_fab u) VIRTIO_MMIO_INTERRUPT_ACK = 0"
    "reg_at m VIRTIO_MMIO_STATUS = vd_status (dm_vdev d)"
    using val [OF distinct_write_offsets(3)] val [OF ne(1)] at [OF ne(1)] at [OF distinct_write_offsets(4)] ne l(4,6) by simp_all
  ultimately show ?thesis
    unfolding callbacks_leave_def status_is_def using frame(2,3) gw by simp
qed

lemma callbacks_ack:
  assumes "linked (uio_blkd dr n b path) s" and "d = daemon_of s" and "v \<noteq> 0" and m: "m = stored s VIRTIO_MMIO_INTERRUPT_ACK v"
    and u: "u = (put_window m d)\<lparr>dm_mmio := virtio_mmio_write (Some (blk_ops dr n)) (dm_mmio d) VIRTIO_MMIO_INTERRUPT_ACK (ucast v),
      dm_fab := set_reg VIRTIO_MMIO_INTERRUPT_ACK 0 ((dm_fab (put_window m d))\<lparr>us_pending_irq_level := 0\<rparr>)\<rparr>"
  shows "callbacks_leave (uio_blkd dr n b path) s m d (bk_shadow (au_far s)) u"
proof -
  let ?dev = "uio_blkd dr n b path" and ?A = VIRTIO_MMIO_INTERRUPT_ACK
  have A: "?A \<in> set write_offsets" "?A \<noteq> VIRTIO_MMIO_STATUS" "?A \<noteq> VIRTIO_MMIO_QUEUE_NOTIFY" "VIRTIO_MMIO_QUEUE_SEL \<noteq> ?A"
    by (simp add: write_offsets_def) (simp_all add: vm_simps)
  have l: "synced (au_shared s) (bk_shadow (au_far s))" "window_ok ?dev (dm_fab d)" "0x100 \<le> unat (au_size s)"
    "reg_at (au_shared s) VIRTIO_MMIO_STATUS = vd_status (dm_vdev d)" "reg_at (au_shared s) VIRTIO_MMIO_QUEUE_NOTIFY = UIO_NOTIFY_IDLE"
    "reg_at (au_shared s) ?A = 0"
    using assms(1,2) by (simp_all add: linked_def Let_def frontend_ok_def)
  have at: "reg_at m off = (if off = ?A then v else reg_at (au_shared s) off)" if "off \<in> set write_offsets" for off
    unfolding m by (subst stored_at [OF l(3) A(1) that]) (use A in auto)
  have gw: "guest_writes (reg_at m) (bk_shadow (au_far s)) = [(?A, v)]"
    unfolding m guest_store_found [OF l(3) A(1) l(1)] using assms(3) l(6) by (simp add: seen_writes_def)
  let ?g = "(dm_fab (put_window m d))\<lparr>us_pending_irq_level := 0\<rparr>"
  have "reg_in ?dev ?A" by (simp add: reg_in_def uio_blkd_size vm_simps)
  moreover have w: "window_ok ?dev ?g" using l(2) by (simp add: window_ok_def)
  ultimately have "uio_store_le32 ?A 0 ?g = (OK (), set_reg ?A 0 ?g)" by (rule store_reg [rotated])
  moreover have "fabric_lower_irq (uio_ops (\<lambda>_. id)) = uio_lower_irq" by (simp add: uio_ops_def)
  ultimately have dl: "deliver ?dev [(?A, v)] (put_window m d) = (OK (), u)"
    using A by (simp add: deliver_one_def uio_blkd_write blkd_mmio_write_def driver_mmio_write_def bnd_def on_fab_def uio_lower_irq_def u)
  have val: "reg_value (dm_fab u) off = (if off = ?A then 0 else reg_at (au_shared s) off)" if "off \<in> set write_offsets" for off
    using reg_at_write [OF A(1) that, of _ 0] at [OF that] by (simp add: u reg_value_at set_reg_def)
  have "\<forall>off \<in> set write_offsets. reg_value (dm_fab u) off =
      (if reg_at m off = reg_at (au_shared s) off then reg_at m off else settle off (reg_at m off))"
  proof
    fix off assume "off \<in> set write_offsets"
    then show "reg_value (dm_fab u) off = (if reg_at m off = reg_at (au_shared s) off then reg_at m off else settle off (reg_at m off))"
      using val [of off] at [of off] l(6) assms(3) A by (cases "off = ?A") (simp_all add: settle_def)
  qed
  moreover have "window_ok ?dev (dm_fab u)" "us_config (dm_fab u) = us_config (dm_fab d)" "um_size (us_mmio (dm_fab u)) = um_size (us_mmio (dm_fab d))"
    using w by (simp_all add: u)
  moreover have "vd_status (dm_vdev u) = reg_at m VIRTIO_MMIO_STATUS"
    using A at [OF distinct_write_offsets(4)] l(4) by (simp add: u status_after)
  moreover have "reg_value (dm_fab u) VIRTIO_MMIO_QUEUE_NOTIFY = UIO_NOTIFY_IDLE" "reg_value (dm_fab u) ?A = 0"
    using val [OF distinct_write_offsets(3)] val [OF A(1)] A l(5) by simp_all
  ultimately show ?thesis unfolding callbacks_leave_def gw using dl by simp
qed

lemma callbacks_reset:
  assumes "linked (uio_blkd dr n b path) s" and "d = daemon_of s" and "vd_status (dm_vdev d) \<noteq> 0" and m: "m = stored s VIRTIO_MMIO_STATUS 0"
    and u: "u = (put_window m d)\<lparr>dm_mmio := virtio_mmio_write (Some (blk_ops dr n)) (dm_mmio d) VIRTIO_MMIO_STATUS 0,
      dm_fab := (dm_fab (put_window m d))\<lparr>us_pending_irq_level := 0\<rparr>\<rparr>"
  shows "callbacks_leave (uio_blkd dr n b path) s m d (bk_shadow (au_far s)) u"
    and "off \<in> set write_offsets \<Longrightarrow> reg_value (dm_fab u) off = (if off = VIRTIO_MMIO_STATUS then 0 else reg_at (au_shared s) off)"
proof -
  let ?dev = "uio_blkd dr n b path" and ?S = VIRTIO_MMIO_STATUS
  have S: "?S \<noteq> VIRTIO_MMIO_INTERRUPT_ACK" "?S \<noteq> VIRTIO_MMIO_QUEUE_NOTIFY" "VIRTIO_MMIO_QUEUE_SEL \<noteq> ?S"
    "VIRTIO_MMIO_INTERRUPT_ACK \<in> set write_offsets"
    by (simp_all add: write_offsets_def) (simp_all add: vm_simps)
  note s4 = distinct_write_offsets(4)
  have l: "synced (au_shared s) (bk_shadow (au_far s))" "window_ok ?dev (dm_fab d)" "0x100 \<le> unat (au_size s)"
    "reg_at (au_shared s) ?S = vd_status (dm_vdev d)" "reg_at (au_shared s) VIRTIO_MMIO_QUEUE_NOTIFY = UIO_NOTIFY_IDLE"
    "reg_at (au_shared s) VIRTIO_MMIO_INTERRUPT_ACK = 0"
    using assms(1,2) by (simp_all add: linked_def Let_def frontend_ok_def)
  have at: "reg_at m off = (if off = ?S then 0 else reg_at (au_shared s) off)" if "off \<in> set write_offsets" for off
    unfolding m by (subst stored_at [OF l(3) s4 that]) (use S in auto)
  have gw: "guest_writes (reg_at m) (bk_shadow (au_far s)) = [(?S, 0)]"
    unfolding m guest_store_found [OF l(3) s4 l(1)] using assms(3) l(4) by (simp add: seen_writes_def)
  have "fabric_lower_irq (uio_ops (\<lambda>_. id)) = uio_lower_irq" by (simp add: uio_ops_def)
  then have dl: "deliver ?dev [(?S, 0)] (put_window m d) = (OK (), u)"
    using S by (simp add: deliver_one_def uio_blkd_write blkd_mmio_write_def driver_mmio_write_def bnd_def on_fab_def uio_lower_irq_def u)
  have val: "reg_value (dm_fab u) off = (if off = ?S then 0 else reg_at (au_shared s) off)" if "off \<in> set write_offsets" for off
    using at [OF that] by (simp add: u reg_value_at)
  then show "off \<in> set write_offsets \<Longrightarrow> reg_value (dm_fab u) off = (if off = ?S then 0 else reg_at (au_shared s) off)" .
  have "\<forall>off \<in> set write_offsets. reg_value (dm_fab u) off =
      (if reg_at m off = reg_at (au_shared s) off then reg_at m off else settle off (reg_at m off))"
    using val at settle_status by auto
  moreover have "window_ok ?dev (dm_fab u)" "us_config (dm_fab u) = us_config (dm_fab d)" "um_size (us_mmio (dm_fab u)) = um_size (us_mmio (dm_fab d))"
    using l(2) by (simp_all add: u window_ok_def)
  moreover have "vd_status (dm_vdev u) = reg_at m ?S"
    using at [OF s4] by (simp add: u virtio_mmio_write_simps virtio_mmio_reset_def virtio_device_reset_def blkd_virtio_ops_def Let_def)
  moreover have "reg_value (dm_fab u) VIRTIO_MMIO_QUEUE_NOTIFY = UIO_NOTIFY_IDLE" "reg_value (dm_fab u) VIRTIO_MMIO_INTERRUPT_ACK = 0"
    using val [OF distinct_write_offsets(3)] val [OF S(4)] S l(5,6) by simp_all
  ultimately show "callbacks_leave ?dev s m d (bk_shadow (au_far s)) u" unfolding callbacks_leave_def gw using dl by simp
qed

text \<open>An acknowledgement and a notification that the scan finds together.\<close>

lemma callbacks_both:
  assumes "linked (uio_blkd dr n b path) s" and "d = daemon_of s" and "a \<noteq> 0"
    and s1: "au_shared s1 = stored s VIRTIO_MMIO_QUEUE_NOTIFY 0" "au_size s1 = au_size s" and m: "m = stored s1 VIRTIO_MMIO_INTERRUPT_ACK a"
    and y: "y = (put_window m d)\<lparr>dm_mmio := virtio_mmio_write (Some (blk_ops dr n)) (dm_mmio d) VIRTIO_MMIO_INTERRUPT_ACK (ucast a),
      dm_fab := set_reg VIRTIO_MMIO_INTERRUPT_ACK 0 ((dm_fab (put_window m d))\<lparr>us_pending_irq_level := 0\<rparr>)\<rparr>"
    and u: "blkd_virtio_notify_queue (uio_ops (\<lambda>_. id)) dr n 0
        (y\<lparr>dm_fab := set_reg VIRTIO_MMIO_QUEUE_NOTIFY UIO_NOTIFY_IDLE (dm_fab y)\<rparr>) = (OK (), u)"
  shows "callbacks_leave (uio_blkd dr n b path) s m d (bk_shadow (au_far s)) u"
proof -
  let ?dev = "uio_blkd dr n b path" and ?A = VIRTIO_MMIO_INTERRUPT_ACK and ?N = VIRTIO_MMIO_QUEUE_NOTIFY
  have A: "?A \<in> set write_offsets" "?A \<noteq> VIRTIO_MMIO_STATUS" "?A \<noteq> ?N" "?A \<noteq> VIRTIO_MMIO_QUEUE_SEL" "?N \<noteq> VIRTIO_MMIO_QUEUE_SEL"
    "?N \<noteq> VIRTIO_MMIO_STATUS"
    by (simp add: write_offsets_def) (simp_all add: vm_simps)
  note N = distinct_write_offsets(3)
  have l: "synced (au_shared s) (bk_shadow (au_far s))" "window_ok ?dev (dm_fab d)" "0x100 \<le> unat (au_size s)"
    "reg_at (au_shared s) VIRTIO_MMIO_STATUS = vd_status (dm_vdev d)" "reg_at (au_shared s) ?N = UIO_NOTIFY_IDLE" "reg_at (au_shared s) ?A = 0"
    using assms(1,2) by (simp_all add: linked_def Let_def frontend_ok_def)
  have at: "reg_at m off = (if off = ?A then a else if off = ?N then 0 else reg_at (au_shared s) off)" if "off \<in> set write_offsets" for off
    using stored_at [OF _ A(1) that, of s1 a] stored_at [OF l(3) N that, of 0] l(3) s1 A by (simp add: m)
  have "guest_writes (reg_at m) (bk_shadow (au_far s)) = [(off, reg_at m off). off \<leftarrow> write_offsets, off = ?A \<or> off = ?N]"
    unfolding l(1) [unfolded synced_def] guest_writes_map
    by (rule comprehension_cong) (use at distinct_write_offsets(2) A assms(3) l(5,6) in \<open>auto simp: UIO_NOTIFY_IDLE_def\<close>)
  also have "\<dots> = [(?A, a), (?N, 0)]"
    using at [OF A(1)] at [OF N] A(3) by (simp add: write_offsets_def vm_simps)
  finally have gw: "guest_writes (reg_at m) (bk_shadow (au_far s)) = [(?A, a), (?N, 0)]" .
  let ?g = "(dm_fab (put_window m d))\<lparr>us_pending_irq_level := 0\<rparr>"
  have "reg_in ?dev ?A" by (simp add: reg_in_def uio_blkd_size vm_simps)
  moreover have w: "window_ok ?dev ?g" using l(2) by (simp add: window_ok_def)
  ultimately have "uio_store_le32 ?A 0 ?g = (OK (), set_reg ?A 0 ?g)" by (rule store_reg [rotated])
  moreover have "fabric_lower_irq (uio_ops (\<lambda>_. id)) = uio_lower_irq" by (simp add: uio_ops_def)
  ultimately have one: "deliver_one ?dev ?A a (put_window m d) = (OK (), y)"
    using A by (simp add: deliver_one_def uio_blkd_write blkd_mmio_write_def driver_mmio_write_def bnd_def on_fab_def uio_lower_irq_def y)
  have wy: "window_ok ?dev (dm_fab y)" using w by (simp add: y)
  note two = deliver_notify [OF wy u]
  have dl: "deliver ?dev [(?A, a), (?N, 0)] (put_window m d) = (OK (), u)"
    using one two(1) by (simp add: bnd_OK del: id_apply)
  have val: "reg_value (dm_fab u) off = (if off = ?A then 0 else if off = ?N then UIO_NOTIFY_IDLE else reg_at (au_shared s) off)"
    if "off \<in> set write_offsets" for off
    unfolding reg_value_window [OF two(2)]
    using reg_at_write [OF N that, of _ UIO_NOTIFY_IDLE] reg_at_write [OF A(1) that, of _ 0] at [OF that] A(3)
    by (cases "off = ?N") (simp_all add: y reg_value_at set_reg_def)
  have "\<forall>off \<in> set write_offsets. reg_value (dm_fab u) off =
      (if reg_at m off = reg_at (au_shared s) off then reg_at m off else settle off (reg_at m off))"
  proof
    fix off assume "off \<in> set write_offsets"
    then show "reg_value (dm_fab u) off = (if reg_at m off = reg_at (au_shared s) off then reg_at m off else settle off (reg_at m off))"
      using val [of off] at [of off] l(5,6) assms(3) A(3) by (cases "off = ?A"; cases "off = ?N") (simp_all add: settle_def UIO_NOTIFY_IDLE_def)
  qed
  moreover have "window_ok ?dev (dm_fab u)" using wy window_ok_window [OF two(2), of ?dev] by simp
  moreover have "us_config (dm_fab u) = us_config (dm_fab d)" "um_size (us_mmio (dm_fab u)) = um_size (us_mmio (dm_fab d))"
    using two(2,3) by (simp_all add: y)
  moreover have "status_is (vd_status (dm_vdev d)) (y\<lparr>dm_fab := set_reg ?N UIO_NOTIFY_IDLE (dm_fab y)\<rparr>)"
    using A(2) by (simp add: status_is_def y status_after)
  then have "status_is (vd_status (dm_vdev d)) u" using keeps_run [OF status_notify _ u] by blast
  then have "vd_status (dm_vdev u) = reg_at m VIRTIO_MMIO_STATUS"
    using A at [OF distinct_write_offsets(4)] l(4) by (simp add: status_is_def)
  moreover have "reg_value (dm_fab u) ?N = UIO_NOTIFY_IDLE" "reg_value (dm_fab u) ?A = 0"
    using val [OF N] val [OF A(1)] A(3) by simp_all
  ultimately show ?thesis unfolding callbacks_leave_def gw using dl by simp
qed

text \<open>A turn for a message with no store behind it: the scan finds nothing and the machine answers nothing.\<close>

lemma empty_turn:
  assumes "linked (uio_blkd dr n b path) s" and "64 < n"
    and "t = axi_uio_notify_backend (backend_react n (uio_blkd dr n b path)) s"
  shows "backend_react n (uio_blkd dr n b path) AXI_MSG_FRONTEND_NOTIFY (au_shared s) (au_far s) = Some ([], au_shared t, au_far t)"
    and "linked (uio_blkd dr n b path) t" and "dm_mmio (daemon_of t) = dm_mmio (daemon_of s)" and "dm_host (daemon_of t) = dm_host (daemon_of s)"
    and "uio_ram (dm_fab (daemon_of t)) = uio_ram (dm_fab (daemon_of s))" and "au_irq t = au_irq s"
    and "\<And>off. off \<in> set refreshed \<Longrightarrow> reg_at (au_shared t) off = ucast (blkd_mmio_read (uio_ops (\<lambda>_. id)) dr n off 4 (daemon_of s))"
    and "\<And>off. off \<in> set write_offsets \<Longrightarrow> reg_at (au_shared t) off = reg_at (au_shared s) off"
proof -
  let ?dev = "uio_blkd dr n b path" and ?m = "au_shared s"
  have l: "synced ?m (bk_shadow (au_far s))" "us_pending_irq_level (dm_fab (daemon_of s)) < 0"
    "reg_at ?m VIRTIO_MMIO_STATUS = vd_status (dm_vdev (daemon_of s))"
    "reg_at ?m VIRTIO_MMIO_QUEUE_NOTIFY = UIO_NOTIFY_IDLE" "reg_at ?m VIRTIO_MMIO_INTERRUPT_ACK = 0"
    using assms(1) by (simp_all add: linked_def Let_def)
  have none: "guest_writes (reg_at ?m) (bk_shadow (au_far s)) = []" using l(1) by (simp add: synced_def guest_writes_map)
  have s: "s\<lparr>au_shared := ?m\<rparr> = s" by (cases s) simp
  have "callbacks_leave ?dev s ?m (daemon_of s) (bk_shadow (au_far s)) ((put_window ?m (daemon_of s))\<lparr>dm_mmio := dm_mmio (daemon_of s)\<rparr>)"
    by (rule callbacks_config [OF assms(1) none]) (use l in simp_all)
  note turn = link_turn [OF assms(1,2) this refl refl, unfolded s, folded assms(3)]
  show "backend_react n ?dev AXI_MSG_FRONTEND_NOTIFY ?m (au_far s) = Some ([], au_shared t, au_far t)" "linked ?dev t"
    "dm_mmio (daemon_of t) = dm_mmio (daemon_of s)" "dm_host (daemon_of t) = dm_host (daemon_of s)"
    "uio_ram (dm_fab (daemon_of t)) = uio_ram (dm_fab (daemon_of s))" "au_irq t = au_irq s"
    using turn l(2) by (simp_all add: turn_messages_def)
  show "reg_at (au_shared t) off = ucast (blkd_mmio_read (uio_ops (\<lambda>_. id)) dr n off 4 (daemon_of s))" if "off \<in> set refreshed" for off
    using turn(2) turn(4) [OF that] by (simp add: blkd_mmio_read_def driver_mmio_read_def)
  show "reg_at (au_shared t) off = reg_at ?m off" if "off \<in> set write_offsets" for off
    using turn(8) [OF that] by simp
qed

end
