(* ===== verification/Uio_Guest.thy ===== *)
theory Uio_Guest
  imports Uio_Link
begin

unbundle bit_operations_syntax

text \<open>
  The guest in UIO mode: every register access of its virtual processor, taken through QEMU, the shared
  window and the daemon on the other machine. All of them keep the link intact (\<open>linked\<close>), so that the
  statements apply to sequences of accesses.
\<close>

section \<open>Notifications\<close>

text \<open>
  C3: a notification of the guest in UIO mode, with either notification policy. The guest's virtual processor
  stores the queue number 0 into the notification register while \<open>k\<close> well-formed chains are pending. QEMU
  puts the store into the shared window and interrupts the other machine; the daemon serves all \<open>k\<close> requests
  as the specification says, publishes the interrupt status and writes the interrupt control word, which
  raises the interrupt line of the guest. The daemon's acknowledgement has been consumed, the
  notification register is idle and the link is ready for the next access.
\<close>

theorem guest_notification_served:
  assumes "linked (uio_blkd dr n b path) s" and "d = daemon_of s"
    and "blk_srv_ready uio_live f wr d c" and "vd_queues (dm_vdev d) = [q]" and "vq_ready q \<noteq> 0"
    and "serve_ok (blk_good wr n (uio_reach (dm_fab d)) (h_heap (dm_host d))) (uio_reach (dm_fab d)) blk_serve
           k (uio_ram (dm_fab d)) c q"
    and "0 < k" and "k < n" and "64 < n" and "serve_all blk_serve k (uio_ram (dm_fab d)) c q = (m', c', q')"
    and "t = handle_events 2 (axi_uio_write (backend_react n (uio_blkd dr n b path)) VIRTIO_MMIO_QUEUE_NOTIFY 0 4 s)"
    and "e = daemon_of t"
  shows "au_irq t \<and> linked (uio_blkd dr n b path) t \<and>
    reg_at (au_shared t) VIRTIO_MMIO_INTERRUPT_STATUS = vd_interrupt_status (dm_vdev d) OR VIRTIO_INTERRUPT_VRING \<and>
    uio_ram (dm_fab e) = m' \<and> h_files (dm_host e) (of_path f) = Some c' \<and> vd_queues (dm_vdev e) = [q']"
proof -
  let ?dev = "uio_blkd dr n b path" and ?N = VIRTIO_MMIO_QUEUE_NOTIFY
  define m where "m = stored s ?N 0"
  let ?x = "(put_window m d)\<lparr>dm_fab := set_reg ?N UIO_NOTIFY_IDLE (dm_fab (put_window m d))\<rparr>"
  have srv: "blk_srv_ready uio_live f wr ?x c" using assms(3) by (simp add: blk_srv_ready_def blk_ready_def)
  have "\<exists>u. blkd_virtio_notify_queue (uio_ops (\<lambda>_. id)) dr n 0 ?x = (OK (), u) \<and>
    uio_ram (dm_fab u) = m' \<and> h_files (dm_host u) (of_path f) = Some c' \<and> vd_queues (dm_vdev u) = [q'] \<and>
    vd_interrupt_status (dm_vdev u) = vd_interrupt_status (dm_vdev ?x) OR VIRTIO_INTERRUPT_VRING \<and> us_pending_irq_level (dm_fab u) = 1"
    using assms(4-10) by (intro blk_notify_run [OF srv, where k = k and q = q]) simp_all
  then obtain u where u: "blkd_virtio_notify_queue (uio_ops (\<lambda>_. id)) dr n 0 ?x = (OK (), u)"
    "uio_ram (dm_fab u) = m'" "h_files (dm_host u) (of_path f) = Some c'" "vd_queues (dm_vdev u) = [q']"
    "vd_interrupt_status (dm_vdev u) = vd_interrupt_status (dm_vdev d) OR VIRTIO_INTERRUPT_VRING" "us_pending_irq_level (dm_fab u) = 1"
    by auto
  have "callbacks_leave ?dev s m (daemon_of s) (bk_shadow (au_far s)) u"
    using callbacks_notify [OF assms(1,2) m_def refl u(1)] assms(2) by simp
  note turn = link_turn [OF assms(1,9) this u(6) [symmetric] refl]
  let ?t = "axi_uio_notify_backend (backend_react n ?dev) (s\<lparr>au_shared := m\<rparr>)"
  have "frontend_ok s" using assms(1) by (simp add: linked_def)
  from notify_answered [where F = "backend_react n ?dev" and v = 0, OF this _ turn(5) [unfolded m_def]] assms(11)
  have t: "au_shared t = au_shared ?t" "au_far t = au_far ?t" "frontend_ok t" "au_irq t" by (simp_all add: m_def)
  moreover have "linked ?dev t" using turn(1) t by (simp add: linked_def)
  moreover have "reg_at (au_shared t) VIRTIO_MMIO_INTERRUPT_STATUS = vd_interrupt_status (dm_vdev (daemon_of ?t))"
    unfolding t(1) by (subst turn(4)) (simp_all add: notify_aligned blkd_reads_status)
  ultimately show ?thesis using turn(2,6,7) u assms(12) by simp
qed

section \<open>Configuration stores\<close>

text \<open>
  C11: what the device sees of a 32-bit configuration store of the guest, that is, of a store to any register but
  the notification and acknowledge registers and other than a reset (zero into the status register), when the
  policy notifies for that register: always, or with the barrier policy for the barrier registers. The store reaches
  the device model exactly when it changes the word in the shared window (\<open>seen_writes\<close>), so a store that
  repeats the word is lost; selecting the queue that is selected already arrives as zeros in the queue registers,
  which the guest did not write. The registers the daemon publishes then show the device's answers, the interrupt
  line is as before, and the other machine sends no acknowledgement, so that QEMU waits until its deadline.
\<close>

theorem guest_store_delivered:
  assumes "linked (uio_blkd dr n b path) s" and "config_store (off, v)" and "axi_uio_write_needs_backend s off" and "64 < n"
    and "t = axi_uio_write (backend_react n (uio_blkd dr n b path)) off (ucast v) 4 s"
  shows "linked (uio_blkd dr n b path) t \<and> au_irq t = au_irq s \<and>
    dm_mmio (daemon_of t) = virtio_mmio_writes (Some (blk_ops dr n)) (dm_mmio (daemon_of s))
      (map (\<lambda>(off, v). (off, ucast v)) (seen_writes (au_shared s) off v)) \<and>
    (\<forall>r. r \<in> set refreshed \<longrightarrow> reg_at (au_shared t) r = ucast (blkd_mmio_read (uio_ops (\<lambda>_. id)) dr n r 4 (daemon_of t))) \<and>
    backend_react n (uio_blkd dr n b path) AXI_MSG_FRONTEND_NOTIFY (stored s off v) (au_far s) = Some ([], au_shared t, au_far t)"
proof -
  let ?dev = "uio_blkd dr n b path" and ?m = "stored s off v" and ?ws = "seen_writes (au_shared s) off v"
  define mm where "mm = virtio_mmio_writes (Some (blk_ops dr n)) (dm_mmio (daemon_of s)) (map (\<lambda>(off, v). (off, ucast v)) ?ws)"
  have l: "frontend_ok s" "synced (au_shared s) (bk_shadow (au_far s))" "0x100 \<le> unat (au_size s)" "us_pending_irq_level (dm_fab (daemon_of s)) < 0"
    "reg_at (au_shared s) VIRTIO_MMIO_STATUS = vd_status (dm_vdev (daemon_of s))"
    "reg_at (au_shared s) VIRTIO_MMIO_QUEUE_NOTIFY = UIO_NOTIFY_IDLE" "reg_at (au_shared s) VIRTIO_MMIO_INTERRUPT_ACK = 0"
    using assms(1) by (simp_all add: linked_def Let_def frontend_ok_def)
  have off: "off \<in> set write_offsets" "off \<noteq> VIRTIO_MMIO_QUEUE_NOTIFY" "off \<noteq> VIRTIO_MMIO_INTERRUPT_ACK" "off = VIRTIO_MMIO_STATUS \<longrightarrow> v \<noteq> 0"
    "VIRTIO_MMIO_INTERRUPT_ACK \<in> set write_offsets"
    using assms(2) by (auto simp: config_store_def write_offsets_def)
  note at = stored_at [OF l(3) off(1), where v = v]
  have m: "reg_at ?m VIRTIO_MMIO_QUEUE_NOTIFY = UIO_NOTIFY_IDLE" "reg_at ?m VIRTIO_MMIO_INTERRUPT_ACK = 0"
    "reg_at ?m VIRTIO_MMIO_STATUS = (if off = VIRTIO_MMIO_STATUS then v else vd_status (dm_vdev (daemon_of s)))"
    using at [OF distinct_write_offsets(3)] at [OF off(5)] at [OF distinct_write_offsets(4)] off l queue_offsets_set by auto
  have "reg_at ?m VIRTIO_MMIO_STATUS = vd_status (vm_vdev mm)"
    unfolding m(3) mm_def status_after_seen [OF assms(2) l(5)] ..
  note turn = link_turn [OF assms(1,4) callbacks_config [OF assms(1) guest_store_found [OF l(3) off(1) l(2)] seen_config [OF assms(2)] mm_def m(1,2) this] refl refl]
  have "t = axi_uio_notify_backend (backend_react n ?dev) (s\<lparr>au_shared := ?m\<rparr>)"
    using slave_store [OF l(1) off(1) assms(3), of "backend_react n ?dev" v] off(2) assms(5) by simp
  with turn l(4) show ?thesis by (simp add: mm_def turn_messages_def)
qed

section \<open>Reads and acknowledgements\<close>

text \<open>
  C12: a 32-bit register read of the guest in UIO mode, with the policy that notifies on every access. A read of
  any register that the daemon publishes (\<open>refreshed\<close>: identification, features, queue limit, interrupt status,
  status, generation and the configuration space) gives what the device model answers at that moment. A read of
  one of the other registers the guest writes, \<open>QUEUE_READY\<close> and five more that the device model would answer
  among them, gives the word in the window, whatever the device model answers. Neither changes the device or the
  guest's memory.
\<close>

theorem guest_read_fresh:
  assumes "linked (uio_blkd dr n b path) s" and "au_policy s = AXI_NOTIFY_POLICY_ALL"
    and "off \<in> set refreshed \<or> off \<in> set write_offsets" and "64 < n"
    and "axi_uio_read (backend_react n (uio_blkd dr n b path)) off 4 s = (x, t)"
  shows "x = ucast (if off \<in> set refreshed then ucast (blkd_mmio_read (uio_ops (\<lambda>_. id)) dr n off 4 (daemon_of s))
      else reg_at (au_shared s) off :: u32) \<and>
    linked (uio_blkd dr n b path) t \<and> dm_mmio (daemon_of t) = dm_mmio (daemon_of s) \<and> au_irq t = au_irq s \<and>
    uio_ram (dm_fab (daemon_of t)) = uio_ram (dm_fab (daemon_of s))"
proof -
  let ?dev = "uio_blkd dr n b path" and ?m = "au_shared s" and ?t = "axi_uio_notify_backend (backend_react n (uio_blkd dr n b path)) s"
  have ok: "frontend_ok s" using assms(1) by (simp add: linked_def)
  note turn = empty_turn [OF assms(1,4) refl]
  have "unat off + 4 \<le> 0x200" using assms(3) refreshed_dvd write_offsets_fit by blast
  then have fits: "\<not> off + 4 > au_size s" using slave_fits [OF ok] by blast
  have "x = virtio_load_le64 (mem_read (au_shared ?t) off 4 @ replicate 4 0)" "t = ?t"
    using assms(2,5) fits ok by (auto simp: axi_uio_read_def frontend_ok_def Let_def)
  moreover have "virtio_load_le64 (p @ replicate 4 0) = ucast (virtio_load_le32 p)" if "length p = 4" for p
    using that by (auto simp: virtio_load_le64_def virtio_load_le32_def nth_append numeral_eq_Suc length_Suc_conv)
  ultimately show ?thesis using turn(2,3,5-8) assms(3) by (auto simp: reg_at_def)
qed

text \<open>
  So \<open>QUEUE_READY\<close> can be read wrongly: after a reset by the guest the window still has the word the guest
  stored there, while the queues of the device are not ready.
\<close>

lemma ready_stale_after_reset:
  assumes "linked (uio_blkd dr n b path) s" and "vd_status (dm_vdev (daemon_of s)) \<noteq> 0" and "64 < n"
    and "t = axi_uio_write (backend_react n (uio_blkd dr n b path)) VIRTIO_MMIO_STATUS 0 4 s"
  shows "linked (uio_blkd dr n b path) t \<and> reg_at (au_shared t) VIRTIO_MMIO_QUEUE_READY = reg_at (au_shared s) VIRTIO_MMIO_QUEUE_READY \<and>
    au_policy t = au_policy s \<and> dm_mmio (daemon_of t) = virtio_mmio_reset (Some (blk_ops dr n)) (dm_mmio (daemon_of s))"
proof -
  let ?dev = "uio_blkd dr n b path" and ?S = VIRTIO_MMIO_STATUS
  note reset = callbacks_reset [OF assms(1) refl assms(2) refl refl]
  note turn = link_turn [OF assms(1,3) reset(1) refl refl]
  have ok: "frontend_ok s" using assms(1) by (simp add: linked_def)
  have S: "axi_uio_write_needs_backend s ?S" "?S \<noteq> VIRTIO_MMIO_QUEUE_NOTIFY" "VIRTIO_MMIO_QUEUE_READY \<in> set write_offsets" "VIRTIO_MMIO_QUEUE_READY \<noteq> ?S"
    by (simp_all add: axi_uio_write_needs_backend_def axi_barrier_offsets_def write_offsets_def) (simp_all add: vm_simps)
  have "t = axi_uio_notify_backend (backend_react n ?dev) (s\<lparr>au_shared := stored s ?S 0\<rparr>)"
    using slave_store [OF ok distinct_write_offsets(4) S(1), of "backend_react n ?dev" 0] S(2) assms(4) by simp
  with turn reset(2) [OF S(3)] S(3,4) show ?thesis by (simp add: virtio_mmio_write_simps)
qed

text \<open>
  C13: the guest acknowledges an interrupt in UIO mode, with either policy: its 32-bit store of bits into the acknowledge register
  clears these bits of the device's interrupt status, the window shows the cleared status, the guest's
  interrupt line goes down with the daemon's answer, and the acknowledge register is zero again.
\<close>

theorem guest_ack_lowers_line:
  assumes "linked (uio_blkd dr n b path) s" and "v \<noteq> 0" and "64 < n"
    and "t = axi_uio_write (backend_react n (uio_blkd dr n b path)) VIRTIO_MMIO_INTERRUPT_ACK (ucast v) 4 s"
  shows "\<not> au_irq t \<and> linked (uio_blkd dr n b path) t \<and>
    vd_interrupt_status (dm_vdev (daemon_of t)) = vd_interrupt_status (dm_vdev (daemon_of s)) AND NOT v \<and>
    reg_at (au_shared t) VIRTIO_MMIO_INTERRUPT_STATUS = vd_interrupt_status (dm_vdev (daemon_of t)) \<and>
    reg_at (au_shared t) VIRTIO_MMIO_INTERRUPT_ACK = 0"
proof -
  let ?dev = "uio_blkd dr n b path" and ?A = VIRTIO_MMIO_INTERRUPT_ACK
  note turn = link_turn [OF assms(1,3) callbacks_ack [OF assms(1) refl assms(2) refl refl] refl refl]
  have ok: "frontend_ok s" using assms(1) by (simp add: linked_def)
  have A: "?A \<in> set write_offsets" "axi_uio_write_needs_backend s ?A" "?A \<noteq> VIRTIO_MMIO_QUEUE_NOTIFY"
    by (simp_all add: write_offsets_def axi_uio_write_needs_backend_def axi_barrier_offsets_def) (simp add: vm_simps)
  have t: "t = axi_uio_notify_backend (backend_react n ?dev) (s\<lparr>au_shared := stored s ?A v\<rparr>)"
    using slave_store [OF ok A(1,2), of "backend_react n ?dev" v] A(3) assms(4) by simp
  have "reg_at (au_shared t) VIRTIO_MMIO_INTERRUPT_STATUS = vd_interrupt_status (dm_vdev (daemon_of t))"
    unfolding t by (subst turn(4)) (simp_all add: notify_aligned blkd_reads_status)
  moreover have "linked ?dev t" using turn(1) t by simp
  moreover from this have "reg_at (au_shared t) ?A = 0" by (simp add: linked_def)
  ultimately show ?thesis using turn(2,3) t by (simp add: virtio_mmio_write_simps)
qed

section \<open>The small guest behind the link\<close>

definition demo_window :: memory where
  "demo_window = mem_write (mem_write (\<lambda>_. 0) VIRTIO_MMIO_QUEUE_NOTIFY (virtio_store_le32 UIO_NOTIFY_IDLE)) VIRTIO_MMIO_STATUS (virtio_store_le32 15)"

definition demo_link :: "axi_notify_policy \<Rightarrow> memory \<Rightarrow> blkd_virtio_device backend axi_uio" where
  "demo_link policy m = \<lparr>au_size = 0x1000, au_role = AXI_ROLE_SLAVE, au_policy = policy, au_notify_ack = True, au_control_fd = True,
     au_async_pending = False, au_ack_seq = 0, au_irq_wired = True, au_irq = False, au_irq_edges = 0, au_shared = demo_window, au_inbox = [],
     au_far = \<lparr>bk_qemu = \<lparr>au_size = 0x1000, au_role = AXI_ROLE_MASTER, au_policy = AXI_NOTIFY_POLICY_ALL, au_notify_ack = True,
         au_control_fd = True, au_async_pending = False, au_ack_seq = 0, au_irq_wired = True, au_irq = False, au_irq_edges = 0,
         au_shared = demo_window, au_inbox = [], au_far = []\<rparr>,
       bk_daemon = demo_state m, bk_shadow = map (reg_at demo_window) write_offsets\<rparr>\<rparr>"

lemma demo_window_at:
  "off \<in> set write_offsets \<Longrightarrow> reg_at demo_window off =
     (if off = VIRTIO_MMIO_STATUS then 15 else if off = VIRTIO_MMIO_QUEUE_NOTIFY then UIO_NOTIFY_IDLE else 0)"
  unfolding demo_window_def
  by (simp only: reg_at_write distinct_write_offsets) (simp add: reg_at_def mem_read_def virtio_load_le32_def upt_conv_Cons numeral_eq_Suc)

lemma demo_linked: "linked (uio_blkd False n demo_backend path) (demo_link policy m)"
proof -
  have "VIRTIO_MMIO_INTERRUPT_ACK \<in> set write_offsets" "VIRTIO_MMIO_INTERRUPT_ACK \<noteq> VIRTIO_MMIO_STATUS"
    "VIRTIO_MMIO_INTERRUPT_ACK \<noteq> VIRTIO_MMIO_QUEUE_NOTIFY" "VIRTIO_MMIO_QUEUE_NOTIFY \<noteq> VIRTIO_MMIO_STATUS"
    by (simp add: write_offsets_def) (simp_all add: vm_simps)
  then show ?thesis
    using demo_window_at distinct_write_offsets
    by (simp add: linked_def demo_link_def frontend_ok_def backend_ok_def synced_def window_ok_def uio_blkd_size demo_state_def demo_fab_def Let_def)
qed

theorem guest_notification_served_witness:
  "let t = handle_events 2 (axi_uio_write (backend_react 66 (uio_blkd False 66 demo_backend ''uio:/dev/uio0'')) VIRTIO_MMIO_QUEUE_NOTIFY 0 4
       (demo_link AXI_NOTIFY_POLICY_BARRIER notify_ram))
   in au_irq t \<and> uio_ram (dm_fab (daemon_of t)) = used_push served_ram demo_queue 0 5 \<and>
      reg_at (au_shared t) VIRTIO_MMIO_INTERRUPT_STATUS = VIRTIO_INTERRUPT_VRING"
proof -
  let ?s = "demo_link AXI_NOTIFY_POLICY_BARRIER notify_ram" and ?d = "demo_state notify_ram" and ?c = "[1, 2, 3, 4, 5, 6, 7, 8]"
  have d: "?d = daemon_of ?s" by (simp add: demo_link_def)
  have ready: "blk_srv_ready uio_live demo_file True ?d ?c" using demo_ready demo_writable by (simp add: blk_srv_ready_def)
  have serve: "serve_ok (blk_good True 66 (uio_reach (dm_fab ?d)) (h_heap (dm_host ?d))) (uio_reach (dm_fab ?d)) blk_serve
      1 (uio_ram (dm_fab ?d)) ?c demo_queue"
    unfolding demo_heap demo_uio_ram by (rule notify_serve_ok) simp
  have all: "serve_all blk_serve 1 (uio_ram (dm_fab ?d)) ?c demo_queue = (used_push served_ram demo_queue 0 5, ?c, consume demo_queue)"
    using notify_pending notify_serve by simp
  have vd: "vd_queues (dm_vdev ?d) = [demo_queue]" "vq_ready demo_queue \<noteq> 0" "vd_interrupt_status (dm_vdev ?d) = 0"
    by (simp_all add: demo_state_def demo_queue_def)
  show ?thesis
    using guest_notification_served [OF demo_linked d ready vd(1,2) serve _ _ _ all refl refl] vd(3) by (simp add: Let_def)
qed

text \<open>The guest writes a queue size.\<close>

theorem guest_store_delivered_witness:
  "let t = axi_uio_write (backend_react 65 (uio_blkd False 65 demo_backend ''uio:/dev/uio0'')) VIRTIO_MMIO_QUEUE_NUM 128 4
       (demo_link AXI_NOTIFY_POLICY_ALL notify_ram)
   in linked (uio_blkd False 65 demo_backend ''uio:/dev/uio0'') t \<and> vd_queues (dm_vdev (daemon_of t)) = [demo_queue\<lparr>vq_num := 128\<rparr>]"
proof -
  let ?s = "demo_link AXI_NOTIFY_POLICY_ALL notify_ram"
  have c: "config_store (VIRTIO_MMIO_QUEUE_NUM, 128)" by (simp add: config_store_def write_offsets_def) (simp add: vm_simps)
  have nb: "axi_uio_write_needs_backend ?s VIRTIO_MMIO_QUEUE_NUM" by (simp add: axi_uio_write_needs_backend_def demo_link_def)
  have "reg_at (au_shared ?s) VIRTIO_MMIO_QUEUE_NUM = 0"
    using demo_window_at [of VIRTIO_MMIO_QUEUE_NUM] by (simp add: demo_link_def write_offsets_def) (simp add: vm_simps)
  then have seen: "seen_writes (au_shared ?s) VIRTIO_MMIO_QUEUE_NUM 128 = [(VIRTIO_MMIO_QUEUE_NUM, 128)]" by (simp add: seen_writes_def)
  show ?thesis
    using guest_store_delivered [OF demo_linked c nb _ refl, where n = 65 and path = "''uio:/dev/uio0''"] seen
    by (simp add: Let_def virtio_mmio_write_simps on_queue_def virtio_mmio_queue_def demo_link_def demo_state_def)
qed

text \<open>
  The small guest, whose device has a ready queue, has never stored into \<open>QUEUE_READY\<close> through this window: it
  reads the magic value as the device has it and \<open>QUEUE_READY\<close> as zero.
\<close>

theorem guest_read_fresh_witness:
  "let F = backend_react 65 (uio_blkd False 65 demo_backend ''uio:/dev/uio0''); s = demo_link AXI_NOTIFY_POLICY_ALL notify_ram
   in fst (axi_uio_read F VIRTIO_MMIO_MAGIC_VALUE 4 s) = 0x74726976 \<and> fst (axi_uio_read F VIRTIO_MMIO_QUEUE_READY 4 s) = 0 \<and>
      vd_queues (dm_vdev (daemon_of s)) = [demo_queue] \<and> vq_ready demo_queue = 1"
proof -
  let ?s = "demo_link AXI_NOTIFY_POLICY_ALL notify_ram"
  let ?r = "\<lambda>off. axi_uio_read (backend_react 65 (uio_blkd False 65 demo_backend ''uio:/dev/uio0'')) off 4 ?s"
  have p: "au_policy ?s = AXI_NOTIFY_POLICY_ALL" by (simp add: demo_link_def)
  have ready: "VIRTIO_MMIO_QUEUE_READY \<in> set write_offsets" "VIRTIO_MMIO_QUEUE_READY \<noteq> VIRTIO_MMIO_STATUS"
    by (simp add: write_offsets_def) (simp add: vm_simps)
  have m: "VIRTIO_MMIO_MAGIC_VALUE \<in> set refreshed" by (simp add: refreshed_def published_registers_def)
  have r: "VIRTIO_MMIO_MAGIC_VALUE \<in> set refreshed \<or> VIRTIO_MMIO_MAGIC_VALUE \<in> set write_offsets"
    "VIRTIO_MMIO_QUEUE_READY \<in> set refreshed \<or> VIRTIO_MMIO_QUEUE_READY \<in> set write_offsets"
    "VIRTIO_MMIO_QUEUE_READY \<notin> set refreshed"
    using m ready write_offsets_word(3) [OF ready(1)] by simp_all
  have "blkd_mmio_read F dr n VIRTIO_MMIO_MAGIC_VALUE 4 s = 0x74726976" for F dr n and s :: "uio_state blkd"
    by (simp add: blkd_mmio_read_def driver_mmio_read_def virtio_mmio_read_def mask_read_def vm_simps Let_def)
  moreover have "reg_at (au_shared ?s) VIRTIO_MMIO_QUEUE_READY = 0"
    using demo_window_at [of VIRTIO_MMIO_QUEUE_READY] by (simp add: demo_link_def write_offsets_def) (simp add: vm_simps)
  ultimately have "fst (?r VIRTIO_MMIO_MAGIC_VALUE) = 0x74726976" "fst (?r VIRTIO_MMIO_QUEUE_READY) = 0"
    using guest_read_fresh [OF demo_linked p r(1), where n = 65 and path = "''uio:/dev/uio0''" and x = "fst (?r VIRTIO_MMIO_MAGIC_VALUE)" and t = "snd (?r VIRTIO_MMIO_MAGIC_VALUE)"]
      guest_read_fresh [OF demo_linked p r(2), where n = 65 and path = "''uio:/dev/uio0''" and x = "fst (?r VIRTIO_MMIO_QUEUE_READY)" and t = "snd (?r VIRTIO_MMIO_QUEUE_READY)"] r(3) m
    by simp_all
  then show ?thesis by (simp add: Let_def) (simp add: demo_link_def demo_state_def demo_queue_def)
qed

theorem guest_ack_lowers_line_witness:
  "let t = axi_uio_write (backend_react 65 (uio_blkd False 65 demo_backend ''uio:/dev/uio0'')) VIRTIO_MMIO_INTERRUPT_ACK 1 4
       (demo_link AXI_NOTIFY_POLICY_BARRIER notify_ram)
   in \<not> au_irq t \<and> reg_at (au_shared t) VIRTIO_MMIO_INTERRUPT_STATUS = 0"
  using guest_ack_lowers_line [OF demo_linked _ _ refl, where v = 1 and n = 65 and path = "''uio:/dev/uio0''"]
  by (simp add: Let_def) (simp add: demo_link_def demo_state_def)

section \<open>Notifications that are withheld\<close>

text \<open>
  A message that is still under way: the other machine has not acted yet. \<open>late\<close> is the other machine when the
  next message is sent: it handles the one under way first.
\<close>

definition in_flight :: "'w far_end" where
  "in_flight kind m w = Some ([], m, w)"

definition late :: "u16 \<Rightarrow> 'w far_end \<Rightarrow> 'w far_end" where
  "late first F kind m w =
     (case F first m w of None \<Rightarrow> None
      | Some (es1, m1, w1) \<Rightarrow> (case F kind m1 w1 of None \<Rightarrow> None
          | Some (es2, m2, w2) \<Rightarrow> Some (es1 @ es2, m2, w2)))"

text \<open>The answer to one control message has at most one acknowledgement, at its end.\<close>

definition one_ack :: "control_event list \<Rightarrow> bool" where
  "one_ack es \<longleftrightarrow> Hangup \<notin> set es \<and> Deadline \<notin> set es \<and> Arrives AXI_MSG_FRONTEND_NOTIFY_ACK \<notin> set (butlast es)"

lemma await_one_ack:
  assumes "one_ack es"
  shows "au_inbox (await_ack es s) = []" and "au_async_pending (await_ack es s) = au_async_pending s"
    and "au_role (await_ack es s) = au_role s" "au_policy (await_ack es s) = au_policy s" "au_notify_ack (await_ack es s) = au_notify_ack s"
  using assms
  by (induction es s rule: await_ack.induct) (auto simp: one_ack_def uio_set_irq_def split: if_splits)

lemma await_far: "au_far (await_ack es s) = au_far s"
  by (induction es s rule: await_ack.induct) (simp_all add: axi_control_close_def uio_set_irq_def)

lemma to_frontend_messages:
  assumes "au_far q = []"
  shows "one_ack (map Arrives (au_far (axi_uio_write to_frontend off v len q)))"
  using assms
  by (auto simp: axi_uio_write_def axi_control_send_def to_frontend_def axi_uio_notify_backend_def axi_uio_notify_backend_async_def
      axi_wait_for_notify_ack_def one_ack_def await_far Let_def)

lemma react_one_ack: "\<exists>es m' bk'. backend_react n dev kind m bk = Some (es, m', bk') \<and> one_ack es"
proof -
  have nil: "one_ack []" by (simp add: one_ack_def)
  have far: "au_far (axi_control_event (Arrives kind) q) = au_far q" for q :: "u16 list axi_uio"
    by (simp add: axi_control_event_def uio_set_irq_def)
  show ?thesis
    using to_frontend_messages by (auto simp: backend_react_def Let_def nil far split: res.splits prod.splits)
qed

text \<open>A notification is outstanding and nothing is on the way back.\<close>

definition awaiting :: "'w axi_uio \<Rightarrow> bool" where
  "awaiting s \<longleftrightarrow> au_role s = AXI_ROLE_SLAVE \<and> au_policy s = AXI_NOTIFY_POLICY_BARRIER \<and> au_notify_ack s \<and>
     au_async_pending s \<and> au_inbox s = []"

text \<open>
  The mark of an outstanding notification is also set when the message could not be sent, and a new
  connection does not take it back: the notifications after it are withheld until an acknowledgement arrives.
\<close>

lemma reconnect_withholds:
  assumes "au_role s = AXI_ROLE_SLAVE" and "au_policy s = AXI_NOTIFY_POLICY_BARRIER" and "au_notify_ack s" and "\<not> au_control_fd s"
    and "\<not> VIRTIO_MMIO_QUEUE_NOTIFY + ucast len > au_size s"
    and t_def: "t = axi_control_accept True (axi_uio_write F VIRTIO_MMIO_QUEUE_NOTIFY v len s)"
  shows "awaiting t" and "au_control_fd t" and "au_far (axi_uio_write F VIRTIO_MMIO_QUEUE_NOTIFY v' len' t) = au_far t"
proof -
  have "axi_uio_write_needs_backend s VIRTIO_MMIO_QUEUE_NOTIFY" by (simp add: axi_uio_write_needs_backend_def axi_barrier_offsets_def)
  then show "awaiting t" and fd: "au_control_fd t"
    using assms(1-5) by (auto simp: t_def axi_control_accept_def axi_control_close_def axi_uio_write_def axi_uio_notify_backend_async_def
        axi_control_send_def awaiting_def Let_def)
  then show "au_far (axi_uio_write F VIRTIO_MMIO_QUEUE_NOTIFY v' len' t) = au_far t"
    by (simp add: awaiting_def axi_uio_write_def axi_uio_notify_backend_async_def Let_def)
qed

lemma awaiting_kept:
  assumes "awaiting s"
  shows "awaiting (axi_uio_write (backend_react n dev) off v len s)"
proof -
  have "awaiting (axi_uio_notify_backend (backend_react n dev) u)" if "awaiting u" for u
  proof -
    obtain es m w where "backend_react n dev AXI_MSG_FRONTEND_NOTIFY (au_shared u) (au_far u) = Some (es, m, w)" "one_ack es"
      using react_one_ack by blast
    with that show ?thesis
      by (simp add: awaiting_def axi_uio_notify_backend_def axi_wait_for_notify_ack_def axi_control_send_def await_one_ack)
  qed
  moreover have "awaiting (u\<lparr>au_shared := m\<rparr>) = awaiting u" for u :: "'a backend axi_uio" and m by (simp add: awaiting_def)
  ultimately show ?thesis
    using assms by (auto simp: axi_uio_write_def axi_uio_notify_backend_async_def Let_def) (auto simp: awaiting_def)
qed

lemma write_size: "au_size (axi_uio_write F off v len s) = au_size s"
proof -
  have a: "au_size (await_ack es s) = au_size s" for es and s :: "'a axi_uio"
    by (induction es s rule: await_ack.induct) (simp_all add: axi_control_close_def uio_set_irq_def)
  have c: "au_size (snd (axi_control_send F kind s)) = au_size s" for kind and s :: "'a axi_uio"
    by (auto simp: axi_control_send_def axi_control_close_def split: option.splits)
  have "au_size (axi_wait_for_notify_ack F s) = au_size s" for s :: "'a axi_uio"
    using c [of AXI_MSG_FRONTEND_NOTIFY s] by (auto simp: axi_wait_for_notify_ack_def a split: prod.splits)
  then show ?thesis
    by (simp add: axi_uio_write_def axi_uio_notify_backend_def axi_uio_notify_backend_async_def c Let_def)
qed

lemma awaiting_sent:
  fixes v :: u32
  assumes "frontend_ok s" and "au_policy s = AXI_NOTIFY_POLICY_BARRIER"
  defines "t \<equiv> axi_uio_write in_flight VIRTIO_MMIO_QUEUE_NOTIFY (ucast v) 4 s"
  shows "awaiting t" and "au_shared t = stored s VIRTIO_MMIO_QUEUE_NOTIFY v" and "au_size t = au_size s" and "au_far t = au_far s"
proof -
  have "axi_uio_write_needs_backend s VIRTIO_MMIO_QUEUE_NOTIFY" by (simp add: axi_uio_write_needs_backend_def axi_barrier_offsets_def)
  note store = slave_store [where F = in_flight and v = v, OF assms(1) distinct_write_offsets(3) this]
  show "awaiting t" "au_shared t = stored s VIRTIO_MMIO_QUEUE_NOTIFY v" "au_size t = au_size s" "au_far t = au_far s"
    unfolding t_def store
    using assms(1,2) by (simp_all add: axi_uio_notify_backend_async_def axi_control_send_def in_flight_def awaiting_def frontend_ok_def Let_def)
qed

text \<open>
  The acknowledgement of an interrupt while a notification is under way: the first message wakes the daemon,
  which finds both stores and answers them once; the second wakes it with nothing to find.
\<close>

lemma late_ack_turn:
  assumes "linked (uio_blkd dr n b path) s" and "au_policy s = AXI_NOTIFY_POLICY_BARRIER" and "a \<noteq> 0" and "64 < n"
    and "s1 = axi_uio_write in_flight VIRTIO_MMIO_QUEUE_NOTIFY 0 4 s"
    and "callbacks_leave (uio_blkd dr n b path) s (stored s1 VIRTIO_MMIO_INTERRUPT_ACK a) (daemon_of s) (bk_shadow (au_far s)) u"
    and "us_pending_irq_level (dm_fab u) = 1"
    and "s2 = axi_uio_write (late AXI_MSG_FRONTEND_NOTIFY (backend_react n (uio_blkd dr n b path))) VIRTIO_MMIO_INTERRUPT_ACK (ucast a) 4 s1"
  shows "awaiting s2" and "linked (uio_blkd dr n b path) (s2\<lparr>au_async_pending := False\<rparr>)" and "au_irq s2"
    and "dm_mmio (daemon_of s2) = dm_mmio u" and "dm_host (daemon_of s2) = dm_host u" and "uio_ram (dm_fab (daemon_of s2)) = uio_ram (dm_fab u)"
proof -
  let ?dev = "uio_blkd dr n b path" and ?A = VIRTIO_MMIO_INTERRUPT_ACK
  let ?F = "backend_react n ?dev" and ?m = "stored s1 VIRTIO_MMIO_INTERRUPT_ACK a"
  have ok: "frontend_ok s" using assms(1) by (simp add: linked_def)
  have s1: "s1 = s\<lparr>au_shared := stored s VIRTIO_MMIO_QUEUE_NOTIFY 0, au_async_pending := True\<rparr>"
  proof -
    have "axi_uio_write_needs_backend s VIRTIO_MMIO_QUEUE_NOTIFY" by (simp add: axi_uio_write_needs_backend_def axi_barrier_offsets_def)
    from slave_store [where F = in_flight and v = 0, OF ok distinct_write_offsets(3) this] show ?thesis
      using assms(2,5) ok by (cases s) (simp add: axi_uio_notify_backend_async_def axi_control_send_def in_flight_def frontend_ok_def Let_def)
  qed
  define t0 where "t0 = axi_uio_notify_backend ?F (s\<lparr>au_shared := ?m\<rparr>)"
  note first = link_turn [OF assms(1,4,6) assms(7) [symmetric] t0_def]
  define t1 where "t1 = axi_uio_notify_backend ?F t0"
  note second = empty_turn [OF first(1) assms(4) t1_def]
  have far: "late AXI_MSG_FRONTEND_NOTIFY ?F AXI_MSG_FRONTEND_NOTIFY ?m (au_far s) = Some (turn_messages 1, au_shared t1, au_far t1)"
    unfolding late_def first(5) by (simp add: second(1))
  have A: "?A \<in> set write_offsets" "?A \<noteq> VIRTIO_MMIO_QUEUE_NOTIFY" "?A \<noteq> VIRTIO_MMIO_QUEUE_SEL"
    "axi_uio_write_needs_backend s1 ?A"
    by (simp_all add: write_offsets_def axi_uio_write_needs_backend_def axi_barrier_offsets_def) (simp_all add: vm_simps)
  have fits: "\<not> ?A + 4 > au_size s1" using slave_fits [OF ok write_offsets_fit [OF A(1)]] by (simp add: s1)
  have "s2 = axi_uio_notify_backend (late AXI_MSG_FRONTEND_NOTIFY ?F) (s1\<lparr>au_shared := ?m\<rparr>)"
    using fits A ok unfolding assms(8)
    by (simp add: axi_uio_write_def stored_def frontend_ok_def take_store_le64 Let_def) (simp add: s1)
  also have "\<dots> = s1\<lparr>au_shared := au_shared t1, au_inbox := [], au_far := au_far t1, au_irq := True, au_irq_edges :=
      (if au_irq s then au_irq_edges s else Suc (au_irq_edges s))\<rparr>"
    using far ok by (simp add: s1 axi_uio_notify_backend_def axi_wait_for_notify_ack_def axi_control_send_def turn_messages_def
        frontend_ok_def uio_set_irq_def)
  finally have s2: "s2 = s1\<lparr>au_shared := au_shared t1, au_inbox := [], au_far := au_far t1, au_irq := True, au_irq_edges :=
      (if au_irq s then au_irq_edges s else Suc (au_irq_edges s))\<rparr>" .
  show "awaiting s2" using ok assms(2) by (simp add: s2 s1 awaiting_def frontend_ok_def)
  show "linked ?dev (s2\<lparr>au_async_pending := False\<rparr>)"
    using second(2) ok by (simp add: linked_def s2 s1 frontend_ok_def Let_def)
  show "au_irq s2" by (simp add: s2)
  show "dm_mmio (daemon_of s2) = dm_mmio u" "dm_host (daemon_of s2) = dm_host u" "uio_ram (dm_fab (daemon_of s2)) = uio_ram (dm_fab u)"
    using first second by (simp_all add: s2)
qed

text \<open>
  C38: a queue notification in UIO mode with the barrier policy that is still under way when the guest
  acknowledges an interrupt. The daemon finds both stores in one turn, serves the pending requests and
  answers once; QEMU's wait for the acknowledgement of the second store consumes this answer and leaves the
  notification marked as outstanding, although every message has been handled, nothing is on the way back
  and the daemon waits: apart from this mark the link is intact. The mark then stays: after any
  further stores of the guest, answered at once, and however often the main loop runs, a store into the
  notification register goes into the shared window and sends nothing, so it does not wake the daemon by
  itself; what it announces waits until another barrier store wakes the scan.
\<close>

theorem guest_notifications_withheld:
  fixes a :: u32
  assumes "linked (uio_blkd dr n b path) s" and "d = daemon_of s" and "au_policy s = AXI_NOTIFY_POLICY_BARRIER" and "a \<noteq> 0"
    and "blk_srv_ready uio_live f wr d c" and "vd_queues (dm_vdev d) = [q]" and "vq_ready q \<noteq> 0"
    and "serve_ok (blk_good wr n (uio_reach (dm_fab d)) (h_heap (dm_host d))) (uio_reach (dm_fab d)) blk_serve
           k (uio_ram (dm_fab d)) c q"
    and "0 < k" and "k < n" and "64 < n" and "serve_all blk_serve k (uio_ram (dm_fab d)) c q = (m', c', q')"
    and "s1 = axi_uio_write in_flight VIRTIO_MMIO_QUEUE_NOTIFY 0 4 s"
    and "s2 = axi_uio_write (late AXI_MSG_FRONTEND_NOTIFY (backend_react n (uio_blkd dr n b path))) VIRTIO_MMIO_INTERRUPT_ACK (ucast a) 4 s1"
    and "t = handle_events j (fold (\<lambda>(off, v, len). axi_uio_write (backend_react n (uio_blkd dr n b path)) off v len) stores s2)"
    and "t' = axi_uio_write (backend_react n (uio_blkd dr n b path)) VIRTIO_MMIO_QUEUE_NOTIFY 0 4 t"
  shows "uio_ram (dm_fab (daemon_of s2)) = m' \<and> h_files (dm_host (daemon_of s2)) (of_path f) = Some c' \<and>
    vd_queues (dm_vdev (daemon_of s2)) = [q'] \<and> au_irq s2 \<and>
    au_async_pending s2 \<and> au_inbox s2 = [] \<and> linked (uio_blkd dr n b path) (s2\<lparr>au_async_pending := False\<rparr>) \<and>
    au_async_pending t \<and> au_far t' = au_far t \<and> au_inbox t' = [] \<and> reg_at (au_shared t') VIRTIO_MMIO_QUEUE_NOTIFY = 0"
proof -
  let ?dev = "uio_blkd dr n b path" and ?A = VIRTIO_MMIO_INTERRUPT_ACK and ?N = VIRTIO_MMIO_QUEUE_NOTIFY
  have ok: "frontend_ok s" using assms(1) by (simp add: linked_def)
  have sent: "au_shared s1 = stored s ?N 0" "au_size s1 = au_size s"
    using awaiting_sent [OF ok assms(3), where v = 0] assms(13) by simp_all
  define m where "m = stored s1 ?A a"
  define y where "y = (put_window m d)\<lparr>dm_mmio := virtio_mmio_write (Some (blk_ops dr n)) (dm_mmio d) ?A (ucast a),
      dm_fab := set_reg ?A 0 ((dm_fab (put_window m d))\<lparr>us_pending_irq_level := 0\<rparr>)\<rparr>"
  let ?x = "y\<lparr>dm_fab := set_reg ?N UIO_NOTIFY_IDLE (dm_fab y)\<rparr>"
  have x: "dm_opaque ?x = dm_opaque d" "dm_host ?x = dm_host d" "vd_queues (dm_vdev ?x) = vd_queues (dm_vdev d)"
    "uio_live (dm_fab ?x) = uio_live (dm_fab d)" "uio_ram (dm_fab ?x) = uio_ram (dm_fab d)" "uio_reach (dm_fab ?x) = uio_reach (dm_fab d)"
    by (auto simp: y_def virtio_mmio_write_simps uio_live_def uio_ram_def uio_reach_def fun_eq_iff)
  have srv: "blk_srv_ready uio_live f wr ?x c" using assms(5) x by (simp add: blk_srv_ready_def blk_ready_def)
  obtain u where u: "blkd_virtio_notify_queue (uio_ops (\<lambda>_. id)) dr n 0 ?x = (OK (), u)"
    "uio_ram (dm_fab u) = m'" "h_files (dm_host u) (of_path f) = Some c'" "vd_queues (dm_vdev u) = [q']" "us_pending_irq_level (dm_fab u) = 1"
    using blk_notify_run [OF srv, of q n k m' c' q' dr] assms(6-10,12) x by auto
  have "callbacks_leave ?dev s m (daemon_of s) (bk_shadow (au_far s)) u"
    using callbacks_both [OF assms(1,2,4) sent m_def y_def u(1)] assms(2) by simp
  note late = late_ack_turn [OF assms(1,3,4,11,13) this [unfolded m_def] u(5) assms(14)]
  define r where "r = fold (\<lambda>(off, v, len). axi_uio_write (backend_react n ?dev) off v len) stores s2"
  have "awaiting r" unfolding r_def using late(1) by (induction stores rule: rev_induct) (auto simp: awaiting_kept)
  then have "handle_events j r = r" by (induction j) (simp_all add: axi_control_read_def awaiting_def)
  then have t: "t = r" "awaiting t" using assms(15) \<open>awaiting r\<close> by (simp_all add: r_def)
  have t': "t' = (if ?N + 4 > au_size t then t else t\<lparr>au_shared := mem_write (au_shared t) ?N (virtio_store_le32 0)\<rparr>)"
    using t(2) take_store_le64 [of 0] unfolding assms(16)
    by (simp add: axi_uio_write_def awaiting_def axi_uio_notify_backend_async_def axi_uio_write_needs_backend_def axi_barrier_offsets_def Let_def)
      (simp add: vm_simps)
  have "au_size t = au_size s2"
    unfolding t(1) r_def by (induction stores rule: rev_induct) (auto simp: write_size)
  then have "au_size t = au_size s" using assms(14) sent(2) by (simp add: write_size)
  then have "\<not> ?N + 4 > au_size t" using slave_fits [OF ok write_offsets_fit [OF distinct_write_offsets(3)]] by simp
  with t' have "au_far t' = au_far t" "au_inbox t' = []" "reg_at (au_shared t') ?N = 0"
    using t(2) by (simp_all add: awaiting_def reg_at_write distinct_write_offsets(3))
  with late u(2-4) t(2) show ?thesis by (simp add: awaiting_def)
qed

text \<open>The guest submits a request and acknowledges an interrupt; its next notification stays in the window.\<close>

theorem guest_notifications_withheld_witness:
  "let F = backend_react 66 (uio_blkd False 66 demo_backend ''uio:/dev/uio0'');
       s1 = axi_uio_write in_flight VIRTIO_MMIO_QUEUE_NOTIFY 0 4 (demo_link AXI_NOTIFY_POLICY_BARRIER notify_ram);
       s2 = axi_uio_write (late AXI_MSG_FRONTEND_NOTIFY F) VIRTIO_MMIO_INTERRUPT_ACK 1 4 s1;
       t = handle_events 10 s2; t' = axi_uio_write F VIRTIO_MMIO_QUEUE_NOTIFY 0 4 t
   in uio_ram (dm_fab (daemon_of s2)) = used_push served_ram demo_queue 0 5 \<and> au_async_pending t \<and>
      au_far t' = au_far t \<and> reg_at (au_shared t') VIRTIO_MMIO_QUEUE_NOTIFY = 0"
proof -
  let ?s = "demo_link AXI_NOTIFY_POLICY_BARRIER notify_ram" and ?d = "demo_state notify_ram" and ?c = "[1, 2, 3, 4, 5, 6, 7, 8]"
  have d: "?d = daemon_of ?s" and p: "au_policy ?s = AXI_NOTIFY_POLICY_BARRIER" by (simp_all add: demo_link_def)
  have ready: "blk_srv_ready uio_live demo_file True ?d ?c" using demo_ready demo_writable by (simp add: blk_srv_ready_def)
  have serve: "serve_ok (blk_good True 66 (uio_reach (dm_fab ?d)) (h_heap (dm_host ?d))) (uio_reach (dm_fab ?d)) blk_serve
      1 (uio_ram (dm_fab ?d)) ?c demo_queue"
    unfolding demo_heap demo_uio_ram by (rule notify_serve_ok) simp
  have all: "serve_all blk_serve 1 (uio_ram (dm_fab ?d)) ?c demo_queue = (used_push served_ram demo_queue 0 5, ?c, consume demo_queue)"
    using notify_pending notify_serve by simp
  have vd: "vd_queues (dm_vdev ?d) = [demo_queue]" "vq_ready demo_queue \<noteq> 0" by (simp_all add: demo_state_def demo_queue_def)
  show ?thesis
    using guest_notifications_withheld [OF demo_linked d p _ ready vd serve _ _ _ all refl refl refl refl,
        where a = 1 and stores = "[]" and j = 10 and path = "''uio:/dev/uio0''"] by (simp add: Let_def)
qed

end
