(* ===== verification/Axi_Mmio.thy ===== *)
theory Axi_Mmio
  imports Chiplets_Prelude
begin

unbundle bit_operations_syntax

text \<open>
  The frontend kernel driver \<^verbatim>\<open>src/kernel/axi_mmio.c\<close>: the DMA pool in the restricted aperture, its bounce
  buffers, the DMA operations of the virtio-mmio child device, and the pools shared by the devices
  with their reference counts, acquired in \<open>probe\<close>. The kernel services the driver calls (bitmaps,
  linked lists, \<open>memremap\<close>, allocation, managed resources) are modelled as far as it uses them: a
  pointer into a remapped region is named by the physical address it maps, and \<open>dk_script\<close> and
  \<open>ag_script\<close> say which of the next calls that may fail succeed (\<open>False\<close> is a failure; all succeed once
  the list is used up). The DMA operations of one pool are modelled one at a time, as the pool's lock
  orders them.
\<close>

section \<open>State\<close>

definition PAGE_SHIFT :: nat where "PAGE_SHIFT = 12"
definition DMA_MAPPING_ERROR :: u64 where "DMA_MAPPING_ERROR = 0xffffffffffffffff"
definition EINVAL :: int where "EINVAL = 22"
definition ENOMEM :: int where "ENOMEM = 12"

datatype dma_data_direction = DMA_BIDIRECTIONAL | DMA_TO_DEVICE | DMA_FROM_DEVICE | DMA_NONE

record axi_mmio_bounce =
  bn_dma_handle :: u64
  bn_phys :: u64
  bn_size :: u64

text \<open>\<open>pl_ptr\<close> is the address of the structure. The bitmap has one bit per page of the aperture.\<close>

record axi_mmio_pool =
  pl_ptr :: nat
  pl_bounces :: "axi_mmio_bounce list"
  pl_dma_base :: u64
  pl_dma_size :: u64
  pl_dma_virt :: u64
  pl_dma_bitmap :: "bool list"
  pl_dma_pages :: u64
  pl_refs :: nat

text \<open>
  What a DMA operation works on: physical memory, the pool the device's parent leads to (\<open>None\<close> when
  there is no driver data or no pool), and the outcomes of the next allocations and mappings.
\<close>

record dma_state =
  dk_mem :: memory
  dk_pool :: "axi_mmio_pool option"
  dk_script :: "bool list"

definition may_fail :: "dma_state \<Rightarrow> bool \<times> dma_state" where
  "may_fail s = (case dk_script s of [] \<Rightarrow> (True, s) | b # bs \<Rightarrow> (b, s\<lparr>dk_script := bs\<rparr>))"

section \<open>Bitmaps of the kernel\<close>

text \<open>
  The counts are of type \<open>unsigned int\<close>. The search returns the first clear bit that starts a run of
  \<open>nr\<close> clear bits, and a value of at least the size when there is none.
\<close>

definition zero_area :: "bool list \<Rightarrow> nat \<Rightarrow> nat \<Rightarrow> bool" where
  "zero_area bm i n \<longleftrightarrow> i < length bm \<and> \<not> bm ! i \<and> i + n \<le> length bm \<and> list_all Not (take n (drop i bm))"

definition bitmap_find_next_zero_area :: "bool list \<Rightarrow> u32 \<Rightarrow> nat" where
  "bitmap_find_next_zero_area bm nr =
     (case find (\<lambda>i. zero_area bm i (unat nr)) [0..<length bm] of
        Some i \<Rightarrow> i | None \<Rightarrow> length bm + unat nr)"

definition bitmap_put :: "bool \<Rightarrow> bool list \<Rightarrow> u32 \<Rightarrow> u32 \<Rightarrow> bool list" where
  "bitmap_put b bm start nbits =
     take (unat start) bm @ replicate (unat nbits) b @ drop (unat start + unat nbits) bm"

section \<open>The page allocator\<close>

definition page_count :: "u64 \<Rightarrow> u64" where
  "page_count size' = drop_bit PAGE_SHIFT ((size' + 0xfff) AND NOT 0xfff)"

definition axi_mmio_pool_vaddr :: "axi_mmio_pool \<Rightarrow> u64 \<Rightarrow> u64" where
  "axi_mmio_pool_vaddr pool dma_handle = pl_dma_virt pool + (dma_handle - pl_dma_base pool)"

definition axi_mmio_pool_alloc :: "axi_mmio_pool \<Rightarrow> u64 \<Rightarrow> u64 option \<times> axi_mmio_pool" where
  "axi_mmio_pool_alloc pool size' =
     (let pages = page_count size' in
      if pages = 0 then (None, pool)
      else let start = bitmap_find_next_zero_area (pl_dma_bitmap pool) (ucast pages) in
        if start \<ge> unat (pl_dma_pages pool) then (None, pool)
        else (Some (pl_dma_base pool + push_bit PAGE_SHIFT (of_nat start)),
              pool\<lparr>pl_dma_bitmap := bitmap_put True (pl_dma_bitmap pool) (of_nat start) (ucast pages)\<rparr>))"

definition axi_mmio_pool_free :: "axi_mmio_pool \<Rightarrow> u64 \<Rightarrow> u64 \<Rightarrow> axi_mmio_pool" where
  "axi_mmio_pool_free pool dma_handle size' =
     (let pages = page_count size' in
      if dma_handle < pl_dma_base pool \<or> pages = 0 then pool
      else let offset = drop_bit PAGE_SHIFT (dma_handle - pl_dma_base pool) in
        if offset + pages > pl_dma_pages pool then pool
        else pool\<lparr>pl_dma_bitmap := bitmap_put False (pl_dma_bitmap pool) (ucast offset) (ucast pages)\<rparr>)"

section \<open>Copies between a buffer and the pool\<close>

definition memcpy :: "u64 \<Rightarrow> u64 \<Rightarrow> u64 \<Rightarrow> memory \<Rightarrow> memory" where
  "memcpy dst src n m = mem_write m dst (mem_read m src (unat n))"

definition axi_mmio_copy_phys_to_pool :: "axi_mmio_pool \<Rightarrow> u64 \<Rightarrow> u64 \<Rightarrow> u64 \<Rightarrow> dma_state \<Rightarrow> bool \<times> dma_state" where
  "axi_mmio_copy_phys_to_pool pool dma_handle phys size' s =
     (case may_fail s of (mapped, s) \<Rightarrow>
        if \<not> mapped then (False, s)
        else (True, s\<lparr>dk_mem := memcpy (axi_mmio_pool_vaddr pool dma_handle) phys size' (dk_mem s)\<rparr>))"

definition axi_mmio_copy_pool_to_phys :: "axi_mmio_pool \<Rightarrow> u64 \<Rightarrow> u64 \<Rightarrow> u64 \<Rightarrow> dma_state \<Rightarrow> bool \<times> dma_state" where
  "axi_mmio_copy_pool_to_phys pool dma_handle phys size' s =
     (case may_fail s of (mapped, s) \<Rightarrow>
        if \<not> mapped then (False, s)
        else (True, s\<lparr>dk_mem := memcpy phys (axi_mmio_pool_vaddr pool dma_handle) size' (dk_mem s)\<rparr>))"

section \<open>Bounce buffers\<close>

definition axi_mmio_bounce_find_locked :: "axi_mmio_pool \<Rightarrow> u64 \<Rightarrow> axi_mmio_bounce option" where
  "axi_mmio_bounce_find_locked pool dma_handle = find (\<lambda>b. bn_dma_handle b = dma_handle) (pl_bounces pool)"

text \<open>\<open>list_del\<close> of the node the search found: the first one with that handle.\<close>

fun bounce_del :: "u64 \<Rightarrow> axi_mmio_bounce list \<Rightarrow> axi_mmio_bounce list" where
  "bounce_del h [] = []"
| "bounce_del h (b # bs) = (if bn_dma_handle b = h then bs else b # bounce_del h bs)"

definition axi_mmio_bounce_sync_for_device ::
  "axi_mmio_pool \<Rightarrow> u64 \<Rightarrow> u64 \<Rightarrow> dma_data_direction \<Rightarrow> dma_state \<Rightarrow> dma_state" where
  "axi_mmio_bounce_sync_for_device pool dma_handle size' dir s =
     (if dir = DMA_FROM_DEVICE then s
      else case axi_mmio_bounce_find_locked pool dma_handle of
        None \<Rightarrow> s
      | Some b \<Rightarrow> snd (axi_mmio_copy_phys_to_pool pool dma_handle (bn_phys b) (min size' (bn_size b)) s))"

definition axi_mmio_bounce_sync_for_cpu ::
  "axi_mmio_pool \<Rightarrow> u64 \<Rightarrow> u64 \<Rightarrow> dma_data_direction \<Rightarrow> dma_state \<Rightarrow> dma_state" where
  "axi_mmio_bounce_sync_for_cpu pool dma_handle size' dir s =
     (if dir = DMA_TO_DEVICE then s
      else case axi_mmio_bounce_find_locked pool dma_handle of
        None \<Rightarrow> s
      | Some b \<Rightarrow> snd (axi_mmio_copy_pool_to_phys pool dma_handle (bn_phys b) (min size' (bn_size b)) s))"

section \<open>The DMA operations\<close>

definition set_pool :: "axi_mmio_pool \<Rightarrow> dma_state \<Rightarrow> dma_state" where
  "set_pool pool s = s\<lparr>dk_pool := Some pool\<rparr>"

text \<open>The result is the pointer and the handle, or NULL.\<close>

definition axi_mmio_dma_alloc :: "u64 \<Rightarrow> dma_state \<Rightarrow> (u64 \<times> u64) option \<times> dma_state" where
  "axi_mmio_dma_alloc size' s = (case dk_pool s of
      None \<Rightarrow> (None, s)
    | Some pool \<Rightarrow> (case axi_mmio_pool_alloc pool size' of
          (None, pool) \<Rightarrow> (None, set_pool pool s)
        | (Some dma, pool) \<Rightarrow> (Some (axi_mmio_pool_vaddr pool dma, dma), set_pool pool s)))"

definition axi_mmio_dma_free :: "u64 \<Rightarrow> u64 \<Rightarrow> dma_state \<Rightarrow> dma_state" where
  "axi_mmio_dma_free size' dma_handle s = (case dk_pool s of
      None \<Rightarrow> s
    | Some pool \<Rightarrow> set_pool (axi_mmio_pool_free pool dma_handle size') s)"

definition in_aperture :: "axi_mmio_pool \<Rightarrow> u64 \<Rightarrow> u64 \<Rightarrow> bool" where
  "in_aperture pool a size' \<longleftrightarrow> a \<ge> pl_dma_base pool \<and> size' \<le> pl_dma_size pool \<and>
     a - pl_dma_base pool \<le> pl_dma_size pool - size'"

definition axi_mmio_dma_map_phys :: "u64 \<Rightarrow> u64 \<Rightarrow> dma_data_direction \<Rightarrow> dma_state \<Rightarrow> u64 \<times> dma_state" where
  "axi_mmio_dma_map_phys phys size' dir s = (case dk_pool s of
      None \<Rightarrow> (DMA_MAPPING_ERROR, s)
    | Some pool \<Rightarrow>
        if size' = 0 then (DMA_MAPPING_ERROR, s)
        else if in_aperture pool phys size' then (phys, s)
        else case may_fail s of (allocated, s) \<Rightarrow>
          if \<not> allocated then (DMA_MAPPING_ERROR, s)
          else case axi_mmio_pool_alloc pool size' of
            (None, pool) \<Rightarrow> (DMA_MAPPING_ERROR, set_pool pool s)
          | (Some dma_handle, pool) \<Rightarrow>
              (case (if dir \<noteq> DMA_FROM_DEVICE
                     then axi_mmio_copy_phys_to_pool pool dma_handle phys size' (set_pool pool s)
                     else (True, set_pool pool s)) of
                 (False, s) \<Rightarrow> (DMA_MAPPING_ERROR, set_pool (axi_mmio_pool_free pool dma_handle size') s)
               | (True, s) \<Rightarrow>
                   (dma_handle, set_pool (pool\<lparr>pl_bounces :=
                      \<lparr>bn_dma_handle = dma_handle, bn_phys = phys, bn_size = size'\<rparr> # pl_bounces pool\<rparr>) s)))"

definition axi_mmio_dma_unmap_phys :: "u64 \<Rightarrow> u64 \<Rightarrow> dma_data_direction \<Rightarrow> dma_state \<Rightarrow> dma_state" where
  "axi_mmio_dma_unmap_phys dma_handle size' dir s = (case dk_pool s of
      None \<Rightarrow> s
    | Some pool \<Rightarrow>
        if dma_handle < pl_dma_base pool \<or> size' > pl_dma_size pool \<or>
           dma_handle - pl_dma_base pool > pl_dma_size pool - size' then s
        else case axi_mmio_bounce_find_locked pool dma_handle of
          None \<Rightarrow> s
        | Some b \<Rightarrow>
            let pool = pool\<lparr>pl_bounces := bounce_del dma_handle (pl_bounces pool)\<rparr>;
                s = (if dir \<noteq> DMA_TO_DEVICE
                     then snd (axi_mmio_copy_pool_to_phys pool dma_handle (bn_phys b) (min size' (bn_size b)) s)
                     else s)
            in set_pool (axi_mmio_pool_free pool dma_handle (bn_size b)) s)"

section \<open>Scatter lists\<close>

record scatterlist =
  sg_phys :: u64
  sg_length :: u32
  sg_dma_address :: u64
  sg_dma_len :: u32

definition sg_unmapped :: "scatterlist \<Rightarrow> scatterlist" where
  "sg_unmapped sg = sg\<lparr>sg_dma_address := DMA_MAPPING_ERROR, sg_dma_len := 0\<rparr>"

text \<open>The rollback loop: the entries mapped so far are freed and marked, in order.\<close>

fun sg_rollback :: "axi_mmio_pool \<Rightarrow> scatterlist list \<Rightarrow> axi_mmio_pool \<times> scatterlist list" where
  "sg_rollback pool [] = (pool, [])"
| "sg_rollback pool (sg # sgs) =
     (case sg_rollback (axi_mmio_pool_free pool (sg_dma_address sg) (ucast (sg_dma_len sg))) sgs of
        (pool, sgs) \<Rightarrow> (pool, sg_unmapped sg # sgs))"

text \<open>
  The mapping loop over the remaining entries; \<open>mapped\<close> are the entries before them. The result is
  whether all were mapped, the list, the pool and the memory.
\<close>

fun sg_map_loop ::
  "dma_data_direction \<Rightarrow> scatterlist list \<Rightarrow> scatterlist list \<Rightarrow> axi_mmio_pool \<Rightarrow> memory \<Rightarrow>
   bool \<times> scatterlist list \<times> axi_mmio_pool \<times> memory" where
  "sg_map_loop dir mapped [] pool m = (True, mapped, pool, m)"
| "sg_map_loop dir mapped (sg # sgs) pool m =
     (case axi_mmio_pool_alloc pool (ucast (sg_length sg)) of
        (None, pool) \<Rightarrow> (case sg_rollback pool mapped of (pool, mapped) \<Rightarrow> (False, mapped @ sg # sgs, pool, m))
      | (Some addr, pool) \<Rightarrow>
          sg_map_loop dir (mapped @ [sg\<lparr>sg_dma_address := addr, sg_dma_len := sg_length sg\<rparr>]) sgs pool
            (if dir \<noteq> DMA_FROM_DEVICE
             then memcpy (axi_mmio_pool_vaddr pool addr) (sg_phys sg) (ucast (sg_length sg)) m else m))"

definition axi_mmio_dma_map_sg ::
  "scatterlist list \<Rightarrow> dma_data_direction \<Rightarrow> dma_state \<Rightarrow> int \<times> scatterlist list \<times> dma_state" where
  "axi_mmio_dma_map_sg sgl dir s = (case dk_pool s of
      None \<Rightarrow> (- EINVAL, sgl, s)
    | Some pool \<Rightarrow> (case sg_map_loop dir [] sgl pool (dk_mem s) of (ok, sgl', pool, m) \<Rightarrow>
        (if ok then int (length sgl) else - ENOMEM, sgl', (set_pool pool s)\<lparr>dk_mem := m\<rparr>)))"

fun sg_unmap_loop ::
  "dma_data_direction \<Rightarrow> scatterlist list \<Rightarrow> axi_mmio_pool \<Rightarrow> memory \<Rightarrow> scatterlist list \<times> axi_mmio_pool \<times> memory" where
  "sg_unmap_loop dir [] pool m = ([], pool, m)"
| "sg_unmap_loop dir (sg # sgs) pool m =
     (if sg_dma_address sg = DMA_MAPPING_ERROR \<or> sg_dma_len sg = 0 then
        (case sg_unmap_loop dir sgs pool m of (sgs, r) \<Rightarrow> (sg # sgs, r))
      else
        (case sg_unmap_loop dir sgs
                (axi_mmio_pool_free pool (sg_dma_address sg) (ucast (sg_dma_len sg)))
                (if dir \<noteq> DMA_TO_DEVICE
                 then memcpy (sg_phys sg) (axi_mmio_pool_vaddr pool (sg_dma_address sg))
                        (ucast (min (sg_dma_len sg) (sg_length sg))) m else m) of
           (sgs, r) \<Rightarrow> (sg_unmapped sg # sgs, r)))"

definition axi_mmio_dma_unmap_sg :: "scatterlist list \<Rightarrow> dma_data_direction \<Rightarrow> dma_state \<Rightarrow> scatterlist list \<times> dma_state" where
  "axi_mmio_dma_unmap_sg sgl dir s = (case dk_pool s of
      None \<Rightarrow> (sgl, s)
    | Some pool \<Rightarrow> (case sg_unmap_loop dir sgl pool (dk_mem s) of (sgl', pool, m) \<Rightarrow>
        (sgl', (set_pool pool s)\<lparr>dk_mem := m\<rparr>)))"

section \<open>Synchronisation and masks\<close>

definition axi_mmio_dma_sync_single_for_cpu :: "u64 \<Rightarrow> u64 \<Rightarrow> dma_data_direction \<Rightarrow> dma_state \<Rightarrow> dma_state" where
  "axi_mmio_dma_sync_single_for_cpu dma_handle size' dir s = (case dk_pool s of
      None \<Rightarrow> s | Some pool \<Rightarrow> axi_mmio_bounce_sync_for_cpu pool dma_handle size' dir s)"

definition axi_mmio_dma_sync_single_for_device :: "u64 \<Rightarrow> u64 \<Rightarrow> dma_data_direction \<Rightarrow> dma_state \<Rightarrow> dma_state" where
  "axi_mmio_dma_sync_single_for_device dma_handle size' dir s = (case dk_pool s of
      None \<Rightarrow> s | Some pool \<Rightarrow> axi_mmio_bounce_sync_for_device pool dma_handle size' dir s)"

definition axi_mmio_dma_supported :: "u64 \<Rightarrow> bool" where
  "axi_mmio_dma_supported dma_mask = (dma_mask = 0xffffffffffffffff)"

end
