(* ===== verification/Axi_Pool.thy ===== *)
theory Axi_Pool
  imports Axi_Mmio
begin

unbundle bit_operations_syntax

text \<open>
  The page allocator of the aperture against its specification. An allocator is seen through the set
  of used pages; the locale \<open>page_allocator\<close> states what allocation and release do to that set, and
  derives that the blocks handed out stay disjoint and account for every used page. The pool of
  \<^verbatim>\<open>src/kernel/axi_mmio.c\<close> is an instance, for requests of less than \<open>2 ^ 32\<close> pages.
\<close>

section \<open>The contract of a page allocator\<close>

text \<open>
  A block is a handle with the request it was given for; \<open>span p b\<close> are its pages, and \<open>granted p b\<close> says
  that the handle is one such a request can have been given.
\<close>

locale page_allocator =
  fixes wf :: "'p \<Rightarrow> bool"
    and used :: "'p \<Rightarrow> nat set"
    and span :: "'p \<Rightarrow> 'h \<times> 'r \<Rightarrow> nat set"
    and granted :: "'p \<Rightarrow> 'h \<times> 'r \<Rightarrow> bool"
    and fits :: "'r \<Rightarrow> bool"
    and alloc :: "'p \<Rightarrow> 'r \<Rightarrow> 'h option \<times> 'p"
    and free :: "'p \<Rightarrow> 'h \<Rightarrow> 'r \<Rightarrow> 'p"
  assumes alloc_some: "wf p \<Longrightarrow> fits r \<Longrightarrow> alloc p r = (Some h, p') \<Longrightarrow>
      wf p' \<and> granted p (h, r) \<and> span p (h, r) \<noteq> {} \<and> span p (h, r) \<inter> used p = {} \<and>
      used p' = used p \<union> span p (h, r) \<and> span p' = span p \<and> granted p' = granted p"
  and alloc_none: "alloc p r = (None, p') \<Longrightarrow> p' = p"
  and free_ok: "wf p \<Longrightarrow> granted p (h, r) \<Longrightarrow>
      wf (free p h r) \<and> used (free p h r) = used p - span p (h, r) \<and> span (free p h r) = span p \<and>
      granted (free p h r) = granted p"
begin

text \<open>The blocks \<open>B\<close> are granted, nonempty, pairwise disjoint, and make up all used pages.\<close>

definition holds :: "'p \<Rightarrow> ('h \<times> 'r) set \<Rightarrow> bool" where
  "holds p B \<longleftrightarrow> wf p \<and> (\<forall>b \<in> B. granted p b \<and> span p b \<noteq> {}) \<and>
     (\<forall>b \<in> B. \<forall>c \<in> B. b \<noteq> c \<longrightarrow> span p b \<inter> span p c = {}) \<and> used p = (\<Union>b \<in> B. span p b)"

lemma alloc_apart:
  assumes "holds p B" and "fits r" and "alloc p r = (Some h, p')"
  shows "\<forall>b \<in> B. span p (h, r) \<inter> span p b = {}" and "(h, r) \<notin> B"
proof -
  have "span p (h, r) \<inter> used p = {}" "span p (h, r) \<noteq> {}"
    using alloc_some [of p r h p'] assms by (auto simp: holds_def)
  with assms(1) show "\<forall>b \<in> B. span p (h, r) \<inter> span p b = {}" "(h, r) \<notin> B"
    by (auto simp: holds_def)
qed

lemma holds_alloc:
  assumes "holds p B" and "fits r" and "alloc p r = (Some h, p')"
  shows "holds p' (insert (h, r) B)"
proof -
  have "wf p" using assms(1) by (simp add: holds_def)
  note a = alloc_some [OF this assms(2,3)] and d = alloc_apart(1) [OF assms]
  have "\<forall>b \<in> insert (h, r) B. \<forall>c \<in> insert (h, r) B. b \<noteq> c \<longrightarrow> span p b \<inter> span p c = {}"
    using d assms(1) by (simp add: holds_def) blast
  with a assms(1) show ?thesis by (auto simp: holds_def)
qed

lemma holds_free:
  assumes "holds p B" and "(h, r) \<in> B"
  shows "holds (free p h r) (B - {(h, r)})"
proof -
  have "wf p" "granted p (h, r)" using assms by (auto simp: holds_def)
  note f = free_ok [OF this]
  have "used p - span p (h, r) = (\<Union>b \<in> B - {(h, r)}. span p b)"
    using assms by (fastforce simp: holds_def)
  with f assms show ?thesis by (auto simp: holds_def)
qed

lemma holds_cong:
  "holds p B \<Longrightarrow> wf p' \<Longrightarrow> used p' = used p \<Longrightarrow> span p' = span p \<Longrightarrow> granted p' = granted p \<Longrightarrow> holds p' B"
  by (simp add: holds_def)

end

section \<open>Bitmaps\<close>

definition used_pages :: "axi_mmio_pool \<Rightarrow> nat set" where
  "used_pages p = {i. i < length (pl_dma_bitmap p) \<and> pl_dma_bitmap p ! i}"

lemma zero_area_used:
  "zero_area (pl_dma_bitmap p) i n \<longleftrightarrow> i < length (pl_dma_bitmap p) \<and> i \<notin> used_pages p \<and>
     i + n \<le> length (pl_dma_bitmap p) \<and> {i..<i + n} \<inter> used_pages p = {}"
proof -
  have "list_all Not (take n (drop i bm)) \<longleftrightarrow> (\<forall>j < n. \<not> bm ! (i + j))" if "i + n \<le> length bm" for bm
    using that by (auto simp: list_all_length)
  moreover have "(\<forall>j < n. \<not> P (i + j)) \<longleftrightarrow> (\<forall>k \<in> {i..<i + n}. \<not> P k)" for P :: "nat \<Rightarrow> bool"
    by (auto dest: spec [of _ "_ - i"]) (metis add_diff_inverse_nat less_diff_conv2 linorder_not_less add.commute)
  ultimately have "zero_area (pl_dma_bitmap p) i n \<longleftrightarrow> i < length (pl_dma_bitmap p) \<and> \<not> pl_dma_bitmap p ! i \<and>
      i + n \<le> length (pl_dma_bitmap p) \<and> (\<forall>k \<in> {i..<i + n}. \<not> pl_dma_bitmap p ! k)"
    by (auto simp: zero_area_def)
  then show ?thesis by (auto simp: used_pages_def)
qed

lemma length_bitmap_put [simp]:
  "unat start + unat nbits \<le> length bm \<Longrightarrow> length (bitmap_put b bm start nbits) = length bm"
  by (simp add: bitmap_put_def)

lemma nth_bitmap_put:
  "unat start + unat nbits \<le> length bm \<Longrightarrow> i < length bm \<Longrightarrow>
   bitmap_put b bm start nbits ! i = (if i \<in> {unat start..<unat start + unat nbits} then b else bm ! i)"
  by (auto simp: bitmap_put_def nth_append min_def)

lemma find_area_cases:
  obtains (found) i where "bitmap_find_next_zero_area bm nr = i" and "zero_area bm i (unat nr)"
      and "\<forall>j < i. \<not> zero_area bm j (unat nr)"
  | (none) "bitmap_find_next_zero_area bm nr \<ge> length bm" and "\<forall>j. \<not> zero_area bm j (unat nr)"
proof (cases "find (\<lambda>i. zero_area bm i (unat nr)) [0..<length bm]")
  case None
  then have "\<forall>j. \<not> zero_area bm j (unat nr)"
    by (auto simp: find_None_iff zero_area_def)
  with None show ?thesis using none by (simp add: bitmap_find_next_zero_area_def)
next
  case (Some i)
  then have "zero_area bm i (unat nr)" "\<forall>j < i. \<not> zero_area bm j (unat nr)"
    by (auto simp: find_Some_iff)
  with Some show ?thesis using found by (simp add: bitmap_find_next_zero_area_def)
qed

section \<open>Page arithmetic\<close>

definition pages_of :: "u64 \<Rightarrow> nat" where
  "pages_of size' = (unat size' + 4095) div 4096"

lemma page_count_pages:
  "unat (page_count size') = (if unat size' + 4095 < 2 ^ 64 then pages_of size' else 0)"
proof -
  let ?x = "size' + 0xfff"
  have m: "(0xfff :: u64) = mask 12" by (simp add: mask_eq_exp_minus_1)
  have "drop_bit 12 (?x AND NOT 0xfff) = drop_bit 12 ?x"
    unfolding m by (rule bit_word_eqI) (auto simp: bit_simps dest: bit_imp_le_length)
  then have "unat (page_count size') = unat ?x div 4096"
    using unat_drop_u64 [of 12 ?x] by (simp only: page_count_def PAGE_SHIFT_def) simp
  moreover have "unat ?x = (unat size' + 4095) mod 2 ^ 64" by (simp add: unat_word_ariths)
  moreover have "(unat size' + 4095) mod 2 ^ 64 div 4096 = 0" if "\<not> unat size' + 4095 < 2 ^ 64"
  proof -
    have "unat size' < 2 ^ 64" using unsigned_less [of size'] by simp
    with that have "(unat size' + 4095) mod 2 ^ 64 = unat size' + 4095 - 2 ^ 64"
      by (simp add: mod_if)
    also have "\<dots> < 4096" using \<open>unat size' < 2 ^ 64\<close> by simp
    finally show ?thesis by simp
  qed
  ultimately show ?thesis by (simp add: pages_of_def)
qed


text \<open>
  A well-formed pool: the bitmap has a bit for each page, the aperture is page aligned, does not wrap
  around and has less than \<open>2 ^ 32\<close> pages, and is mapped at its own addresses.
\<close>

definition pool_wf :: "axi_mmio_pool \<Rightarrow> bool" where
  "pool_wf p \<longleftrightarrow> length (pl_dma_bitmap p) = unat (pl_dma_pages p) \<and>
     unat (pl_dma_size p) = 4096 * unat (pl_dma_pages p) \<and> unat (pl_dma_pages p) < 2 ^ 32 \<and>
     unat (pl_dma_base p) + unat (pl_dma_size p) \<le> 2 ^ 64 \<and> pl_dma_virt p = pl_dma_base p"

definition page_handle :: "axi_mmio_pool \<Rightarrow> nat \<Rightarrow> u64" where
  "page_handle p i = pl_dma_base p + of_nat (4096 * i)"

definition page_of :: "axi_mmio_pool \<Rightarrow> u64 \<Rightarrow> nat" where
  "page_of p h = unat (h - pl_dma_base p) div 4096"

definition pool_span :: "axi_mmio_pool \<Rightarrow> u64 \<times> u64 \<Rightarrow> nat set" where
  "pool_span p b = {page_of p (fst b)..<page_of p (fst b) + pages_of (snd b)}"

definition pool_granted :: "axi_mmio_pool \<Rightarrow> u64 \<times> u64 \<Rightarrow> bool" where
  "pool_granted p b \<longleftrightarrow> (\<exists>i. fst b = page_handle p i \<and> i + pages_of (snd b) \<le> unat (pl_dma_pages p)) \<and>
     unat (snd b) + 4095 < 2 ^ 64"

text \<open>Requests of less than \<open>2 ^ 32\<close> pages: the page counts of the bitmap functions do not truncate.\<close>

definition pool_fits :: "u64 \<Rightarrow> bool" where
  "pool_fits size' \<longleftrightarrow> unat (page_count size') < 2 ^ 32"

lemma pool_wf_update [simp]:
  "length bm = length (pl_dma_bitmap p) \<Longrightarrow> pool_wf (p\<lparr>pl_dma_bitmap := bm\<rparr>) = pool_wf p"
  "pool_wf (p\<lparr>pl_bounces := bs\<rparr>) = pool_wf p"
  by (simp_all add: pool_wf_def)

lemma span_update [simp]:
  "pool_span (p\<lparr>pl_dma_bitmap := bm\<rparr>) = pool_span p" "pool_granted (p\<lparr>pl_dma_bitmap := bm\<rparr>) = pool_granted p"
  "pool_span (p\<lparr>pl_bounces := bs\<rparr>) = pool_span p" "pool_granted (p\<lparr>pl_bounces := bs\<rparr>) = pool_granted p"
  "used_pages (p\<lparr>pl_bounces := bs\<rparr>) = used_pages p"
  by (simp_all add: fun_eq_iff pool_span_def pool_granted_def page_of_def page_handle_def used_pages_def)

lemma page_handle_unat:
  assumes "pool_wf p" and "i < unat (pl_dma_pages p)"
  shows "unat (page_handle p i) = unat (pl_dma_base p) + 4096 * i" "page_of p (page_handle p i) = i"
    "pl_dma_base p \<le> page_handle p i" "page_handle p i - pl_dma_base p = of_nat (4096 * i)"
proof -
  have b: "unat (pl_dma_base p) + 4096 * i < 2 ^ 64" using assms by (simp add: pool_wf_def)
  then have o: "unat (of_nat (4096 * i) :: u64) = 4096 * i" by (intro unat_of_nat_u64) simp
  with b show u: "unat (page_handle p i) = unat (pl_dma_base p) + 4096 * i"
    by (simp add: page_handle_def unat_word_ariths)
  show d: "page_handle p i - pl_dma_base p = of_nat (4096 * i)" by (simp add: page_handle_def)
  show "page_of p (page_handle p i) = i" unfolding page_of_def d o by simp
  show "pl_dma_base p \<le> page_handle p i" using u by (simp add: word_le_nat_alt)
qed

lemma used_put:
  assumes "unat start + unat nbits \<le> length (pl_dma_bitmap p)"
  shows "used_pages (p\<lparr>pl_dma_bitmap := bitmap_put True (pl_dma_bitmap p) start nbits\<rparr>) =
      used_pages p \<union> {unat start..<unat start + unat nbits}"
    "used_pages (p\<lparr>pl_dma_bitmap := bitmap_put False (pl_dma_bitmap p) start nbits\<rparr>) =
      used_pages p - {unat start..<unat start + unat nbits}"
  using assms by (auto simp: used_pages_def nth_bitmap_put split: if_splits)

section \<open>Allocation and release\<close>

text \<open>
  What an allocation does: it is refused exactly when the request is empty (or so large that rounding
  it up to pages wraps around) or there is no run of free pages long enough, and otherwise takes the
  first such run.
\<close>

lemma pool_alloc_cases:
  assumes wf: "pool_wf p" and fits: "pool_fits size'"
  obtains (refused) "axi_mmio_pool_alloc p size' = (None, p)"
      and "page_count size' = 0 \<or> (\<forall>i. \<not> zero_area (pl_dma_bitmap p) i (pages_of size'))"
  | (given) i where "axi_mmio_pool_alloc p size' = (Some (page_handle p i),
        p\<lparr>pl_dma_bitmap := bitmap_put True (pl_dma_bitmap p) (of_nat i) (ucast (page_count size'))\<rparr>)"
      and "zero_area (pl_dma_bitmap p) i (pages_of size')" and "\<forall>j < i. \<not> zero_area (pl_dma_bitmap p) j (pages_of size')"
      and "unat (of_nat i :: u32) = i" and "unat (ucast (page_count size') :: u32) = pages_of size'"
      and "0 < pages_of size'" and "unat size' + 4095 < 2 ^ 64"
proof (cases "page_count size' = 0")
  case True
  then show ?thesis using refused by (simp add: axi_mmio_pool_alloc_def Let_def)
next
  case False
  then have "unat (page_count size') \<noteq> 0" by (simp add: unat_eq_0)
  then have n: "unat (page_count size') = pages_of size'" "0 < pages_of size'" "unat size' + 4095 < 2 ^ 64"
    by (simp_all add: page_count_pages split: if_splits)
  have c: "unat (ucast (page_count size') :: u32) = pages_of size'"
    using fits n(1) by (simp add: pool_fits_def unat_down_u32)
  have len: "length (pl_dma_bitmap p) = unat (pl_dma_pages p)" "unat (pl_dma_pages p) < 2 ^ 32"
    using wf by (simp_all add: pool_wf_def)
  show ?thesis
  proof (cases rule: find_area_cases [of "pl_dma_bitmap p" "ucast (page_count size')"])
    case (found i)
    then have i: "i < unat (pl_dma_pages p)" using len by (simp add: zero_area_def)
    moreover have "unat (of_nat i :: u32) = i" using i len by (intro unat_of_nat_u32) simp
    moreover have "pl_dma_base p + push_bit PAGE_SHIFT (of_nat i) = page_handle p i"
      by (simp add: page_handle_def PAGE_SHIFT_def push_bit_eq_mult mult.commute)
    ultimately show ?thesis using given [of i] found False n c
      by (simp add: axi_mmio_pool_alloc_def Let_def)
  next
    case none
    then show ?thesis using refused False len c by (simp add: axi_mmio_pool_alloc_def Let_def)
  qed
qed

lemma pool_free_granted:
  assumes wf: "pool_wf p" and g: "pool_granted p (h, size')" and f: "0 < pages_of size'"
  shows "axi_mmio_pool_free p h size' =
      p\<lparr>pl_dma_bitmap := bitmap_put False (pl_dma_bitmap p) (of_nat (page_of p h)) (ucast (page_count size'))\<rparr>"
    and "unat (of_nat (page_of p h) :: u32) = page_of p h" and "unat (ucast (page_count size') :: u32) = pages_of size'"
    and "page_of p h + pages_of size' \<le> length (pl_dma_bitmap p)"
proof -
  obtain i where h: "h = page_handle p i" and le: "i + pages_of size' \<le> unat (pl_dma_pages p)"
    and s: "unat size' + 4095 < 2 ^ 64" using g by (auto simp: pool_granted_def)
  have i: "i < unat (pl_dma_pages p)" and len: "length (pl_dma_bitmap p) = unat (pl_dma_pages p)"
    "unat (pl_dma_pages p) < 2 ^ 32" using le f wf by (simp_all add: pool_wf_def)
  note ph = page_handle_unat [OF wf i]
  have n: "unat (page_count size') = pages_of size'" using s by (simp add: page_count_pages)
  have pc: "page_count size' \<noteq> 0" using f n by (metis less_irrefl unat_0)
  show c: "unat (ucast (page_count size') :: u32) = pages_of size'"
    using le len n by (simp add: unat_down_u32)
  show p: "unat (of_nat (page_of p h) :: u32) = page_of p h" "page_of p h + pages_of size' \<le> length (pl_dma_bitmap p)"
    using i len le by (simp_all add: h ph(2) unat_of_nat_u32)
  have small: "4096 * i < 2 ^ 64" using i len by simp
  have "unat (drop_bit 12 (of_nat (4096 * i) :: u64)) = unat (of_nat i :: u64)"
    using small i len by (simp only: unat_drop_u64 unat_of_nat_u64 [OF small]) (simp add: unat_of_nat_u64)
  then have off: "drop_bit PAGE_SHIFT (h - pl_dma_base p) = of_nat i"
    unfolding h ph(4) PAGE_SHIFT_def by (simp only: word_unat_eq_iff)
  have "unat (of_nat i + page_count size' :: u64) = i + pages_of size'"
    using i len le n by (simp add: unat_word_ariths unat_of_nat_u64)
  then have "\<not> of_nat i + page_count size' > pl_dma_pages p" using le by (simp add: word_less_nat_alt)
  moreover have "ucast (of_nat i :: u64) = (of_nat i :: u32)"
    using i len by (simp add: word_unat_eq_iff unat_down_u32 unat_of_nat_u64 unat_of_nat_u32)
  moreover have "\<not> h < pl_dma_base p" using ph(3) h by simp
  ultimately show "axi_mmio_pool_free p h size' =
      p\<lparr>pl_dma_bitmap := bitmap_put False (pl_dma_bitmap p) (of_nat (page_of p h)) (ucast (page_count size'))\<rparr>"
    using pc off by (simp add: axi_mmio_pool_free_def Let_def h ph(2))
qed

interpretation axi_pages: page_allocator pool_wf used_pages pool_span pool_granted pool_fits
  axi_mmio_pool_alloc axi_mmio_pool_free
proof (unfold_locales, goal_cases)
  case (1 p r h p')
  from 1(1,2) show ?case
  proof (cases rule: pool_alloc_cases)
    case (given i)
    let ?n = "pages_of r"
    have za: "i < length (pl_dma_bitmap p)" "i + ?n \<le> length (pl_dma_bitmap p)" "{i..<i + ?n} \<inter> used_pages p = {}"
      using given(2) by (simp_all add: zero_area_used)
    have len: "length (pl_dma_bitmap p) = unat (pl_dma_pages p)" using 1(1) by (simp add: pool_wf_def)
    have h: "h = page_handle p i" and p': "p' = p\<lparr>pl_dma_bitmap := bitmap_put True (pl_dma_bitmap p) (of_nat i) (ucast (page_count r))\<rparr>"
      using given(1) 1(3) by simp_all
    have sp: "pool_span p (h, r) = {i..<i + ?n}"
      using page_handle_unat(2) [OF 1(1)] za(1) len by (simp add: pool_span_def h)
    have fit: "unat (of_nat i :: u32) + unat (ucast (page_count r) :: u32) \<le> length (pl_dma_bitmap p)"
      using za(2) by (simp add: given(4,5))
    have "used_pages p' = used_pages p \<union> {i..<i + ?n}"
      unfolding p' by (subst used_put(1) [OF fit]) (simp only: given(4,5))
    moreover have "pool_wf p'" using 1(1) fit by (simp add: p')
    moreover have "pool_granted p (h, r)"
      using za(2) len given(7) by (auto simp: pool_granted_def h intro: exI [of _ i])
    ultimately show ?thesis using za(3) given(6) sp by (auto simp: p')
  qed (use 1(3) in simp)
next
  case (2 p r p')
  then show ?case by (auto simp: axi_mmio_pool_alloc_def Let_def split: if_splits)
next
  case (3 p h r)
  show ?case
  proof (cases "0 < pages_of r")
    case True
    note f = pool_free_granted [OF 3 True]
    have fit: "unat (of_nat (page_of p h) :: u32) + unat (ucast (page_count r) :: u32) \<le> length (pl_dma_bitmap p)"
      using f(4) by (simp only: f(2,3))
    have "used_pages (axi_mmio_pool_free p h r) = used_pages p - pool_span p (h, r)"
      unfolding f(1) by (subst used_put(2) [OF fit]) (simp only: f(2,3) pool_span_def fst_conv snd_conv)
    moreover have "pool_wf (axi_mmio_pool_free p h r)" unfolding f(1) using 3(1) fit by simp
    ultimately show ?thesis using f(1) by simp
  next
    case False
    then have "axi_mmio_pool_free p h r = p" "pool_span p (h, r) = {}"
      using page_count_pages [of r] by (auto simp: axi_mmio_pool_free_def pool_span_def Let_def unat_eq_0 split: if_splits)
    with 3 show ?thesis by simp
  qed
qed

text \<open>Allocating and releasing again gives the pool back as it was.\<close>

lemma bitmap_put_undo:
  assumes "unat start + unat nbits \<le> length bm" and "\<forall>i \<in> {unat start..<unat start + unat nbits}. \<not> bm ! i"
  shows "bitmap_put False (bitmap_put True bm start nbits) start nbits = bm"
  by (rule nth_equalityI) (use assms in \<open>auto simp: nth_bitmap_put\<close>)

lemma pool_alloc_free:
  assumes wf: "pool_wf p" and fits: "pool_fits r" and a: "axi_mmio_pool_alloc p r = (Some h, p')"
  shows "axi_mmio_pool_free p' h r = p"
  using wf fits
proof (cases rule: pool_alloc_cases)
  case (given i)
  have h: "h = page_handle p i" and p': "p' = p\<lparr>pl_dma_bitmap := bitmap_put True (pl_dma_bitmap p) (of_nat i) (ucast (page_count r))\<rparr>"
    using given(1) a by simp_all
  have g: "pool_wf p'" "pool_granted p' (h, r)"
    using axi_pages.alloc_some [OF wf fits a] by auto
  have za: "i < unat (pl_dma_pages p)" "i + pages_of r \<le> length (pl_dma_bitmap p)" "{i..<i + pages_of r} \<inter> used_pages p = {}"
    using given(2) wf by (simp_all add: zero_area_used pool_wf_def)
  have clear: "\<forall>k \<in> {i..<i + pages_of r}. \<not> pl_dma_bitmap p ! k"
    using za(2,3) by (auto simp: used_pages_def)
  have po: "page_of p' h = i" using page_handle_unat(2) [OF wf za(1)] by (simp add: h p' page_of_def)
  have "bitmap_put False (bitmap_put True (pl_dma_bitmap p) (of_nat i) (ucast (page_count r))) (of_nat i) (ucast (page_count r)) =
      pl_dma_bitmap p"
    by (rule bitmap_put_undo) (use za(2) clear in \<open>simp_all only: given(4,5)\<close>)
  then show ?thesis
    using pool_free_granted(1) [OF g given(6)] by (simp add: po) (simp add: p')
qed (use a in simp)

end
