(* ===== verification/Axi_Dma.thy ===== *)
theory Axi_Dma
  imports Axi_Pool
begin

unbundle bit_operations_syntax

text \<open>
  The DMA operations of the frontend driver over the page allocator: what a mapping shows to the
  device, what an unmapping brings back, that a failed scatter-list mapping leaves nothing behind, and
  that in every reachable state the live blocks are disjoint, lie in the aperture and account for
  every used page.
\<close>

section \<open>Mapping one buffer\<close>

lemma pages_of_pos: "n \<noteq> 0 \<Longrightarrow> 0 < pages_of n"
proof -
  assume "n \<noteq> 0"
  then have "unat n \<noteq> 0" by (simp add: unat_eq_0)
  then show ?thesis by (simp add: pages_of_def div_greater_zero_iff)
qed

lemma pages_of_cover: "unat n \<le> 4096 * pages_of n"
  using mult_div_mod_eq [of 4096 "unat n + 4095"] pos_mod_bound [of "4096 :: int" "int (unat n + 4095)"]
    mod_less_divisor [of 4096 "unat n + 4095"]
  unfolding pages_of_def by linarith

lemma pool_granted_aperture:
  assumes wf: "pool_wf p" and g: "pool_granted p (h, n)" and n: "n \<noteq> 0"
  shows "in_aperture p h n" and "axi_mmio_pool_vaddr p h = h"
proof -
  obtain i where h: "h = page_handle p i" and le: "i + pages_of n \<le> unat (pl_dma_pages p)"
    using g by (auto simp: pool_granted_def)
  have pos: "0 < pages_of n" and cover: "unat n \<le> 4096 * pages_of n"
    using n by (simp_all add: pages_of_pos pages_of_cover)
  have i: "i < unat (pl_dma_pages p)" using le pos by simp
  have sz: "unat (pl_dma_size p) = 4096 * unat (pl_dma_pages p)" and pg: "unat (pl_dma_pages p) < 2 ^ 32"
    using wf by (simp_all add: pool_wf_def)
  have tot: "4096 * i + unat n \<le> unat (pl_dma_size p)" using le cover sz by linarith
  then have n_le: "n \<le> pl_dma_size p" by (simp add: word_le_nat_alt)
  have "unat (of_nat (4096 * i) :: u64) = 4096 * i" using i pg by (intro unat_of_nat_u64) simp
  then have "of_nat (4096 * i) \<le> pl_dma_size p - n"
    using tot n_le by (simp only: word_le_nat_alt unat_sub)
  with n_le page_handle_unat [OF wf i] show "in_aperture p h n" by (simp only: in_aperture_def h)
  show "axi_mmio_pool_vaddr p h = h" using wf by (simp add: axi_mmio_pool_vaddr_def pool_wf_def)
qed

text \<open>
  The three ways a mapping can end: refused, with the pool as it was; the buffer itself, when it
  already lies in the aperture; or a bounce buffer.
\<close>

lemma map_phys_cases:
  assumes p: "dk_pool s = Some p" and wf: "pool_wf p" and fits: "pool_fits n"
    and r: "axi_mmio_dma_map_phys phys n dir s = (h, s')"
  obtains (refused) "h = DMA_MAPPING_ERROR" and "dk_pool s' = Some p" and "dk_mem s' = dk_mem s"
  | (direct) "h = phys" and "s' = s" and "in_aperture p phys n" and "n \<noteq> 0"
  | (bounced) p1 where "axi_mmio_pool_alloc p n = (Some h, p1)" and "n \<noteq> 0"
      and "dk_pool s' = Some (p1\<lparr>pl_bounces := \<lparr>bn_dma_handle = h, bn_phys = phys, bn_size = n\<rparr> # pl_bounces p\<rparr>)"
      and "dk_mem s' = (if dir = DMA_FROM_DEVICE then dk_mem s else memcpy h phys n (dk_mem s))"
proof -
  consider (zero) "n = 0" | (dir) "n \<noteq> 0" "in_aperture p phys n" | (bn) "n \<noteq> 0" "\<not> in_aperture p phys n" by blast
  then show thesis
  proof cases
    case bn
    obtain ok s1 where m: "may_fail s = (ok, s1)" by fastforce
    have s1: "dk_pool s1 = Some p" "dk_mem s1 = dk_mem s"
      using m p by (auto simp: may_fail_def split: list.splits)
    obtain a p1 where al: "axi_mmio_pool_alloc p n = (a, p1)" by fastforce
    show thesis
    proof (cases "ok \<and> a \<noteq> None")
      case False
      then have "ok \<Longrightarrow> a = None \<and> p1 = p" using al axi_pages.alloc_none [of p n p1] by simp
      then show thesis using refused p r bn m s1 al
        by (cases ok) (auto simp: axi_mmio_dma_map_phys_def set_pool_def)
    next
      case True
      then obtain hh where a: "a = Some hh" and ok: ok by auto
      have al': "axi_mmio_pool_alloc p n = (Some hh, p1)" using al a by simp
      have g: "pool_wf p1" "pool_granted p1 (hh, n)" using axi_pages.alloc_some [OF wf fits al'] by auto
      have v: "axi_mmio_pool_vaddr p1 hh = hh" by (rule pool_granted_aperture(2) [OF g bn(1)])
      have bnc: "pl_bounces p1 = pl_bounces p"
        using al' by (auto simp: axi_mmio_pool_alloc_def Let_def split: if_splits)
      obtain ok2 s2 where m2: "may_fail (set_pool p1 s1) = (ok2, s2)" by fastforce
      have s2: "dk_mem s2 = dk_mem s" "dk_pool s2 = Some p1"
        using m2 s1 by (auto simp: may_fail_def set_pool_def split: list.splits)
      show thesis
      proof (cases "dir \<noteq> DMA_FROM_DEVICE \<and> \<not> ok2")
        case True
        then have "(h, s') = (DMA_MAPPING_ERROR, set_pool (axi_mmio_pool_free p1 hh n) s2)"
          using r p bn m ok al' m2 by (simp add: axi_mmio_dma_map_phys_def axi_mmio_copy_phys_to_pool_def)
        then show thesis using refused pool_alloc_free [OF wf fits al'] s2 by (simp add: set_pool_def)
      next
        case False
        then show thesis using bounced [of p1] r p bn m ok al' m2 s1 s2 v bnc
          by (auto simp: axi_mmio_dma_map_phys_def axi_mmio_copy_phys_to_pool_def set_pool_def split: if_splits)
      qed
    qed
  next
    case zero
    then show thesis using refused p r by (simp add: axi_mmio_dma_map_phys_def)
  next
    case dir
    then show thesis using direct p r by (simp add: axi_mmio_dma_map_phys_def)
  qed
qed

lemma memcpy_read: "mem_read (memcpy dst src n m) dst (unat n) = mem_read m src (unat n)"
  using unat_lt_u64 [of n] by (simp add: memcpy_def mem_read_write_same)

lemma memcpy_apart: "apart dst (unat n) a k \<Longrightarrow> mem_read (memcpy dst src n m) a k = mem_read m a k"
  by (simp add: memcpy_def mem_read_write_apart)

lemma may_fail_quiet: "dk_script s = [] \<Longrightarrow> may_fail s = (True, s)"
  by (simp add: may_fail_def)

lemma unmap_eq:
  assumes "dk_pool s = Some p"
  shows "axi_mmio_dma_unmap_phys h n dir s =
    (if \<not> in_aperture p h n then s
     else case axi_mmio_bounce_find_locked p h of None \<Rightarrow> s
       | Some b \<Rightarrow> set_pool (axi_mmio_pool_free (p\<lparr>pl_bounces := bounce_del h (pl_bounces p)\<rparr>) h (bn_size b))
           (if dir = DMA_TO_DEVICE then s
            else snd (axi_mmio_copy_pool_to_phys (p\<lparr>pl_bounces := bounce_del h (pl_bounces p)\<rparr>) h (bn_phys b) (min n (bn_size b)) s)))"
  using assms by (auto simp: axi_mmio_dma_unmap_phys_def in_aperture_def not_less Let_def split: option.splits)

lemma pool_alloc_bounces: "axi_mmio_pool_alloc p n = (a, p1) \<Longrightarrow> p1 = p\<lparr>pl_dma_bitmap := pl_dma_bitmap p1\<rparr>"
  by (auto simp: axi_mmio_pool_alloc_def Let_def split: if_splits)

lemma pool_free_bounces: "axi_mmio_pool_free (p\<lparr>pl_bounces := bs\<rparr>) h n = (axi_mmio_pool_free p h n)\<lparr>pl_bounces := bs\<rparr>"
  by (simp add: axi_mmio_pool_free_def Let_def)

lemma in_aperture_update [simp]:
  "in_aperture (p\<lparr>pl_dma_bitmap := bm\<rparr>) = in_aperture p" "in_aperture (p\<lparr>pl_bounces := bs\<rparr>) = in_aperture p"
  by (simp_all add: fun_eq_iff in_aperture_def)

lemma map_phys_shows:
  assumes "dk_pool s = Some p" and "pool_wf p" and "pool_fits n" and "dir \<noteq> DMA_FROM_DEVICE"
    and "axi_mmio_dma_map_phys phys n dir s = (h, s')" and "h \<noteq> DMA_MAPPING_ERROR"
  shows "in_aperture p h n \<and> mem_read (dk_mem s') h (unat n) = mem_read (dk_mem s) phys (unat n)"
  using assms(1-3,5)
proof (cases rule: map_phys_cases)
  case (bounced p1)
  have "pool_wf p" "pool_granted p (h, n)" using axi_pages.alloc_some [OF assms(2,3) bounced(1)] assms(2) by auto
  with bounced assms(4) show ?thesis by (simp add: pool_granted_aperture(1) memcpy_read)
qed (use assms(6) in simp_all)

text \<open>
  A mapping shows the device the buffer. A buffer mapped for the device to read (or both ways)
  is, at the returned address, byte for byte what the buffer holds; the address range lies in the
  restricted aperture whatever the physical address of the buffer is.
\<close>

theorem dma_map_shows_buffer:
  assumes "dk_pool s = Some p" and "pool_wf p" and "pool_fits n" and "dir \<noteq> DMA_FROM_DEVICE"
    and "axi_mmio_dma_map_phys phys n dir s = (h, s')" and "h \<noteq> DMA_MAPPING_ERROR"
  shows "in_aperture p h n \<and> mem_read (dk_mem s') h (unat n) = mem_read (dk_mem s) phys (unat n)"
  by (rule map_phys_shows [OF assms])

lemma unmap_copies_back:
  assumes "dk_pool s = Some p" and "pool_wf p" and "pool_fits n" and "dir \<noteq> DMA_TO_DEVICE"
    and "axi_mmio_dma_map_phys phys n dir s = (h, s')" and "h \<noteq> DMA_MAPPING_ERROR"
    and "axi_mmio_bounce_find_locked p phys = None" and "dk_pool s2 = dk_pool s'" and "dk_script s2 = []"
  shows "mem_read (dk_mem (axi_mmio_dma_unmap_phys h n dir s2)) phys (unat n) = mem_read (dk_mem s2) h (unat n) \<and>
    dk_pool (axi_mmio_dma_unmap_phys h n dir s2) = Some p"
  using assms(1-3,5)
proof (cases rule: map_phys_cases)
  case direct
  then show ?thesis using assms(1,7,8) by (simp add: unmap_eq)
next
  case (bounced p1)
  let ?b = "\<lparr>bn_dma_handle = h, bn_phys = phys, bn_size = n\<rparr>" let ?p = "p1\<lparr>pl_bounces := ?b # pl_bounces p\<rparr>"
  have g: "pool_wf p1" "pool_granted p1 (h, n)" using axi_pages.alloc_some [OF assms(2,3) bounced(1)] by auto
  note ap = pool_granted_aperture [OF g bounced(2)]
  have p1: "p1 = p\<lparr>pl_dma_bitmap := pl_dma_bitmap p1\<rparr>" by (rule pool_alloc_bounces [OF bounced(1)])
  have "axi_mmio_bounce_find_locked ?p h = Some ?b" by (simp add: axi_mmio_bounce_find_locked_def)
  moreover have "bounce_del h (pl_bounces ?p) = pl_bounces p1" by (subst p1) simp
  ultimately have u: "axi_mmio_dma_unmap_phys h n dir s2 =
      set_pool (axi_mmio_pool_free p1 h n) (s2\<lparr>dk_mem := memcpy phys h n (dk_mem s2)\<rparr>)"
    using assms(4,8,9) bounced(3) ap
    by (simp add: unmap_eq [of s2 ?p] axi_mmio_copy_pool_to_phys_def may_fail_quiet axi_mmio_pool_vaddr_def)
  show ?thesis
    unfolding u pool_alloc_free [OF assms(2,3) bounced(1)] by (simp add: set_pool_def memcpy_read)
qed (use assms(6) in simp)

lemma map_phys_quiet: "axi_mmio_dma_map_phys phys n dir s = (h, s') \<Longrightarrow> dk_script s = [] \<Longrightarrow> dk_script s' = []"
  by (auto simp: axi_mmio_dma_map_phys_def may_fail_quiet axi_mmio_copy_phys_to_pool_def set_pool_def
      split: if_splits option.splits prod.splits)

text \<open>
  C26: unmapping brings back what the device wrote. A buffer is mapped for the device to write (or
  both ways), the device writes all of it, and the buffer is unmapped: the buffer then holds the
  device's bytes, and the pool is exactly as before the mapping, its pages free again and its list
  of bounce buffers without the entry.
\<close>

theorem dma_unmap_returns_data:
  assumes "dk_pool s = Some p" and "pool_wf p" and "pool_fits n" and "dir \<noteq> DMA_TO_DEVICE" and "dk_script s = []"
    and "axi_mmio_dma_map_phys phys n dir s = (h, s')" and "h \<noteq> DMA_MAPPING_ERROR"
    and "axi_mmio_bounce_find_locked p phys = None" and "length d = unat n"
  shows "mem_read (dk_mem (axi_mmio_dma_unmap_phys h n dir (s'\<lparr>dk_mem := mem_write (dk_mem s') h d\<rparr>))) phys (unat n) = d \<and>
    dk_pool (axi_mmio_dma_unmap_phys h n dir (s'\<lparr>dk_mem := mem_write (dk_mem s') h d\<rparr>)) = Some p"
proof -
  have "length d \<le> 2 ^ 64" using assms(9) unat_lt_u64 [of n] by simp
  then show ?thesis
    using unmap_copies_back [OF assms(1-4,6-8), of "s'\<lparr>dk_mem := mem_write (dk_mem s') h d\<rparr>"]
      map_phys_quiet [OF assms(6,5)] assms(9) by (simp add: mem_read_write_same)
qed

section \<open>Scatter lists\<close>

definition sg_block :: "scatterlist \<Rightarrow> u64 \<times> u64" where
  "sg_block sg = (sg_dma_address sg, ucast (sg_dma_len sg))"

lemma sg_fits: "pool_fits (ucast (l :: u32))"
  using unat_lt_u32 [of l] by (simp add: pool_fits_def page_count_pages pages_of_def unat_ucast_u32)

text \<open>Every well-formed pool can be seen as a set of blocks of one page each.\<close>

lemma holds_exists: "pool_wf p \<Longrightarrow> \<exists>B. axi_pages.holds p B"
proof -
  assume wf: "pool_wf p"
  let ?b = "\<lambda>i. (page_handle p i, 1 :: u64)"
  have one: "pages_of 1 = 1" by (simp add: pages_of_def)
  have lt: "i < unat (pl_dma_pages p)" if "i \<in> used_pages p" for i
    using that wf by (simp add: used_pages_def pool_wf_def)
  have sp: "pool_span p (?b i) = {i}" if "i \<in> used_pages p" for i
    using page_handle_unat(2) [OF wf lt [OF that]] one by (auto simp: pool_span_def)
  have "pool_granted p (?b i)" if "i \<in> used_pages p" for i
    using lt [OF that] one by (auto simp: pool_granted_def intro!: exI [of _ i])
  with wf sp have "axi_pages.holds p (?b ` used_pages p)"
    unfolding axi_pages.holds_def by auto
  then show ?thesis ..
qed

lemma pool_eqI:
  assumes "p' = p\<lparr>pl_dma_bitmap := bm\<rparr>" and "axi_pages.holds p B" and "axi_pages.holds p' B"
  shows "p' = p"
proof -
  have wf: "pool_wf p" "pool_wf p'" and u: "used_pages p' = used_pages p"
    using assms by (simp_all add: axi_pages.holds_def)
  have "length bm = length (pl_dma_bitmap p)" using wf assms(1) by (simp add: pool_wf_def)
  moreover have "bm ! i = pl_dma_bitmap p ! i" if "i < length bm" for i
    using u that calculation assms(1) by (auto simp: used_pages_def set_eq_iff)
  ultimately have "bm = pl_dma_bitmap p" by (intro nth_equalityI) auto
  with assms(1) show ?thesis by simp
qed

lemma pool_free_bitmap: "\<exists>bm. axi_mmio_pool_free p h n = p\<lparr>pl_dma_bitmap := bm\<rparr>"
  by (auto simp: axi_mmio_pool_free_def Let_def intro: exI [of _ "pl_dma_bitmap p"])

lemma sg_rollback_holds:
  assumes "axi_pages.holds p (B \<union> set (map sg_block sgs))" and "distinct (map sg_block sgs)"
    and "B \<inter> set (map sg_block sgs) = {}" and "sg_rollback p sgs = (p', sgs')"
  shows "axi_pages.holds p' B \<and> (\<exists>bm. p' = p\<lparr>pl_dma_bitmap := bm\<rparr>) \<and> sgs' = map sg_unmapped sgs"
  using assms
proof (induction sgs arbitrary: p p' sgs')
  case Nil
  then show ?case by (auto intro: exI [of _ "pl_dma_bitmap p"])
next
  case (Cons sg sgs)
  let ?p = "axi_mmio_pool_free p (sg_dma_address sg) (ucast (sg_dma_len sg))"
  obtain sgs1 where rb: "sg_rollback ?p sgs = (p', sgs1)" "sgs' = sg_unmapped sg # sgs1"
    using Cons.prems(4) by (auto split: prod.splits)
  have "axi_pages.holds ?p ((B \<union> set (map sg_block (sg # sgs))) - {sg_block sg})"
    using axi_pages.holds_free [OF Cons.prems(1), of "sg_dma_address sg" "ucast (sg_dma_len sg)"]
    by (simp add: sg_block_def)
  moreover have "(B \<union> set (map sg_block (sg # sgs))) - {sg_block sg} = B \<union> set (map sg_block sgs)"
    using Cons.prems(2,3) by auto
  ultimately have h: "axi_pages.holds ?p (B \<union> set (map sg_block sgs))" by simp
  obtain bm where bm: "?p = p\<lparr>pl_dma_bitmap := bm\<rparr>" using pool_free_bitmap by blast
  with Cons.IH [OF h _ _ rb(1)] Cons.prems(2,3) rb(2) show ?case by auto
qed

lemma sg_map_loop_holds:
  assumes "axi_pages.holds p (B \<union> set (map sg_block mapped))" and "distinct (map sg_block mapped)"
    and "B \<inter> set (map sg_block mapped) = {}" and "sg_map_loop dir mapped sgs p m = (ok, sgl, p', m')"
  shows "(\<exists>bm. p' = p\<lparr>pl_dma_bitmap := bm\<rparr>) \<and>
    (ok \<longrightarrow> axi_pages.holds p' (B \<union> set (map sg_block sgl)) \<and> distinct (map sg_block sgl) \<and>
       B \<inter> set (map sg_block sgl) = {} \<and> length sgl = length mapped + length sgs) \<and>
    (\<not> ok \<longrightarrow> axi_pages.holds p' B)"
  using assms
proof (induction sgs arbitrary: mapped p m)
  case Nil
  then show ?case by (auto intro: exI [of _ "pl_dma_bitmap p"])
next
  case (Cons sg sgs)
  let ?n = "ucast (sg_length sg) :: u64"
  obtain a p1 where al: "axi_mmio_pool_alloc p ?n = (a, p1)" by fastforce
  then obtain bm where p1: "p1 = p\<lparr>pl_dma_bitmap := bm\<rparr>" using pool_alloc_bounces by blast
  show ?case
  proof (cases a)
    case None
    then have "p1 = p" using al axi_pages.alloc_none by simp
    moreover obtain mapped' where "sg_rollback p1 mapped = (p', mapped')" "\<not> ok"
      using Cons.prems(4) al None by (auto split: prod.splits)
    ultimately show ?thesis using sg_rollback_holds [OF Cons.prems(1-3)] by simp
  next
    case (Some addr)
    let ?sg = "sg\<lparr>sg_dma_address := addr, sg_dma_len := sg_length sg\<rparr>"
    have b: "sg_block ?sg = (addr, ?n)" by (simp add: sg_block_def)
    have al': "axi_mmio_pool_alloc p ?n = (Some addr, p1)" using al Some by simp
    note new = axi_pages.alloc_apart(2) [OF Cons.prems(1) sg_fits al'] axi_pages.holds_alloc [OF Cons.prems(1) sg_fits al']
    have "axi_pages.holds p1 (B \<union> set (map sg_block (mapped @ [?sg])))" using new(2) b by simp
    moreover have "distinct (map sg_block (mapped @ [?sg]))" "B \<inter> set (map sg_block (mapped @ [?sg])) = {}"
      using new(1) b Cons.prems(2,3) by auto
    ultimately show ?thesis using Cons.IH [of p1 "mapped @ [?sg]"] Cons.prems(4) al Some p1 by auto
  qed
qed

text \<open>
  C27: mapping a scatter list is all or nothing. Either every entry gets its own block and the number
  of entries is returned, or \<open>-ENOMEM\<close> is returned and the pool is exactly as it was: the blocks of
  the entries already mapped are free again and nothing is leaked.
\<close>

theorem sg_map_all_or_nothing:
  assumes "dk_pool s = Some p" and "pool_wf p" and "axi_mmio_dma_map_sg sgl dir s = (r, sgl', s')"
  shows "r = int (length sgl) \<and> length sgl' = length sgl \<and>
      distinct (map sg_block sgl') \<and> (\<forall>sg \<in> set sgl'. pool_granted p (sg_block sg)) \<or>
    r = - ENOMEM \<and> dk_pool s' = Some p"
proof -
  obtain B where B: "axi_pages.holds p B" using holds_exists [OF assms(2)] by blast
  obtain ok p' m' where l: "sg_map_loop dir [] sgl p (dk_mem s) = (ok, sgl', p', m')"
    and r: "r = (if ok then int (length sgl) else - ENOMEM)" and s': "dk_pool s' = Some p'"
    using assms(1,3) by (auto simp: axi_mmio_dma_map_sg_def set_pool_def split: prod.splits)
  have h: "(\<exists>bm. p' = p\<lparr>pl_dma_bitmap := bm\<rparr>)"
    "ok \<Longrightarrow> axi_pages.holds p' (B \<union> set (map sg_block sgl')) \<and> distinct (map sg_block sgl') \<and> length sgl' = length sgl"
    "\<not> ok \<Longrightarrow> axi_pages.holds p' B"
    using sg_map_loop_holds [of p B "[]", OF _ _ _ l] B by auto
  show ?thesis
  proof (cases ok)
    case True
    with h(1,2) have "\<forall>sg \<in> set sgl'. pool_granted p (sg_block sg)"
      by (auto simp: axi_pages.holds_def)
    with True h(2) r show ?thesis by simp
  next
    case False
    with h(1,3) pool_eqI [where p = p and p' = p' and B = B] B r s' show ?thesis by auto
  qed
qed

section \<open>Reachable states\<close>

text \<open>
  A driver of the child device may call the DMA operations in any order, under the rules of the
  kernel's DMA interface: a coherent block or a mapped scatter list is released once, with what it was
  allocated with. Unmappings of single buffers are not restricted. A coherent allocation and a single
  mapping are restricted in their size, to fewer than \<open>2 ^ 32\<close> pages (\<open>pool_fits\<close>): the allocator truncates
  the page count to 32 bits, and a longer request can succeed without a page being reserved. An entry of a
  scatter list has a 32-bit length and is never that long.
  The second component are the coherent and scatter-list blocks the driver holds. The device may
  write anything anywhere in memory at any time.
\<close>

inductive dma_reach :: "dma_state \<Rightarrow> (u64 \<times> u64) set \<Rightarrow> bool" where
  dma_start: "pool_wf p \<Longrightarrow> used_pages p = {} \<Longrightarrow> pl_bounces p = [] \<Longrightarrow> dk_pool s = Some p \<Longrightarrow> dma_reach s {}"
| dma_alloc: "dma_reach s L \<Longrightarrow> pool_fits n \<Longrightarrow> axi_mmio_dma_alloc n s = (Some (v, h), s') \<Longrightarrow>
    dma_reach s' (insert (h, n) L)"
| dma_alloc_fail: "dma_reach s L \<Longrightarrow> axi_mmio_dma_alloc n s = (None, s') \<Longrightarrow> dma_reach s' L"
| dma_free: "dma_reach s L \<Longrightarrow> (h, n) \<in> L \<Longrightarrow> dma_reach (axi_mmio_dma_free n h s) (L - {(h, n)})"
| dma_map: "dma_reach s L \<Longrightarrow> pool_fits n \<Longrightarrow> axi_mmio_dma_map_phys phys n dir s = (h, s') \<Longrightarrow> dma_reach s' L"
| dma_unmap: "dma_reach s L \<Longrightarrow> dma_reach (axi_mmio_dma_unmap_phys h n dir s) L"
| dma_map_sg: "dma_reach s L \<Longrightarrow> axi_mmio_dma_map_sg sgl dir s = (r, sgl', s') \<Longrightarrow> 0 \<le> r \<Longrightarrow>
    dma_reach s' (L \<union> set (map sg_block sgl'))"
| dma_map_sg_fail: "dma_reach s L \<Longrightarrow> axi_mmio_dma_map_sg sgl dir s = (r, sgl', s') \<Longrightarrow> r < 0 \<Longrightarrow> dma_reach s' L"
| dma_unmap_sg: "dma_reach s L \<Longrightarrow> set (map sg_block sgl) \<subseteq> L \<Longrightarrow> distinct (map sg_block sgl) \<Longrightarrow>
    dma_reach (snd (axi_mmio_dma_unmap_sg sgl dir s)) (L - set (map sg_block sgl))"
| dma_sync_cpu: "dma_reach s L \<Longrightarrow> dma_reach (axi_mmio_dma_sync_single_for_cpu h n dir s) L"
| dma_sync_dev: "dma_reach s L \<Longrightarrow> dma_reach (axi_mmio_dma_sync_single_for_device h n dir s) L"
| dma_device: "dma_reach s L \<Longrightarrow> dma_reach (s\<lparr>dk_mem := m\<rparr>) L"

text \<open>The blocks of the bounce list, and the invariant.\<close>

definition bounce_block :: "axi_mmio_bounce \<Rightarrow> u64 \<times> u64" where
  "bounce_block b = (bn_dma_handle b, bn_size b)"

definition dma_inv :: "dma_state \<Rightarrow> (u64 \<times> u64) set \<Rightarrow> bool" where
  "dma_inv s L \<longleftrightarrow> (\<exists>p. dk_pool s = Some p \<and> axi_pages.holds p (L \<union> bounce_block ` set (pl_bounces p)) \<and>
     L \<inter> bounce_block ` set (pl_bounces p) = {} \<and> distinct (map bn_dma_handle (pl_bounces p)))"

lemma dma_invI:
  "dk_pool s = Some p \<Longrightarrow> axi_pages.holds p (L \<union> bounce_block ` set (pl_bounces p)) \<Longrightarrow>
   L \<inter> bounce_block ` set (pl_bounces p) = {} \<Longrightarrow> distinct (map bn_dma_handle (pl_bounces p)) \<Longrightarrow> dma_inv s L"
  by (auto simp: dma_inv_def)

lemma dma_inv_mem: "dk_pool s' = dk_pool s \<Longrightarrow> dma_inv s L \<Longrightarrow> dma_inv s' L"
  by (simp add: dma_inv_def)

lemma pool_sync: "dk_pool (axi_mmio_dma_sync_single_for_cpu h n dir s) = dk_pool s"
  "dk_pool (axi_mmio_dma_sync_single_for_device h n dir s) = dk_pool s"
  "dk_pool (snd (axi_mmio_copy_pool_to_phys p h ph n s)) = dk_pool s"
  by (auto simp: axi_mmio_dma_sync_single_for_cpu_def axi_mmio_dma_sync_single_for_device_def may_fail_def
      axi_mmio_bounce_sync_for_cpu_def axi_mmio_bounce_sync_for_device_def axi_mmio_copy_pool_to_phys_def
      axi_mmio_copy_phys_to_pool_def split: option.splits list.splits prod.splits)

lemma holds_bounces [simp]: "axi_pages.holds (p\<lparr>pl_bounces := bs\<rparr>) B = axi_pages.holds p B"
  by (simp add: axi_pages.holds_def)

text \<open>A granted block differs from the live ones already in its handle.\<close>

lemma fresh_handle:
  assumes "axi_pages.holds p B" and "pool_fits n" and "axi_mmio_pool_alloc p n = (Some h, p1)" and "b \<in> B"
  shows "fst b \<noteq> h"
proof
  assume h: "fst b = h"
  have "pool_span p (h, n) \<inter> pool_span p b = {}" using axi_pages.alloc_apart(1) [OF assms(1-3)] assms(4) by simp
  moreover have "pool_span p (h, n) \<noteq> {}" "pool_span p b \<noteq> {}"
    using axi_pages.alloc_some [OF _ assms(2,3)] assms(1,4) by (auto simp: axi_pages.holds_def)
  ultimately show False using h by (auto simp: pool_span_def)
qed

lemma bounce_del_found:
  assumes "find (\<lambda>b. bn_dma_handle b = h) bs = Some b" and "distinct (map bn_dma_handle bs)"
  shows "bn_dma_handle b = h \<and> b \<in> set bs \<and> set (bounce_del h bs) = set bs - {b} \<and>
    distinct (map bn_dma_handle (bounce_del h bs))"
  using assms
proof (induction bs)
  case (Cons c bs)
  show ?case
  proof (cases "bn_dma_handle c = h")
    case True
    with Cons.prems show ?thesis by auto
  next
    case False
    with Cons.IH Cons.prems have *: "bn_dma_handle b = h" "b \<in> set bs" "set (bounce_del h bs) = set bs - {b}"
      "distinct (map bn_dma_handle (bounce_del h bs))" by auto
    with False Cons.prems(2) show ?thesis by auto
  qed
qed simp

lemma bounce_block_inj: "distinct (map bn_dma_handle bs) \<Longrightarrow> inj_on bounce_block (set bs)"
  by (auto simp: bounce_block_def inj_on_def distinct_map)

lemma dma_inv_map:
  assumes inv: "dma_inv s L" and fits: "pool_fits n" and m: "axi_mmio_dma_map_phys phys n dir s = (h, s')"
  shows "dma_inv s' L"
proof -
  obtain p where p: "dk_pool s = Some p" and h: "axi_pages.holds p (L \<union> bounce_block ` set (pl_bounces p))"
    and d: "L \<inter> bounce_block ` set (pl_bounces p) = {}" "distinct (map bn_dma_handle (pl_bounces p))"
    using inv by (auto simp: dma_inv_def)
  have wf: "pool_wf p" using h by (simp add: axi_pages.holds_def)
  from p wf fits m show ?thesis
  proof (cases rule: map_phys_cases)
    case (bounced p1)
    have p1: "p1 = p\<lparr>pl_dma_bitmap := pl_dma_bitmap p1\<rparr>" by (rule pool_alloc_bounces [OF bounced(1)])
    note fr = fresh_handle [OF h fits bounced(1)]
    have "axi_pages.holds p1 (insert (h, n) (L \<union> bounce_block ` set (pl_bounces p)))"
      by (rule axi_pages.holds_alloc [OF h fits bounced(1)])
    moreover have "(h, n) \<notin> L" using fr [of "(h, n)"] by auto
    moreover have "h \<notin> bn_dma_handle ` set (pl_bounces p)" using fr by (force simp: bounce_block_def)
    ultimately show ?thesis using d
      by (intro dma_invI [OF bounced(3)]) (simp_all add: bounce_block_def)
  qed (use inv p in \<open>auto intro: dma_inv_mem [of s' s]\<close>)
qed

lemma dma_inv_unmap:
  assumes inv: "dma_inv s L"
  shows "dma_inv (axi_mmio_dma_unmap_phys h n dir s) L"
proof -
  obtain p where p: "dk_pool s = Some p" and hd: "axi_pages.holds p (L \<union> bounce_block ` set (pl_bounces p))"
    and d: "L \<inter> bounce_block ` set (pl_bounces p) = {}" "distinct (map bn_dma_handle (pl_bounces p))"
    using inv by (auto simp: dma_inv_def)
  show ?thesis
  proof (cases "in_aperture p h n \<and> axi_mmio_bounce_find_locked p h \<noteq> None")
    case True
    then obtain b where f: "axi_mmio_bounce_find_locked p h = Some b" by auto
    note del = bounce_del_found [OF f [unfolded axi_mmio_bounce_find_locked_def] d(2)]
    let ?bs = "bounce_del h (pl_bounces p)" let ?p = "axi_mmio_pool_free p h (bn_size b)"
    have blk: "bounce_block b = (h, bn_size b)" using del by (simp add: bounce_block_def)
    have img: "bounce_block ` set ?bs = bounce_block ` set (pl_bounces p) - {bounce_block b}"
      using del inj_on_image_set_diff [OF bounce_block_inj [OF d(2)], of "set (pl_bounces p)" "{b}"] by auto
    have "axi_pages.holds ?p ((L \<union> bounce_block ` set (pl_bounces p)) - {bounce_block b})"
      unfolding blk by (rule axi_pages.holds_free [OF hd]) (use del blk in force)
    moreover have "(L \<union> bounce_block ` set (pl_bounces p)) - {bounce_block b} = L \<union> bounce_block ` set ?bs"
      using d(1) del img by blast
    ultimately have held: "axi_pages.holds ?p (L \<union> bounce_block ` set ?bs)" by simp
    have pool: "dk_pool (axi_mmio_dma_unmap_phys h n dir s) = Some (?p\<lparr>pl_bounces := ?bs\<rparr>)"
      using True f by (simp add: unmap_eq [OF p] set_pool_def pool_free_bounces)
    have "L \<inter> bounce_block ` set ?bs = {}" using d(1) img by blast
    with held del show ?thesis by (intro dma_invI [OF pool]) simp_all
  next
    case False
    then have "axi_mmio_dma_unmap_phys h n dir s = s" by (auto simp: unmap_eq [OF p] split: option.splits)
    with inv show ?thesis by simp
  qed
qed

lemma granted_not_error:
  assumes "pool_wf p" and "pool_granted p (h, n)" and "pool_span p (h, n) \<noteq> {}"
  shows "h \<noteq> DMA_MAPPING_ERROR" and "n \<noteq> 0"
proof -
  have pos: "0 < pages_of n" using assms(3) by (auto simp: pool_span_def)
  then obtain i where h: "h = page_handle p i" and i: "i < unat (pl_dma_pages p)"
    using assms(2) by (force simp: pool_granted_def)
  have "unat h + 4096 \<le> 2 ^ 64"
    using page_handle_unat(1) [OF assms(1) i] assms(1) i by (simp add: h pool_wf_def)
  then show "h \<noteq> DMA_MAPPING_ERROR" by (auto simp: DMA_MAPPING_ERROR_def)
  show "n \<noteq> 0" using pos by (auto simp: pages_of_def)
qed

lemma sg_unmap_loop_holds:
  assumes "axi_pages.holds p (B \<union> set (map sg_block sgs))" and "distinct (map sg_block sgs)"
    and "B \<inter> set (map sg_block sgs) = {}" and "sg_unmap_loop dir sgs p m = (sgs', p', m')"
  shows "axi_pages.holds p' B \<and> (\<exists>bm. p' = p\<lparr>pl_dma_bitmap := bm\<rparr>)"
  using assms
proof (induction sgs arbitrary: p m sgs')
  case Nil
  then show ?case by (auto intro: exI [of _ "pl_dma_bitmap p"])
next
  case (Cons sg sgs)
  let ?p = "axi_mmio_pool_free p (sg_dma_address sg) (ucast (sg_dma_len sg))"
  have "sg_dma_address sg \<noteq> DMA_MAPPING_ERROR" "(ucast (sg_dma_len sg) :: u64) \<noteq> 0"
    using granted_not_error [of p "sg_dma_address sg" "ucast (sg_dma_len sg)"] Cons.prems(1)
    by (auto simp: axi_pages.holds_def sg_block_def)
  then have live: "sg_dma_address sg \<noteq> DMA_MAPPING_ERROR" "sg_dma_len sg \<noteq> 0" by auto
  obtain m1 sgs1 where rec: "sg_unmap_loop dir sgs ?p m1 = (sgs1, p', m')"
    using Cons.prems(4) live by (auto split: prod.splits)
  have "axi_pages.holds ?p ((B \<union> set (map sg_block (sg # sgs))) - {sg_block sg})"
    using axi_pages.holds_free [OF Cons.prems(1), of "sg_dma_address sg" "ucast (sg_dma_len sg)"]
    by (simp add: sg_block_def)
  moreover have "(B \<union> set (map sg_block (sg # sgs))) - {sg_block sg} = B \<union> set (map sg_block sgs)"
    using Cons.prems(2,3) by auto
  ultimately have h: "axi_pages.holds ?p (B \<union> set (map sg_block sgs))" by simp
  obtain bm where bm: "?p = p\<lparr>pl_dma_bitmap := bm\<rparr>" using pool_free_bitmap by blast
  with Cons.IH [OF h _ _ rec] Cons.prems(2,3) show ?case by auto
qed

lemma dma_inv_unfold:
  assumes "dma_inv s L"
  obtains p where "dk_pool s = Some p" and "axi_pages.holds p (L \<union> bounce_block ` set (pl_bounces p))"
    and "L \<inter> bounce_block ` set (pl_bounces p) = {}" and "distinct (map bn_dma_handle (pl_bounces p))"
  using assms by (auto simp: dma_inv_def)

lemma dma_inv_alloc:
  assumes inv: "dma_inv s L" and fits: "pool_fits n" and a: "axi_mmio_dma_alloc n s = (Some (v, h), s')"
  shows "dma_inv s' (insert (h, n) L)"
proof -
  obtain p where p: "dk_pool s = Some p" and hold: "axi_pages.holds p (L \<union> bounce_block ` set (pl_bounces p))"
    and d: "L \<inter> bounce_block ` set (pl_bounces p) = {}" "distinct (map bn_dma_handle (pl_bounces p))"
    using inv by (rule dma_inv_unfold)
  obtain p1 where al: "axi_mmio_pool_alloc p n = (Some h, p1)" and s': "dk_pool s' = Some p1"
    using a p by (auto simp: axi_mmio_dma_alloc_def set_pool_def split: prod.splits option.splits)
  have b: "pl_bounces p1 = pl_bounces p" by (subst pool_alloc_bounces [OF al]) simp
  show ?thesis
    using axi_pages.holds_alloc [OF hold fits al] axi_pages.alloc_apart(2) [OF hold fits al] d
    by (intro dma_invI [OF s']) (simp_all add: b)
qed

lemma dma_inv_free:
  assumes inv: "dma_inv s L" and mem: "(h, n) \<in> L"
  shows "dma_inv (axi_mmio_dma_free n h s) (L - {(h, n)})"
proof -
  obtain p where p: "dk_pool s = Some p" and hold: "axi_pages.holds p (L \<union> bounce_block ` set (pl_bounces p))"
    and d: "L \<inter> bounce_block ` set (pl_bounces p) = {}" "distinct (map bn_dma_handle (pl_bounces p))"
    using inv by (rule dma_inv_unfold)
  let ?p = "axi_mmio_pool_free p h n" let ?B = "bounce_block ` set (pl_bounces p)"
  have b: "pl_bounces ?p = pl_bounces p" using pool_free_bitmap [of p h n] by auto
  have "axi_pages.holds ?p (L \<union> ?B - {(h, n)})"
    by (rule axi_pages.holds_free [OF hold]) (use mem in simp)
  moreover have "L \<union> ?B - {(h, n)} = (L - {(h, n)}) \<union> ?B" using mem d(1) by blast
  ultimately have held: "axi_pages.holds ?p ((L - {(h, n)}) \<union> ?B)" by simp
  have pool: "dk_pool (axi_mmio_dma_free n h s) = Some ?p" using p by (simp add: axi_mmio_dma_free_def set_pool_def)
  have "(L - {(h, n)}) \<inter> ?B = {}" using d(1) by blast
  with held d(2) show ?thesis by (intro dma_invI [OF pool]) (simp_all add: b)
qed

lemma dma_inv_map_sg:
  assumes inv: "dma_inv s L" and m: "axi_mmio_dma_map_sg sgl dir s = (r, sgl', s')" and r: "0 \<le> r"
  shows "dma_inv s' (L \<union> set (map sg_block sgl'))"
proof -
  obtain p where p: "dk_pool s = Some p" and hold: "axi_pages.holds p (L \<union> bounce_block ` set (pl_bounces p))"
    and d: "L \<inter> bounce_block ` set (pl_bounces p) = {}" "distinct (map bn_dma_handle (pl_bounces p))"
    using inv by (rule dma_inv_unfold)
  obtain p' m' where l: "sg_map_loop dir [] sgl p (dk_mem s) = (True, sgl', p', m')" and s': "dk_pool s' = Some p'"
    using m r p by (auto simp: axi_mmio_dma_map_sg_def set_pool_def ENOMEM_def split: prod.splits if_splits)
  let ?B = "bounce_block ` set (pl_bounces p)" let ?S = "set (map sg_block sgl')"
  obtain bm where p': "p' = p\<lparr>pl_dma_bitmap := bm\<rparr>" and h: "axi_pages.holds p' ((L \<union> ?B) \<union> ?S)"
    "(L \<union> ?B) \<inter> ?S = {}"
    using sg_map_loop_holds [of p "L \<union> ?B" "[]", OF _ _ _ l] hold by auto
  have "(L \<union> ?B) \<union> ?S = (L \<union> ?S) \<union> ?B" "(L \<union> ?S) \<inter> ?B = {}" using h(2) d(1) by blast+
  with h(1) d(2) p' show ?thesis by (intro dma_invI [OF s']) simp_all
qed

lemma dma_inv_map_sg_fail:
  assumes inv: "dma_inv s L" and m: "axi_mmio_dma_map_sg sgl dir s = (r, sgl', s')" and r: "r < 0"
  shows "dma_inv s' L"
proof -
  obtain p where p: "dk_pool s = Some p" and hold: "axi_pages.holds p (L \<union> bounce_block ` set (pl_bounces p))"
    and d: "L \<inter> bounce_block ` set (pl_bounces p) = {}" "distinct (map bn_dma_handle (pl_bounces p))"
    using inv by (rule dma_inv_unfold)
  obtain p' m' where l: "sg_map_loop dir [] sgl p (dk_mem s) = (False, sgl', p', m')" and s': "dk_pool s' = Some p'"
    using m r p by (auto simp: axi_mmio_dma_map_sg_def set_pool_def split: prod.splits if_splits)
  obtain bm where "p' = p\<lparr>pl_dma_bitmap := bm\<rparr>" "axi_pages.holds p' (L \<union> bounce_block ` set (pl_bounces p))"
    using sg_map_loop_holds [of p "L \<union> bounce_block ` set (pl_bounces p)" "[]", OF _ _ _ l] hold by auto
  then have "p' = p" by (rule pool_eqI [OF _ hold])
  with s' p show ?thesis by (intro dma_inv_mem [OF _ inv]) simp
qed

lemma dma_inv_unmap_sg:
  assumes inv: "dma_inv s L" and sub: "set (map sg_block sgl) \<subseteq> L" and dist: "distinct (map sg_block sgl)"
  shows "dma_inv (snd (axi_mmio_dma_unmap_sg sgl dir s)) (L - set (map sg_block sgl))"
proof -
  obtain p where p: "dk_pool s = Some p" and hold: "axi_pages.holds p (L \<union> bounce_block ` set (pl_bounces p))"
    and d: "L \<inter> bounce_block ` set (pl_bounces p) = {}" "distinct (map bn_dma_handle (pl_bounces p))"
    using inv by (rule dma_inv_unfold)
  obtain sgl' p' m' where l: "sg_unmap_loop dir sgl p (dk_mem s) = (sgl', p', m')" by (metis prod.exhaust)
  let ?S = "set (map sg_block sgl)" let ?B = "bounce_block ` set (pl_bounces p)"
  have eq: "((L - ?S) \<union> ?B) \<union> ?S = L \<union> ?B" and dj: "((L - ?S) \<union> ?B) \<inter> ?S = {}" "(L - ?S) \<inter> ?B = {}"
    using sub d(1) by blast+
  obtain bm where held: "axi_pages.holds p' ((L - ?S) \<union> ?B)" and p': "p' = p\<lparr>pl_dma_bitmap := bm\<rparr>"
    using sg_unmap_loop_holds [OF _ dist dj(1) l] hold eq by auto
  have pool: "dk_pool (snd (axi_mmio_dma_unmap_sg sgl dir s)) = Some p'"
    using p l by (simp add: axi_mmio_dma_unmap_sg_def set_pool_def)
  show ?thesis using held d(2) dj(2) p' by (intro dma_invI [OF pool]) simp_all
qed

lemma dma_reach_inv: "dma_reach s L \<Longrightarrow> dma_inv s L"
proof (induction rule: dma_reach.induct)
  case (dma_start p s)
  then show ?case by (intro dma_invI [of s p]) (simp_all add: axi_pages.holds_def)
next
  case (dma_alloc_fail s L n s')
  then have "dk_pool s' = dk_pool s"
    by (auto simp: axi_mmio_dma_alloc_def set_pool_def split: prod.splits option.splits dest!: axi_pages.alloc_none)
  then show ?case using dma_alloc_fail.IH by (rule dma_inv_mem)
qed (auto simp: pool_sync intro: dma_inv_mem dma_inv_alloc dma_inv_free dma_inv_map dma_inv_unmap
    dma_inv_map_sg [unfolded set_map] dma_inv_map_sg_fail dma_inv_unmap_sg [unfolded set_map])

end
