(* ===== verification/Axi_Props.thy ===== *)
theory Axi_Props
  imports Axi_Dma
begin

unbundle bit_operations_syntax

text \<open>
  The properties of the frontend driver's DMA operations over every reachable state, closed instances
  of the properties of \<open>Axi_Dma\<close> on a small pool, and places where the operations do less than
  a caller may expect.
\<close>

section \<open>Live blocks\<close>

lemma spans_apart:
  assumes wf: "pool_wf p" and g: "pool_granted p b" "pool_granted p c"
    and ne: "pool_span p b \<noteq> {}" "pool_span p c \<noteq> {}" and d: "pool_span p b \<inter> pool_span p c = {}"
  shows "apart (fst b) (unat (snd b)) (fst c) (unat (snd c))"
proof -
  obtain i j where i: "fst b = page_handle p i" "i + pages_of (snd b) \<le> unat (pl_dma_pages p)"
    and j: "fst c = page_handle p j" "j + pages_of (snd c) \<le> unat (pl_dma_pages p)"
    using g by (auto simp: pool_granted_def)
  have pos: "0 < pages_of (snd b)" "0 < pages_of (snd c)" using ne by (auto simp: pool_span_def)
  have lt: "i < unat (pl_dma_pages p)" "j < unat (pl_dma_pages p)" using i j pos by simp_all
  have pg: "unat (pl_dma_pages p) < 2 ^ 32" using wf by (simp add: pool_wf_def)
  have po: "page_of p (fst b) = i" "page_of p (fst c) = j"
    using page_handle_unat(2) [OF wf] lt i(1) j(1) by simp_all
  have "i + pages_of (snd b) \<le> j \<or> j + pages_of (snd c) \<le> i"
  proof (rule ccontr)
    assume "\<not> ?thesis"
    then have "max i j \<in> pool_span p b \<inter> pool_span p c" using pos by (auto simp: pool_span_def po)
    with d show False by simp
  qed
  then show ?thesis
  proof
    assume "i + pages_of (snd b) \<le> j"
    then show ?thesis
      using pages_of_cover [of "snd b"] pages_of_cover [of "snd c"] j(2) pg
      unfolding i(1) j(1) page_handle_def by (intro apart_offsets) simp_all
  next
    assume "j + pages_of (snd c) \<le> i"
    then have "apart (fst c) (unat (snd c)) (fst b) (unat (snd b))"
      using pages_of_cover [of "snd b"] pages_of_cover [of "snd c"] i(2) pg
      unfolding i(1) j(1) page_handle_def by (intro apart_offsets) simp_all
    then show ?thesis by (simp add: apart_sym)
  qed
qed

lemma dma_blocks:
  assumes "dma_reach s L"
  shows "\<exists>p. dk_pool s = Some p \<and>
    (\<forall>b \<in> L \<union> bounce_block ` set (pl_bounces p). in_aperture p (fst b) (snd b) \<and>
       (\<forall>c \<in> L \<union> bounce_block ` set (pl_bounces p). b \<noteq> c \<longrightarrow> apart (fst b) (unat (snd b)) (fst c) (unat (snd c)))) \<and>
    used_pages p = (\<Union>b \<in> L \<union> bounce_block ` set (pl_bounces p). pool_span p b)"
proof -
  obtain p where p: "dk_pool s = Some p" and h: "axi_pages.holds p (L \<union> bounce_block ` set (pl_bounces p))"
    using dma_inv_unfold [OF dma_reach_inv [OF assms]] by blast
  let ?B = "L \<union> bounce_block ` set (pl_bounces p)"
  have wf: "pool_wf p" and g: "\<And>b. b \<in> ?B \<Longrightarrow> pool_granted p b \<and> pool_span p b \<noteq> {}"
    and d: "\<And>b c. b \<in> ?B \<Longrightarrow> c \<in> ?B \<Longrightarrow> b \<noteq> c \<Longrightarrow> pool_span p b \<inter> pool_span p c = {}"
    and u: "used_pages p = (\<Union>b \<in> ?B. pool_span p b)"
    using h unfolding axi_pages.holds_def by fast+
  have "in_aperture p (fst b) (snd b)" if "b \<in> ?B" for b
    using pool_granted_aperture(1) [OF wf, of "fst b" "snd b"] granted_not_error(2) [OF wf, of "fst b" "snd b"] g [OF that]
    by simp
  moreover have "apart (fst b) (unat (snd b)) (fst c) (unat (snd c))" if "b \<in> ?B" "c \<in> ?B" "b \<noteq> c" for b c
    by (rule spans_apart [OF wf]) (use g [OF that(1)] g [OF that(2)] d [OF that] in simp_all)
  ultimately have "\<forall>b \<in> ?B. in_aperture p (fst b) (snd b) \<and>
      (\<forall>c \<in> ?B. b \<noteq> c \<longrightarrow> apart (fst b) (unat (snd b)) (fst c) (unat (snd c)))"
    by (intro ballI conjI impI) assumption+
  with p u show ?thesis by (intro exI [of _ p]) (intro conjI)
qed

text \<open>
  A huge request is granted without a page. The page count is passed to the bitmap functions as
  an \<open>unsigned int\<close>; for a request of \<open>2 ^ 44\<close> bytes it is zero there, so whenever any page is free the
  allocation succeeds although nothing is reserved.
\<close>

lemma huge_alloc_reserves_nothing:
  assumes "pool_wf p" and "i < length (pl_dma_bitmap p)" and "\<not> pl_dma_bitmap p ! i"
  shows "\<exists>h. axi_mmio_pool_alloc p (2 ^ 44) = (Some h, p)"
proof -
  have pc: "page_count (2 ^ 44) = 2 ^ 32" by (simp add: page_count_def PAGE_SHIFT_def)
  have za: "zero_area (pl_dma_bitmap p) i 0" using assms(2,3) by (simp add: zero_area_def)
  have c: "(ucast (2 ^ 32 :: u64) :: u32) = 0" by simp
  from find_area_cases [of "pl_dma_bitmap p" 0] show ?thesis
  proof cases
    case (found j)
    then have "j < unat (pl_dma_pages p)" using assms(1) by (simp add: zero_area_def pool_wf_def)
    moreover have "bitmap_put True (pl_dma_bitmap p) (of_nat j) 0 = pl_dma_bitmap p" by (simp add: bitmap_put_def)
    moreover have "(2 ^ 32 :: u64) \<noteq> 0" by simp
    ultimately show ?thesis using found(1) unfolding axi_mmio_pool_alloc_def pc Let_def c by simp
  qed (use za in auto)
qed

text \<open>
  C24: the DMA blocks never overlap and never leave the aperture, for requests of fewer than \<open>2 ^ 32\<close> pages.
  In every state the driver can reach by coherent allocations, single and scatter-list mappings, their
  releases and any writes of the device, in any order and with any failures, with allocations and single
  mappings of fewer than \<open>2 ^ 32\<close> pages (a scatter-list entry never has more), the live blocks (held by the
  driver or by the list of bounce buffers) lie in the restricted aperture, are pairwise disjoint byte
  ranges, and the bitmap marks exactly their pages, so no page is leaked or handed out twice. The bound is
  needed: as long as a page is free, a request of \<open>2 ^ 32\<close> pages is granted and the pool stays as it is, since
  the page count is truncated to 32 bits.
\<close>

theorem dma_blocks_disjoint:
  assumes "dma_reach s L"
  shows "\<exists>p. dk_pool s = Some p \<and>
    (\<forall>b \<in> L \<union> bounce_block ` set (pl_bounces p). in_aperture p (fst b) (snd b) \<and>
       (\<forall>c \<in> L \<union> bounce_block ` set (pl_bounces p). b \<noteq> c \<longrightarrow> apart (fst b) (unat (snd b)) (fst c) (unat (snd c)))) \<and>
    used_pages p = (\<Union>b \<in> L \<union> bounce_block ` set (pl_bounces p). pool_span p b) \<and>
    (\<forall>i < length (pl_dma_bitmap p). \<not> pl_dma_bitmap p ! i \<longrightarrow> (\<exists>h. axi_mmio_pool_alloc p (2 ^ 44) = (Some h, p)))"
proof -
  have "pool_wf p" if "dk_pool s = Some p" for p
    using dma_reach_inv [OF assms] that by (simp add: dma_inv_def axi_pages.holds_def)
  then have "\<exists>h. axi_mmio_pool_alloc p (2 ^ 44) = (Some h, p)"
    if "dk_pool s = Some p" "i < length (pl_dma_bitmap p)" "\<not> pl_dma_bitmap p ! i" for p i
    using that huge_alloc_reserves_nothing by blast
  moreover obtain p where p: "dk_pool s = Some p"
    and blocks: "\<forall>b \<in> L \<union> bounce_block ` set (pl_bounces p). in_aperture p (fst b) (snd b) \<and>
       (\<forall>c \<in> L \<union> bounce_block ` set (pl_bounces p). b \<noteq> c \<longrightarrow> apart (fst b) (unat (snd b)) (fst c) (unat (snd c)))"
    and used: "used_pages p = (\<Union>b \<in> L \<union> bounce_block ` set (pl_bounces p). pool_span p b)"
    using dma_blocks [OF assms] by (elim exE conjE)
  ultimately show ?thesis by (intro exI [of _ p] conjI p blocks used) blast
qed

lemma bounce_nonempty:
  assumes "dma_reach s L" and "dk_pool s = Some p" and "b \<in> set (pl_bounces p)"
  shows "bn_size b \<noteq> 0"
proof -
  have h: "axi_pages.holds p (L \<union> bounce_block ` set (pl_bounces p))"
    using dma_reach_inv [OF assms(1)] assms(2) by (simp add: dma_inv_def)
  have "bounce_block b \<in> L \<union> bounce_block ` set (pl_bounces p)" using assms(3) by simp
  with h have "pool_wf p" "pool_granted p (bounce_block b)" "pool_span p (bounce_block b) \<noteq> {}"
    unfolding axi_pages.holds_def by (fast, fast, fast)
  then show ?thesis using granted_not_error(2) by (simp add: bounce_block_def)
qed

section \<open>A small pool\<close>

text \<open>An aperture of two pages at \<open>0x10000\<close>, all free; a buffer of four bytes at \<open>0x500\<close>.\<close>

definition axi_demo_pool :: axi_mmio_pool where
  "axi_demo_pool = \<lparr>pl_ptr = 1, pl_bounces = [], pl_dma_base = 0x10000, pl_dma_size = 0x2000, pl_dma_virt = 0x10000,
     pl_dma_bitmap = [False, False], pl_dma_pages = 2, pl_refs = 1\<rparr>"

definition axi_demo :: dma_state where
  "axi_demo = \<lparr>dk_mem = mem_write (\<lambda>_. 0) 0x500 [1, 2, 3, 4], dk_pool = Some axi_demo_pool, dk_script = []\<rparr>"

lemma axi_demo_wf: "pool_wf axi_demo_pool" "used_pages axi_demo_pool = {}" "dk_pool axi_demo = Some axi_demo_pool"
  "dk_script axi_demo = []" "pl_bounces axi_demo_pool = []"
  by (simp_all add: pool_wf_def axi_demo_pool_def axi_demo_def used_pages_def nth_Cons split: nat.splits)

lemma axi_demo_fits: "pool_fits 4" "pool_fits 0x1001"
  by (simp_all add: pool_fits_def page_count_pages pages_of_def)

lemma axi_demo_alloc: "axi_mmio_pool_alloc axi_demo_pool 4 = (Some 0x10000, axi_demo_pool\<lparr>pl_dma_bitmap := [True, False]\<rparr>)"
  by code_simp

lemma axi_demo_map: "fst (axi_mmio_dma_map_phys 0x500 4 dir axi_demo) = 0x10000"
proof -
  have "\<not> in_aperture axi_demo_pool 0x500 4" by (simp add: in_aperture_def axi_demo_pool_def)
  then show ?thesis
    by (simp add: axi_mmio_dma_map_phys_def axi_demo_wf may_fail_quiet axi_demo_alloc axi_mmio_copy_phys_to_pool_def
        set_pool_def)
qed

theorem dma_blocks_disjoint_witness:
  "\<exists>s' p. axi_mmio_dma_alloc 4 axi_demo = (Some (0x10000, 0x10000), s') \<and> dk_pool s' = Some p \<and>
     in_aperture p 0x10000 4 \<and> used_pages p = pool_span p (0x10000, 4) \<and>
     (\<exists>h. axi_mmio_pool_alloc p (2 ^ 44) = (Some h, p))"
proof -
  let ?p = "axi_demo_pool\<lparr>pl_dma_bitmap := [True, False]\<rparr>"
  have start: "dma_reach axi_demo {}" by (rule dma_reach.dma_start [OF axi_demo_wf(1,2,5,3)])
  have a: "axi_mmio_dma_alloc 4 axi_demo = (Some (0x10000, 0x10000), set_pool ?p axi_demo)"
    by (simp add: axi_mmio_dma_alloc_def axi_demo_wf axi_demo_alloc) (simp add: axi_mmio_pool_vaddr_def axi_demo_pool_def)
  have "dma_reach (set_pool ?p axi_demo) {(0x10000, 4)}"
    by (rule dma_reach.dma_alloc [OF start axi_demo_fits(1) a])
  from dma_blocks_disjoint [OF this] a show ?thesis
    by (auto simp: set_pool_def axi_demo_pool_def)
qed

theorem dma_map_shows_buffer_witness:
  "in_aperture axi_demo_pool 0x10000 4 \<and>
   mem_read (dk_mem (snd (axi_mmio_dma_map_phys 0x500 4 DMA_TO_DEVICE axi_demo))) 0x10000 4 = [1, 2, 3, 4]"
proof -
  have "axi_mmio_dma_map_phys 0x500 4 DMA_TO_DEVICE axi_demo =
      (0x10000, snd (axi_mmio_dma_map_phys 0x500 4 DMA_TO_DEVICE axi_demo))"
    by (rule prod_eqI) (simp_all add: axi_demo_map)
  from dma_map_shows_buffer [OF axi_demo_wf(3,1) axi_demo_fits(1) _ this] show ?thesis
    by (simp add: DMA_MAPPING_ERROR_def) (simp add: axi_demo_def mem_read_write_same)
qed

theorem dma_unmap_returns_data_witness:
  "let s' = snd (axi_mmio_dma_map_phys 0x500 4 DMA_FROM_DEVICE axi_demo);
       s'' = axi_mmio_dma_unmap_phys 0x10000 4 DMA_FROM_DEVICE (s'\<lparr>dk_mem := mem_write (dk_mem s') 0x10000 [9, 8, 7, 6]\<rparr>)
   in mem_read (dk_mem s'') 0x500 4 = [9, 8, 7, 6] \<and> dk_pool s'' = Some axi_demo_pool"
proof -
  have "axi_mmio_dma_map_phys 0x500 4 DMA_FROM_DEVICE axi_demo =
      (0x10000, snd (axi_mmio_dma_map_phys 0x500 4 DMA_FROM_DEVICE axi_demo))"
    by (rule prod_eqI) (simp_all add: axi_demo_map)
  from dma_unmap_returns_data [OF axi_demo_wf(3,1) axi_demo_fits(1) _ axi_demo_wf(4) this, of "[9, 8, 7, 6]"]
  show ?thesis
    by (simp add: DMA_MAPPING_ERROR_def axi_mmio_bounce_find_locked_def axi_demo_wf(5) Let_def)
qed

theorem sg_map_all_or_nothing_witness:
  "let (r, sgl, s) = axi_mmio_dma_map_sg
     [\<lparr>sg_phys = 0x500, sg_length = 4, sg_dma_address = 0, sg_dma_len = 0\<rparr>,
      \<lparr>sg_phys = 0x600, sg_length = 0x2000, sg_dma_address = 0, sg_dma_len = 0\<rparr>] DMA_TO_DEVICE axi_demo
   in r = - ENOMEM \<and> dk_pool s = Some axi_demo_pool"
proof -
  let ?l = "[\<lparr>sg_phys = 0x500, sg_length = 4, sg_dma_address = 0, sg_dma_len = 0\<rparr>,
      \<lparr>sg_phys = 0x600, sg_length = 0x2000, sg_dma_address = 0, sg_dma_len = 0\<rparr>]"
  obtain r sgl s where m: "axi_mmio_dma_map_sg ?l DMA_TO_DEVICE axi_demo = (r, sgl, s)" using prod_cases3 by blast
  have "axi_mmio_pool_alloc (axi_demo_pool\<lparr>pl_dma_bitmap := [True, False]\<rparr>) 0x2000 =
      (None, axi_demo_pool\<lparr>pl_dma_bitmap := [True, False]\<rparr>)" by code_simp
  then have "r = - ENOMEM"
    using m by (auto simp: axi_mmio_dma_map_sg_def axi_demo_wf axi_demo_alloc split: prod.splits)
  with sg_map_all_or_nothing [OF axi_demo_wf(3,1) m] show ?thesis by (simp add: ENOMEM_def m)
qed

section \<open>Less than a caller may expect\<close>

text \<open>
  What the device does not write comes from the pool. A buffer mapped for the device to write is
  not copied into its bounce buffer, but the whole bounce buffer is copied back: if the device wrote
  nothing, the buffer ends with what an earlier user of the pages left there.
\<close>

theorem unmap_copies_stale_bytes:
  assumes "dk_pool s = Some p" and "pool_wf p" and "pool_fits n" and "dk_script s = []" and "n \<noteq> 0"
    and "\<not> in_aperture p phys n" and "axi_mmio_pool_alloc p n = (Some h, p1)"
  shows "\<exists>s'. axi_mmio_dma_map_phys phys n DMA_FROM_DEVICE s = (h, s') \<and>
    mem_read (dk_mem (axi_mmio_dma_unmap_phys h n DMA_FROM_DEVICE s')) phys (unat n) = mem_read (dk_mem s) h (unat n)"
proof -
  let ?b = "\<lparr>bn_dma_handle = h, bn_phys = phys, bn_size = n\<rparr>"
  let ?p = "p1\<lparr>pl_bounces := ?b # pl_bounces p1\<rparr>" let ?s = "s\<lparr>dk_pool := Some ?p\<rparr>"
  have m: "axi_mmio_dma_map_phys phys n DMA_FROM_DEVICE s = (h, ?s)"
    using assms by (simp add: axi_mmio_dma_map_phys_def may_fail_quiet set_pool_def)
  have g: "pool_wf p1" "pool_granted p1 (h, n)" using axi_pages.alloc_some [OF assms(2,3,7)] by auto
  note ap = pool_granted_aperture [OF g assms(5)]
  have "axi_mmio_bounce_find_locked ?p h = Some ?b" by (simp add: axi_mmio_bounce_find_locked_def)
  then have "dk_mem (axi_mmio_dma_unmap_phys h n DMA_FROM_DEVICE ?s) = memcpy phys h n (dk_mem s)"
    using ap assms(4)
    by (simp add: unmap_eq [of ?s ?p] axi_mmio_copy_pool_to_phys_def may_fail_quiet axi_mmio_pool_vaddr_def set_pool_def)
  with m show ?thesis by (simp add: memcpy_read)
qed

theorem unmap_copies_stale_bytes_witness:
  "\<exists>s'. axi_mmio_dma_map_phys 0x500 4 DMA_FROM_DEVICE axi_demo = (0x10000, s') \<and>
    mem_read (dk_mem (axi_mmio_dma_unmap_phys 0x10000 4 DMA_FROM_DEVICE s')) 0x500 4 = [0, 0, 0, 0]"
proof -
  have "\<not> in_aperture axi_demo_pool 0x500 4" by (simp add: in_aperture_def axi_demo_pool_def)
  moreover have "mem_read (dk_mem axi_demo) 0x10000 4 = [0, 0, 0, 0]"
    by (simp add: axi_demo_def mem_read_write_apart apart_def) (simp add: mem_read_def numeral_eq_Suc)
  ultimately show ?thesis
    using unmap_copies_stale_bytes [OF axi_demo_wf(3,1) axi_demo_fits(1) axi_demo_wf(4) _ _ axi_demo_alloc, of "0x500"]
    by simp
qed

text \<open>
  Synchronising a part of a mapping does nothing. The bounce buffer is looked up by the exact
  handle of its mapping; with an address inside it, which the kernel's interface allows, neither
  direction copies anything.
\<close>

theorem partial_sync_is_noop:
  assumes "dma_reach s L" and "dk_pool s = Some p" and "b \<in> set (pl_bounces p)" and "0 < k" and "k < unat (bn_size b)"
  shows "axi_mmio_dma_sync_single_for_cpu (bn_dma_handle b + of_nat k) n dir s = s \<and>
    axi_mmio_dma_sync_single_for_device (bn_dma_handle b + of_nat k) n dir s = s"
proof -
  obtain q where q: "dk_pool s = Some q" and ap: "\<forall>x \<in> L \<union> bounce_block ` set (pl_bounces q).
       in_aperture q (fst x) (snd x) \<and>
       (\<forall>y \<in> L \<union> bounce_block ` set (pl_bounces q). x \<noteq> y \<longrightarrow> apart (fst x) (unat (snd x)) (fst y) (unat (snd y)))"
    using dma_blocks [OF assms(1)] by blast
  have k: "unat (of_nat k :: u64) = k" using assms(5) unat_lt_u64 [of "bn_size b"] by (intro unat_of_nat_u64) simp
  have "bn_dma_handle c \<noteq> bn_dma_handle b + of_nat k" if c: "c \<in> set (pl_bounces p)" for c
  proof
    assume h: "bn_dma_handle c = bn_dma_handle b + of_nat k"
    then have ne: "bounce_block b \<noteq> bounce_block c"
      using k assms(4) by (auto simp: bounce_block_def)
    have blk: "bounce_block b \<in> L \<union> bounce_block ` set (pl_bounces q)" "bounce_block c \<in> L \<union> bounce_block ` set (pl_bounces q)"
      using q assms(2,3) c by simp_all
    have "apart (bn_dma_handle b) (unat (bn_size b)) (bn_dma_handle c) (unat (bn_size c))"
      using bspec [OF conjunct2 [OF bspec [OF ap blk(1)]] blk(2), THEN mp, OF ne] by (simp add: bounce_block_def)
    then have "unat (bn_size b) \<le> unat (bn_dma_handle c - bn_dma_handle b)"
      using assms(5) bounce_nonempty [OF assms(1,2) c] by (auto simp: apart_def unat_eq_0)
    with h k assms(5) show False by simp
  qed
  then have "axi_mmio_bounce_find_locked p (bn_dma_handle b + of_nat k) = None"
    by (auto simp: axi_mmio_bounce_find_locked_def find_None_iff)
  then show "axi_mmio_dma_sync_single_for_cpu (bn_dma_handle b + of_nat k) n dir s = s \<and>
    axi_mmio_dma_sync_single_for_device (bn_dma_handle b + of_nat k) n dir s = s"
    using assms(2) by (simp add: axi_mmio_dma_sync_single_for_cpu_def axi_mmio_dma_sync_single_for_device_def
        axi_mmio_bounce_sync_for_cpu_def axi_mmio_bounce_sync_for_device_def)
qed

theorem partial_sync_is_noop_witness:
  "let s = snd (axi_mmio_dma_map_phys 0x500 4 DMA_BIDIRECTIONAL axi_demo)
   in \<forall>m. axi_mmio_dma_sync_single_for_cpu (0x10000 + of_nat 2) 2 DMA_BIDIRECTIONAL (s\<lparr>dk_mem := m\<rparr>) = s\<lparr>dk_mem := m\<rparr>"
proof (unfold Let_def, intro allI)
  fix m
  let ?s = "snd (axi_mmio_dma_map_phys 0x500 4 DMA_BIDIRECTIONAL axi_demo)"
  let ?b = "\<lparr>bn_dma_handle = 0x10000, bn_phys = 0x500, bn_size = 4\<rparr>"
  have map: "axi_mmio_dma_map_phys 0x500 4 DMA_BIDIRECTIONAL axi_demo = (0x10000, ?s)"
    by (rule prod_eqI) (simp_all add: axi_demo_map)
  have "dma_reach axi_demo {}" by (rule dma_reach.dma_start [OF axi_demo_wf(1,2,5,3)])
  then have r: "dma_reach (?s\<lparr>dk_mem := m\<rparr>) {}"
    by (intro dma_reach.dma_device dma_reach.dma_map [OF _ axi_demo_fits(1) map])
  have "\<not> in_aperture axi_demo_pool 0x500 4" by (simp add: in_aperture_def axi_demo_pool_def)
  then have "\<exists>p. dk_pool (?s\<lparr>dk_mem := m\<rparr>) = Some p \<and> ?b \<in> set (pl_bounces p)"
    by (simp add: axi_mmio_dma_map_phys_def axi_demo_wf may_fail_quiet axi_demo_alloc axi_mmio_copy_phys_to_pool_def
        set_pool_def)
  then obtain p where "dk_pool (?s\<lparr>dk_mem := m\<rparr>) = Some p" "?b \<in> set (pl_bounces p)" by blast
  from partial_sync_is_noop [OF r this, of 2 2 DMA_BIDIRECTIONAL]
  show "axi_mmio_dma_sync_single_for_cpu (0x10000 + of_nat 2) 2 DMA_BIDIRECTIONAL (?s\<lparr>dk_mem := m\<rparr>) = ?s\<lparr>dk_mem := m\<rparr>"
    by simp
qed

end
