(* ===== verification/Guest_Disk.thy ===== *)
theory Guest_Disk
  imports Axi_Props Uio_Blkd
begin

unbundle bit_operations_syntax

text \<open>
  A buffer of the guest on its way to the disk and back: the frontend driver's DMA operations in the
  guest's kernel, the shared aperture, and the block backend on the other side of the UIO fabric.
\<close>

section \<open>The shared aperture\<close>

text \<open>
  The daemon's DMA window and the memory of the guest are the same memory: they hold the same bytes
  wherever the daemon can reach.
\<close>

definition shares :: "uio_state \<Rightarrow> dma_state \<Rightarrow> bool" where
  "shares g s \<longleftrightarrow> (\<forall>a k. uio_reach g a k \<longrightarrow> mem_read (uio_ram g) a k = mem_read (dk_mem s) a k)"

text \<open>The guest has put a request with one data buffer, of the given length at a bus address, into the queue.\<close>

definition queued :: "uio_state blkd \<Rightarrow> virtio_queue \<Rightarrow> u16 \<Rightarrow> virtio_desc \<times> virtio_desc \<times> virtio_desc \<Rightarrow>
    u32 \<Rightarrow> u64 \<Rightarrow> u64 \<Rightarrow> u32 \<Rightarrow> bool" where
  "queued d q head chain kind sector h len \<longleftrightarrow>
     (case chain of (hdr, seg, st) \<Rightarrow>
        dev_queue 0 d = (OK q, d) \<and> blk_chain (uio_ram (dm_fab d)) (uio_reach (dm_fab d)) q head hdr [seg] st \<and>
        req_type (uio_ram (dm_fab d)) hdr = kind \<and> req_sector (uio_ram (dm_fab d)) hdr = sector \<and>
        ds_addr seg = h \<and> ds_len seg = len \<and>
        (if kind = VIRTIO_BLK_T_IN
         then in_seg_ok (uio_reach (dm_fab d)) (h_heap (dm_host d)) q (chain_idx (ds_next hdr) [seg, st]) seg \<and>
              apart (ds_addr st) 1 h (unat len)
         else out_seg_ok (uio_reach (dm_fab d)) (h_heap (dm_host d)) seg))"

section \<open>To the disk\<close>

text \<open>
  C6: what the guest's kernel writes to the disk is its buffer. A buffer anywhere in the guest's memory
  is mapped for the device, and a write request with the address the mapping returned is in the queue of the
  block device: the backend completes it and the image holds, at the requested sector, the bytes
  that the guest's buffer held, whether they went through a bounce buffer or not.
\<close>

theorem guest_buffer_to_image:
  assumes "dk_pool s = Some p" and "pool_wf p" and "axi_mmio_dma_map_phys phys (ucast len) DMA_TO_DEVICE s = (h, s')"
    and "h \<noteq> DMA_MAPPING_ERROR" and "shares (dm_fab d) s'" and "queued d q head chain VIRTIO_BLK_T_OUT sector h len"
    and "blk_ready uio_live d f c" and "of_writable f" and "\<not> bb_readonly (bd_backend (dm_opaque d))"
    and "unat sector * 512 + unat len \<le> length c" and "1 < n"
  shows "\<exists>d'. process_chain (uio_ops env) dr n head d = (OK 1, d') \<and>
    h_files (dm_host d') (of_path f) = Some (file_put c (unat sector * 512) (mem_read (dk_mem s) phys (unat len)))"
proof -
  obtain hdr seg st where ch: "chain = (hdr, seg, st)" by (cases chain)
  let ?m = "uio_ram (dm_fab d)"
  have q: "dev_queue 0 d = (OK q, d)" "blk_chain ?m (uio_reach (dm_fab d)) q head hdr [seg] st"
    "req_type ?m hdr = VIRTIO_BLK_T_OUT" "req_sector ?m hdr = sector" "ds_addr seg = h" "ds_len seg = len"
    "out_seg_ok (uio_reach (dm_fab d)) (h_heap (dm_host d)) seg"
    using assms(6) by (simp_all add: queued_def ch blk_consts)
  have "mem_read (dk_mem s') h (unat len) = mem_read (dk_mem s) phys (unat len)"
    using map_phys_shows [OF assms(1,2) sg_fits _ assms(3,4)] by (simp add: unat_ucast_u32)
  moreover have "mem_read ?m h (unat len) = mem_read (dk_mem s') h (unat len)"
    using assms(5) q(5-7) by (simp add: shares_def out_seg_ok_def)
  ultimately have "out_data ?m [seg] = mem_read (dk_mem s) phys (unat len)" using q(5,6) by (simp add: out_data_def)
  moreover have "\<exists>d'. process_chain (uio_ops env) dr n head d = (OK 1, d') \<and>
    blk_after uio_live uio_ram uio_reach f d d' (file_put c (unat (req_sector ?m hdr) * 512) (out_data ?m [seg]))
      (mem_write ?m (ds_addr st) [VIRTIO_BLK_S_OK])"
    by (rule uio_chain_out [OF assms(7) q(1-3)]) (use q(4-7) assms(8-11) unat_lt_u32 [of len] in \<open>simp_all\<close>)
  ultimately show ?thesis using q(4) by (auto simp: blk_after_def)
qed

section \<open>From the disk\<close>

text \<open>
  C7: what the guest's kernel reads from the disk is the image. A buffer is mapped for the device to write,
  a read request with the mapping's address is served, and the buffer is unmapped when the memory of the
  guest shows what the daemon wrote: the buffer, anywhere in the guest's memory, then holds the bytes of the
  image at the requested sector, and the pool of bounce buffers is as it was before the mapping.
\<close>

theorem image_to_guest_buffer:
  assumes "dk_pool s = Some p" and "pool_wf p" and "axi_mmio_dma_map_phys phys (ucast len) DMA_FROM_DEVICE s = (h, s')"
    and "h \<noteq> DMA_MAPPING_ERROR" and "axi_mmio_bounce_find_locked p phys = None"
    and "queued d q head chain VIRTIO_BLK_T_IN sector h len" and "blk_ready uio_live d f c"
    and "unat sector * 512 + unat len \<le> length c" and "1 < n"
  shows "\<exists>d'. process_chain (uio_ops env) dr n head d = (OK (len + 1), d') \<and>
    (\<forall>s2. dk_pool s2 = dk_pool s' \<longrightarrow> dk_script s2 = [] \<longrightarrow> shares (dm_fab d') s2 \<longrightarrow>
       mem_read (dk_mem (axi_mmio_dma_unmap_phys h (ucast len) DMA_FROM_DEVICE s2)) phys (unat len) =
         take (unat len) (drop (unat sector * 512) c) \<and>
       dk_pool (axi_mmio_dma_unmap_phys h (ucast len) DMA_FROM_DEVICE s2) = Some p)"
proof -
  obtain hdr seg st where ch: "chain = (hdr, seg, st)" by (cases chain)
  let ?m = "uio_ram (dm_fab d)" and ?pos = "unat sector * 512"
  let ?m' = "mem_write (in_writes c ?pos [seg] ?m) (ds_addr st) [VIRTIO_BLK_S_OK]"
  have q: "dev_queue 0 d = (OK q, d)" "blk_chain ?m (uio_reach (dm_fab d)) q head hdr [seg] st"
    "req_type ?m hdr = VIRTIO_BLK_T_IN" "req_sector ?m hdr = sector" "ds_addr seg = h" "ds_len seg = len"
    "in_seg_ok (uio_reach (dm_fab d)) (h_heap (dm_host d)) q (chain_idx (ds_next hdr) [seg, st]) seg" "apart (ds_addr st) 1 h (unat len)"
    using assms(6) by (simp_all add: queued_def ch)
  have "\<exists>d'. process_chain (uio_ops env) dr n head d = (OK (of_nat (seg_bytes [seg]) + 1), d') \<and>
    blk_after uio_live uio_ram uio_reach f d d' c (mem_write (in_writes c (unat (req_sector ?m hdr) * 512) [seg] ?m) (ds_addr st) [VIRTIO_BLK_S_OK])"
    by (rule uio_chain_in [OF assms(7) q(1-3)]) (use q(4-7) assms(8,9) unat_lt_u32 [of len] in \<open>simp_all\<close>)
  then obtain d' where d': "process_chain (uio_ops env) dr n head d = (OK (len + 1), d')" "uio_ram (dm_fab d') = ?m'"
    "uio_reach (dm_fab d') = uio_reach (dm_fab d)"
    using q(4,6) by (auto simp: blk_after_def)
  have "out_data (in_writes c ?pos [seg] ?m) [seg] = take (seg_bytes [seg]) (drop ?pos c)"
    by (rule in_writes_data) (use q(6) assms(8) in simp_all)
  then have data: "mem_read ?m' h (unat len) = take (unat len) (drop ?pos c)"
    using q(5,6,8) by (simp add: out_data_def mem_read_write_apart)
  show ?thesis
  proof (intro exI [of _ d'] conjI d'(1) allI impI)
    fix s2 assume s2: "dk_pool s2 = dk_pool s'" "dk_script s2 = []" "shares (dm_fab d') s2"
    note returned = unmap_copies_back [OF assms(1,2) sg_fits _ assms(3-5) s2(1,2), unfolded unat_ucast_u32]
    have "mem_read (dk_mem s2) h (unat len) = take (unat len) (drop ?pos c)"
      using s2(3) d'(2,3) q(5-7) data by (simp add: shares_def in_seg_ok_def)
    with returned show "mem_read (dk_mem (axi_mmio_dma_unmap_phys h (ucast len) DMA_FROM_DEVICE s2)) phys (unat len) = take (unat len) (drop ?pos c)"
      "dk_pool (axi_mmio_dma_unmap_phys h (ucast len) DMA_FROM_DEVICE s2) = Some p"
      by simp_all
  qed
qed

section \<open>A small guest with a bounce buffer\<close>

text \<open>An aperture of one page at \<open>0x300\<close>, where the small guest of \<open>Uio_Blkd\<close> has its data descriptor point; the buffer is at \<open>0x5000\<close>.\<close>

definition disk_pool :: axi_mmio_pool where
  "disk_pool = \<lparr>pl_ptr = 1, pl_bounces = [], pl_dma_base = 0x300, pl_dma_size = 0x1000, pl_dma_virt = 0x300,
     pl_dma_bitmap = [False], pl_dma_pages = 1, pl_refs = 1\<rparr>"

definition disk_kernel :: "memory \<Rightarrow> dma_state" where
  "disk_kernel m = \<lparr>dk_mem = m, dk_pool = Some disk_pool, dk_script = []\<rparr>"

lemma disk_pool_wf: "pool_wf disk_pool" "axi_mmio_bounce_find_locked disk_pool a = None" "dk_pool (disk_kernel m) = Some disk_pool"
  "dk_mem (disk_kernel m) = m"
  by (simp_all add: pool_wf_def disk_pool_def disk_kernel_def axi_mmio_bounce_find_locked_def)

lemma disk_alloc: "axi_mmio_pool_alloc disk_pool 4 = (Some 0x300, disk_pool\<lparr>pl_dma_bitmap := [True]\<rparr>)"
  by code_simp

lemma disk_map:
  "fst (axi_mmio_dma_map_phys 0x5000 4 dir (disk_kernel m)) = 0x300"
  "dk_mem (snd (axi_mmio_dma_map_phys 0x5000 4 dir (disk_kernel m))) = (if dir = DMA_FROM_DEVICE then m else mem_write m 0x300 (mem_read m 0x5000 4))"
  "dk_script (snd (axi_mmio_dma_map_phys 0x5000 4 dir (disk_kernel m))) = []"
proof -
  have "\<not> in_aperture disk_pool 0x5000 4" by (simp add: in_aperture_def disk_pool_def)
  then show "fst (axi_mmio_dma_map_phys 0x5000 4 dir (disk_kernel m)) = 0x300"
    "dk_mem (snd (axi_mmio_dma_map_phys 0x5000 4 dir (disk_kernel m))) = (if dir = DMA_FROM_DEVICE then m else mem_write m 0x300 (mem_read m 0x5000 4))"
    "dk_script (snd (axi_mmio_dma_map_phys 0x5000 4 dir (disk_kernel m))) = []"
    by (simp_all add: axi_mmio_dma_map_phys_def disk_pool_wf disk_kernel_def may_fail_quiet disk_alloc axi_mmio_copy_phys_to_pool_def
        set_pool_def memcpy_def axi_mmio_pool_vaddr_def) (simp_all add: disk_pool_def)
qed

lemma disk_seg_ok:
  "in_seg_ok (uio_reach (dm_fab (demo_state m))) (h_heap (dm_host (demo_state m))) demo_queue (chain_idx (ds_next demo_hdr) [demo_seg 3, demo_status]) (demo_seg 3)"
  "out_seg_ok (uio_reach (dm_fab (demo_state m))) (h_heap (dm_host (demo_state m))) (demo_seg 1)"
  "apart (ds_addr demo_status) 1 0x300 4"
  using demo_in_seg demo_out_seg by (simp_all add: demo_heap) (simp add: apart_def)

lemma disk_queued_read: "queued (demo_state (demo_ram 0 3)) demo_queue 0 (demo_hdr, demo_seg 3, demo_status) VIRTIO_BLK_T_IN 0 0x300 4"
  using demo_chain [of 3 0 "demo_ram 0 3"] disk_seg_ok demo_dev_queue
  by (simp add: queued_def demo_header VIRTIO_BLK_T_IN_def) (simp add: blk_consts)

lemma disk_queued_write:
  assumes "length bs = 4" and "length cs = 4"
  defines "m \<equiv> mem_write (mem_write (demo_ram 1 1) 0x5000 bs) 0x300 cs"
  shows "queued (demo_state m) demo_queue 0 (demo_hdr, demo_seg 1, demo_status) VIRTIO_BLK_T_OUT 0 0x300 4"
proof -
  have desc: "desc_at m demo_queue i = [demo_hdr, demo_seg 1, demo_status] ! unat i" if "i < 3" for i
  proof -
    have "unat i < 3" using that by (simp add: word_less_nat_alt)
    then have "apart 0x300 4 (desc_addr demo_queue i) 16" "apart 0x5000 4 (desc_addr demo_queue i) 16"
      using apart_offsets [of "16 * unat i" 16 512 4 "0x100"] apart_offsets [of "16 * unat i" 16 "0x4F00" 4 "0x100"]
      by (subst apart_sym, simp add: desc_addr_offset demo_queue_def)+
    then show ?thesis unfolding m_def using demo_desc [OF that] assms(1,2) by (simp add: desc_at_apart)
  qed
  have "mem_read m 0x200 16 = mem_read (demo_ram 1 1) 0x200 16"
    unfolding m_def using assms(1,2) by (simp add: mem_read_write_apart apart_def)
  then have hdr: "req_type m demo_hdr = 1" "req_sector m demo_hdr = 0"
    using demo_header [of 1 1] by (simp_all add: req_type_def req_sector_def)
  have "blk_chain m (uio_reach (dm_fab (demo_state m))) demo_queue 0 demo_hdr [demo_seg 1] demo_status"
    using desc [of 0] desc [of 1] desc [of 2] by (simp add: blk_chain_def demo_uio_reach blk_consts desc_addr_def demo_queue_def)
  with hdr show ?thesis using disk_seg_ok demo_dev_queue by (simp add: queued_def VIRTIO_BLK_T_OUT_def VIRTIO_BLK_T_IN_def)
qed

lemma shares_refl: "uio_ram g = dk_mem s \<Longrightarrow> shares g s"
  by (simp add: shares_def)

theorem guest_buffer_to_image_witness:
  "\<exists>d'. process_chain (uio_ops (\<lambda>_. id)) True 2 0
      (demo_state (dk_mem (snd (axi_mmio_dma_map_phys 0x5000 4 DMA_TO_DEVICE (disk_kernel (mem_write (demo_ram 1 1) 0x5000 [9, 8, 7, 6])))))) = (OK 1, d') \<and>
    h_files (dm_host d') ''disk'' = Some [9, 8, 7, 6, 5, 6, 7, 8]"
proof -
  let ?m = "mem_write (demo_ram 1 1) 0x5000 [9, 8, 7, 6]"
  let ?r = "axi_mmio_dma_map_phys 0x5000 4 DMA_TO_DEVICE (disk_kernel ?m)"
  have bytes: "mem_read ?m 0x5000 4 = [9, 8, 7, 6]" by (simp add: mem_read_write_same)
  have r: "axi_mmio_dma_map_phys 0x5000 (ucast (4 :: u32)) DMA_TO_DEVICE (disk_kernel ?m) = (0x300, snd ?r)"
    using disk_map(1) [of DMA_TO_DEVICE ?m] by (simp add: prod_eq_iff)
  show ?thesis
    using guest_buffer_to_image [OF disk_pool_wf(3,1) r _ shares_refl _ demo_ready demo_writable, of "dk_mem (snd ?r)"
        demo_queue 0 "(demo_hdr, demo_seg 1, demo_status)" 0 2 "\<lambda>_. id" True]
      disk_queued_write [of "[9, 8, 7, 6]" "[9, 8, 7, 6]"] bytes
    by (simp add: disk_map disk_pool_wf(4) DMA_MAPPING_ERROR_def demo_file_def file_put_def)
qed

theorem image_to_guest_buffer_witness:
  "\<exists>d'. process_chain (uio_ops (\<lambda>_. id)) True 2 0 (demo_state (demo_ram 0 3)) = (OK 5, d') \<and>
    mem_read (dk_mem (axi_mmio_dma_unmap_phys 0x300 4 DMA_FROM_DEVICE
      ((snd (axi_mmio_dma_map_phys 0x5000 4 DMA_FROM_DEVICE (disk_kernel (demo_ram 0 3))))\<lparr>dk_mem := uio_ram (dm_fab d')\<rparr>))) 0x5000 4 = [1, 2, 3, 4]"
proof -
  let ?r = "axi_mmio_dma_map_phys 0x5000 4 DMA_FROM_DEVICE (disk_kernel (demo_ram 0 3))"
  have r: "axi_mmio_dma_map_phys 0x5000 (ucast (4 :: u32)) DMA_FROM_DEVICE (disk_kernel (demo_ram 0 3)) = (0x300, snd ?r)"
    using disk_map(1) [of DMA_FROM_DEVICE "demo_ram 0 3"] by (simp add: prod_eq_iff)
  have h: "(0x300 :: u64) \<noteq> DMA_MAPPING_ERROR" "unat (0 :: u64) * 512 + unat (4 :: u32) \<le> length [1, 2, 3, 4, 5, 6, 7, 8 :: u8]" "(1 :: nat) < 2"
    by (simp_all add: DMA_MAPPING_ERROR_def)
  from image_to_guest_buffer [OF disk_pool_wf(3,1) r h(1) disk_pool_wf(2) disk_queued_read demo_ready h(2,3), of "\<lambda>_. id" True]
  obtain d' where d': "process_chain (uio_ops (\<lambda>_. id)) True 2 0 (demo_state (demo_ram 0 3)) = (OK 5, d')"
    and u: "\<And>s2. dk_pool s2 = dk_pool (snd ?r) \<Longrightarrow> dk_script s2 = [] \<Longrightarrow> shares (dm_fab d') s2 \<Longrightarrow>
      mem_read (dk_mem (axi_mmio_dma_unmap_phys 0x300 4 DMA_FROM_DEVICE s2)) 0x5000 4 = [1, 2, 3, 4]"
    by auto
  show ?thesis
    by (intro exI [of _ d'] conjI d' u) (simp_all add: disk_map shares_refl)
qed

end
