(* ===== verification/Uio_Run.thy ===== *)
theory Uio_Run
  imports Uio_Loop
begin

unbundle bit_operations_syntax

text \<open>
  Two places of the UIO fabric where its arithmetic and its parsing of the resource list go wrong.
\<close>

section \<open>A daemon before its run\<close>

lemma bnd_OK_cases:
  assumes "bnd m k s = (r, t)"
  obtains x u where "m s = (OK x, u)" and "k x u = (r, t)"
  | "m s = (Fail, t)" and "r = Fail" | "m s = (Trap, t)" and "r = Trap" | "m s = (Spin, t)" and "r = Spin"
  using assms by (cases "m s") (auto simp: bnd_def split: res.splits)

definition run_fab :: uio_state where
  "run_fab = \<lparr>us_fd = - 1, us_config = \<lparr>uc_path = [], uc_irq_control_offset = 0, uc_dma_base = 0\<rparr>,
     us_mmio = \<lparr>um_mapped = False, um_mem = (\<lambda>_. 0), um_len = 0, um_size = 0\<rparr>,
     us_dma = \<lparr>um_mapped = False, um_mem = (\<lambda>_. 0), um_len = 0, um_size = 0\<rparr>, us_pending_irq_level = - 1\<rparr>"

definition run_state :: "(unit, uio_state) daemon" where
  "run_state = \<lparr>dm_mmio = virtio_mmio_init (None :: (unit, unit) virtio_device_ops option) (fresh_device 0 0 0 0 ()), dm_fab = run_fab,
     dm_host = \<lparr>h_files = Map.empty, h_disk = Map.empty, h_fds = Map.empty, h_next_fd = 3, h_script = [], h_heap = 4096, h_pos = (\<lambda>_. 0), h_maps = []\<rparr>\<rparr>"

section \<open>The interrupt control offset\<close>

text \<open>
  The bounds check of the interrupt control register wraps around. For an endpoint whose
  interrupt control offset is one of the last four 64-bit numbers, the check of \<open>offset + 4\<close> against
  the size of the window passes, and the pending interrupt level is stored outside the window.
\<close>

theorem irq_offset_check_wraps:
  assumes "us_pending_irq_level (dm_fab s) \<ge> 0" and "um_mapped (us_mmio (dm_fab s))"
    and "um_len (us_mmio (dm_fab s)) = unat (um_size (us_mmio (dm_fab s)))" and "4 \<le> um_size (us_mmio (dm_fab s))"
    and "uc_irq_control_offset (us_config (dm_fab s)) \<ge> 0xfffffffffffffffc"
  shows "flush_pending_irq_level s = (Trap, s)"
proof -
  let ?o = "uc_irq_control_offset (us_config (dm_fab s))"
  have o: "unat ?o \<ge> 0xfffffffffffffffc" "unat ?o < 2 ^ 64"
    using assms(5) unat_lt_u64 [of ?o] by (simp_all add: word_le_nat_alt)
  then have "unat (?o + 4) = unat ?o + 4 - 2 ^ 64" by (simp add: unat_word_ariths mod_if)
  with o have "unat (?o + 4) < 4" by simp
  then have "\<not> ?o + 4 > um_size (us_mmio (dm_fab s))" using assms(4) by (simp add: word_less_nat_alt word_le_nat_alt)
  moreover have "\<not> region_ok (us_mmio (dm_fab s)) ?o 4"
    using assms(3) o unat_lt_u64 [of "um_size (us_mmio (dm_fab s))"] by (simp add: region_ok_def)
  ultimately show ?thesis
    using assms(1) by (simp add: flush_pending_irq_level_def bnd_def on_fab_def uio_store_le32_def)
qed

theorem irq_offset_check_wraps_witness:
  "flush_pending_irq_level (run_state\<lparr>dm_fab := run_fab\<lparr>us_pending_irq_level := 1,
     us_config := \<lparr>uc_path = ''/dev/uio0'', uc_irq_control_offset = 0xfffffffffffffffe, uc_dma_base = 0\<rparr>,
     us_mmio := \<lparr>um_mapped = True, um_mem = (\<lambda>_. 0), um_len = 4096, um_size = 4096\<rparr>\<rparr>\<rparr>) =
   (Trap, run_state\<lparr>dm_fab := run_fab\<lparr>us_pending_irq_level := 1,
     us_config := \<lparr>uc_path = ''/dev/uio0'', uc_irq_control_offset = 0xfffffffffffffffe, uc_dma_base = 0\<rparr>,
     us_mmio := \<lparr>um_mapped = True, um_mem = (\<lambda>_. 0), um_len = 4096, um_size = 4096\<rparr>\<rparr>\<rparr>)"
  by (rule irq_offset_check_wraps) simp_all

section \<open>The resource list\<close>

lemma takeWhile_digits:
  assumes "list_all (digit_in b) ds" and "\<not> digit_in b c"
  shows "takeWhile (digit_in b) (ds @ c # rest) = ds" and "dropWhile (digit_in b) (ds @ c # rest) = c # rest"
  using assms by (induction ds) simp_all

lemma digit_char:
  assumes "digit_in 16 c"
  shows "\<not> is_space c" and "c \<noteq> CHR ''-''" and "c \<noteq> CHR ''+''" and "c \<noteq> CHR ''x''" and "c \<noteq> CHR ''X''"
proof -
  have "\<not> digit_in 16 d" if "d \<in> {CHR ''-'', CHR ''+'', CHR ''x'', CHR ''X''}" for d
    using that by (auto simp: digit_in_def digit_val_def)
  with assms show "c \<noteq> CHR ''-''" "c \<noteq> CHR ''+''" "c \<noteq> CHR ''x''" "c \<noteq> CHR ''X''" by blast+
  have "48 \<le> (of_char c :: nat)" using assms by (auto simp: digit_in_def digit_val_def Let_def split: if_splits)
  then show "\<not> is_space c" by (auto simp: is_space_def)
qed

lemma strip_hex_digits:
  assumes "ds \<noteq> []" and "list_all (digit_in 16) ds" and "c \<noteq> CHR ''x''" and "c \<noteq> CHR ''X''"
  shows "strip_hex (ds @ c # rest) = ds @ c # rest"
proof -
  have "(ds @ c # rest) ! 1 \<noteq> CHR ''x'' \<and> (ds @ c # rest) ! 1 \<noteq> CHR ''X''"
  proof (cases "1 < length ds")
    case True
    then have "digit_in 16 (ds ! 1)" using assms(2) by (simp add: list_all_length)
    with digit_char(4,5) True show ?thesis by (auto simp: nth_append)
  next
    case False
    with assms(1) have "length ds = 1" by (cases ds) auto
    with assms show ?thesis by (simp add: nth_append)
  qed
  then show ?thesis by (auto simp: strip_hex_def hex_prefixed_def)
qed

lemma strtoull_digits:
  assumes "ds \<noteq> []" and "list_all (digit_in 16) ds" and "digits_value 16 ds < 2 ^ 64" and "c = CHR '' '' \<or> c = CHR 0x0A"
  shows "strtoull 16 (ds @ c # rest) = Some (of_nat (digits_value 16 ds), c # rest, False)"
proof -
  have c: "\<not> digit_in 16 c" "c \<noteq> CHR ''x''" "c \<noteq> CHR ''X''" using assms(4) by (auto simp: digit_in_def digit_val_def)
  have "digit_in 16 (hd ds)" using assms(1,2) by (cases ds) auto
  then have "dropWhile is_space (ds @ c # rest) = ds @ c # rest" "hd ds \<noteq> CHR ''-''" "hd ds \<noteq> CHR ''+''"
    using assms(1) digit_char by (cases ds; simp)+
  with assms c show ?thesis
    by (simp add: strtoull_def strip_hex_digits takeWhile_digits)
qed

lemma scan_0x_digits:
  assumes "ds \<noteq> []" and "list_all (digit_in 16) ds" and "digits_value 16 ds < 2 ^ 64" and "c = CHR '' '' \<or> c = CHR 0x0A"
  shows "scan_0x (CHR ''0'' # CHR ''x'' # ds @ c # rest) = Some (of_nat (digits_value 16 ds), c # rest)"
  using strtoull_digits [OF assms, of rest] by (simp add: scan_0x_def)

text \<open>
  The resource list of a PCI device is read wrongly. The list has one line \<open>0x<start> 0x<end>
  0x<flags>\<close> per resource; the scan format begins with a literal, which does not skip the newline that
  the scan of the first line leaves. So the scan for resource 1 stops there and takes the numbers of
  resource 0: whatever follows the first line, the DMA window is mapped with the size of the register
  window.
\<close>

theorem resource1_takes_resource0:
  assumes "a \<noteq> []" and "b \<noteq> []" and "c \<noteq> []" and "list_all (digit_in 16) (a @ b @ c)"
    and "digits_value 16 a < 2 ^ 64" and "digits_value 16 b < 2 ^ 64" and "digits_value 16 c < 2 ^ 64"
  shows "scan_resources 1 (''0x'' @ a @ '' 0x'' @ b @ '' 0x'' @ c @ CHR 0x0A # rest) (0, 0, 0) =
    (True, of_nat (digits_value 16 a), of_nat (digits_value 16 b), of_nat (digits_value 16 c))"
proof -
  let ?v = "\<lambda>ds. of_nat (digits_value 16 ds) :: u64"
  have l: "list_all (digit_in 16) a" "list_all (digit_in 16) b" "list_all (digit_in 16) c" using assms(4) by simp_all
  have sp: "is_space (CHR '' '')" "\<not> is_space (CHR ''0'')" by (simp_all add: is_space_def)
  have "scan_line (''0x'' @ a @ '' 0x'' @ b @ '' 0x'' @ c @ CHR 0x0A # rest) (0, 0, 0) =
      (True, (?v a, ?v b, ?v c), CHR 0x0A # rest)"
    using scan_0x_digits [OF assms(1) l(1) assms(5)] scan_0x_digits [OF assms(2) l(2) assms(6)]
      scan_0x_digits [OF assms(3) l(3) assms(7)] sp
    by (simp add: scan_line_def)
  moreover have "scan_line (CHR 0x0A # rest) vals = (False, vals, CHR 0x0A # rest)" for vals
    by (simp add: scan_line_def scan_0x_def split: prod.splits)
  ultimately show ?thesis by simp
qed

theorem resource1_takes_resource0_witness:
  "scan_resources 1 (''0xfe000000 0xfe000fff 0x40200'' @ CHR 0x0A # ''0x4000000000 0x43ffffffff 0x14220c'' @ [CHR 0x0A]) (0, 0, 0) =
   (True, 0xfe000000, 0xfe000fff, 0x40200)"
  using resource1_takes_resource0 [of "''fe000000''" "''fe000fff''" "''40200''"
      "''0x4000000000 0x43ffffffff 0x14220c'' @ [CHR 0x0A]"]
  by (simp add: digit_in_def digit_val_def digits_value_def)

end
