(* ===== verification/Uio_Release.thy ===== *)
theory Uio_Release
  imports Uio_Turn Uio_Run
begin

unbundle bit_operations_syntax

text \<open>
  What \<open>fabric_run\<close> of the UIO fabric leaves behind when it returns. \<open>uio_owns\<close> says that the process
  holds what it held before the run, the mappings of the two windows and the device file; opening
  establishes it, the setup and the event loop keep it for every device whose callbacks keep what the
  process holds, and \<open>cleanup_uio\<close> gives it back.
\<close>

section \<open>What the fabric holds\<close>

text \<open>Nothing mapped and no descriptor held, the state of the static variable before a run.\<close>

definition uio_idle :: "uio_state \<Rightarrow> bool" where
  "uio_idle g \<longleftrightarrow> \<not> um_mapped (us_mmio g) \<and> \<not> um_mapped (us_dma g) \<and> us_fd g < 0"

text \<open>The host gives a new descriptor to every file it opens.\<close>

definition fds_fresh :: "host \<Rightarrow> bool" where
  "fds_fresh h \<longleftrightarrow> 0 \<le> h_next_fd h \<and> (\<forall>fd \<ge> h_next_fd h. h_fds h fd = None)"

definition window_held :: "uio_mapping \<Rightarrow> nat list" where
  "window_held m = (if um_mapped m then [unat (um_size m)] else [])"

definition uio_owns :: "host \<Rightarrow> ('o, uio_state) daemon \<Rightarrow> bool" where
  "uio_owns h0 s \<longleftrightarrow>
     h_maps (dm_host s) = window_held (us_dma (dm_fab s)) @ window_held (us_mmio (dm_fab s)) @ h_maps h0 \<and>
     (if us_fd (dm_fab s) \<ge> 0 then (h_fds (dm_host s))(us_fd (dm_fab s) := None) else h_fds (dm_host s)) = h_fds h0"

text \<open>The variables that record what the fabric holds.\<close>

definition uio_hold :: "uio_state \<Rightarrow> int \<times> (bool \<times> u64) \<times> (bool \<times> u64)" where
  "uio_hold g = (us_fd g, (um_mapped (us_mmio g), um_size (us_mmio g)), (um_mapped (us_dma g), um_size (us_dma g)))"

definition uio_has :: "(int \<rightharpoonup> open_file) \<Rightarrow> nat list \<Rightarrow> int \<times> (bool \<times> u64) \<times> (bool \<times> u64) \<Rightarrow> ('o, uio_state) daemon \<Rightarrow> bool" where
  "uio_has fds maps res s \<longleftrightarrow> h_fds (dm_host s) = fds \<and> h_maps (dm_host s) = maps \<and> uio_hold (dm_fab s) = res"

lemma owns_has: "uio_owns h0 s \<Longrightarrow> uio_has (h_fds (dm_host s)) (h_maps (dm_host s)) (uio_hold (dm_fab s)) t \<Longrightarrow> uio_owns h0 t"
  by (auto simp: uio_owns_def uio_has_def uio_hold_def window_held_def)

section \<open>Opening and cleaning up\<close>

lemma sys_open_held:
  assumes "sys_open path r w c a h = (fd, h')" and "fds_fresh h"
  shows "h_maps h' = h_maps h" and "fds_fresh h'" and "fd < 0 \<Longrightarrow> h_fds h' = h_fds h"
    and "0 \<le> fd \<Longrightarrow> (h_fds h')(fd := None) = h_fds h"
proof -
  obtain x g where t: "transfer 0 h = (x, g)" by fastforce
  then have g: "h_maps g = h_maps h" "h_fds g = h_fds h" "h_next_fd g = h_next_fd h"
    using transfer_frame [of 0 h] transfer_host [OF t] by (simp_all, metis host.select_convs(4) host.surjective host.update_convs(5))
  with assms t show "h_maps h' = h_maps h" "fds_fresh h'" "fd < 0 \<Longrightarrow> h_fds h' = h_fds h"
    "0 \<le> fd \<Longrightarrow> (h_fds h')(fd := None) = h_fds h"
    by (auto simp: sys_open_def fds_fresh_def fun_upd_idem_iff split: sysret.splits if_splits)
qed

lemma fds_fresh_close: "fds_fresh h \<Longrightarrow> fds_fresh (sys_close fd h)"
  by (simp add: fds_fresh_def sys_close_def)

lemma mapping_done_held:
  assumes "mapping_done m sz addr h = ((ok, m'), h')"
  shows "h_fds h' = h_fds h" and "h_next_fd h' = h_next_fd h" and "h_maps h' = window_held m' @ h_maps h"
  using assms by (auto simp: mapping_done_def window_held_def hold_map_def split: option.splits)

lemma map_resource_held:
  assumes "map_resource mmap ps fd config k m h = ((ok, m'), h')" and "\<not> um_mapped m" and "fds_fresh h"
  shows "h_fds h' = h_fds h" and "fds_fresh h'" and "h_maps h' = window_held m' @ h_maps h"
proof -
  let ?held = "\<lambda>m' h'. h_fds h' = h_fds h \<and> fds_fresh h' \<and> h_maps h' = window_held m' @ h_maps h"
  have pci: "?held m' h'" if "map_pci_resource mmap dir k m h = ((ok, m'), h')" for dir
  proof -
    have still: "?held m h" using assms(2,3) by (simp add: window_held_def)
    show ?thesis
    proof (cases "(m', h') = (m, h)")
      case True with still show ?thesis by simp
    next
      case False
      with that obtain path size fd h1 where o: "sys_open path True True False False h = (fd, h1)"
        and k: "(if fd < 0 then ((False, m), h1) else (case mapping_done m size (mmap path (unat size) 0) h1 of
            (r, h2) \<Rightarrow> (r, sys_close fd h2))) = ((ok, m'), h')"
        by (auto simp: map_pci_resource_def Let_def split: option.splits prod.splits if_splits)
      note held = sys_open_held [OF o assms(3)]
      show ?thesis
      proof (cases "fd < 0")
        case True
        with k held assms(2) show ?thesis by (auto simp: window_held_def)
      next
        case False
        with k obtain h2 where d: "mapping_done m size (mmap path (unat size) 0) h1 = ((ok, m'), h2)" and "h' = sys_close fd h2"
          by (auto split: prod.splits)
        moreover have "fds_fresh h2" using mapping_done_held [OF d] held(2) by (simp add: fds_fresh_def)
        then have "fds_fresh (sys_close fd h2)" by (rule fds_fresh_close)
        ultimately show ?thesis using False mapping_done_held [OF d] held by (simp add: sys_close_def)
      qed
    qed
  qed
  have uio: "?held m' h'" if "mapping_done m sz addr h = ((ok, m'), h')" for sz addr
    using mapping_done_held [OF that] assms(3) by (simp add: fds_fresh_def)
  have "?held m' h'"
  proof (cases "(m', h') = (m, h)")
    case True
    with assms(2,3) show ?thesis by (simp add: window_held_def)
  next
    case False
    with assms(1) pci uio show ?thesis
      unfolding map_resource_def Let_def by (auto split: option.splits if_splits)
  qed
  then show "h_fds h' = h_fds h" "fds_fresh h'" "h_maps h' = window_held m' @ h_maps h" by auto
qed

lemma unmap_region_held:
  "unmap_region m h = (m', h') \<Longrightarrow> h_fds h' = h_fds h \<and> \<not> um_mapped m' \<and>
   (\<forall>ms. h_maps h = window_held m @ ms \<longrightarrow> h_maps h' = ms)"
  by (auto simp: unmap_region_def window_held_def sys_munmap_def split: if_splits)

lemma unmap_under:
  "unmap_region m h = (m', h') \<Longrightarrow> h_maps h = window_held d @ window_held m @ ms \<Longrightarrow> h_maps h' = window_held d @ ms"
  by (auto simp: unmap_region_def window_held_def sys_munmap_def split: if_splits)

lemma cleanup_releases:
  assumes "uio_owns h0 s"
  shows "\<exists>t. cleanup_uio s = (OK (), t) \<and> uio_idle (dm_fab t) \<and> h_fds (dm_host t) = h_fds h0 \<and> h_maps (dm_host t) = h_maps h0"
proof -
  obtain mmio h where m: "unmap_region (us_mmio (dm_fab s)) (dm_host s) = (mmio, h)" by fastforce
  obtain dma h' where d: "unmap_region (us_dma (dm_fab s)) h = (dma, h')" by fastforce
  have "h_maps h = window_held (us_dma (dm_fab s)) @ h_maps h0" using assms unmap_under [OF m] by (simp add: uio_owns_def)
  with unmap_region_held [OF m] unmap_region_held [OF d] assms show ?thesis
    by (auto simp: cleanup_uio_def m d Let_def uio_idle_def sys_close_def uio_owns_def split: if_splits)
qed

lemma uio_open_owns:
  assumes idle: "uio_idle (dm_fab s)" and fresh: "fds_fresh (dm_host s)" and run: "uio_open mmap ps dev s = (r, t)"
  shows "r = OK () \<Longrightarrow> uio_owns (dm_host s) t"
    and "r = Fail \<Longrightarrow> uio_idle (dm_fab t) \<and> h_fds (dm_host t) = h_fds (dm_host s) \<and> h_maps (dm_host t) = h_maps (dm_host s)"
proof -
  let ?same = "uio_idle (dm_fab t) \<and> h_fds (dm_host t) = h_fds (dm_host s) \<and> h_maps (dm_host t) = h_maps (dm_host s)"
  have "(r = OK () \<longrightarrow> uio_owns (dm_host s) t) \<and> (r = Fail \<longrightarrow> ?same)"
  proof (cases "parse_endpoint (fdev_socket_path dev)")
    case None
    with idle run show ?thesis by (auto simp: uio_open_def bnd_def)
  next
    case (Some config)
    obtain fd h where o: "sys_open (uc_path config) True True False False (dm_host s) = (fd, h)" by fastforce
    note held = sys_open_held [OF o fresh]
    show ?thesis
    proof (cases "fd < 0")
      case True
      with run Some o idle held show ?thesis by (auto simp: uio_open_def bnd_def on_host_def uio_idle_def)
    next
      case False
      let ?g = "dm_fab s"
      obtain ok0 mm h0 where m0: "map_resource mmap ps fd config 0 (us_mmio ?g) h = ((ok0, mm), h0)" by (metis prod.exhaust)
      obtain ok1 dm h1 where m1: "(if ok0 then map_resource mmap ps fd config 1 (us_dma ?g) h0 else ((False, us_dma ?g), h0)) = ((ok1, dm), h1)"
        by (metis prod.exhaust)
      let ?u = "s\<lparr>dm_host := h1, dm_fab := ?g\<lparr>us_config := config, us_fd := fd, us_mmio := mm, us_dma := dm\<rparr>\<rparr>"
      have eq: "uio_open mmap ps dev s =
          (if \<not> ok1 \<or> um_size mm < fdev_size dev then bnd cleanup_uio (\<lambda>_. fail) ?u else (OK (), ?u))"
        using Some o False m0 m1 by (cases ok0) (auto simp: uio_open_def bnd_def on_host_def)
      have w0: "h_fds h0 = h_fds h" "fds_fresh h0" "h_maps h0 = window_held mm @ h_maps h"
        using map_resource_held [OF m0 _ held(2)] idle by (simp_all add: uio_idle_def)
      have "h_fds h1 = h_fds h0 \<and> h_maps h1 = window_held dm @ h_maps h0"
        using m1 idle map_resource_held [of mmap ps fd config 1 "us_dma ?g" h0] w0(2)
        by (auto simp: uio_idle_def window_held_def split: if_splits)
      with w0 held False have own: "uio_owns (dm_host s) ?u" by (simp add: uio_owns_def)
      from eq run cleanup_releases [OF own] own show ?thesis by (auto simp: bnd_def split: if_splits)
    qed
  qed
  then show "r = OK () \<Longrightarrow> uio_owns (dm_host s) t" "r = Fail \<Longrightarrow> ?same" by auto
qed

section \<open>Serving\<close>

text \<open>A device whose callbacks change neither what the process holds nor the record the fabric keeps of it.\<close>

definition holds_still :: "('o, uio_state) daemon fabric_device \<Rightarrow> bool" where
  "holds_still dev \<longleftrightarrow> (\<forall>fds maps res. keeps (uio_has fds maps res) (dev_connect dev) \<and>
     (\<forall>off v. keeps (uio_has fds maps res) (dev_write dev off v 4)))"

lemma still_callbacks:
  assumes "holds_still dev"
  shows "keeps (uio_has fds maps res) (dev_connect dev)" and "keeps (uio_has fds maps res) (dev_write dev off v 4)"
  using assms unfolding holds_still_def by blast+

lemma has_on_fab: "keeps (\<lambda>g. uio_hold g = res) m \<Longrightarrow> keeps (uio_has fds maps res) (on_fab m)"
  by (rule keepsI) (auto simp: uio_has_def on_fab_def keeps_def split: prod.splits)

lemma hold_access:
  "keeps (\<lambda>g. uio_hold g = res) (uio_load_le32 off)" "keeps (\<lambda>g. uio_hold g = res) (uio_store_le32 off v)"
  by (rule keepsI, simp add: uio_load_le32_def uio_store_le32_def uio_hold_def)+

lemma has_guest_window: "keeps (uio_has fds maps res) (guest_window u)"
  unfolding guest_window_def by (rule keeps_modify) (simp add: uio_has_def guest_acts_def uio_hold_def split: prod.splits)

lemma has_dev_read: "keeps P (dev_read dev off len)"
  by (rule keepsI) (simp add: dev_read_def split: option.splits)

lemmas has_parts = keeps_bnd keeps_if keeps_option keeps_prod keeps_attempt keeps_basic has_on_fab hold_access
  has_guest_window has_dev_read

lemma has_publish_each: "keeps (uio_has fds maps res) (publish_each dev offs)"
proof (induction offs)
  case (Cons off offs)
  show ?case unfolding publish_each.simps publish_def by (intro has_parts Cons.IH)
qed (simp add: keeps_def)

lemma has_publish_config: "keeps (uio_has fds maps res) (publish_config dev n off)"
proof (induction n arbitrary: off)
  case (Suc n)
  show ?case unfolding publish_config.simps publish_def by (intro has_parts Suc.IH)
qed simp

lemma has_refresh: "keeps (uio_has fds maps res) (refresh_read_registers n dev)"
  unfolding refresh_read_registers_def by (intro keeps_bnd has_publish_each has_publish_config)

lemma has_flush: "keeps (uio_has fds maps res) flush_pending_irq_level"
  unfolding flush_pending_irq_level_def
  by (intro has_parts keeps_modify) (simp add: uio_has_def uio_hold_def)

lemma hold_resync: "keeps (\<lambda>g. uio_hold g = res) (resync_queue_state dev offs qs shadow)"
proof (induction qs arbitrary: shadow)
  case (Cons q qs)
  obtain a j where q: "q = (a, j)" by fastforce
  show ?case unfolding q resync_queue_state.simps by (intro has_parts Cons.IH)
qed simp

lemma hold_load_shadow: "keeps (\<lambda>g. uio_hold g = res) (load_shadow dev offs)"
proof (induction offs)
  case (Cons off offs)
  show ?case unfolding load_shadow.simps by (intro has_parts Cons.IH)
qed (simp add: keeps_def)

lemma has_poll_register:
  assumes "holds_still dev"
  shows "keeps (uio_has fds maps res) (poll_register loaded busy dev offs i shadow)"
  unfolding poll_register_def Let_def by (intro has_parts hold_resync still_callbacks [OF assms])

lemma has_poll_from: "holds_still dev \<Longrightarrow> keeps (uio_has fds maps res) (poll_from k race dev offs i shadow)"
  by (induction k arbitrary: i shadow) (simp, unfold poll_from.simps, intro has_parts has_poll_register)

lemma has_turn: "holds_still dev \<Longrightarrow> keeps (uio_has fds maps res) (uio_turn n dev w shadow)"
  unfolding uio_turn_def wait_for_uio_interrupt_def poll_write_registers_def
  by (cases w) (simp_all, intro has_parts has_poll_from has_refresh has_flush)

lemma has_serve: "holds_still dev \<Longrightarrow> keeps (uio_has fds maps res) (uio_serve n dev ws shadow)"
  by (induction ws arbitrary: shadow) (simp, unfold uio_serve.simps, intro keeps_bnd has_turn)

lemma has_setup: "holds_still dev \<Longrightarrow> keeps (uio_has fds maps res) (uio_setup n dev)"
  unfolding uio_setup_def by (intro has_parts has_refresh hold_load_shadow still_callbacks)

text \<open>The block daemon is such a device: its requests reach the host through calls on the open image only.\<close>

interpretation uio_holds: fabric_keeps "uio_ops env" "\<lambda>g. uio_hold g = res"
  by unfold_locales
    (auto simp: keeps_def uio_ops_def uio_dma_read_def uio_dma_read_into_def uio_dma_read_u16_def uio_dma_write_def
      uio_dma_map_def uio_ptr_store_def uio_dma_unmap_def uio_raise_irq_def uio_lower_irq_def bnd_def guest_acts_def
      uio_hold_def split: option.splits prod.splits)

lemma blkd_holds_still: "holds_still (blkd_fabric_init_device (uio_ops env) dr n b path)"
proof -
  have conn: "keeps (uio_has fds maps res) (dev_connect (blkd_fabric_init_device (uio_ops env) dr n b path))" for fds maps res
    by (rule keepsI) (simp add: dev_connect_def blkd_fabric_init_device_def uio_has_def blkd_connect_state)
  have "uio_has fds maps res (snd (blkd_mmio_write (uio_ops env) dr n off v 4 s))" if "uio_has fds maps res s" for fds maps res off v s
    using that keepsD [OF held_calls.keeps_blkd_mmio_write, of fds maps s "uio_ops env" dr n off v 4]
      keepsD [OF uio_holds.fab_inv_blkd_write, of res s env dr n off v 4]
    by (simp add: uio_has_def host_inv_def fab_inv_def)
  with conn show ?thesis
    by (simp add: holds_still_def keeps_def dev_write_def blkd_fabric_init_device_def)
qed

section \<open>The run\<close>


text \<open>
  A run that takes everything and gives it back: the sizes of both windows are in sysfs, the device
  file is opened, both windows are mapped, the registers are published, and the first wait for an
  interrupt fails.
\<close>

lemma load_shadow_total:
  "window_ok dev g \<Longrightarrow> list_all (reg_in dev) offs \<Longrightarrow> \<exists>vs. load_shadow dev offs g = (OK vs, g)"
proof (induction offs)
  case (Cons off offs)
  then obtain vs where vs: "load_shadow dev offs g = (OK vs, g)" and r: "reg_in dev off" by auto
  from r unat_lt_u64 [of "fdev_size dev"] have "unat (off + 4) = unat off + 4" by (simp add: reg_in_def unat_word_ariths)
  with r have "off + 4 \<le> fdev_size dev" by (simp add: reg_in_def word_le_nat_alt)
  with vs load_reg [OF Cons.prems(1) r] show ?case by (simp add: bnd_OK)
qed simp

lemma failed_wait_returns:
  assumes "fb_device_count bus = 1" and "fb_devices bus ! 0 = Some (uio_blkd dr n b path)"
    and "uio_open mmap ps (uio_blkd dr n b path) s = (OK (), u)" and "window_ok (uio_blkd dr n b path) (dm_fab u)" and "64 < m"
  shows "\<exists>t. uio_fabric_run mmap ps m [WaitFails] bus s = (OK False, t)"
proof -
  let ?dev = "uio_blkd dr n b path"
  let ?c = "blkd_connect (uio_ops (\<lambda>_. id)) dr n b u"
  have conn: "dev_connect ?dev u = (OK (), ?c)" by (simp add: dev_connect_def blkd_fabric_init_device_def)
  have in0: "list_all (reg_in ?dev) write_offsets" and notify: "reg_in ?dev VIRTIO_MMIO_QUEUE_NOTIFY"
    by (simp_all add: write_offsets_def reg_in_def uio_blkd_size vm_simps)
  have w: "window_ok ?dev (dm_fab ?c)" using assms(4) by (simp add: blkd_connect_state)
  then obtain vs where ld: "load_shadow ?dev write_offsets (dm_fab ?c) = (OK vs, dm_fab ?c)" using load_shadow_total in0 by blast
  let ?d = "?c\<lparr>dm_fab := set_reg VIRTIO_MMIO_QUEUE_NOTIFY UIO_NOTIFY_IDLE (dm_fab ?c)\<rparr>"
  have "window_ok ?dev (dm_fab ?d)" using w by simp
  from refresh_run [OF uio_blkd_reads uio_blkd_size this assms(5)] obtain v where
    "refresh_read_registers m ?dev ?d = (OK (), v)" by blast
  with conn ld store_reg [OF w notify] have "uio_setup m ?dev u = (OK (idle_shadow write_offsets vs), v)"
    by (simp add: uio_setup_def bnd_OK on_fab_def)
  moreover obtain t where "cleanup_uio v = (OK (), t)" by (simp add: cleanup_uio_def)
  moreover have "uio_serve m ?dev [WaitFails] sh v = (Fail, v)" for sh
    by (simp add: uio_turn_def wait_for_uio_interrupt_def bnd_def)
  ultimately show ?thesis using assms(1-3) by (simp add: uio_fabric_run_def attempt_def bnd_def)
qed

text \<open>The image is open as descriptor 3; the device file and the sysfs files of \<^verbatim>\<open>uio0\<close> are there.\<close>

definition release_state :: "uio_state blkd" where
  "release_state = (demo_state (\<lambda>_. 0))\<lparr>dm_fab := run_fab, dm_host := demo_host\<lparr>h_script := [], h_files := [''disk'' \<mapsto> [1, 2, 3, 4, 5, 6, 7, 8], ''/dev/uio0'' \<mapsto> [],
     ''/sys/class/uio/uio0/maps/map0/size'' \<mapsto> map of_char ''0x1000'', ''/sys/class/uio/uio0/maps/map1/size'' \<mapsto> map of_char ''0x10000'']\<rparr>\<rparr>"

definition release_bus :: "uio_state blkd fabric" where
  "release_bus = \<lparr>fb_devices = [Some (uio_blkd False 66 demo_backend ''uio:/dev/uio0'')], fb_device_count = 1\<rparr>"

definition zero_map :: "string \<Rightarrow> nat \<Rightarrow> nat \<Rightarrow> memory option" where
  "zero_map path len off = Some (\<lambda>_. 0)"

definition release_opened :: "uio_state blkd" where
  "release_opened = release_state\<lparr>dm_fab := run_fab\<lparr>us_fd := 4,
       us_config := \<lparr>uc_path = ''/dev/uio0'', uc_irq_control_offset = UIO_IRQ_CONTROL_OFFSET, uc_dma_base = 0\<rparr>,
       us_mmio := \<lparr>um_mapped = True, um_mem = (\<lambda>_. 0), um_len = 0x1000, um_size = 0x1000\<rparr>,
       us_dma := \<lparr>um_mapped = True, um_mem = (\<lambda>_. 0), um_len = 0x10000, um_size = 0x10000\<rparr>\<rparr>,
     dm_host := hold_map 0x10000 (hold_map 0x1000 (snd (sys_open ''/dev/uio0'' True True False False (dm_host release_state))))\<rparr>"

lemma release_opens: "uio_open zero_map 0x1000 (uio_blkd False 66 demo_backend ''uio:/dev/uio0'') release_state = (OK (), release_opened)"
proof -
  note parse = parse_u64_def strtoull_def is_space_def auto_base_def hex_prefixed_def digit_in_def digit_val_def digits_value_def
  have ep: "parse_endpoint ''uio:/dev/uio0'' =
      Some \<lparr>uc_path = ''/dev/uio0'', uc_irq_control_offset = UIO_IRQ_CONTROL_OFFSET, uc_dma_base = 0\<rparr>"
    by (simp add: parse_endpoint_def)
  have idx: "uio_index_from_path ''/dev/uio0'' = Some 0" by (simp add: uio_index_from_path_def base_name_def parse)
  have dec: "decimal 0 = ''0''" "decimal (Suc 0) = ''1''" by (simp_all add: decimal.simps char_of_def bit_0)
  have lines: "text_of (takeWhile (\<lambda>b. b \<noteq> 0 \<and> b \<noteq> 10) (take 63 (map of_char ''0x1000''))) = ''0x1000''"
    "text_of (takeWhile (\<lambda>b. b \<noteq> 0 \<and> b \<noteq> 10) (take 63 (map of_char ''0x10000''))) = ''0x10000''"
    by (simp_all add: text_of_def) (simp_all add: char_of_def bit_0)
  have num: "parse_u64 ''0x1000'' = Some 0x1000" "parse_u64 ''0x10000'' = Some 0x10000" by (simp_all add: parse)
  define h where "h = snd (sys_open ''/dev/uio0'' True True False False (dm_host release_state))"
  have op: "sys_open ''/dev/uio0'' True True False False (dm_host release_state) = (4, h)"
    and fs: "h_files h = h_files (dm_host release_state)" "h_fds h 4 = Some \<lparr>of_path = ''/dev/uio0'', of_readable = True, of_writable = True, of_append = False\<rparr>"
    by (simp_all add: h_def sys_open_def transfer_def release_state_def demo_host_def del: list.map)
  have size: "read_sysfs_u64 ''/sys/class/uio/uio0/maps/map0/size'' g = Some 0x1000"
    "read_sysfs_u64 ''/sys/class/uio/uio0/maps/map1/size'' g = Some 0x10000" if "h_files g = h_files (dm_host release_state)" for g
    using that lines num by (simp_all add: read_sysfs_u64_def release_state_def del: list.map)
  let ?c = "\<lparr>uc_path = ''/dev/uio0'', uc_irq_control_offset = UIO_IRQ_CONTROL_OFFSET, uc_dma_base = 0\<rparr>"
  have m0: "map_resource zero_map 0x1000 4 ?c 0 m h =
      ((True, \<lparr>um_mapped = True, um_mem = (\<lambda>_. 0), um_len = 0x1000, um_size = 0x1000\<rparr>), hold_map 0x1000 h)" for m
    using fs size(1) [of h] by (simp add: map_resource_def idx dec mapping_done_def zero_map_def)
  have m1: "map_resource zero_map 0x1000 4 ?c (Suc 0) m (hold_map 0x1000 h) =
      ((True, \<lparr>um_mapped = True, um_mem = (\<lambda>_. 0), um_len = 0x10000, um_size = 0x10000\<rparr>), hold_map 0x10000 (hold_map 0x1000 h))" for m
    using fs size(2) [of "hold_map 0x1000 h"] by (simp add: map_resource_def idx dec mapping_done_def zero_map_def hold_map_def)
  have fab: "dm_fab release_state = run_fab" by (simp add: release_state_def)
  show ?thesis
    using ep op m0 m1 unfolding release_opened_def h_def [symmetric]
    by (simp add: uio_open_def blkd_fabric_init_device_def bnd_def on_host_def fab)
qed


end
