(* ===== verification/Virtio_Consoled.thy ===== *)
theory Virtio_Consoled
  imports Queue_Service Config_Args
begin

unbundle bit_operations_syntax

text \<open>
  The virtio-console backend, \<^verbatim>\<open>src/drivers/virtio-consoled.h\<close> and
  \<^verbatim>\<open>src/drivers/virtio-consoled.c\<close>: the output backend, the device callbacks, the transmit
  processor, the notification handler, the fabric binding, the configuration and the daemon. The
  retry loop \<open>write_all\<close> is in \<open>Host_Files\<close>; the service loop, the register callbacks and the stale
  notification are the same code as in the block driver and are in \<open>Driver\<close>.
\<close>

section \<open>Constants and state\<close>

named_theorems con_consts \<open>constants of the console driver\<close>

definition COND_QUEUE_SIZE :: u32 where [con_consts]: "COND_QUEUE_SIZE = 256"
definition COND_QUEUE_COUNT :: u32 where [con_consts]: "COND_QUEUE_COUNT = 2"
definition VIRTIO_ID_CONSOLE :: u32 where [con_consts]: "VIRTIO_ID_CONSOLE = 3"
definition STDOUT_FILENO :: int where [con_consts]: "STDOUT_FILENO = 1"

record cond_config =
  cc_socket :: string
  cc_ram_access :: string
  cc_output :: string

record cond_console_backend =
  cb_fd :: int

text \<open>The driver's part of \<open>struct cond_virtio_device\<close>; the queues are in the device.\<close>

record cond_virtio_device =
  cv_backend :: cond_console_backend

type_synonym 'f cond = "(cond_virtio_device, 'f) daemon"

section \<open>The output backend\<close>

text \<open>A path that is a null pointer is \<open>None\<close>. Opening creates the file and appends to it.\<close>

definition cond_console_open ::
  "string option \<Rightarrow> cond_console_backend \<Rightarrow> host \<Rightarrow> (bool \<times> cond_console_backend) \<times> host" where
  "cond_console_open path backend h =
     (if path = None \<or> path = Some [] \<or> path = Some ''-'' then ((True, backend\<lparr>cb_fd := STDOUT_FILENO\<rparr>), h)
      else case sys_open (the path) False True True True h of (fd, h') \<Rightarrow>
        (if fd < 0 then ((False, backend\<lparr>cb_fd := fd\<rparr>), h')
         else ((True, backend\<lparr>cb_fd := fd\<rparr>), h')))"

definition cond_console_close :: "cond_console_backend \<Rightarrow> host \<Rightarrow> cond_console_backend \<times> host" where
  "cond_console_close backend h =
     (backend\<lparr>cb_fd := - 1\<rparr>,
      if cb_fd backend \<ge> 0 \<and> cb_fd backend \<noteq> STDOUT_FILENO then sys_close (cb_fd backend) h else h)"

definition cond_console_write :: "cond_console_backend \<Rightarrow> u8 list \<Rightarrow> nat \<Rightarrow> host \<Rightarrow> bool \<times> host" where
  "cond_console_write backend buf len h = write_all (cb_fd backend) (take len buf) h"

section \<open>Device callbacks and initialisation\<close>

definition cond_ack_notify :: "'f fabric_ops \<Rightarrow> ('f cond, unit) act" where
  "cond_ack_notify F = ack_notify F"

definition cond_get_features :: "cond_virtio_device virtio_device \<Rightarrow> u64" where
  "cond_get_features dev = push_bit 0 1 OR push_bit 32 1 OR push_bit 33 1"

definition cond_get_config :: "cond_virtio_device virtio_device \<Rightarrow> u64 \<Rightarrow> u32 \<Rightarrow> u64" where
  "cond_get_config dev offset len =
     (if offset = 0 then 80 else if offset = 2 then 25 else if offset = 4 then 1 else 0)"

definition cond_virtio_init ::
  "(cond_virtio_device, 's) virtio_device_ops \<Rightarrow> cond_console_backend \<Rightarrow>
   cond_virtio_device virtio_device \<Rightarrow> cond_virtio_device virtio_device" where
  "cond_virtio_init ops backend dev =
     (let queues = [zero_queue, zero_queue]; opaque = \<lparr>cv_backend = backend\<rparr>
      in virtio_device_init VIRTIO_ID_CONSOLE VIRTIO_VENDOR_ID_LOCAL COND_QUEUE_COUNT COND_QUEUE_SIZE queues opaque
           (Some ops) (zero_vdev queues opaque))"

section \<open>Transmit chains\<close>

definition console_write :: "u8 list \<Rightarrow> u32 \<Rightarrow> ('f cond, bool) act" where
  "console_write data len = (\<lambda>s. on_host (cond_console_write (cv_backend (dm_opaque s)) data (unat len)) s)"

text \<open>The loop over the descriptors of a chain, one unit of fuel per descriptor; it has no bound in the code.\<close>

definition tx_segment :: "'f fabric_ops \<Rightarrow> virtio_desc \<Rightarrow> u32 \<Rightarrow> ('f cond, u32) act" where
  "tx_segment F d tot =
     (if ds_flags d AND VRING_DESC_F_WRITE = 0 \<and> ds_len d \<noteq> 0 then
        bnd (gets (\<lambda>s. h_heap (dm_host s))) (\<lambda>heap.
        bnd (on_fab (fabric_dma_read F heap (ds_addr d) (ds_len d))) (\<lambda>data.
        bnd (console_write data (ds_len d)) (\<lambda>written.
        bnd (guard written) (\<lambda>_. ret (tot + ds_len d)))))
      else ret tot)"

fun tx_loop :: "'f fabric_ops \<Rightarrow> virtio_queue \<Rightarrow> nat \<Rightarrow> u16 \<Rightarrow> u32 \<Rightarrow> ('f cond, u32) act" where
  "tx_loop F queue 0 index tot = spin"
| "tx_loop F queue (Suc n) index tot =
     bnd (on_fab (virtio_read_desc F queue index)) (\<lambda>desc.
     bnd (tx_segment F desc tot) (\<lambda>tot.
     if ds_flags desc AND VRING_DESC_F_NEXT = 0 then ret tot
     else tx_loop F queue n (ds_next desc) tot))"

definition process_tx_chain :: "'f fabric_ops \<Rightarrow> nat \<Rightarrow> nat \<Rightarrow> u16 \<Rightarrow> ('f cond, u32) act" where
  "process_tx_chain F queue_index fuel head =
     bnd (dev_queue queue_index) (\<lambda>queue. tx_loop F queue fuel head 0)"

section \<open>Notification and the fabric binding\<close>

definition cond_virtio_notify_queue :: "'f fabric_ops \<Rightarrow> nat \<Rightarrow> u32 \<Rightarrow> ('f cond, unit) act" where
  "cond_virtio_notify_queue F fuel queue_index =
     (if queue_index \<ge> COND_QUEUE_COUNT then cond_ack_notify F
      else bnd (dev_queue (unat queue_index)) (\<lambda>queue.
        if vq_ready queue = 0 then cond_ack_notify F
        else if queue_index = 0 then cond_ack_notify F
        else service_queue F (process_tx_chain F (unat queue_index) fuel) (unat queue_index) fuel))"

definition cond_virtio_ops :: "'f fabric_ops \<Rightarrow> nat \<Rightarrow> (cond_virtio_device, 'f cond) virtio_device_ops" where
  "cond_virtio_ops F fuel =
     \<lparr>op_get_features = Some cond_get_features, op_get_config = Some cond_get_config,
      op_notify_queue = Some (cond_virtio_notify_queue F fuel), op_reset = None\<rparr>"

definition cond_connect :: "'f fabric_ops \<Rightarrow> nat \<Rightarrow> cond_console_backend \<Rightarrow> 'f cond \<Rightarrow> 'f cond" where
  "cond_connect F fuel backend s =
     (let ops = cond_virtio_ops F fuel
      in s\<lparr>dm_mmio := virtio_mmio_init (Some ops) (cond_virtio_init ops backend (dm_vdev s))\<rparr>)"

definition cond_mmio_read :: "'f fabric_ops \<Rightarrow> nat \<Rightarrow> u64 \<Rightarrow> u32 \<Rightarrow> 'f cond \<Rightarrow> u64" where
  "cond_mmio_read F fuel = driver_mmio_read (cond_virtio_ops F fuel)"

definition cond_mmio_write :: "'f fabric_ops \<Rightarrow> nat \<Rightarrow> u64 \<Rightarrow> u64 \<Rightarrow> u32 \<Rightarrow> ('f cond, unit) act" where
  "cond_mmio_write F fuel = driver_mmio_write F (cond_virtio_ops F fuel)"

definition cond_fabric_init_device ::
  "'f fabric_ops \<Rightarrow> nat \<Rightarrow> cond_console_backend \<Rightarrow> string \<Rightarrow> 'f cond fabric_device" where
  "cond_fabric_init_device F fuel backend socket_path =
     \<lparr>fdev_name = ''cond'', fdev_socket_path = socket_path, fdev_addr = 0, fdev_size = 0x200,
      fdev_ops = Some \<lparr>fd_connect = Some (cond_connect F fuel backend),
                       fd_read = Some (cond_mmio_read F fuel),
                       fd_write = Some (cond_mmio_write F fuel)\<rparr>\<rparr>"

section \<open>Configuration and the daemon\<close>

definition cond_parse_part :: "string \<Rightarrow> cond_config \<Rightarrow> cond_config option" where
  "cond_parse_part part cfg =
     (case split_first (CHR ''='') part of
        None \<Rightarrow> None
      | Some (key, value) \<Rightarrow>
          if key = ''socket'' then map_option (\<lambda>v. cfg\<lparr>cc_socket := v\<rparr>) (copy_value value 4096)
          else if key = ''output'' then map_option (\<lambda>v. cfg\<lparr>cc_output := v\<rparr>) (copy_value value 4096)
          else if key = ''ram_access'' then map_option (\<lambda>v. cfg\<lparr>cc_ram_access := v\<rparr>) (copy_value value 128)
          else if key \<noteq> ''name'' then None
          else Some cfg)"

fun cond_parse_parts :: "string list \<Rightarrow> cond_config \<Rightarrow> cond_config option" where
  "cond_parse_parts [] cfg = Some cfg"
| "cond_parse_parts (part # parts) cfg =
     (case cond_parse_part part cfg of None \<Rightarrow> None | Some cfg' \<Rightarrow> cond_parse_parts parts cfg')"

definition cond_parse_config_arg :: "nat \<Rightarrow> string \<Rightarrow> cond_config option" where
  "cond_parse_config_arg heap arg =
     (if length arg + 1 > heap then None
      else case cond_parse_parts (strtok (CHR '','') arg)
                  \<lparr>cc_socket = [], cc_ram_access = ''shared-mem'', cc_output = ''-''\<rparr> of
          None \<Rightarrow> None
        | Some cfg \<Rightarrow> if cc_socket cfg \<noteq> [] then Some cfg else None)"

definition cond_main ::
  "('f cond fabric \<Rightarrow> 'f cond \<Rightarrow> bool \<times> 'f cond) \<Rightarrow> 'f fabric_ops \<Rightarrow> nat \<Rightarrow>
   string list \<Rightarrow> cond_console_backend \<Rightarrow> 'f cond fabric \<Rightarrow> 'f cond \<Rightarrow> int \<times> 'f cond" where
  "cond_main run F fuel argv backend0 bus0 s =
     (if length argv \<noteq> 2 then (2, s)
      else case cond_parse_config_arg (h_heap (dm_host s)) (argv ! 1) of
        None \<Rightarrow> (1, s)
      | Some cfg \<Rightarrow>
          (case cond_console_open (Some (cc_output cfg)) backend0 (dm_host s) of
            ((open_ok, backend), h) \<Rightarrow>
              let s1 = s\<lparr>dm_host := h\<rparr> in
              if \<not> open_ok then (1, s1)
              else let device = cond_fabric_init_device F fuel backend (cc_socket cfg) in
                case fabric_register device (fabric_init bus0) of
                  (OK _, bus) \<Rightarrow> (case run bus s1 of (ok, s2) \<Rightarrow>
                      (if ok then 0 else 1, s2\<lparr>dm_host := snd (cond_console_close backend (dm_host s2))\<rparr>))
                | (_, bus) \<Rightarrow> (1, s1\<lparr>dm_host := snd (cond_console_close backend (dm_host s1))\<rparr>)))"

end
