(* ===== verification/Consoled_Safety.thy ===== *)
theory Consoled_Safety
  imports Virtio_Consoled Driver_Safety
begin

unbundle bit_operations_syntax

text \<open>
  What the console backend never does: it modifies no host file but its output, and only by
  appending; it does not fault. Both hold for every sequence of register writes and reconnects, and
  the first for every fabric whatever it answers.
\<close>

section \<open>The output file and the other files\<close>

definition append_only :: "int \<Rightarrow> host \<Rightarrow> host \<Rightarrow> bool" where
  "append_only fd h0 h \<longleftrightarrow> h_fds h = h_fds h0 \<and>
     (\<forall>p. h_files h p = h_files h0 p \<or>
        (\<exists>f c0 c. h_fds h0 fd = Some f \<and> of_path f = p \<and> of_writable f \<and>
           h_files h0 p = Some c0 \<and> h_files h p = Some (c0 @ c)))"

lemma append_only_refl [simp]: "append_only fd h h"
  by (simp add: append_only_def)

lemma append_only_update [simp]:
  "append_only fd h0 (h\<lparr>h_script := s\<rparr>) = append_only fd h0 h" "append_only fd h0 (h\<lparr>h_pos := p\<rparr>) = append_only fd h0 h"
  by (simp_all add: append_only_def)

lemma append_only_put:
  assumes "append_only fd h0 h" and "h_fds h fd = Some f" and "of_writable f" and "h_files h (of_path f) = Some c"
  shows "append_only fd h0 (set_file (of_path f) (c @ bs) h)"
proof -
  have "h_files h0 (of_path f) = Some c \<or> (\<exists>c0 d. h_files h0 (of_path f) = Some c0 \<and> c = c0 @ d)"
    using assms unfolding append_only_def by (metis option.inject)
  with assms show ?thesis by (auto simp: append_only_def)
qed

text \<open>Writes through the descriptor go to the end of its file.\<close>

definition writes_at_end :: "int \<Rightarrow> host \<Rightarrow> bool" where
  "writes_at_end fd h \<longleftrightarrow> (\<forall>f c. h_fds h fd = Some f \<longrightarrow> h_files h (of_path f) = Some c \<longrightarrow> at_end h fd f c)"

lemma writes_at_end_script [simp]: "writes_at_end fd (h\<lparr>h_script := s\<rparr>) = writes_at_end fd h"
  by (simp add: writes_at_end_def)

lemma console_open_end:
  assumes "cond_console_open path b0 h = ((True, b), h')"
    and "path = None \<or> path = Some [] \<or> path = Some ''-'' \<Longrightarrow> writes_at_end STDOUT_FILENO h"
  shows "writes_at_end (cb_fd b) h'"
  using assms
  by (auto simp: cond_console_open_def sys_open_def writes_at_end_def at_end_def split: if_splits prod.splits sysret.splits)

definition appending :: "int \<Rightarrow> host \<Rightarrow> host \<Rightarrow> bool" where
  "appending fd h0 h \<longleftrightarrow> append_only fd h0 h \<and> writes_at_end fd h"

lemma appending_put:
  assumes "appending fd h0 h" and "h_fds h fd = Some f" and "of_writable f" and "h_files h (of_path f) = Some c"
  shows "appending fd h0 ((set_file (of_path f) (file_put c (if of_append f then length c else h_pos h fd) bs) h)
    \<lparr>h_pos := (h_pos h)(fd := (if of_append f then length c else h_pos h fd) + length bs)\<rparr>)"
proof -
  have "at_end h fd f c" using assms by (simp add: appending_def writes_at_end_def)
  then have "(if of_append f then length c else h_pos h fd) = length c" by (auto simp: at_end_def)
  then show ?thesis
    using assms append_only_put [of fd h0 h f c bs]
    by (auto simp: appending_def file_put_end writes_at_end_def at_end_def)
qed

lemma sys_write_append:
  assumes "appending fd h0 h" and "sys_write fd bs h = (r, h')"
  shows "appending fd h0 h'"
proof (cases "h_fds h fd")
  case None
  with assms show ?thesis by (simp add: sys_write_def)
next
  case (Some f)
  obtain x h1 where t: "transfer (length bs) h = (x, h1)" by fastforce
  have h1: "appending fd h0 h1" "h_fds h1 fd = Some f"
    using assms(1) Some by (subst transfer_host [OF t], simp add: appending_def)+
  consider (nothing) "h' = h" | (no_file) "h' = h1" | (put) k c where "x = Ret k" "of_writable f" "h_files h1 (of_path f) = Some c"
      "h' = (set_file (of_path f) (file_put c (if of_append f then length c else h_pos h1 fd) (take k bs)) h1)
         \<lparr>h_pos := (h_pos h1)(fd := (if of_append f then length c else h_pos h1 fd) + k)\<rparr>"
    using assms(2) Some t by (auto simp: sys_write_def Let_def split: if_splits sysret.splits option.splits)
  then show ?thesis
  proof cases
    case (put k c)
    have "length (take k bs) = k" using t put(1) by (auto dest: transfer_Ret)
    with appending_put [OF h1 put(2,3), of "take k bs"] put(4) show ?thesis by simp
  qed (use assms(1) h1 in simp_all)
qed

lemma write_all_append: "appending fd h0 h \<Longrightarrow> appending fd h0 (snd (write_all fd bs h))"
proof (induction fd bs h rule: write_all.induct)
  case (1 fd bs h)
  then show ?case
    by (subst write_all.simps) (auto split: prod.splits sysret.splits dest: sys_write_append)
qed

section \<open>Every handler appends\<close>

definition con_inv :: "cond_console_backend \<Rightarrow> host \<Rightarrow> cond_virtio_device \<Rightarrow> host \<Rightarrow> bool" where
  "con_inv b h0 d h \<longleftrightarrow> cv_backend d = b \<and> appending (cb_fd b) h0 h"

lemma keeps_console_write: "keeps (host_inv (con_inv b h0)) (console_write data len)"
  by (rule keepsI) (auto simp: host_inv_def console_write_def on_host_def con_inv_def cond_console_write_def
      dest: write_all_append [of _ _ _ "take (unat len) data"] split: prod.splits)

lemmas con_parts = keeps_bnd keeps_if keeps_option keeps_basic host_inv_on_fab host_inv_dev_queue
  keeps_console_write

lemma keeps_tx_segment: "keeps (host_inv (con_inv b h0)) (tx_segment F d tot)"
  unfolding tx_segment_def by (intro con_parts)

lemma keeps_tx_loop: "keeps (host_inv (con_inv b h0)) (tx_loop F q n i tot)"
proof (induction n arbitrary: i tot)
  case (Suc n)
  show ?case unfolding tx_loop.simps by (intro con_parts keeps_tx_segment Suc.IH)
qed simp

lemma keeps_cond_notify: "keeps (host_inv (con_inv b h0)) (cond_virtio_notify_queue F n v)"
  unfolding cond_virtio_notify_queue_def cond_ack_notify_def process_tx_chain_def
  by (intro con_parts host_inv_ack_notify host_inv_service_queue keeps_tx_loop)

lemma keeps_cond_mmio_write: "keeps (host_inv (con_inv b h0)) (cond_mmio_write F n off v len)"
  unfolding cond_mmio_write_def
  by (rule host_inv_mmio_write) (auto simp: cond_virtio_ops_def keeps_cond_notify)

fun cond_event :: "'f fabric_ops \<Rightarrow> nat \<Rightarrow> cond_console_backend \<Rightarrow> guest_event \<Rightarrow> 'f cond \<Rightarrow> 'f cond" where
  "cond_event F n b Reconnect s = cond_connect F n b s"
| "cond_event F n b (MmioWrite off v len) s = snd (cond_mmio_write F n off v len s)"

fun cond_events :: "'f fabric_ops \<Rightarrow> nat \<Rightarrow> cond_console_backend \<Rightarrow> guest_event list \<Rightarrow> 'f cond \<Rightarrow> 'f cond" where
  "cond_events F n b [] s = s"
| "cond_events F n b (e # es) s = cond_events F n b es (cond_event F n b e s)"

lemma cond_connect_state:
  "cv_backend (dm_opaque (cond_connect F n b s)) = b" "dm_host (cond_connect F n b s) = dm_host s"
  "dm_fab (cond_connect F n b s) = dm_fab s"
  by (simp_all add: cond_connect_def Let_def cond_virtio_init_def virtio_device_init_def
      virtio_mmio_init_def virtio_mmio_reset_def virtio_device_reset_def cond_virtio_ops_def zero_vdev_def)

lemma cond_event_inv:
  "host_inv (con_inv b h0) s \<Longrightarrow> host_inv (con_inv b h0) (cond_event F n b e s)"
proof (cases e)
  case Reconnect
  moreover assume "host_inv (con_inv b h0) s"
  ultimately show ?thesis by (simp add: host_inv_def con_inv_def cond_connect_state)
next
  case (MmioWrite off v len)
  moreover assume "host_inv (con_inv b h0) s"
  ultimately show ?thesis using keepsD [OF keeps_cond_mmio_write] by simp
qed

lemma cond_events_inv:
  "host_inv (con_inv b h0) s \<Longrightarrow> host_inv (con_inv b h0) (cond_events F n b es s)"
  by (induction es arbitrary: s) (simp_all add: cond_event_inv)

text \<open>
  C22: the console backend only appends to its output. The output is the file that \<open>cond_console_open\<close>
  opened, or standard output when that is positioned at its end or in append mode. Whatever sequence of register writes and
  reconnects the guest performs, with whatever contents of its memory, whatever the fabric answers
  and however the host's calls end, no host file but the output changes, and the output keeps what
  it held before and only grows at its end.
\<close>

theorem console_append_only:
  assumes "cond_console_open path b0 h = ((True, b), dm_host s)"
    and "path = None \<or> path = Some [] \<or> path = Some ''-'' \<Longrightarrow> writes_at_end STDOUT_FILENO h"
  shows "append_only (cb_fd b) (dm_host s) (dm_host (cond_events F n b (Reconnect # es) s))"
proof -
  have "host_inv (con_inv b (dm_host s)) (cond_connect F n b s)"
    using console_open_end [OF assms] by (simp add: host_inv_def con_inv_def appending_def cond_connect_state)
  then have "host_inv (con_inv b (dm_host s)) (cond_events F n b (Reconnect # es) s)"
    by (simp add: cond_events_inv)
  then show ?thesis by (simp add: host_inv_def con_inv_def appending_def)
qed

text \<open>A host with a file of three bytes, on which the console is opened; the offset of the new descriptor is zero.\<close>

definition tty_host :: host where
  "tty_host = \<lparr>h_files = [''tty'' \<mapsto> [1, 2, 3]], h_disk = Map.empty, h_fds = Map.empty, h_next_fd = 3, h_script = [], h_heap = 4096,
     h_pos = (\<lambda>_. 0), h_maps = []\<rparr>"

theorem console_append_only_witness:
  "\<exists>h. cond_console_open (Some ''tty'') \<lparr>cb_fd = - 1\<rparr> tty_host = ((True, \<lparr>cb_fd = 3\<rparr>), h) \<and>
    (\<forall>F n es (s :: unit cond). \<exists>c.
       h_files (dm_host (cond_events F n \<lparr>cb_fd = 3\<rparr> (Reconnect # es) (s\<lparr>dm_host := h\<rparr>))) ''tty'' = Some ([1, 2, 3] @ c))"
proof -
  obtain h where h: "cond_console_open (Some ''tty'') \<lparr>cb_fd = - 1\<rparr> tty_host = ((True, \<lparr>cb_fd = 3\<rparr>), h)" "h_files h ''tty'' = Some [1, 2, 3]"
    by (simp add: cond_console_open_def sys_open_def tty_host_def transfer_def)
  have "\<exists>c. h_files (dm_host (cond_events F n \<lparr>cb_fd = 3\<rparr> (Reconnect # es) (s\<lparr>dm_host := h\<rparr>))) ''tty'' = Some ([1, 2, 3] @ c)"
    for F n es and s :: "unit cond"
    using console_append_only [of "Some ''tty''" "\<lparr>cb_fd = - 1\<rparr>" tty_host "\<lparr>cb_fd = 3\<rparr>" "s\<lparr>dm_host := h\<rparr>" F n es] h
    by (auto simp: append_only_def dest!: spec [of _ "''tty''"])
  with h(1) show ?thesis by blast
qed

section \<open>No fault\<close>

abbreviation con_wf :: "('f \<Rightarrow> bool) \<Rightarrow> 'f cond \<Rightarrow> bool" where
  "con_wf \<equiv> drv_wf (\<lambda>_. True) 2"

lemma safe_console_write: "safe (con_wf ok) (console_write data len)"
  by (rule safeI) (simp add: console_write_def on_host_def drv_wf_def split: prod.splits)

context fabric_safe
begin

lemma safe_tx_segment: "safe (con_wf ok) (tx_segment F d tot)"
  unfolding tx_segment_def
  by (intro safe_if safe_bnd safe_basic safe_on_fab safe_read safe_console_write)

lemma safe_tx_loop: "safe (con_wf ok) (tx_loop F q n i tot)"
proof (induction n arbitrary: i tot)
  case (Suc n)
  show ?case unfolding tx_loop.simps
    by (intro safe_bnd safe_if safe_basic safe_on_fab safe_read_desc safe_tx_segment Suc.IH)
qed simp

lemma safe_cond_notify: "safe (con_wf ok) (cond_virtio_notify_queue F n v)"
proof (cases "v \<ge> COND_QUEUE_COUNT")
  case True
  then show ?thesis by (simp add: cond_virtio_notify_queue_def cond_ack_notify_def safe_ack_notify)
next
  case False
  then have v: "unat v < 2" by (simp add: con_consts word_le_nat_alt not_le)
  show ?thesis unfolding cond_virtio_notify_queue_def cond_ack_notify_def process_tx_chain_def
    by (intro safe_bnd safe_if safe_dev_queue safe_ack_notify safe_service_queue safe_tx_loop v)
qed

lemma safe_cond_mmio_write:
  assumes "off = VIRTIO_MMIO_QUEUE_NUM \<Longrightarrow> (ucast v :: u16) \<noteq> 0"
  shows "safe (con_wf ok) (cond_mmio_write F n off v len)"
  unfolding cond_mmio_write_def using assms
  by (rule safe_driver_mmio_write) (auto simp: cond_virtio_ops_def safe_cond_notify)

end

lemma cond_connect_wf: "ok (dm_fab s) \<Longrightarrow> con_wf ok (cond_connect F n b s)"
  by (simp add: drv_wf_def cond_connect_def Let_def cond_virtio_init_def virtio_device_init_def
      virtio_mmio_init_def virtio_mmio_reset_def virtio_device_reset_def cond_virtio_ops_def zero_vdev_def
      queues_ok_def fresh_queue_def ring_size_def con_consts)

context fabric_safe
begin

lemma cond_event_wf:
  assumes "con_wf ok s" and "sane_event e"
  shows "con_wf ok (cond_event F n b e s)"
proof (cases e)
  case Reconnect
  with assms show ?thesis using cond_connect_wf by (auto simp: drv_wf_def [of _ _ ok s])
next
  case (MmioWrite off v len)
  with assms safe_cond_mmio_write [of off v n len] show ?thesis by (simp add: safe_def)
qed

lemma cond_events_wf:
  "con_wf ok s \<Longrightarrow> list_all sane_event es \<Longrightarrow> con_wf ok (cond_events F n b es s)"
  by (induction es arbitrary: s) (simp_all add: cond_event_wf)

lemma cond_write_no_fault:
  assumes "ok (dm_fab s)" and "list_all sane_event es" and "sane_event (MmioWrite off v len)"
  shows "fst (cond_mmio_write F n off v len (cond_events F n b (Reconnect # es) s)) \<noteq> Trap"
proof -
  have "con_wf ok (cond_events F n b (Reconnect # es) s)"
    using assms by (simp add: cond_events_wf cond_connect_wf)
  with assms(3) safe_cond_mmio_write [of off v n len] show ?thesis by (simp add: safe_def)
qed

end

end
