(* ===== verification/Consoled_Refine.thy ===== *)
theory Consoled_Refine
  imports Consoled_Safety
begin

unbundle bit_operations_syntax

text \<open>
  What a transmit chain does, against its specification: the bytes of its device-readable buffers
  are appended to the output in chain order, guest memory is not changed, and the number of bytes is
  reported. The lemmas are proved for every fabric with the contract \<open>guest_alloc\<close> and hold whatever
  interruptions and short writes the host has. They make the transmit processor an instance of the
  service loop's contract \<open>queue_service\<close>.
\<close>

section \<open>Specification\<close>

text \<open>The buffers the driver prints are those not marked for the device to write.\<close>

definition tx_segs :: "virtio_desc list \<Rightarrow> virtio_desc list" where
  "tx_segs ds = filter (\<lambda>d. ds_flags d AND VRING_DESC_F_WRITE = 0) ds"

definition tx_chain :: "memory \<Rightarrow> virtio_queue \<Rightarrow> u16 \<Rightarrow> virtio_desc list" where
  "tx_chain m q head = decode_chain (Suc (unat (vq_num q))) m q head"

definition con_serve :: "u8 list chain_spec" where
  "con_serve m out q head =
     (let segs = tx_segs (tx_chain m q head) in (m, out @ out_data m segs, of_nat (seg_bytes segs)))"

definition con_good ::
  "nat \<Rightarrow> (u64 \<Rightarrow> nat \<Rightarrow> bool) \<Rightarrow> nat \<Rightarrow> memory \<Rightarrow> u8 list \<Rightarrow> virtio_queue \<Rightarrow> u16 \<Rightarrow> bool" where
  "con_good n rch heap m out q head \<longleftrightarrow>
     (let ds = tx_chain m q head in
      chain_at m rch q head ds \<and> length ds \<le> n \<and>
      (\<forall>d \<in> set (tx_segs ds). rch (ds_addr d) (unat (ds_len d)) \<and> unat (ds_len d) \<le> heap))"

section \<open>Refinement\<close>

definition con_ready :: "('f \<Rightarrow> bool) \<Rightarrow> open_file \<Rightarrow> 'f cond \<Rightarrow> u8 list \<Rightarrow> bool" where
  "con_ready live f s out \<longleftrightarrow> live (dm_fab s) \<and> opened (dm_host s) (cb_fd (cv_backend (dm_opaque s))) f out \<and>
     of_writable f \<and> at_end (dm_host s) (cb_fd (cv_backend (dm_opaque s))) f out \<and> Broken \<notin> set (h_script (dm_host s))"

definition con_after ::
  "('f \<Rightarrow> bool) \<Rightarrow> ('f \<Rightarrow> memory) \<Rightarrow> ('f \<Rightarrow> u64 \<Rightarrow> nat \<Rightarrow> bool) \<Rightarrow> open_file \<Rightarrow> 'f cond \<Rightarrow> 'f cond \<Rightarrow> u8 list \<Rightarrow> bool" where
  "con_after live ram reach f s s' out \<longleftrightarrow> con_ready live f s' out \<and> ram (dm_fab s') = ram (dm_fab s) \<and>
     reach (dm_fab s') = reach (dm_fab s) \<and> h_heap (dm_host s') = h_heap (dm_host s) \<and> dm_mmio s' = dm_mmio s"

lemma con_after_trans:
  "con_after live ram reach f s t out \<Longrightarrow> con_after live ram reach f t u out' \<Longrightarrow> con_after live ram reach f s u out'"
  by (simp add: con_after_def)

lemma console_write_ok:
  assumes r: "con_ready live f s out" and len: "length d = unat n"
  shows "\<exists>s'. console_write d n s = (OK True, s') \<and> con_after live ram reach f s s' (out @ d)"
proof -
  let ?fd = "cb_fd (cv_backend (dm_opaque s))"
  have op: "opened (dm_host s) ?fd f out" and w: "of_writable f" "at_end (dm_host s) ?fd f out" and nb: "Broken \<notin> set (h_script (dm_host s))"
    using r by (simp_all add: con_ready_def)
  obtain sc pos where wr: "write_all ?fd d (dm_host s) =
      (True, (set_file (of_path f) (out @ d) (dm_host s))\<lparr>h_script := sc, h_pos := pos\<rparr>)" and sc: "suffix sc (h_script (dm_host s))"
    and pos: "of_append f \<or> pos ?fd = length (out @ d)"
    using write_all_spec [OF op w, of d] nb by auto
  let ?s = "s\<lparr>dm_host := (set_file (of_path f) (out @ d) (dm_host s))\<lparr>h_script := sc, h_pos := pos\<rparr>\<rparr>"
  have "console_write d n s = (OK True, ?s)"
    using wr len by (simp add: console_write_def cond_console_write_def on_host_def)
  moreover have "con_after live ram reach f s ?s (out @ d)"
    using r sc pos by (auto simp: con_after_def con_ready_def opened_def at_end_def dest: set_mono_suffix)
  ultimately show ?thesis by blast
qed

context guest_alloc
begin

lemma con_fab:
  "con_ready live f s out \<Longrightarrow> live g \<Longrightarrow> ram g = ram (dm_fab s) \<Longrightarrow> reach g = reach (dm_fab s) \<Longrightarrow>
   con_after live ram reach f s (s\<lparr>dm_fab := g\<rparr>) out"
  by (simp add: con_after_def con_ready_def)

lemma tx_segment_ok:
  assumes r: "con_ready live f s out"
    and d: "d \<in> set (tx_segs [d]) \<Longrightarrow> reach (dm_fab s) (ds_addr d) (unat (ds_len d)) \<and> unat (ds_len d) \<le> h_heap (dm_host s)"
  shows "\<exists>s'. tx_segment F d tot s = (OK (tot + of_nat (seg_bytes (tx_segs [d]))), s') \<and>
    con_after live ram reach f s s' (out @ out_data (ram (dm_fab s)) (tx_segs [d]))"
proof (cases "ds_flags d AND VRING_DESC_F_WRITE = 0 \<and> ds_len d \<noteq> 0")
  case True
  let ?bs = "mem_read (ram (dm_fab s)) (ds_addr d) (unat (ds_len d))"
  have seg: "tx_segs [d] = [d]" using True by (simp add: tx_segs_def)
  have "live (dm_fab s)" using r by (simp add: con_ready_def)
  with d seg obtain g where
    g: "fabric_dma_read F (h_heap (dm_host s)) (ds_addr d) (ds_len d) (dm_fab s) = (OK ?bs, g)"
    "live g" "ram g = ram (dm_fab s)" "reach g = reach (dm_fab s)"
    using read_alloc [of "dm_fab s" "ds_addr d" "ds_len d" "h_heap (dm_host s)"] by auto
  have a1: "con_after live ram reach f s (s\<lparr>dm_fab := g\<rparr>) out" by (rule con_fab [OF r g(2-4)])
  then have "con_ready live f (s\<lparr>dm_fab := g\<rparr>) out" by (simp add: con_after_def)
  then obtain t where t: "console_write ?bs (ds_len d) (s\<lparr>dm_fab := g\<rparr>) = (OK True, t)"
    "con_after live ram reach f (s\<lparr>dm_fab := g\<rparr>) t (out @ ?bs)"
    using console_write_ok [of live f "s\<lparr>dm_fab := g\<rparr>" out ?bs "ds_len d" ram reach] by auto
  have "tx_segment F d tot s = (OK (tot + ds_len d), t)"
    using True g(1) t(1) by (simp add: tx_segment_def bnd_def gets_def on_fab_def)
  with con_after_trans [OF a1 t(2)] seg show ?thesis by simp
next
  case False
  then have "tx_segment F d tot s = (OK tot, s)" by (auto simp: tx_segment_def)
  moreover have "seg_bytes (tx_segs [d]) = 0" "out_data (ram (dm_fab s)) (tx_segs [d]) = []"
    using False by (auto simp: tx_segs_def mem_read_def)
  ultimately show ?thesis using r by (auto simp: con_after_def)
qed

lemma tx_loop_ok:
  assumes "con_ready live f s out" and "chain_at (ram (dm_fab s)) (reach (dm_fab s)) q i ds" and "length ds \<le> n"
    and "\<forall>d \<in> set (tx_segs ds). reach (dm_fab s) (ds_addr d) (unat (ds_len d)) \<and> unat (ds_len d) \<le> h_heap (dm_host s)"
  shows "\<exists>s'. tx_loop F q n i tot s = (OK (tot + of_nat (seg_bytes (tx_segs ds))), s') \<and>
    con_after live ram reach f s s' (out @ out_data (ram (dm_fab s)) (tx_segs ds))"
  using assms
proof (induction ds arbitrary: s out i tot n)
  case (Cons d ds)
  let ?m = "ram (dm_fab s)"
  obtain n' where n: "n = Suc n'" using Cons.prems(3) by (cases n) auto
  have segs: "tx_segs (d # ds) = tx_segs [d] @ tx_segs ds" by (simp add: tx_segs_def)
  have "live (dm_fab s)" and rd: "reach (dm_fab s) (desc_addr q i) 16" and da: "desc_at ?m q i = d"
    using Cons.prems(1,2) by (simp_all add: con_ready_def)
  then obtain g where g: "virtio_read_desc F q i (dm_fab s) = (OK d, g)" "live g" "ram g = ?m" "reach g = reach (dm_fab s)"
    using read_desc_reach by blast
  have a1: "con_after live ram reach f s (s\<lparr>dm_fab := g\<rparr>) out" by (rule con_fab [OF Cons.prems(1) g(2-4)])
  obtain t where t: "tx_segment F d tot (s\<lparr>dm_fab := g\<rparr>) = (OK (tot + of_nat (seg_bytes (tx_segs [d]))), t)"
    "con_after live ram reach f (s\<lparr>dm_fab := g\<rparr>) t (out @ out_data ?m (tx_segs [d]))"
    using tx_segment_ok [of f "s\<lparr>dm_fab := g\<rparr>" out d tot] a1 Cons.prems(4) g(3,4)
    by (auto simp: con_after_def segs)
  note a2 = con_after_trans [OF a1 t(2)]
  show ?case
  proof (cases "ds = []")
    case True
    with Cons.prems(2) n g(1) t(1) have "tx_loop F q n i tot s = (OK (tot + of_nat (seg_bytes (tx_segs [d]))), t)"
      by (simp add: bnd_def on_fab_def)
    with a2 True show ?thesis by (auto simp: tx_segs_def)
  next
    case False
    with Cons.prems(2) have nx: "ds_flags d AND VRING_DESC_F_NEXT \<noteq> 0"
      and ch: "chain_at ?m (reach (dm_fab s)) q (ds_next d) ds" by auto
    let ?tot = "tot + of_nat (seg_bytes (tx_segs [d]))"
    have step: "tx_loop F q n i tot s = tx_loop F q n' (ds_next d) ?tot t"
      using nx n g(1) t(1) by (simp add: bnd_def on_fab_def)
    have tm: "ram (dm_fab t) = ?m" "reach (dm_fab t) = reach (dm_fab s)" "h_heap (dm_host t) = h_heap (dm_host s)"
      "con_ready live f t (out @ out_data ?m (tx_segs [d]))"
      using a2 by (simp_all add: con_after_def)
    obtain u where "tx_loop F q n' (ds_next d) ?tot t = (OK (?tot + of_nat (seg_bytes (tx_segs ds))), u)"
      "con_after live ram reach f t u ((out @ out_data ?m (tx_segs [d])) @ out_data ?m (tx_segs ds))"
      using Cons.IH [OF tm(4), of "ds_next d" n' ?tot] ch Cons.prems(3,4) n tm(1-3) by (auto simp: segs)
    with step con_after_trans [OF a2] show ?thesis
      unfolding segs by (auto simp: out_data_def seg_bytes_def add.assoc)
  qed
qed simp

lemma con_queue_service:
  "queue_service F live ram reach line (process_tx_chain F (Suc 0) n) (Suc 0) (con_ready live f) (con_good n) con_serve"
proof (unfold_locales, goal_cases)
  case (4 s x q head m' x' len)
  let ?ds = "tx_chain (ram (dm_fab s)) q head"
  obtain s' where "tx_loop F q n head 0 s = (OK (0 + of_nat (seg_bytes (tx_segs ?ds))), s')"
    "con_after live ram reach f s s' (x @ out_data (ram (dm_fab s)) (tx_segs ?ds))"
    using tx_loop_ok [OF 4(1), of q head ?ds n 0] 4(4) by (auto simp: con_good_def Let_def)
  with 4 show ?case
    by (auto simp: process_tx_chain_def dev_queue_def bnd_def con_serve_def Let_def con_after_def
        intro!: exI [of _ "dm_opaque s"])
qed (auto simp: con_ready_def)

end

section \<open>Endless chains\<close>

text \<open>The loop has no bound: on a descriptor that links to itself it runs forever.\<close>

context guest_alloc
begin

lemma tx_loop_cycle:
  assumes "live (dm_fab s)" and "reach (dm_fab s) (desc_addr q i) 16" and "desc_at (ram (dm_fab s)) q i = d"
    and "ds_flags d AND VRING_DESC_F_NEXT \<noteq> 0" and "ds_flags d AND VRING_DESC_F_WRITE \<noteq> 0" and "ds_next d = i"
  shows "fst (tx_loop F q n i tot s) = Spin"
  using assms(1-3)
proof (induction n arbitrary: s)
  case (Suc n)
  then obtain g where g: "virtio_read_desc F q i (dm_fab s) = (OK d, g)" "live g" "ram g = ram (dm_fab s)"
    "reach g = reach (dm_fab s)" using read_desc_reach by blast
  then have "tx_loop F q (Suc n) i tot s = tx_loop F q n i tot (s\<lparr>dm_fab := g\<rparr>)"
    using assms(4-6) by (simp add: bnd_def on_fab_def tx_segment_def)
  with Suc.IH [of "s\<lparr>dm_fab := g\<rparr>"] Suc.prems g show ?case by simp
qed simp

end


end
