(* ===== verification/Uio_Consoled.thy ===== *)
theory Uio_Consoled
  imports Consoled_Refine Uio_Blkd_Run
begin

unbundle bit_operations_syntax

text \<open>
  The console backend over the UIO fabric: a transmit notification prints everything that is
  pending, other notifications change nothing, no register write faults, and a chain that links to
  itself is followed forever.
\<close>

interpretation uio_con: queue_service "uio_ops env" uio_live uio_ram uio_reach "\<lambda>g. us_pending_irq_level g = 1"
  "process_tx_chain (uio_ops env) (Suc 0) n" "Suc 0" "con_ready uio_live f" "con_good n" con_serve
  by (rule guest_alloc.con_queue_service [OF uio_alloc.guest_alloc_axioms])

section \<open>A small guest\<close>

text \<open>Two linked buffers with the texts \<open>[72, 105]\<close> and \<open>[33]\<close>, made available in the transmit queue.\<close>

definition con_table :: "virtio_desc list" where
  "con_table = [\<lparr>ds_addr = 0x300, ds_len = 2, ds_flags = 1, ds_next = 1\<rparr>,
     \<lparr>ds_addr = 0x310, ds_len = 1, ds_flags = 0, ds_next = 0\<rparr>]"

definition con_ram :: memory where
  "con_ram = mem_write (mem_write (mem_write (mem_write (\<lambda>_. 0) 0x100 (concat (map virtio_encode_desc con_table)))
     0x300 [72, 105]) 0x310 [33]) 0x502 (virtio_store_le16 1)"

definition con_file :: open_file where
  "con_file = \<lparr>of_path = ''tty'', of_readable = False, of_writable = True, of_append = True\<rparr>"

definition con_state :: "memory \<Rightarrow> uio_state cond" where
  "con_state m = \<lparr>dm_mmio = \<lparr>vm_vdev = \<lparr>vd_device_id = 3, vd_vendor_id = 0, vd_queue_count = 2, vd_queue_size = 256,
       vd_queues = [demo_queue, demo_queue], vd_driver_features = 0, vd_status = 15, vd_interrupt_status = 0,
       vd_config_generation = 0, vd_opaque = \<lparr>cv_backend = \<lparr>cb_fd = 3\<rparr>\<rparr>\<rparr>,
     vm_device_features_sel = 0, vm_driver_features_sel = 0, vm_queue_sel = 0\<rparr>,
     dm_fab = demo_fab m,
     dm_host = \<lparr>h_files = [''tty'' \<mapsto> [10]], h_disk = Map.empty, h_fds = [3 \<mapsto> con_file], h_next_fd = 4,
       h_script = [Interrupted, Partial 0], h_heap = 4096, h_pos = (\<lambda>_. 0), h_maps = []\<rparr>\<rparr>"

lemma con_state_simps [simp]:
  "uio_ram (dm_fab (con_state m)) = m" "h_heap (dm_host (con_state m)) = 4096"
  "uio_live (dm_fab (con_state m))" "vd_queues (dm_vdev (con_state m)) = [demo_queue, demo_queue]"
  "uio_reach (dm_fab (con_state m)) a n \<longleftrightarrow> n = 0 \<or> unat a + n \<le> 4096"
  by (simp_all add: con_state_def demo_fab_def uio_ram_def uio_live_def uio_reach_def)

lemma con_state_ready: "con_ready uio_live con_file (con_state m) [10]"
  by (simp add: con_ready_def) (simp add: con_state_def opened_def at_end_def con_file_def)

lemma con_desc: "i < 2 \<Longrightarrow> desc_at con_ram demo_queue i = con_table ! unat i"
proof -
  assume i: "i < 2"
  then have lt: "unat i < 2" by (simp add: word_less_nat_alt)
  have dq: "vq_desc demo_queue = 0x100" by (simp add: demo_queue_def)
  have "apart (0x100 + of_nat k) n (desc_addr demo_queue i) 16" if "32 \<le> k" "n \<le> 16" "k \<le> 2000" for k n
    using apart_offsets [of "16 * unat i" 16 k n "0x100"] lt that
    by (subst apart_sym) (simp add: desc_addr_offset demo_queue_def)
  from this [of "0x200" 2] this [of "0x210" 1] this [of "0x402" 2]
  have "desc_at con_ram demo_queue i =
      desc_at (mem_write (\<lambda>_. 0) (vq_desc demo_queue) (concat (map virtio_encode_desc con_table))) demo_queue i"
    using dq by (simp add: con_ram_def desc_at_apart numeral_2_eq_2)
  also have "\<dots> = con_table ! unat i" by (rule desc_at_table) (use lt in \<open>simp_all add: con_table_def\<close>)
  finally show ?thesis .
qed

lemma con_bytes: "mem_read con_ram 0x300 2 = [72, 105]" "mem_read con_ram 0x310 1 = [33]"
  "mem_read con_ram 0x502 2 = virtio_store_le16 1" "mem_read con_ram 0x504 2 = [0, 0]" "mem_read con_ram 0x602 2 = [0, 0]"
  by (simp_all add: con_ram_def con_table_def mem_read_write_apart mem_read_write_same apart_def)
    (simp_all add: mem_read_def numeral_2_eq_2)

lemma con_chain: "tx_chain con_ram demo_queue 0 = con_table"
proof -
  have "unat (vq_num demo_queue) = Suc (Suc (Suc (Suc 0)))" by (simp add: demo_queue_def)
  with con_desc [of 0] con_desc [of 1] show ?thesis
    by (simp add: tx_chain_def con_table_def VRING_DESC_F_NEXT_def)
qed

lemma con_ring:
  "avail_idx con_ram demo_queue = 1" "avail_head con_ram demo_queue 0 = 0" "used_idx con_ram demo_queue = 0"
  using con_bytes
  by (simp_all add: avail_idx_def avail_head_def avail_slot_def used_idx_def demo_queue_def ring_size_def
      virtio_load_le16_def [of "[0, 0]"])

lemma con_pending: "pending con_ram demo_queue = [0]"
  using con_ring by (simp add: pending_def) (simp add: demo_queue_def)

lemma con_serve_demo: "con_serve con_ram [10] demo_queue 0 = (con_ram, [10, 72, 105, 33], 3)"
  using con_bytes by (simp add: con_serve_def con_chain tx_segs_def con_table_def VRING_DESC_F_WRITE_def)

lemma con_after_demo: "pending (used_push con_ram demo_queue 0 3) (consume demo_queue) = []"
proof -
  have "mem_read (used_push con_ram demo_queue 0 3) 0x502 2 = mem_read con_ram 0x502 2"
    by (rule used_push_frame) (simp_all add: demo_queue_def ring_size_def apart_def)
  then have "avail_idx (used_push con_ram demo_queue 0 3) demo_queue = avail_idx con_ram demo_queue"
    by (simp add: avail_idx_def demo_queue_def)
  with con_ring(1) show ?thesis by (simp add: pending_empty_iff) (simp add: demo_queue_def)
qed

lemma con_serve_ok_demo:
  "2 \<le> n \<Longrightarrow> serve_ok (con_good n (uio_reach (dm_fab (con_state m))) 4096) (uio_reach (dm_fab (con_state m))) con_serve
     1 con_ram [10] demo_queue"
proof -
  assume "2 \<le> n"
  then have "con_good n (uio_reach (dm_fab (con_state m))) 4096 con_ram [10] demo_queue 0"
    using con_desc [of 0] con_desc [of 1]
    by (simp add: con_good_def con_chain)
      (simp add: con_table_def tx_segs_def VRING_DESC_F_NEXT_def VRING_DESC_F_WRITE_def desc_addr_def demo_queue_def)
  then show ?thesis using con_after_demo
    by (simp add: con_pending con_serve_demo rings_ok_def con_ring)
      (simp add: demo_queue_def avail_slot_def used_slot_def ring_size_def)
qed

section \<open>Transmit notifications\<close>

text \<open>
  C8: a transmit notification prints everything that is pending, in order. With a guest that is
  quiet while the backend works and an output that was opened for appending or whose offset is at its end, if the available ring of the transmit queue holds \<open>k\<close> well-formed
  chains, the handler appends the bytes of their device-readable buffers to the output, chain after
  chain and buffer after buffer, completes each chain once with its byte count, moves the cursor by
  \<open>k\<close>, leaves the receive queue alone, sets the used-buffer bit and requests the interrupt; this
  whatever interruptions and short writes the host has.
\<close>

theorem cond_notify_serves:
  assumes "con_ready uio_live f s out" and "vd_queues (dm_vdev s) = [rx, q]" and "vq_ready q \<noteq> 0"
    and "serve_ok (con_good n (uio_reach (dm_fab s)) (h_heap (dm_host s))) (uio_reach (dm_fab s)) con_serve
           k (uio_ram (dm_fab s)) out q"
    and "0 < k" and "k < n" and "serve_all con_serve k (uio_ram (dm_fab s)) out q = (m', out', q')"
  shows "\<exists>s'. cond_virtio_notify_queue (uio_ops (\<lambda>_. id)) n 1 s = (OK (), s') \<and>
    uio_ram (dm_fab s') = m' \<and> h_files (dm_host s') (of_path f) = Some out' \<and> vd_queues (dm_vdev s') = [rx, q'] \<and>
    vd_interrupt_status (dm_vdev s') = vd_interrupt_status (dm_vdev s) OR VIRTIO_INTERRUPT_VRING \<and>
    us_pending_irq_level (dm_fab s') = 1"
proof -
  have "\<exists>s'. service_queue (uio_ops (\<lambda>_. id)) (process_tx_chain (uio_ops (\<lambda>_. id)) (Suc 0) n) (Suc 0) n s = (OK (), s') \<and>
      con_ready uio_live f s' out' \<and> uio_ram (dm_fab s') = m' \<and> us_pending_irq_level (dm_fab s') = 1 \<and>
      vd_queues (dm_vdev s') = (vd_queues (dm_vdev s))[Suc 0 := q'] \<and>
      vd_interrupt_status (dm_vdev s') = vd_interrupt_status (dm_vdev s) OR VIRTIO_INTERRUPT_VRING"
    by (rule uio_con.service_queue_ok [where k = k and q = q and x = out])
      (use assms in \<open>auto simp: uio_quiet\<close>)
  moreover have "cond_virtio_notify_queue (uio_ops (\<lambda>_. id)) n 1 s =
      service_queue (uio_ops (\<lambda>_. id)) (process_tx_chain (uio_ops (\<lambda>_. id)) (Suc 0) n) (Suc 0) n s"
    using assms(2,3) by (simp add: cond_virtio_notify_queue_def bnd_def dev_queue_def con_consts word_le_nat_alt)
  ultimately show ?thesis using assms(2) by (auto simp: con_ready_def opened_def)
qed

theorem cond_notify_serves_witness:
  "\<exists>s'. cond_virtio_notify_queue (uio_ops (\<lambda>_. id)) 2 1 (con_state con_ram) = (OK (), s') \<and>
    uio_ram (dm_fab s') = used_push con_ram demo_queue 0 3 \<and>
    h_files (dm_host s') ''tty'' = Some [10, 72, 105, 33] \<and>
    vd_queues (dm_vdev s') = [demo_queue, consume demo_queue] \<and> us_pending_irq_level (dm_fab s') = 1"
proof -
  let ?s = "con_state con_ram"
  have "serve_ok (con_good 2 (uio_reach (dm_fab ?s)) (h_heap (dm_host ?s))) (uio_reach (dm_fab ?s)) con_serve
      1 (uio_ram (dm_fab ?s)) [10] demo_queue"
    unfolding con_state_simps(1,2) by (rule con_serve_ok_demo) simp
  moreover have "serve_all con_serve 1 (uio_ram (dm_fab ?s)) [10] demo_queue =
      (used_push con_ram demo_queue 0 3, [10, 72, 105, 33], consume demo_queue)"
    using con_pending con_serve_demo by simp
  moreover have "vq_ready demo_queue \<noteq> 0" "of_path con_file = ''tty''"
    by (simp_all add: demo_queue_def con_file_def)
  ultimately show ?thesis
    using cond_notify_serves [OF con_state_ready, of con_ram demo_queue demo_queue 2 1] by fastforce
qed

section \<open>Other notifications\<close>

text \<open>
  A notification without transmit work is inert. A notification for the receive queue, for a
  queue that does not exist or for one that is not ready succeeds and changes neither the host, nor
  guest memory, nor the device; the interrupt line is requested to be what the interrupt status
  says, so a pending interrupt is not lost.
\<close>

theorem cond_idle_notify:
  assumes "uio_live (dm_fab s)" and "vd_queues (dm_vdev s) = [rx, q]" and "v \<noteq> 1 \<or> vq_ready q = 0"
  shows "\<exists>s'. cond_virtio_notify_queue (uio_ops env) n v s = (OK (), s') \<and>
    dm_host s' = dm_host s \<and> dm_mmio s' = dm_mmio s \<and> uio_ram (dm_fab s') = uio_ram (dm_fab s) \<and>
    (us_pending_irq_level (dm_fab s') = 1 \<longleftrightarrow> vd_interrupt_status (dm_vdev s) AND VIRTIO_INTERRUPT_VRING \<noteq> 0)"
proof -
  have ack: "cond_virtio_notify_queue (uio_ops env) n v s = ack_notify (uio_ops env) s"
  proof (cases "v \<ge> COND_QUEUE_COUNT")
    case False
    then have "v = 0 \<or> v = 1" by (simp add: con_consts not_le less_2_cases_iff word_less_nat_alt word_unat_eq_iff)
    with assms(2,3) False show ?thesis
      by (auto simp: cond_virtio_notify_queue_def cond_ack_notify_def bnd_def dev_queue_def)
  qed (simp add: cond_virtio_notify_queue_def cond_ack_notify_def)
  obtain g where "fabric_raise_irq (uio_ops env) (dm_fab s) = (OK (), g)" "uio_ram g = uio_ram (dm_fab s)"
    "us_pending_irq_level g = 1" using uio.raise_ok [OF assms(1)] by blast
  moreover obtain h where "fabric_lower_irq (uio_ops env) (dm_fab s) = (OK (), h)" "uio_ram h = uio_ram (dm_fab s)"
    "us_pending_irq_level h \<noteq> 1" using uio.lower_ok [OF assms(1)] by blast
  ultimately show ?thesis unfolding ack by (simp add: ack_notify_def on_fab_def)
qed

theorem cond_idle_notify_witness:
  "\<exists>s'. cond_virtio_notify_queue (uio_ops (\<lambda>_. id)) 2 0 (con_state con_ram) = (OK (), s') \<and>
    dm_host s' = dm_host (con_state con_ram) \<and> us_pending_irq_level (dm_fab s') \<noteq> 1"
proof -
  have "vd_interrupt_status (dm_vdev (con_state con_ram)) AND VIRTIO_INTERRUPT_VRING = 0" by (simp add: con_state_def)
  then show ?thesis using cond_idle_notify [of "con_state con_ram" demo_queue demo_queue 0 "\<lambda>_. id" 2] by fastforce
qed

section \<open>A guest that does not follow the protocol\<close>

text \<open>
  C23: memory safety of the console backend. Once connected over a mapped UIO window, after any
  sequence of register writes and reconnects, with any contents of guest memory that may change at
  every pause of the daemon, no register write makes it fault, except queue sizes whose low 16 bits
  are zero.
\<close>

theorem cond_no_fault:
  assumes "uio_live (dm_fab s)" and "list_all sane_event es" and "sane_event (MmioWrite off v len)"
  shows "fst (cond_mmio_write (uio_ops env) n off v len
                (cond_events (uio_ops env) n b (Reconnect # es) s)) \<noteq> Trap"
  using fabric_safe.cond_write_no_fault [OF uio_safety.fabric_safe_axioms assms] .

theorem cond_no_fault_witness:
  "\<forall>env n m. fst (cond_mmio_write (uio_ops env) n VIRTIO_MMIO_QUEUE_NOTIFY 1 4
     (cond_events (uio_ops env) n \<lparr>cb_fd = 3\<rparr>
        [Reconnect, MmioWrite VIRTIO_MMIO_QUEUE_SEL 1 4, MmioWrite VIRTIO_MMIO_QUEUE_READY 1 4] (con_state m))) \<noteq> Trap"
proof (intro allI)
  fix env n m
  show "fst (cond_mmio_write (uio_ops env) n VIRTIO_MMIO_QUEUE_NOTIFY 1 4
     (cond_events (uio_ops env) n \<lparr>cb_fd = 3\<rparr>
        [Reconnect, MmioWrite VIRTIO_MMIO_QUEUE_SEL 1 4, MmioWrite VIRTIO_MMIO_QUEUE_READY 1 4] (con_state m))) \<noteq> Trap"
    by (rule cond_no_fault) (simp_all add: vm_simps)
qed

text \<open>
  The console backend follows a cyclic chain forever. When a descriptor links to itself, no
  number of iterations of the loop is enough, whatever the queue size.
\<close>

theorem cond_cyclic_chain_diverges:
  assumes "uio_live (dm_fab s)" and "vd_queues (dm_vdev s) = [rx, q]"
    and "uio_reach (dm_fab s) (desc_addr q head) 16"
    and "desc_at (uio_ram (dm_fab s)) q head = \<lparr>ds_addr = a, ds_len = l, ds_flags = 3, ds_next = head\<rparr>"
  shows "fst (process_tx_chain (uio_ops env) 1 n head s) = Spin"
proof -
  have "fst (tx_loop (uio_ops env) q n head 0 s) = Spin"
    by (rule guest_alloc.tx_loop_cycle [OF uio_alloc.guest_alloc_axioms assms(1,3,4)])
      (simp_all add: VRING_DESC_F_NEXT_def VRING_DESC_F_WRITE_def)
  with assms(2) show ?thesis by (simp add: process_tx_chain_def bnd_def dev_queue_def)
qed

definition con_cycle_ram :: memory where
  "con_cycle_ram = mem_write (\<lambda>_. 0) 0x100 (concat (map virtio_encode_desc
     [\<lparr>ds_addr = 0x300, ds_len = 2, ds_flags = 3, ds_next = 0\<rparr>]))"

theorem cond_cyclic_chain_diverges_witness:
  "\<forall>n. fst (process_tx_chain (uio_ops (\<lambda>_. id)) 1 n 0 (con_state con_cycle_ram)) = Spin"
proof
  fix n
  have "desc_at con_cycle_ram demo_queue 0 = \<lparr>ds_addr = 0x300, ds_len = 2, ds_flags = 3, ds_next = 0\<rparr>"
    using desc_at_table [of 0 "[\<lparr>ds_addr = 0x300, ds_len = 2, ds_flags = 3, ds_next = 0\<rparr>]" "\<lambda>_. 0" demo_queue]
    by (simp add: con_cycle_ram_def demo_queue_def)
  then show "fst (process_tx_chain (uio_ops (\<lambda>_. id)) 1 n 0 (con_state con_cycle_ram)) = Spin"
    using cond_cyclic_chain_diverges [of "con_state con_cycle_ram" demo_queue demo_queue 0 "0x300" 2 "\<lambda>_. id" n]
    by (simp add: desc_addr_def) (simp add: demo_queue_def)
qed

end
