(* ===== verification/Qemu_Socket.thy ===== *)
theory Qemu_Socket
  imports Driver Config_Args
begin

unbundle bit_operations_syntax

text \<open>
  The QEMU socket fabric, \<^verbatim>\<open>src/fabrics/qemu_socket.c\<close>: the wire format of the protocol, transfers over
  a stream socket that may be interrupted and cut into any pieces, the service of register accesses,
  the server around it, and guest memory and interrupts as messages to QEMU. What is at the other end
  of the socket is a parameter, the record \<open>peer\<close>; \<open>Qemu_Axi\<close> is the end QEMU implements.
\<close>

section \<open>Messages\<close>

definition AXI_MSG_MMIO_READ :: u16 where "AXI_MSG_MMIO_READ = 3"
definition AXI_MSG_MMIO_READ_REPLY :: u16 where "AXI_MSG_MMIO_READ_REPLY = 4"
definition AXI_MSG_MMIO_WRITE :: u16 where "AXI_MSG_MMIO_WRITE = 5"
definition AXI_MSG_IRQ_ASSERT :: u16 where "AXI_MSG_IRQ_ASSERT = 6"
definition AXI_MSG_IRQ_DEASSERT :: u16 where "AXI_MSG_IRQ_DEASSERT = 7"
definition AXI_MSG_DMA_READ :: u16 where "AXI_MSG_DMA_READ = 8"
definition AXI_MSG_DMA_READ_REPLY :: u16 where "AXI_MSG_DMA_READ_REPLY = 9"
definition AXI_MSG_DMA_WRITE :: u16 where "AXI_MSG_DMA_WRITE = 10"
definition AXI_MSG_ERROR :: u16 where "AXI_MSG_ERROR = 0xffff"
definition AXI_HEADER_LEN :: nat where "AXI_HEADER_LEN = 24"

lemmas axi_kinds = AXI_MSG_MMIO_READ_def AXI_MSG_MMIO_READ_REPLY_def AXI_MSG_MMIO_WRITE_def
  AXI_MSG_IRQ_ASSERT_def AXI_MSG_IRQ_DEASSERT_def AXI_MSG_DMA_READ_def AXI_MSG_DMA_READ_REPLY_def
  AXI_MSG_DMA_WRITE_def AXI_MSG_ERROR_def

record axi_header =
  ah_kind :: u16
  ah_flags :: u16
  ah_window_id :: u32
  ah_offset :: u64
  ah_length :: u32

text \<open>The fabric's own copies of the little-endian helpers; they compute what those of \<open>Endian\<close> do.\<close>

definition load_le16 :: "u8 list \<Rightarrow> u16" where
  "load_le16 p = ucast (p ! 0) OR push_bit 8 (ucast (p ! 1))"

definition load_le32 :: "u8 list \<Rightarrow> u32" where
  "load_le32 p = ucast (p ! 0) OR push_bit 8 (ucast (p ! 1)) OR push_bit 16 (ucast (p ! 2)) OR push_bit 24 (ucast (p ! 3))"

definition load_le64 :: "u8 list \<Rightarrow> u64" where
  "load_le64 p = ucast (load_le32 p) OR push_bit 32 (ucast (load_le32 (drop 4 p)))"

definition store_le16 :: "u16 \<Rightarrow> u8 list" where
  "store_le16 v = [ucast (v AND 0xff), ucast (drop_bit 8 v AND 0xff)]"

definition store_le32 :: "u32 \<Rightarrow> u8 list" where
  "store_le32 v = [ucast (v AND 0xff), ucast (drop_bit 8 v AND 0xff), ucast (drop_bit 16 v AND 0xff), ucast (drop_bit 24 v AND 0xff)]"

definition store_le64 :: "u64 \<Rightarrow> u8 list" where
  "store_le64 v = store_le32 (ucast v) @ store_le32 (ucast (drop_bit 32 v))"

lemma le_copies [simp]:
  "load_le16 = virtio_load_le16" "load_le32 = virtio_load_le32" "load_le64 = virtio_load_le64"
  "store_le16 = virtio_store_le16" "store_le32 = virtio_store_le32" "store_le64 = virtio_store_le64"
proof -
  show l: "load_le32 = virtio_load_le32" and s: "store_le32 = virtio_store_le32"
    by (simp_all add: fun_eq_iff load_le32_def virtio_load_le32_def store_le32_def virtio_store_le32_def)
  show "load_le16 = virtio_load_le16" "load_le64 = virtio_load_le64" "store_le16 = virtio_store_le16" "store_le64 = virtio_store_le64"
    by (simp_all add: fun_eq_iff load_le16_def virtio_load_le16_def load_le64_def virtio_load_le64_def store_le16_def
        virtio_store_le16_def store_le64_def virtio_store_le64_def l s)
qed

definition decode_header :: "u8 list \<Rightarrow> axi_header" where
  "decode_header buf =
     \<lparr>ah_kind = load_le16 buf, ah_flags = load_le16 (drop 2 buf),
      ah_window_id = load_le32 (drop 4 buf), ah_offset = load_le64 (drop 8 buf),
      ah_length = load_le32 (drop 16 buf)\<rparr>"

definition encode_header :: "axi_header \<Rightarrow> u8 list" where
  "encode_header h =
     store_le16 (ah_kind h) @ store_le16 (ah_flags h) @ store_le32 (ah_window_id h) @
     store_le64 (ah_offset h) @ store_le32 (ah_length h) @ replicate 4 0"

section \<open>The socket\<close>

text \<open>
  \<open>pe_recv\<close> is what the peer does with bytes that arrive: the bytes it sends back and its new state.
  \<open>pe_next\<close> is what it sends when the daemon waits for input and there is none; no bytes mean that the
  peer has closed the connection. \<open>pe_open\<close> tells whether writes still reach it, \<open>pe_idle\<close> is what happens
  on its side while the daemon sleeps.
\<close>

record 'q peer =
  pe_recv :: "u8 list \<Rightarrow> 'q \<Rightarrow> u8 list \<times> 'q"
  pe_next :: "'q \<Rightarrow> u8 list \<times> 'q"
  pe_open :: "'q \<Rightarrow> bool"
  pe_idle :: "nat \<Rightarrow> 'q \<Rightarrow> 'q"

text \<open>
  \<open>sk_in\<close> are the bytes that have arrived and are not read yet, \<open>sk_pending\<close> the connections that are
  still to come, \<open>sk_dirs\<close> the directories of the host, \<open>sk_script\<close> the outcomes of the next calls.
\<close>

record 'q sock =
  sk_in :: "u8 list"
  sk_peer :: "'q option"
  sk_pending :: "'q list"
  sk_listening :: bool
  sk_dirs :: "string list"
  sk_script :: "outcome list"

definition next_outcome :: "'q sock \<Rightarrow> outcome option \<times> 'q sock" where
  "next_outcome k = (case sk_script k of [] \<Rightarrow> (None, k) | x # xs \<Rightarrow> (Some x, k\<lparr>sk_script := xs\<rparr>))"

text \<open>
  A read of at most \<open>n\<close> bytes and a write of \<open>bs\<close>. A write to a connection the peer has closed fails;
  that the process also gets a SIGPIPE is left out.
\<close>

definition take_input :: "'q peer \<Rightarrow> nat \<Rightarrow> 'q sock \<Rightarrow> u8 list sysret \<times> 'q sock" where
  "take_input P n k = (case sk_peer k of
      None \<Rightarrow> (Err EBADF, k)
    | Some q \<Rightarrow>
        (case (if sk_in k = [] then pe_next P q else (sk_in k, q)) of
           (bs, q') \<Rightarrow> (Ret (take n bs), k\<lparr>sk_in := drop n bs, sk_peer := Some q'\<rparr>)))"

definition give_output :: "'q peer \<Rightarrow> u8 list \<Rightarrow> 'q sock \<Rightarrow> nat sysret \<times> 'q sock" where
  "give_output P bs k = (case sk_peer k of
      None \<Rightarrow> (Err EBADF, k)
    | Some q \<Rightarrow>
        if \<not> pe_open P q then (Err EIO, k)
        else (case pe_recv P bs q of (out, q') \<Rightarrow> (Ret (length bs), k\<lparr>sk_in := sk_in k @ out, sk_peer := Some q'\<rparr>)))"

definition sock_read :: "'q peer \<Rightarrow> nat \<Rightarrow> 'q sock \<Rightarrow> u8 list sysret \<times> 'q sock" where
  "sock_read P n k = (case next_outcome k of
      (None, k) \<Rightarrow> take_input P n k
    | (Some Interrupted, k) \<Rightarrow> (Err EINTR, k)
    | (Some Broken, k) \<Rightarrow> (Err EIO, k)
    | (Some (Partial i), k) \<Rightarrow> take_input P (min n (Suc i)) k)"

definition sock_write :: "'q peer \<Rightarrow> u8 list \<Rightarrow> 'q sock \<Rightarrow> nat sysret \<times> 'q sock" where
  "sock_write P bs k = (case next_outcome k of
      (None, k) \<Rightarrow> give_output P bs k
    | (Some Interrupted, k) \<Rightarrow> (Err EINTR, k)
    | (Some Broken, k) \<Rightarrow> (Err EIO, k)
    | (Some (Partial i), k) \<Rightarrow> give_output P (take (Suc i) bs) k)"

lemma take_input_script: "take_input P n k = (r, k') \<Longrightarrow> sk_script k' = sk_script k"
  by (auto simp: take_input_def split: option.splits prod.splits)

lemma give_output_script: "give_output P bs k = (r, k') \<Longrightarrow> sk_script k' = sk_script k"
  by (auto simp: give_output_def split: option.splits prod.splits if_splits)

lemma take_input_EINTR: "take_input P n k \<noteq> (Err EINTR, k')"
  by (auto simp: take_input_def split: option.splits prod.splits)

lemma give_output_EINTR: "give_output P bs k \<noteq> (Err EINTR, k')"
  by (auto simp: give_output_def split: option.splits prod.splits if_splits)

lemma sock_read_script: "sock_read P n k = (Ret r, k') \<Longrightarrow> length (sk_script k') \<le> length (sk_script k)"
  by (auto simp: sock_read_def next_outcome_def split: list.splits outcome.splits dest!: take_input_script)

lemma sock_read_EINTR: "sock_read P n k = (Err EINTR, k') \<Longrightarrow> length (sk_script k') < length (sk_script k)"
  by (auto simp: sock_read_def next_outcome_def take_input_EINTR split: list.splits outcome.splits)

lemma sock_write_script: "sock_write P bs k = (Ret r, k') \<Longrightarrow> length (sk_script k') \<le> length (sk_script k)"
  by (auto simp: sock_write_def next_outcome_def split: list.splits outcome.splits dest!: give_output_script)

lemma sock_write_EINTR: "sock_write P bs k = (Err EINTR, k') \<Longrightarrow> length (sk_script k') < length (sk_script k)"
  by (auto simp: sock_write_def next_outcome_def give_output_EINTR split: list.splits outcome.splits)

text \<open>\<open>io_all\<close>, split by its direction.\<close>

function io_all_read :: "'q peer \<Rightarrow> nat \<Rightarrow> ('q sock, u8 list) act" where
  "io_all_read P len k =
     (if len = 0 then (OK [], k)
      else case sock_read P len k of
        (Err e, k') \<Rightarrow> if e = EINTR then io_all_read P len k' else (Fail, k')
      | (Ret bs, k') \<Rightarrow>
          if bs = [] then (Fail, k')
          else case io_all_read P (len - length bs) k' of (r, k'') \<Rightarrow> (map_res ((@) bs) r, k''))"
  by pat_completeness auto
termination
  by (relation "measure (\<lambda>(P, len, k). len + length (sk_script k))")
    (auto dest!: sock_read_EINTR [OF sym] sock_read_script [OF sym] simp: diff_less_mono2 neq_Nil_conv intro!: add_less_le_mono)

function io_all_write :: "'q peer \<Rightarrow> u8 list \<Rightarrow> ('q sock, unit) act" where
  "io_all_write P bs k =
     (if bs = [] then (OK (), k)
      else case sock_write P bs k of
        (Err e, k') \<Rightarrow> if e = EINTR then io_all_write P bs k' else (Fail, k')
      | (Ret n, k') \<Rightarrow> if n = 0 then (Fail, k') else io_all_write P (drop n bs) k')"
  by pat_completeness auto
termination
  by (relation "measure (\<lambda>(P, bs, k). length bs + length (sk_script k))")
    (auto dest!: sock_write_EINTR [OF sym] sock_write_script [OF sym] simp: diff_less_mono2 neq_Nil_conv intro!: add_less_le_mono)

declare io_all_read.simps [simp del] io_all_write.simps [simp del]

section \<open>Protocol steps\<close>

definition read_header :: "'q peer \<Rightarrow> ('q sock, axi_header) act" where
  "read_header P = bnd (io_all_read P AXI_HEADER_LEN) (\<lambda>buf. ret (decode_header buf))"

definition write_header :: "'q peer \<Rightarrow> axi_header \<Rightarrow> ('q sock, unit) act" where
  "write_header P h = io_all_write P (encode_header h)"

definition write_read_reply :: "'q peer \<Rightarrow> axi_header \<Rightarrow> u64 \<Rightarrow> ('q sock, unit) act" where
  "write_read_reply P request value =
     (let len = (if ah_length request < 8 then ah_length request else 8);
          reply = \<lparr>ah_kind = AXI_MSG_MMIO_READ_REPLY, ah_flags = ah_flags request,
                   ah_window_id = ah_window_id request, ah_offset = ah_offset request, ah_length = len\<rparr>
      in bnd (write_header P reply) (\<lambda>_. io_all_write P (take (unat len) (store_le64 value))))"

definition read_value :: "'q peer \<Rightarrow> u32 \<Rightarrow> ('q sock, u64) act" where
  "read_value P len =
     (if len > 8 then fail
      else bnd (io_all_read P (unat len)) (\<lambda>bytes. ret (load_le64 (bytes @ replicate (8 - unat len) 0))))"

definition access_in_range :: "'s fabric_device \<Rightarrow> axi_header \<Rightarrow> bool" where
  "access_in_range dev h \<longleftrightarrow>
     ah_window_id h = 0 \<and> ah_length h \<le> 8 \<and> ah_offset h \<ge> fdev_addr dev \<and>
     ah_offset h \<le> fdev_addr dev + fdev_size dev \<and>
     ucast (ah_length h) \<le> fdev_addr dev + fdev_size dev - ah_offset h"

definition device_offset :: "'s fabric_device \<Rightarrow> u64 \<Rightarrow> u64" where
  "device_offset dev bus_addr = bus_addr - fdev_addr dev"

section \<open>Serving a connection\<close>

text \<open>
  The device's callbacks work on the whole daemon, of which the socket is the fabric part. The loop
  ends only by returning false; fuel that is spent stands for a connection that is still served.
\<close>

definition write_ack :: axi_header where
  "write_ack = \<lparr>ah_kind = AXI_MSG_ERROR, ah_flags = 0, ah_window_id = 0, ah_offset = 0, ah_length = 0\<rparr>"

definition serve_request ::
  "'q peer \<Rightarrow> ('o, 'q sock) daemon fabric_device \<Rightarrow> axi_header \<Rightarrow> (('o, 'q sock) daemon, unit) act" where
  "serve_request P dev h =
     (if \<not> access_in_range dev h then fail
      else let offset = device_offset dev (ah_offset h) in
        if ah_kind h = AXI_MSG_MMIO_READ then
          bnd (dev_read dev offset (ah_length h)) (\<lambda>value. on_fab (write_read_reply P h value))
        else if ah_kind h = AXI_MSG_MMIO_WRITE then
          bnd (on_fab (read_value P (ah_length h))) (\<lambda>value.
          bnd (dev_write dev offset value (ah_length h)) (\<lambda>_.
          on_fab (write_header P write_ack)))
        else fail)"

fun serve_loop ::
  "'q peer \<Rightarrow> ('o, 'q sock) daemon fabric_device \<Rightarrow> nat \<Rightarrow> (('o, 'q sock) daemon, unit) act" where
  "serve_loop P dev 0 = spin"
| "serve_loop P dev (Suc n) =
     bnd (on_fab (read_header P)) (\<lambda>h.
     bnd (serve_request P dev h) (\<lambda>_. serve_loop P dev n))"

definition serve_connection ::
  "'q peer \<Rightarrow> ('o, 'q sock) daemon fabric_device \<Rightarrow> nat \<Rightarrow> (('o, 'q sock) daemon, unit) act" where
  "serve_connection P dev n = bnd (dev_connect dev) (\<lambda>_. serve_loop P dev n)"

section \<open>The server\<close>

definition PATH_BUF :: nat where "PATH_BUF = 4096"
definition SUN_PATH :: nat where "SUN_PATH = 108"

text \<open>\<open>strrchr\<close>: the text before the last slash.\<close>

definition before_last_slash :: "string \<Rightarrow> string option" where
  "before_last_slash path =
     (if CHR ''/'' \<notin> set path then None
      else Some (rev (tl (dropWhile (\<lambda>c. c \<noteq> CHR ''/'') (rev path)))))"

text \<open>
  \<open>mkdir\<close>: an existing directory is reported as such, which the code accepts; a directory whose parent
  does not exist cannot be made, and others may fail.
\<close>

definition mkdir :: "string \<Rightarrow> 'q sock \<Rightarrow> bool \<times> 'q sock" where
  "mkdir path k =
     (if path \<in> set (sk_dirs k) then (True, k)
      else if (case before_last_slash path of None \<Rightarrow> False | Some parent \<Rightarrow> parent \<noteq> [] \<and> parent \<notin> set (sk_dirs k))
      then (False, k)
      else case next_outcome k of
        (Some Broken, k) \<Rightarrow> (False, k)
      | (_, k) \<Rightarrow> (True, k\<lparr>sk_dirs := path # sk_dirs k\<rparr>))"

fun make_parts :: "string \<Rightarrow> string list \<Rightarrow> ('q sock, unit) act" where
  "make_parts partial [] k = (OK (), k)"
| "make_parts partial (part # parts) k =
     (if length partial + length part + 2 \<ge> PATH_BUF then (Fail, k)
      else let partial = (if partial \<noteq> [] \<and> partial \<noteq> ''/'' then partial @ ''/'' else partial) @ part in
        case mkdir partial k of
          (False, k) \<Rightarrow> (Fail, k)
        | (True, k) \<Rightarrow> make_parts partial parts k)"

definition ensure_parent_dir :: "string \<Rightarrow> ('q sock, unit) act" where
  "ensure_parent_dir path k =
     (if length path \<ge> PATH_BUF then (Fail, k)
      else case before_last_slash path of
        None \<Rightarrow> (OK (), k)
      | Some tmp \<Rightarrow>
          if tmp = [] then (OK (), k)
          else make_parts (if hd tmp = CHR ''/'' then ''/'' else []) (strtok (CHR ''/'') tmp) k)"

text \<open>
  A system call that sets up the server and may fail; closing the listening socket; accepting the
  next connection. With no connection to come \<open>accept\<close> blocks for good.
\<close>

definition setup_call :: "('q sock, unit) act" where
  "setup_call k = (case next_outcome k of (Some Broken, k) \<Rightarrow> (Fail, k) | (_, k) \<Rightarrow> (OK (), k))"

definition open_listener :: "string \<Rightarrow> ('q sock, unit) act" where
  "open_listener path =
     bnd setup_call (\<lambda>_.
     bnd (modify (\<lambda>k. k\<lparr>sk_listening := True\<rparr>)) (\<lambda>_ k.
       if length path \<ge> SUN_PATH then (Fail, k\<lparr>sk_listening := False\<rparr>)
       else case bnd setup_call (\<lambda>_. setup_call) k of
         (OK _, k) \<Rightarrow> (OK (), k)
       | (_, k) \<Rightarrow> (Fail, k\<lparr>sk_listening := False\<rparr>)))"

datatype accepted = AcceptAgain | AcceptError | Connected

definition sys_accept :: "('q sock, accepted) act" where
  "sys_accept k = (case next_outcome k of
      (Some Interrupted, k) \<Rightarrow> (OK AcceptAgain, k)
    | (Some Broken, k) \<Rightarrow> (OK AcceptError, k)
    | (_, k) \<Rightarrow> (case sk_pending k of
          [] \<Rightarrow> (Spin, k)
        | q # qs \<Rightarrow> (OK Connected, k\<lparr>sk_peer := Some q, sk_in := [], sk_pending := qs\<rparr>)))"

fun accept_loop ::
  "'q peer \<Rightarrow> ('o, 'q sock) daemon fabric_device \<Rightarrow> nat \<Rightarrow> nat \<Rightarrow> (('o, 'q sock) daemon, unit) act" where
  "accept_loop P dev n 0 = spin"
| "accept_loop P dev n (Suc m) =
     bnd (on_fab sys_accept) (\<lambda>a. case a of
       AcceptAgain \<Rightarrow> accept_loop P dev n m
     | AcceptError \<Rightarrow> bnd (on_fab (modify (\<lambda>k. k\<lparr>sk_listening := False\<rparr>))) (\<lambda>_. fail)
     | Connected \<Rightarrow>
         bnd (attempt (serve_connection P dev n)) (\<lambda>_.
         bnd (on_fab (modify (\<lambda>k. k\<lparr>sk_peer := None\<rparr>))) (\<lambda>_.
         accept_loop P dev n m)))"

definition run_device ::
  "'q peer \<Rightarrow> ('o, 'q sock) daemon fabric_device \<Rightarrow> nat \<Rightarrow> nat \<Rightarrow> (('o, 'q sock) daemon, unit) act" where
  "run_device P dev n m =
     bnd (on_fab (ensure_parent_dir (fdev_socket_path dev))) (\<lambda>_.
     bnd (on_fab (open_listener (fdev_socket_path dev))) (\<lambda>_.
     accept_loop P dev n m))"

definition qemu_fabric_run ::
  "'q peer \<Rightarrow> nat \<Rightarrow> nat \<Rightarrow> ('o, 'q sock) daemon fabric \<Rightarrow> (('o, 'q sock) daemon, unit) act" where
  "qemu_fabric_run P n m bus =
     (if fb_device_count bus \<noteq> 1 then fail
      else case fb_devices bus ! 0 of None \<Rightarrow> trap | Some dev \<Rightarrow> run_device P dev n m)"

section \<open>The fabric operations\<close>

definition dma_request :: "u16 \<Rightarrow> u64 \<Rightarrow> u32 \<Rightarrow> axi_header" where
  "dma_request kind gpa len = \<lparr>ah_kind = kind, ah_flags = 0, ah_window_id = 0, ah_offset = gpa, ah_length = len\<rparr>"

definition sock_dma_read_into :: "'q peer \<Rightarrow> u64 \<Rightarrow> u32 \<Rightarrow> ('q sock, u8 list) act" where
  "sock_dma_read_into P gpa len =
     bnd (write_header P (dma_request AXI_MSG_DMA_READ gpa len)) (\<lambda>_.
     bnd (read_header P) (\<lambda>reply.
     if ah_kind reply \<noteq> AXI_MSG_DMA_READ_REPLY \<or> ah_length reply \<noteq> len then fail
     else if len \<noteq> 0 then io_all_read P (unat len) else ret []))"

definition sock_dma_read :: "'q peer \<Rightarrow> nat \<Rightarrow> u64 \<Rightarrow> u32 \<Rightarrow> ('q sock, u8 list) act" where
  "sock_dma_read P heap gpa len =
     (if len \<noteq> 0 \<and> heap < unat len then fail else sock_dma_read_into P gpa len)"

definition sock_dma_map :: "u64 \<Rightarrow> u32 \<Rightarrow> ('q sock, u64 option) act" where
  "sock_dma_map gpa len = fail"

definition sock_dma_unmap :: "u64 option \<Rightarrow> u32 \<Rightarrow> ('q sock, unit) act" where
  "sock_dma_unmap data len = ret ()"

definition sock_dma_read_u16 :: "'q peer \<Rightarrow> u64 \<Rightarrow> ('q sock, u16) act" where
  "sock_dma_read_u16 P gpa = bnd (sock_dma_read_into P gpa 2) (\<lambda>data. ret (load_le16 data))"

definition sock_dma_write :: "'q peer \<Rightarrow> u64 \<Rightarrow> u8 list \<Rightarrow> u32 \<Rightarrow> ('q sock, unit) act" where
  "sock_dma_write P gpa data len =
     bnd (write_header P (dma_request AXI_MSG_DMA_WRITE gpa len)) (\<lambda>_.
     bnd (if len \<noteq> 0 then (if length data < unat len then trap else io_all_write P (take (unat len) data)) else ret ()) (\<lambda>_.
     bnd (read_header P) (\<lambda>reply. guard (ah_kind reply = AXI_MSG_ERROR))))"

definition sock_lower_irq :: "'q peer \<Rightarrow> ('q sock, unit) act" where
  "sock_lower_irq P = write_header P (dma_request AXI_MSG_IRQ_DEASSERT 0 0)"

definition sock_raise_irq :: "'q peer \<Rightarrow> ('q sock, unit) act" where
  "sock_raise_irq P = bnd (sock_lower_irq P) (\<lambda>_. write_header P (dma_request AXI_MSG_IRQ_ASSERT 0 0))"

text \<open>No mapping is ever handed out, so there is no pointer to store through.\<close>

definition sock_ops :: "'q peer \<Rightarrow> 'q sock fabric_ops" where
  "sock_ops P =
     \<lparr>fabric_dma_read = sock_dma_read P, fabric_dma_read_into = sock_dma_read_into P,
      fabric_dma_map = sock_dma_map, fabric_ptr_store = (\<lambda>_ _. trap), fabric_dma_unmap = sock_dma_unmap,
      fabric_dma_read_u16 = sock_dma_read_u16 P, fabric_dma_write = sock_dma_write P,
      fabric_raise_irq = sock_raise_irq P, fabric_lower_irq = sock_lower_irq P,
      fabric_usleep = (\<lambda>t k. k\<lparr>sk_peer := map_option (pe_idle P t) (sk_peer k)\<rparr>)\<rparr>"

end
