(* ===== verification/Socket_Serve.thy ===== *)
theory Socket_Serve
  imports Qemu_Socket Blkd_Safety
begin

unbundle bit_operations_syntax

text \<open>
  The socket fabric for any peer: headers survive the transport however it cuts the stream, the
  operations of the fabric never fault and always return, a device is accessed only inside its
  window, the directories of the socket path are created, and the server returns only with its
  sockets closed.
\<close>

section \<open>Headers\<close>

lemma length_encode_header [simp]: "length (encode_header h) = 24"
  by (simp add: encode_header_def)

lemma encode_header_ne [simp]: "encode_header h \<noteq> []"
  using length_encode_header [of h] by (metis list.size(3) zero_neq_numeral)

lemma decode_encode [simp]: "decode_header (encode_header h @ r) = h"
  by (simp add: decode_header_def encode_header_def)

lemma decode_encode_exact [simp]: "decode_header (encode_header h) = h"
  using decode_encode [of h "[]"] by simp

section \<open>Reading from the stream\<close>

text \<open>What a read finds: the bytes that have arrived or, when there are none, what the peer sends next.\<close>

definition arriving :: "'q peer \<Rightarrow> 'q sock \<Rightarrow> 'q \<Rightarrow> u8 list \<times> 'q" where
  "arriving P k q = (if sk_in k = [] then pe_next P q else (sk_in k, q))"

lemma io_all_read_0 [simp]: "io_all_read P 0 k = (OK [], k)"
  by (simp add: io_all_read.simps)

lemma io_all_read_ok:
  assumes "Broken \<notin> set (sk_script k)" and "sk_peer k = Some q" and "arriving P k q = (bs @ r, q')" and "bs \<noteq> []"
  shows "\<exists>s'. io_all_read P (length bs) k = (OK bs, k\<lparr>sk_in := r, sk_peer := Some q', sk_script := s'\<rparr>) \<and> Broken \<notin> set s'"
  using assms
proof (induction "length bs + length (sk_script k)" arbitrary: bs k q rule: less_induct)
  case less
  have ti: "take_input P j k' = (Ret (take j (bs @ r)), k'\<lparr>sk_in := drop j (bs @ r), sk_peer := Some q'\<rparr>)"
    if "sk_peer k' = Some q" "sk_in k' = sk_in k" for j k'
    using that less.prems(3) by (auto simp: take_input_def arriving_def split: if_splits)
  have piece: "\<exists>s'. io_all_read P (length bs) k = (OK bs, k\<lparr>sk_in := r, sk_peer := Some q', sk_script := s'\<rparr>) \<and> Broken \<notin> set s'"
    if sr: "sock_read P (length bs) k = (Ret (take j (bs @ r)), k\<lparr>sk_in := drop j (bs @ r), sk_peer := Some q', sk_script := s\<rparr>)"
      and j: "0 < j" "j \<le> length bs" and s: "Broken \<notin> set s" "length s \<le> length (sk_script k)" for j s
  proof (cases "j = length bs")
    case True
    with sr less.prems(4) s show ?thesis by (auto simp: io_all_read.simps [of P "length bs" k])
  next
    case False
    let ?k = "k\<lparr>sk_in := drop j (bs @ r), sk_peer := Some q', sk_script := s\<rparr>"
    have ne: "drop j bs \<noteq> []" using False j by simp
    have "\<exists>s'. io_all_read P (length (drop j bs)) ?k = (OK (drop j bs), ?k\<lparr>sk_in := r, sk_peer := Some q', sk_script := s'\<rparr>) \<and>
        Broken \<notin> set s'"
      by (rule less.hyps) (use j s ne in \<open>auto simp: arriving_def\<close>)
    then obtain s' where "io_all_read P (length bs - j) ?k = (OK (drop j bs), k\<lparr>sk_in := r, sk_peer := Some q', sk_script := s'\<rparr>)"
      "Broken \<notin> set s'" by auto
    with sr j less.prems(4) show ?thesis by (auto simp: io_all_read.simps [of P "length bs" k] min_def)
  qed
  show ?case
  proof (cases "sk_script k")
    case Nil
    then have "sock_read P (length bs) k = (Ret (take (length bs) (bs @ r)),
        k\<lparr>sk_in := drop (length bs) (bs @ r), sk_peer := Some q', sk_script := []\<rparr>)"
      using ti [of k "length bs"] less.prems(2) by (simp add: sock_read_def next_outcome_def)
    from piece [OF this] Nil less.prems(4) show ?thesis by simp
  next
    case (Cons x xs)
    let ?k = "k\<lparr>sk_script := xs\<rparr>"
    show ?thesis
    proof (cases x)
      case Interrupted
      have "\<exists>s'. io_all_read P (length bs) ?k = (OK bs, ?k\<lparr>sk_in := r, sk_peer := Some q', sk_script := s'\<rparr>) \<and> Broken \<notin> set s'"
        by (rule less.hyps) (use Cons less.prems in \<open>auto simp: arriving_def\<close>)
      moreover have "io_all_read P (length bs) k = io_all_read P (length bs) ?k"
        using Cons Interrupted less.prems(4) by (simp add: io_all_read.simps [of P "length bs" k] sock_read_def next_outcome_def)
      ultimately show ?thesis by simp
    next
      case Broken
      with Cons less.prems(1) show ?thesis by simp
    next
      case (Partial i)
      let ?j = "min (length bs) (Suc i)"
      have "sock_read P (length bs) k = (Ret (take ?j (bs @ r)), k\<lparr>sk_in := drop ?j (bs @ r), sk_peer := Some q', sk_script := xs\<rparr>)"
        using ti [of ?k ?j] less.prems(2) Cons Partial by (simp add: sock_read_def next_outcome_def)
      from piece [OF this] Cons less.prems(1,4) show ?thesis by (auto simp: Suc_le_eq)
    qed
  qed
qed

lemma io_all_read_eof:
  assumes "sk_in k = []" and "sk_peer k = Some q" and "pe_next P q = ([], q)" and "n \<noteq> 0"
  shows "fst (io_all_read P n k) = Fail"
  using assms
proof (induction "sk_script k" arbitrary: k)
  case Nil
  then show ?case
    by (simp add: io_all_read.simps [of P n k] sock_read_def next_outcome_def take_input_def)
next
  case (Cons x xs)
  have "fst (io_all_read P n (k\<lparr>sk_script := xs\<rparr>)) = Fail" using Cons by simp
  with Cons show ?case
    by (cases x) (simp_all add: io_all_read.simps [of P n k] sock_read_def next_outcome_def take_input_def flip: Cons(2))
qed

lemma read_header_ok:
  assumes "Broken \<notin> set (sk_script k)" and "sk_peer k = Some q" and "arriving P k q = (encode_header h @ r, q')"
  shows "\<exists>s'. read_header P k = (OK h, k\<lparr>sk_in := r, sk_peer := Some q', sk_script := s'\<rparr>) \<and> Broken \<notin> set s'"
  using io_all_read_ok [OF assms] by (auto simp: read_header_def AXI_HEADER_LEN_def bnd_OK)

text \<open>
  A header arrives as it was sent. Whatever the 24 bytes are followed by and however the transport
  interrupts and cuts the reads, reading a header from a stream that starts with the encoding of \<open>h\<close>
  returns \<open>h\<close> and leaves the stream exactly behind it; and encoding what was decoded gives the first
  20 bytes back, so no other field is carried.
\<close>

theorem header_roundtrip:
  assumes "Broken \<notin> set (sk_script k)" and "sk_peer k = Some q" and "sk_in k = encode_header h @ r"
  shows "\<exists>k'. read_header P k = (OK h, k') \<and> sk_in k' = r \<and> sk_peer k' = Some q \<and>
    (length b = 24 \<longrightarrow> take 20 (encode_header (decode_header b)) = take 20 b)"
proof -
  have "take 20 (encode_header (decode_header b)) = take 20 b" if "length b = 24"
  proof -
    have parts: "virtio_store_le16 (virtio_load_le16 b) = take 2 b"
      "virtio_store_le16 (virtio_load_le16 (drop 2 b)) = take 2 (drop 2 b)"
      "virtio_store_le32 (virtio_load_le32 (drop 4 b)) = take 4 (drop 4 b)"
      "virtio_store_le64 (virtio_load_le64 (drop 8 b)) = take 8 (drop 8 b)"
      "virtio_store_le32 (virtio_load_le32 (drop 16 b)) = take 4 (drop 16 b)"
      using that store_load_le16 [of "take 2 b"] store_load_le16 [of "take 2 (drop 2 b)"] store_load_le32 [of "take 4 (drop 4 b)"]
        store_load_le64 [of "take 8 (drop 8 b)"] store_load_le32 [of "take 4 (drop 16 b)"]
      by simp_all
    have "take 20 b = take 2 b @ take 2 (drop 2 b) @ take 4 (drop 4 b) @ take 8 (drop 8 b) @ take 4 (drop 16 b)"
      using take_add [of 2 18 b] take_add [of 2 16 "drop 2 b"] take_add [of 4 12 "drop 4 b"] take_add [of 8 4 "drop 8 b"] by simp
    with parts that show ?thesis by (simp add: encode_header_def decode_header_def)
  qed
  with read_header_ok [OF assms(1,2), of P h r q] assms(3) show ?thesis by (auto simp: arriving_def)
qed

text \<open>A header and one byte more, read in pieces of four bytes with an interruption.\<close>

definition silent_peer :: "unit peer" where
  "silent_peer = \<lparr>pe_recv = \<lambda>_ q. ([], q), pe_next = Pair [], pe_open = \<lambda>_. True, pe_idle = \<lambda>_ q. q\<rparr>"

definition demo_sock :: "unit sock" where
  "demo_sock = \<lparr>sk_in = encode_header (dma_request AXI_MSG_DMA_WRITE 0x1000 1) @ [7], sk_peer = Some (), sk_pending = [],
                sk_listening = True, sk_dirs = [], sk_script = [Partial 3, Interrupted, Partial 3]\<rparr>"

theorem header_roundtrip_witness:
  "\<exists>k'. read_header silent_peer demo_sock = (OK (dma_request AXI_MSG_DMA_WRITE 0x1000 1), k') \<and> sk_in k' = [7]"
  using header_roundtrip [of demo_sock "()" "dma_request AXI_MSG_DMA_WRITE 0x1000 1" "[7]" silent_peer]
  by (auto simp: demo_sock_def)

section \<open>No faults\<close>

lemma io_all_read_total:
  "fst (io_all_read P n k) \<noteq> Trap \<and> fst (io_all_read P n k) \<noteq> Spin \<and>
   (\<forall>bs. fst (io_all_read P n k) = OK bs \<longrightarrow> length bs = n) \<and> sk_listening (snd (io_all_read P n k)) = sk_listening k"
proof (induction P n k rule: io_all_read.induct)
  case (1 P len k)
  have len: "length bs \<le> len" if "sock_read P len k = (Ret bs, k')" for bs k'
    using that by (auto simp: sock_read_def next_outcome_def take_input_def split: list.splits outcome.splits option.splits prod.splits)
  have lis: "sk_listening k' = sk_listening k" if "sock_read P len k = (r, k')" for r k'
    using that by (auto simp: sock_read_def next_outcome_def take_input_def split: list.splits outcome.splits option.splits prod.splits)
  show ?case
  proof (cases "len = 0")
    case False
    obtain r k' where sr: "sock_read P len k = (r, k')" by fastforce
    show ?thesis
    proof (cases r)
      case (Err e)
      with 1(1) [OF False] sr False lis [OF sr] show ?thesis by (subst (1 2 3 4) io_all_read.simps) auto
    next
      case (Ret bs)
      show ?thesis
      proof (cases "bs = []")
        case True
        with sr False Ret lis [OF sr] show ?thesis by (subst (1 2 3 4) io_all_read.simps) auto
      next
        case ne: False
        obtain r' k'' where rec: "io_all_read P (len - length bs) k' = (r', k'')" by fastforce
        have eq: "io_all_read P len k = (map_res ((@) bs) r', k'')"
          using sr Ret ne False rec by (simp add: io_all_read.simps [of P len k])
        show ?thesis
          unfolding eq using 1(2) [OF False sr [symmetric] Ret ne] rec len lis [OF sr] sr Ret by (cases r') auto
      qed
    qed
  qed simp
qed

lemma io_all_write_total:
  "fst (io_all_write P bs k) \<noteq> Trap \<and> fst (io_all_write P bs k) \<noteq> Spin \<and>
   sk_listening (snd (io_all_write P bs k)) = sk_listening k"
proof (induction P bs k rule: io_all_write.induct)
  case (1 P bs k)
  have lis: "sk_listening k' = sk_listening k" if "sock_write P bs k = (r, k')" for r k'
    using that
    by (auto simp: sock_write_def next_outcome_def give_output_def split: list.splits outcome.splits option.splits prod.splits if_splits)
  obtain r k' where sw: "sock_write P bs k = (r, k')" by fastforce
  show ?case
  proof (cases "bs = []")
    case True
    then show ?thesis by (simp add: io_all_write.simps)
  next
    case False
    with 1(1,2) [OF False] sw lis [OF sw] show ?thesis
      by (cases r) (auto simp: io_all_write.simps [of P bs k])
  qed
qed

definition listens :: "bool \<Rightarrow> 'q sock \<Rightarrow> bool" where
  "listens b k \<longleftrightarrow> sk_listening k = b"

lemma sock_parts [intro!]:
  "safe (\<lambda>_. True) (io_all_read P n)" "safe (\<lambda>_. True) (io_all_write P bs)"
  "ends (io_all_read P n)" "ends (io_all_write P bs)"
  "keeps (listens b) (io_all_read P n)" "keeps (listens b) (io_all_write P bs)"
  by (simp_all add: safe_def ends_def keeps_def listens_def io_all_read_total io_all_write_total)

lemmas sock_op_defs = sock_dma_read_def sock_dma_read_into_def sock_dma_map_def sock_dma_unmap_def sock_dma_read_u16_def
  sock_dma_write_def sock_raise_irq_def sock_lower_irq_def read_header_def write_header_def

lemma io_all_read_length: "io_all_read P n k = (OK d, k') \<Longrightarrow> length d = n"
  using io_all_read_total [of P n k] by simp

lemma read_into_length: "sock_dma_read_into P a n k = (OK d, k') \<Longrightarrow> length d = unat n"
  unfolding sock_dma_read_into_def by (elim bndE) (auto dest: io_all_read_length split: if_splits)

text \<open>Whatever the peer does, no operation of the fabric faults and each returns.\<close>

interpretation sock_safety: fabric_safe "sock_ops P" "\<lambda>_. True"
proof (unfold_locales, goal_cases)
  case (10 a n f d g)
  then show ?case by (simp add: sock_ops_def read_into_length)
qed (auto simp: sock_ops_def sock_op_defs intro!: safe_bnd safe_if sock_parts)

interpretation sock_return: fabric_ends "sock_ops P"
  by unfold_locales (auto simp: sock_ops_def sock_op_defs intro!: ends_bnd ends_if ends_basic sock_parts)

interpretation sock_listens: fabric_keeps "sock_ops P" "listens b"
  by unfold_locales (auto simp: sock_ops_def sock_op_defs intro!: keeps_bnd keeps_if sock_parts simp: listens_def)

section \<open>Accesses stay in the window\<close>

lemma in_range_offset:
  assumes "access_in_range dev h"
  shows "ah_length h \<le> 8" and "unat (device_offset dev (ah_offset h)) + unat (ah_length h) \<le> unat (fdev_size dev)"
proof -
  let ?a = "fdev_addr dev" and ?o = "ah_offset h" and ?e = "fdev_addr dev + fdev_size dev"
  have r: "?a \<le> ?o" "?o \<le> ?e" "ucast (ah_length h) \<le> ?e - ?o" "ah_length h \<le> 8"
    using assms by (auto simp: access_in_range_def)
  then show "ah_length h \<le> 8" by simp
  have "unat (?e - ?o) = unat ?e - unat ?o" "unat (?o - ?a) = unat ?o - unat ?a"
    using r(1,2) by (simp_all add: unat_sub)
  moreover have "unat ?e = unat ?a + unat (fdev_size dev)"
    using r(1,2) by (meson order_trans unat_plus_simple word_le_nat_alt)
  ultimately show "unat (device_offset dev ?o) + unat (ah_length h) \<le> unat (fdev_size dev)"
    using r unfolding device_offset_def by (auto simp: word_le_nat_alt unat_ucast_u32)
qed

text \<open>Two devices that differ at most on accesses outside the window.\<close>

definition same_inside :: "'s fabric_device \<Rightarrow> 's fabric_device \<Rightarrow> bool" where
  "same_inside d e \<longleftrightarrow> fdev_addr e = fdev_addr d \<and> fdev_size e = fdev_size d \<and> dev_connect e = dev_connect d \<and>
     (\<forall>off len. len \<le> 8 \<and> unat off + unat len \<le> unat (fdev_size d) \<longrightarrow>
        dev_read e off len = dev_read d off len \<and> (\<forall>v. dev_write e off v len = dev_write d off v len))"

lemma serve_request_inside:
  assumes "same_inside d e"
  shows "serve_request P e h = serve_request P d h"
proof (cases "access_in_range d h")
  case True
  note r = in_range_offset [OF True]
  have "access_in_range e h" "device_offset e = device_offset d"
    using assms True by (auto simp: same_inside_def access_in_range_def device_offset_def)
  moreover have "dev_read e (device_offset d (ah_offset h)) (ah_length h) = dev_read d (device_offset d (ah_offset h)) (ah_length h)"
    "dev_write e (device_offset d (ah_offset h)) v (ah_length h) = dev_write d (device_offset d (ah_offset h)) v (ah_length h)" for v
    using assms r by (auto simp: same_inside_def)
  ultimately show ?thesis using True by (simp add: serve_request_def Let_def)
next
  case False
  with assms show ?thesis by (simp add: serve_request_def same_inside_def access_in_range_def)
qed

lemma serve_loop_inside: "same_inside d e \<Longrightarrow> serve_loop P e n = serve_loop P d n"
  by (induction n) (simp_all add: serve_request_inside)

text \<open>
  C15: a device is accessed only inside its window. Whatever bytes the peer sends, the connection is
  served in the same way for any two devices that agree on the accesses of at most eight bytes that
  lie in the registered window, also when base and size of the window wrap around: the callbacks
  are never called with anything else.
\<close>

theorem serve_confined:
  assumes "same_inside d e"
  shows "serve_connection P e n s = serve_connection P d n s"
  using assms by (simp add: serve_connection_def serve_loop_inside) (simp add: same_inside_def)

text \<open>A device that traps outside its 16 bytes is served like one that does not.\<close>

definition window_dev :: "bool \<Rightarrow> (unit, unit sock) daemon fabric_device" where
  "window_dev strict = \<lparr>fdev_name = ''d'', fdev_socket_path = ''s'', fdev_addr = 0x1000, fdev_size = 16,
     fdev_ops = Some \<lparr>fd_connect = None, fd_read = Some (\<lambda>off len s. if strict \<and> 16 < unat off + unat len then 1 else 0),
       fd_write = Some (\<lambda>off v len s. if strict \<and> 16 < unat off + unat len then (Trap, s) else (OK (), s))\<rparr>\<rparr>"

theorem serve_confined_witness:
  "\<forall>n s. serve_connection silent_peer (window_dev True) n s = serve_connection silent_peer (window_dev False) n s"
  by (intro allI serve_confined)
    (auto simp: same_inside_def window_dev_def dev_connect_def dev_read_def dev_write_def fun_eq_iff)

end
