(* ===== verification/Qemu_Axi.thy ===== *)
theory Qemu_Axi
  imports Socket_Serve
begin

unbundle bit_operations_syntax

text \<open>
  QEMU's end of the socket, the device \<open>axi\<close> of \<^verbatim>\<open>patches/qemu/0001-chiplets-qemu-support.patch\<close> in
  socket mode: \<open>axi_read\<close> and \<open>axi_write\<close>, which turn a register access of the guest into messages and wait
  for the answer, and \<open>axi_service_backend\<close>, which meanwhile serves the daemon's requests for guest memory
  and interrupts. It is a peer for \<open>Qemu_Socket\<close>, and with it the socket fabric meets the contracts of
  \<open>Fabric\<close>.
\<close>

section \<open>State and messages\<close>

datatype guest_access = GuestRead u64 u32 | GuestWrite u64 u64 u32

datatype axi_mode = QIdle | QRead | QService

text \<open>
  \<open>qa_buf\<close> are received bytes that do not make up a message yet; \<open>qa_mode\<close> tells which function QEMU is
  in; \<open>qa_backed\<close> are the guest physical addresses behind which there is memory; \<open>qa_guest\<close> are the
  register accesses the guest is going to make and \<open>qa_values\<close> the values its reads got so far.
\<close>

record qemu_axi =
  qa_buf :: "u8 list"
  qa_mode :: axi_mode
  qa_sockfd :: bool
  qa_irq_wired :: bool
  qa_irq :: bool
  qa_ram :: memory
  qa_backed :: "u64 \<Rightarrow> bool"
  qa_guest :: "guest_access list"
  qa_values :: "u64 list"

definition axi_close :: "qemu_axi \<Rightarrow> qemu_axi" where
  "axi_close q = q\<lparr>qa_sockfd := False, qa_mode := QIdle, qa_buf := []\<rparr>"

definition axi_reply :: "u16 \<Rightarrow> u64 \<Rightarrow> u32 \<Rightarrow> u8 list" where
  "axi_reply kind addr len =
     encode_header \<lparr>ah_kind = kind, ah_flags = 0, ah_window_id = 0, ah_offset = addr, ah_length = len\<rparr>"

definition backed :: "qemu_axi \<Rightarrow> u64 \<Rightarrow> nat \<Rightarrow> bool" where
  "backed q a n \<longleftrightarrow> (\<forall>i < n. qa_backed q (a + of_nat i))"

definition qemu_set_irq :: "bool \<Rightarrow> qemu_axi \<Rightarrow> qemu_axi" where
  "qemu_set_irq level q = (if qa_irq_wired q then q\<lparr>qa_irq := level\<rparr> else q)"

text \<open>A write of guest memory reaches the addresses that are backed.\<close>

definition only_where :: "(u64 \<Rightarrow> bool) \<Rightarrow> memory \<Rightarrow> memory \<Rightarrow> memory" where
  "only_where B m m' = (\<lambda>x. if B x then m' x else m x)"

definition guest_write :: "u64 \<Rightarrow> u8 list \<Rightarrow> qemu_axi \<Rightarrow> qemu_axi" where
  "guest_write a bs q = q\<lparr>qa_ram := only_where (qa_backed q) (qa_ram q) (mem_write (qa_ram q) a bs)\<rparr>"

text \<open>
  One turn of the loop of \<open>axi_service_backend\<close> on the header \<open>h\<close>, with \<open>rest\<close> received behind it: the bytes
  sent and the new state, or \<open>None\<close> while QEMU waits for more bytes.
\<close>

definition axi_service_backend :: "axi_header \<Rightarrow> u8 list \<Rightarrow> qemu_axi \<Rightarrow> (u8 list \<times> qemu_axi) option" where
  "axi_service_backend h rest q =
     (let n = unat (ah_length h); done' = q\<lparr>qa_buf := rest\<rparr> in
      if ah_kind h = AXI_MSG_ERROR then Some ([], done'\<lparr>qa_mode := QIdle\<rparr>)
      else if ah_kind h = AXI_MSG_IRQ_ASSERT then Some ([], qemu_set_irq True done')
      else if ah_kind h = AXI_MSG_IRQ_DEASSERT then Some ([], qemu_set_irq False done')
      else if ah_kind h = AXI_MSG_DMA_READ then
        (if n = 0 then Some (axi_reply AXI_MSG_DMA_READ_REPLY (ah_offset h) 0, done')
         else if \<not> backed q (ah_offset h) n then Some ([], axi_close q)
         else Some (axi_reply AXI_MSG_DMA_READ_REPLY (ah_offset h) (ah_length h) @ mem_read (qa_ram q) (ah_offset h) n, done'))
      else if ah_kind h = AXI_MSG_DMA_WRITE then
        (if length rest < n then None
         else let q' = guest_write (ah_offset h) (take n rest) (q\<lparr>qa_buf := drop n rest\<rparr>) in
           if \<not> backed q (ah_offset h) n then Some ([], axi_close q')
           else Some (axi_reply AXI_MSG_ERROR 0 0, q'))
      else Some ([], axi_close q))"

text \<open>The rest of \<open>axi_read\<close> once the header of the reply is there; a failed read gives the guest zero.\<close>

definition axi_read_reply :: "axi_header \<Rightarrow> u8 list \<Rightarrow> qemu_axi \<Rightarrow> (u8 list \<times> qemu_axi) option" where
  "axi_read_reply h rest q =
     (let n = unat (ah_length h) in
      if ah_kind h \<noteq> AXI_MSG_MMIO_READ_REPLY \<or> ah_length h > 8 then
        Some ([], (axi_close q)\<lparr>qa_values := qa_values q @ [0]\<rparr>)
      else if length rest < n then None
      else Some ([], q\<lparr>qa_buf := drop n rest, qa_mode := QIdle,
                       qa_values := qa_values q @ [virtio_load_le64 (take n rest @ replicate (8 - n) 0)]\<rparr>))"

definition axi_message :: "qemu_axi \<Rightarrow> (u8 list \<times> qemu_axi) option" where
  "axi_message q =
     (if \<not> qa_sockfd q \<or> length (qa_buf q) < 24 then None
      else let h = decode_header (qa_buf q); rest = drop 24 (qa_buf q) in
        case qa_mode q of
          QIdle \<Rightarrow> None
        | QRead \<Rightarrow> axi_read_reply h rest q
        | QService \<Rightarrow> axi_service_backend h rest q)"

lemma axi_message_shorter: "axi_message q = Some (out, q') \<Longrightarrow> length (qa_buf q') < length (qa_buf q)"
  by (auto simp: axi_message_def axi_service_backend_def axi_read_reply_def axi_close_def qemu_set_irq_def guest_write_def Let_def
      split: axi_mode.splits if_splits)

function axi_run :: "qemu_axi \<Rightarrow> u8 list \<times> qemu_axi" where
  "axi_run q = (case axi_message q of
      None \<Rightarrow> ([], q)
    | Some (out, q') \<Rightarrow> (case axi_run q' of (out', q'') \<Rightarrow> (out @ out', q'')))"
  by pat_completeness auto
termination
  by (relation "measure (\<lambda>q. length (qa_buf q))") (auto dest: axi_message_shorter)

declare axi_run.simps [simp del]

definition axi_recv :: "u8 list \<Rightarrow> qemu_axi \<Rightarrow> u8 list \<times> qemu_axi" where
  "axi_recv bs q = (if qa_sockfd q then axi_run (q\<lparr>qa_buf := qa_buf q @ bs\<rparr>) else ([], q))"

text \<open>
  The next access of the guest, when the daemon waits for one: \<open>axi_send_header\<close> with the payload of a
  write. Without a further access the connection ends.
\<close>

definition axi_next :: "qemu_axi \<Rightarrow> u8 list \<times> qemu_axi" where
  "axi_next q =
     (if \<not> qa_sockfd q \<or> qa_mode q \<noteq> QIdle then ([], q)
      else case qa_guest q of
        [] \<Rightarrow> ([], q)
      | GuestRead a n # gs \<Rightarrow> (axi_reply AXI_MSG_MMIO_READ a n, q\<lparr>qa_guest := gs, qa_mode := QRead\<rparr>)
      | GuestWrite a v n # gs \<Rightarrow>
          (axi_reply AXI_MSG_MMIO_WRITE a n @ take (unat n) (virtio_store_le64 v), q\<lparr>qa_guest := gs, qa_mode := QService\<rparr>))"

text \<open>\<open>env\<close> is what the guest does to its memory while the daemon sleeps.\<close>

definition qemu_peer :: "(nat \<Rightarrow> memory \<Rightarrow> memory) \<Rightarrow> qemu_axi peer" where
  "qemu_peer env = \<lparr>pe_recv = axi_recv, pe_next = axi_next, pe_open = qa_sockfd,
     pe_idle = (\<lambda>t q. q\<lparr>qa_ram := env t (qa_ram q)\<rparr>)\<rparr>"

section \<open>The stream may be cut anywhere\<close>

lemma decode_take: "decode_header (take 24 b) = decode_header b"
  by (simp add: decode_header_def drop_take)

lemma backed_buf [simp]: "backed (q\<lparr>qa_buf := b\<rparr>) = backed q"
  by (simp add: backed_def fun_eq_iff)

lemma service_append:
  assumes "axi_service_backend h rest q = Some (out, q')" and "qa_sockfd q"
  shows "axi_service_backend h (rest @ b) (q\<lparr>qa_buf := c\<rparr>) = Some (out, if qa_sockfd q' then q'\<lparr>qa_buf := qa_buf q' @ b\<rparr> else q')"
proof -
  let ?n = "unat (ah_length h)"
  consider "ah_kind h = AXI_MSG_ERROR" | "ah_kind h = AXI_MSG_IRQ_ASSERT" | "ah_kind h = AXI_MSG_IRQ_DEASSERT"
    | "ah_kind h = AXI_MSG_DMA_READ"
    | (wr) "ah_kind h = AXI_MSG_DMA_WRITE" "?n \<le> length rest"
    | "ah_kind h \<notin> {AXI_MSG_ERROR, AXI_MSG_IRQ_ASSERT, AXI_MSG_IRQ_DEASSERT, AXI_MSG_DMA_READ, AXI_MSG_DMA_WRITE}"
    using assms(1) by (force simp: axi_service_backend_def Let_def axi_kinds split: if_splits)
  then show ?thesis
  proof cases
    case wr
    with assms show ?thesis
      by (cases "backed q (ah_offset h) ?n") (auto simp: axi_service_backend_def Let_def axi_kinds axi_close_def guest_write_def)
  qed (use assms in \<open>auto simp: axi_service_backend_def Let_def axi_kinds axi_close_def qemu_set_irq_def split: if_splits\<close>)
qed

lemma read_reply_append:
  assumes "axi_read_reply h rest q = Some (out, q')" and "qa_sockfd q"
  shows "axi_read_reply h (rest @ b) (q\<lparr>qa_buf := c\<rparr>) = Some (out, if qa_sockfd q' then q'\<lparr>qa_buf := qa_buf q' @ b\<rparr> else q')"
  using assms by (auto simp: axi_read_reply_def Let_def axi_close_def split: if_splits)

lemma axi_message_append:
  assumes "axi_message q = Some (out, q')"
  shows "axi_message (q\<lparr>qa_buf := qa_buf q @ b\<rparr>) = Some (out, if qa_sockfd q' then q'\<lparr>qa_buf := qa_buf q' @ b\<rparr> else q')"
proof -
  have l: "qa_sockfd q" "24 \<le> length (qa_buf q)" using assms by (auto simp: axi_message_def split: if_splits)
  have d: "decode_header (qa_buf q @ b) = decode_header (qa_buf q)"
    using l(2) decode_take [of "qa_buf q @ b"] decode_take [of "qa_buf q"] by simp
  show ?thesis
  proof (cases "qa_mode q")
    case QIdle
    with assms l show ?thesis by (simp add: axi_message_def Let_def)
  next
    case QRead
    with assms l read_reply_append [OF _ l(1)] show ?thesis by (simp add: axi_message_def Let_def d)
  next
    case QService
    with assms l service_append [OF _ l(1)] show ?thesis by (simp add: axi_message_def Let_def d)
  qed
qed

lemma axi_run_append:
  "axi_run (q\<lparr>qa_buf := qa_buf q @ b\<rparr>) =
     (case axi_run q of (out, q1) \<Rightarrow>
        if qa_sockfd q1 then (case axi_run (q1\<lparr>qa_buf := qa_buf q1 @ b\<rparr>) of (out', q2) \<Rightarrow> (out @ out', q2)) else (out, q1))"
  if "qa_sockfd q"
  using that
proof (induction q rule: axi_run.induct)
  case (1 q)
  show ?case
  proof (cases "axi_message q")
    case None
    with 1(2) show ?thesis by (simp add: axi_run.simps [of q] split: prod.splits)
  next
    case (Some p)
    then obtain out q' where m: "axi_message q = Some (out, q')" by (cases p) auto
    note app = axi_message_append [OF m, of b]
    have IH: "qa_sockfd q' \<Longrightarrow> axi_run (q'\<lparr>qa_buf := qa_buf q' @ b\<rparr>) =
        (case axi_run q' of (out, q1) \<Rightarrow>
          if qa_sockfd q1 then (case axi_run (q1\<lparr>qa_buf := qa_buf q1 @ b\<rparr>) of (out', q2) \<Rightarrow> (out @ out', q2)) else (out, q1))"
      using 1(1) [OF m refl] by simp
    have closed: "\<not> qa_sockfd q' \<Longrightarrow> axi_run q' = ([], q')"
      by (simp add: axi_run.simps [of q'] axi_message_def)
    show ?thesis
      using m app IH closed
      by (cases "qa_sockfd q'") (auto simp: axi_run.simps [of q] axi_run.simps [of "q\<lparr>qa_buf := qa_buf q @ b\<rparr>"] split: prod.splits)
  qed
qed

text \<open>
  The stream law of a peer: bytes delivered in two pieces have the effect of the bytes delivered at
  once. The client writes through interruptions and short transfers and relies on it.
\<close>

locale stream_peer =
  fixes P :: "'q peer"
  assumes recv_append: "pe_recv P (a @ b) q =
    (case pe_recv P a q of (x, q1) \<Rightarrow> case pe_recv P b q1 of (y, q2) \<Rightarrow> (x @ y, q2))"
begin

lemma io_all_write_ok:
  assumes "Broken \<notin> set (sk_script k)" and "sk_peer k = Some q" and "pe_recv P bs q = (out, q')" and "bs \<noteq> []"
    and "pe_open P q" and "\<And>j. 0 < j \<Longrightarrow> j < length bs \<Longrightarrow> pe_open P (snd (pe_recv P (take j bs) q))"
  shows "\<exists>s'. io_all_write P bs k = (OK (), k\<lparr>sk_in := sk_in k @ out, sk_peer := Some q', sk_script := s'\<rparr>) \<and> Broken \<notin> set s'"
  using assms
proof (induction "length bs + length (sk_script k)" arbitrary: bs k q out rule: less_induct)
  case less
  have piece: "\<exists>s'. io_all_write P bs k = (OK (), k\<lparr>sk_in := sk_in k @ out, sk_peer := Some q', sk_script := s'\<rparr>) \<and> Broken \<notin> set s'"
    if sw: "sock_write P bs k = give_output P (take j bs) (k\<lparr>sk_script := s\<rparr>)"
      and j: "0 < j" "j \<le> length bs" and s: "Broken \<notin> set s" "length s \<le> length (sk_script k)" for j s
  proof -
    obtain x q1 where x: "pe_recv P (take j bs) q = (x, q1)" by fastforce
    let ?k = "k\<lparr>sk_in := sk_in k @ x, sk_peer := Some q1, sk_script := s\<rparr>"
    have w: "sock_write P bs k = (Ret j, ?k)"
      using sw x j less.prems(2,5) by (simp add: give_output_def)
    show ?thesis
    proof (cases "j = length bs")
      case True
      with x less.prems(3) have "x = out" "q1 = q'" by simp_all
      with True w less.prems(4) s show ?thesis
        by (auto simp: io_all_write.simps [of P bs k] io_all_write.simps [of P "[]"])
    next
      case False
      obtain y q2 where y: "pe_recv P (drop j bs) q1 = (y, q2)" by fastforce
      have r: "out = x @ y" "q2 = q'" using recv_append [of "take j bs" "drop j bs" q] x y less.prems(3) by simp_all
      have "\<exists>s'. io_all_write P (drop j bs) ?k = (OK (), ?k\<lparr>sk_in := sk_in ?k @ y, sk_peer := Some q', sk_script := s'\<rparr>) \<and> Broken \<notin> set s'"
      proof (rule less.hyps)
        fix i assume i: "0 < i" "i < length (drop j bs)"
        have "take j bs @ take i (drop j bs) = take (j + i) bs" by (simp add: take_add)
        then have "pe_recv P (take (j + i) bs) q = (case pe_recv P (take i (drop j bs)) q1 of (z, q3) \<Rightarrow> (x @ z, q3))"
          using recv_append [of "take j bs" "take i (drop j bs)" q] x by simp
        then show "pe_open P (snd (pe_recv P (take i (drop j bs)) q1))"
          using less.prems(6) [of "j + i"] i j by (simp split: prod.splits)
      qed (use False j s x y r less.prems(6) [of j] in auto)
      then obtain s' where "io_all_write P (drop j bs) ?k = (OK (), k\<lparr>sk_in := sk_in k @ out, sk_peer := Some q', sk_script := s'\<rparr>)"
        "Broken \<notin> set s'" using r by auto
      with w j less.prems(4) show ?thesis by (auto simp: io_all_write.simps [of P bs k])
    qed
  qed
  show ?case
  proof (cases "sk_script k")
    case Nil
    then have e: "k\<lparr>sk_script := []\<rparr> = k" by (cases k) simp
    have "sock_write P bs k = give_output P (take (length bs) bs) k"
      using Nil by (simp add: sock_write_def next_outcome_def)
    from piece [of "length bs" "[]", unfolded e, OF this] Nil less.prems(4) show ?thesis by simp
  next
    case (Cons x xs)
    let ?k = "k\<lparr>sk_script := xs\<rparr>"
    show ?thesis
    proof (cases x)
      case Interrupted
      have "\<exists>s'. io_all_write P bs ?k = (OK (), ?k\<lparr>sk_in := sk_in ?k @ out, sk_peer := Some q', sk_script := s'\<rparr>) \<and> Broken \<notin> set s'"
        by (rule less.hyps) (use Cons less.prems in auto)
      moreover have "io_all_write P bs k = io_all_write P bs ?k"
        using Cons Interrupted less.prems(4) by (simp add: io_all_write.simps [of P bs k] sock_write_def next_outcome_def)
      ultimately show ?thesis by simp
    next
      case Broken
      with Cons less.prems(1) show ?thesis by simp
    next
      case (Partial i)
      have "sock_write P bs k = give_output P (take (min (length bs) (Suc i)) bs) ?k"
        using Cons Partial by (simp add: sock_write_def next_outcome_def min_def)
      from piece [OF this] Cons less.prems(1,4) show ?thesis by (auto simp: Suc_le_eq)
    qed
  qed
qed

end

interpretation axi_stream: stream_peer "qemu_peer env"
proof
  fix a b q
  show "pe_recv (qemu_peer env) (a @ b) q = (case pe_recv (qemu_peer env) a q of (x, q1) \<Rightarrow>
      case pe_recv (qemu_peer env) b q1 of (y, q2) \<Rightarrow> (x @ y, q2))"
    using axi_run_append [of "q\<lparr>qa_buf := qa_buf q @ a\<rparr>" b]
    by (auto simp: qemu_peer_def axi_recv_def split: prod.splits)
qed

section \<open>Guest memory and interrupts through QEMU\<close>

text \<open>QEMU is inside \<open>axi_service_backend\<close>, nothing is on the way, no system call will fail, and \<open>gs\<close> are the accesses the guest is going to make.\<close>

definition serving :: "qemu_axi \<Rightarrow> bool" where
  "serving q \<longleftrightarrow> qa_sockfd q \<and> qa_mode q = QService \<and> qa_buf q = [] \<and> qa_irq_wired q"

definition axi_live :: "guest_access list \<Rightarrow> qemu_axi sock \<Rightarrow> bool" where
  "axi_live gs k \<longleftrightarrow> Broken \<notin> set (sk_script k) \<and> sk_in k = [] \<and> (\<exists>q. sk_peer k = Some q \<and> serving q \<and> qa_guest q = gs)"

abbreviation axi_state :: "qemu_axi sock \<Rightarrow> qemu_axi" where
  "axi_state k \<equiv> the (sk_peer k)"

definition axi_ram :: "qemu_axi sock \<Rightarrow> memory" where
  "axi_ram k = qa_ram (axi_state k)"

definition axi_reach :: "qemu_axi sock \<Rightarrow> u64 \<Rightarrow> nat \<Rightarrow> bool" where
  "axi_reach k = backed (axi_state k)"

definition axi_line :: "qemu_axi sock \<Rightarrow> bool" where
  "axi_line k = qa_irq (axi_state k)"

lemma peer_simps [simp]:
  "pe_recv (qemu_peer env) = axi_recv" "pe_next (qemu_peer env) = axi_next" "pe_open (qemu_peer env) = qa_sockfd"
  by (simp_all add: qemu_peer_def)

lemma axi_run_short: "length (qa_buf q) < 24 \<Longrightarrow> axi_run q = ([], q)"
  by (simp add: axi_run.simps axi_message_def)

lemma axi_run_service:
  assumes "serving q"
  shows "axi_run (q\<lparr>qa_buf := encode_header h @ rest\<rparr>) =
    (case axi_service_backend h rest (q\<lparr>qa_buf := encode_header h @ rest\<rparr>) of
       None \<Rightarrow> ([], q\<lparr>qa_buf := encode_header h @ rest\<rparr>)
     | Some (out, q') \<Rightarrow> (case axi_run q' of (out', q'') \<Rightarrow> (out @ out', q'')))"
  using assms by (subst axi_run.simps) (simp add: axi_message_def serving_def Let_def split: option.splits)

lemma recv_short: "serving q \<Longrightarrow> length b < 24 \<Longrightarrow> axi_recv b q = ([], q\<lparr>qa_buf := b\<rparr>)"
  by (simp add: axi_recv_def serving_def axi_run_short)

text \<open>What QEMU does with each message of the daemon.\<close>

lemma serving_buf: "serving q \<Longrightarrow> q\<lparr>qa_buf := []\<rparr> = q"
  by (cases q) (simp add: serving_def)

lemma recv_message:
  assumes "serving q"
  shows "axi_recv (encode_header h) q =
    (case axi_service_backend h [] (q\<lparr>qa_buf := encode_header h\<rparr>) of
       None \<Rightarrow> ([], q\<lparr>qa_buf := encode_header h\<rparr>)
     | Some (out, q') \<Rightarrow> (case axi_run q' of (out', q'') \<Rightarrow> (out @ out', q'')))"
  using axi_run_service [OF assms, of h "[]", unfolded append_Nil2] assms by (simp add: axi_recv_def serving_def)

lemma recv_simple:
  assumes "serving q"
  shows "axi_recv (encode_header (dma_request AXI_MSG_ERROR 0 0)) q = ([], q\<lparr>qa_mode := QIdle\<rparr>)"
    and "axi_recv (encode_header (dma_request AXI_MSG_IRQ_ASSERT 0 0)) q = ([], q\<lparr>qa_irq := True\<rparr>)"
    and "axi_recv (encode_header (dma_request AXI_MSG_IRQ_DEASSERT 0 0)) q = ([], q\<lparr>qa_irq := False\<rparr>)"
  using assms serving_buf [OF assms]
  by (simp_all add: recv_message axi_service_backend_def dma_request_def Let_def axi_kinds qemu_set_irq_def axi_run_short serving_def)

lemma recv_dma_read:
  assumes "serving q"
  shows "axi_recv (encode_header (dma_request AXI_MSG_DMA_READ a n)) q =
    (if backed q a (unat n) then (axi_reply AXI_MSG_DMA_READ_REPLY a n @ mem_read (qa_ram q) a (unat n), q) else ([], axi_close q))"
proof -
  have c: "axi_close (q\<lparr>qa_buf := b\<rparr>) = axi_close q" for b by (simp add: axi_close_def)
  have "backed q a 0" by (simp add: backed_def)
  with assms serving_buf [OF assms] show ?thesis
    by (auto simp: recv_message axi_service_backend_def dma_request_def Let_def axi_kinds axi_run_short serving_def c)
      (auto simp: axi_close_def axi_run_short unat_eq_0)
qed

lemma only_where_backed:
  assumes "backed q a (length d)"
  shows "only_where (qa_backed q) m (mem_write m a d) = mem_write m a d"
proof
  fix x
  have "qa_backed q x" if "unat (x - a) < length d"
  proof -
    have "qa_backed q (a + of_nat (unat (x - a)))" using assms that unfolding backed_def by blast
    then show ?thesis by simp
  qed
  then show "only_where (qa_backed q) m (mem_write m a d) x = mem_write m a d x"
    by (auto simp: only_where_def mem_write_def)
qed

text \<open>The message of a write is its header and its data.\<close>

lemma recv_dma_write:
  assumes "serving q" and "length d = unat n"
  shows "axi_recv (encode_header (dma_request AXI_MSG_DMA_WRITE a n) @ d) q =
    (if backed q a (unat n) then (axi_reply AXI_MSG_ERROR 0 0, q\<lparr>qa_ram := mem_write (qa_ram q) a d\<rparr>)
     else ([], axi_close (guest_write a d q)))"
    and "j < length d \<Longrightarrow> axi_recv (encode_header (dma_request AXI_MSG_DMA_WRITE a n) @ take j d) q =
      ([], q\<lparr>qa_buf := encode_header (dma_request AXI_MSG_DMA_WRITE a n) @ take j d\<rparr>)"
proof -
  let ?h = "dma_request AXI_MSG_DMA_WRITE a n"
  let ?q = "q\<lparr>qa_buf := encode_header ?h @ d\<rparr>"
  have h: "ah_kind ?h = AXI_MSG_DMA_WRITE" "ah_length ?h = n" "ah_offset ?h = a" by (simp_all add: dma_request_def)
  have k: "AXI_MSG_DMA_WRITE \<noteq> AXI_MSG_ERROR" "AXI_MSG_DMA_WRITE \<noteq> AXI_MSG_IRQ_ASSERT"
    "AXI_MSG_DMA_WRITE \<noteq> AXI_MSG_IRQ_DEASSERT" "AXI_MSG_DMA_WRITE \<noteq> AXI_MSG_DMA_READ"
    by (simp_all add: axi_kinds)
  have rv: "axi_recv (encode_header ?h @ b) q = axi_run (q\<lparr>qa_buf := encode_header ?h @ b\<rparr>)" for b
    using assms(1) by (simp add: axi_recv_def serving_def)
  have g: "guest_write a d (q\<lparr>qa_buf := []\<rparr>) = guest_write a d q" "qa_buf (guest_write a d q) = []"
    using serving_buf [OF assms(1)] assms(1) by (simp_all add: guest_write_def serving_def)
  show "axi_recv (encode_header ?h @ d) q =
    (if backed q a (unat n) then (axi_reply AXI_MSG_ERROR 0 0, q\<lparr>qa_ram := mem_write (qa_ram q) a d\<rparr>)
     else ([], axi_close (guest_write a d q)))"
  proof (cases "backed q a (unat n)")
    case True
    then have "guest_write a d q = q\<lparr>qa_ram := mem_write (qa_ram q) a d\<rparr>"
      using assms(2) by (simp add: guest_write_def only_where_backed)
    moreover have "axi_service_backend ?h d ?q = Some (axi_reply AXI_MSG_ERROR 0 0, guest_write a d q)"
      using True assms(2) k g by (simp add: axi_service_backend_def h Let_def)
    ultimately show ?thesis using True g(2) by (simp add: rv axi_run_service [OF assms(1)] axi_run_short)
  next
    case False
    then have "axi_service_backend ?h d ?q = Some ([], axi_close (guest_write a d q))"
      using assms(2) k g by (simp add: axi_service_backend_def h Let_def)
    with False show ?thesis by (simp add: rv axi_run_service [OF assms(1)] axi_run_short axi_close_def)
  qed
  show "axi_recv (encode_header ?h @ take j d) q = ([], q\<lparr>qa_buf := encode_header ?h @ take j d\<rparr>)" if "j < length d"
    using that assms(2) k by (simp add: rv axi_run_service [OF assms(1)] axi_service_backend_def h Let_def)
qed

lemma send_header:
  assumes "Broken \<notin> set (sk_script k)" and "sk_peer k = Some q" and "serving q" and "axi_recv (encode_header h) q = (out, q')"
  shows "\<exists>s'. write_header (qemu_peer env) h k = (OK (), k\<lparr>sk_in := sk_in k @ out, sk_peer := Some q', sk_script := s'\<rparr>) \<and> Broken \<notin> set s'"
proof -
  have "qa_sockfd (snd (axi_recv (take j (encode_header h)) q))" if "j < 24" for j
    using recv_short [OF assms(3), of "take j (encode_header h)"] that assms(3) by (simp add: serving_def)
  with axi_stream.io_all_write_ok [OF assms(1,2), where bs = "encode_header h" and out = out and q' = q' and env = env] assms(3,4) show ?thesis
    by (simp add: write_header_def serving_def)
qed

section \<open>The contracts of the fabric\<close>

lemma axi_live_cases:
  assumes "axi_live gs k"
  obtains q where "sk_peer k = Some q" and "serving q" and "sk_in k = []" and "Broken \<notin> set (sk_script k)" and "qa_guest q = gs"
  using assms by (auto simp: axi_live_def)

text \<open>A closed connection ends the next read.\<close>

lemma read_header_closed: "sk_in k = [] \<Longrightarrow> sk_peer k = Some (axi_close q) \<Longrightarrow> fst (read_header (qemu_peer env) k) = Fail"
  using io_all_read_eof [of k "axi_close q" "qemu_peer env" AXI_HEADER_LEN]
  by (simp add: read_header_def bnd_stops(2) axi_next_def axi_close_def AXI_HEADER_LEN_def)

lemma axi_read_into:
  assumes "axi_live gs k"
  shows "axi_reach k a (unat n) \<Longrightarrow> \<exists>k'. sock_dma_read_into (qemu_peer env) a n k = (OK (mem_read (axi_ram k) a (unat n)), k') \<and>
      axi_live gs k' \<and> sk_peer k' = sk_peer k"
    and "\<not> axi_reach k a (unat n) \<Longrightarrow> fst (sock_dma_read_into (qemu_peer env) a n k) = Fail"
proof -
  obtain q where k: "sk_peer k = Some q" "serving q" "sk_in k = []" "Broken \<notin> set (sk_script k)" and gs: "qa_guest q = gs"
    using assms by (rule axi_live_cases)
  let ?h = "dma_request AXI_MSG_DMA_READ a n" and ?d = "mem_read (qa_ram q) a (unat n)"
  let ?r = "\<lparr>ah_kind = AXI_MSG_DMA_READ_REPLY, ah_flags = 0, ah_window_id = 0, ah_offset = a, ah_length = n\<rparr>"
  show "\<exists>k'. sock_dma_read_into (qemu_peer env) a n k = (OK (mem_read (axi_ram k) a (unat n)), k') \<and> axi_live gs k' \<and> sk_peer k' = sk_peer k"
    if "axi_reach k a (unat n)"
  proof -
    have "axi_recv (encode_header ?h) q = (encode_header ?r @ ?d, q)"
      using that k(1) recv_dma_read [OF k(2)] by (simp add: axi_reach_def axi_reply_def)
    from send_header [OF k(4,1,2) this, of env] k(3) obtain s1 where
      w: "write_header (qemu_peer env) ?h k = (OK (), k\<lparr>sk_in := encode_header ?r @ ?d, sk_peer := Some q, sk_script := s1\<rparr>)"
      "Broken \<notin> set s1" by auto
    let ?k1 = "k\<lparr>sk_in := encode_header ?r @ ?d, sk_peer := Some q, sk_script := s1\<rparr>"
    from read_header_ok [of ?k1 q "qemu_peer env" ?r ?d q] w(2) obtain s2 where
      r: "read_header (qemu_peer env) ?k1 = (OK ?r, k\<lparr>sk_in := ?d, sk_peer := Some q, sk_script := s2\<rparr>)" "Broken \<notin> set s2"
      by (auto simp: arriving_def)
    let ?k2 = "k\<lparr>sk_in := ?d, sk_peer := Some q, sk_script := s2\<rparr>"
    show ?thesis
    proof (cases "n = 0")
      case True
      with w r k gs show ?thesis by (simp add: sock_dma_read_into_def bnd_OK axi_live_def axi_ram_def)
    next
      case False
      then have ne: "?d \<noteq> []" by (simp add: mem_read_def unat_eq_0)
      from io_all_read_ok [of ?k2 q "qemu_peer env" ?d "[]" q] r(2) ne obtain s3 where
        "io_all_read (qemu_peer env) (unat n) ?k2 = (OK ?d, k\<lparr>sk_in := [], sk_peer := Some q, sk_script := s3\<rparr>)" "Broken \<notin> set s3"
        by (auto simp: arriving_def)
      with w r k gs False show ?thesis by (simp add: sock_dma_read_into_def bnd_OK axi_live_def axi_ram_def)
    qed
  qed
  show "fst (sock_dma_read_into (qemu_peer env) a n k) = Fail" if "\<not> axi_reach k a (unat n)"
  proof -
    have "axi_recv (encode_header ?h) q = ([], axi_close q)"
      using that k(1) recv_dma_read [OF k(2)] by (simp add: axi_reach_def)
    from send_header [OF k(4,1,2) this, of env] k(3) obtain s1 where
      "write_header (qemu_peer env) ?h k = (OK (), k\<lparr>sk_in := [], sk_peer := Some (axi_close q), sk_script := s1\<rparr>)" by auto
    then show ?thesis
      using read_header_closed [of "k\<lparr>sk_in := [], sk_peer := Some (axi_close q), sk_script := s1\<rparr>" q env]
      by (simp add: sock_dma_read_into_def bnd_OK bnd_stops(2))
  qed
qed

text \<open>Header and data of a write, sent by two calls.\<close>

lemma send_write:
  assumes k: "sk_peer k = Some q" "serving q" "sk_in k = []" "Broken \<notin> set (sk_script k)" and d: "length d = unat n"
    and rv: "axi_recv (encode_header (dma_request AXI_MSG_DMA_WRITE a n) @ d) q = (out, q')"
  shows "\<exists>s'. bnd (write_header (qemu_peer env) (dma_request AXI_MSG_DMA_WRITE a n)) (\<lambda>_.
      if n \<noteq> 0 then (if length d < unat n then trap else io_all_write (qemu_peer env) (take (unat n) d)) else ret ()) k =
      (OK (), k\<lparr>sk_in := out, sk_peer := Some q', sk_script := s'\<rparr>) \<and> Broken \<notin> set s'"
proof (cases "n = 0")
  case True
  then have "axi_recv (encode_header (dma_request AXI_MSG_DMA_WRITE a n)) q = (out, q')" using d rv by simp
  from send_header [OF k(4,1,2) this, of env] True k(3) show ?thesis by (auto simp: bnd_OK)
next
  case False
  let ?h = "encode_header (dma_request AXI_MSG_DMA_WRITE a n)" let ?q = "q\<lparr>qa_buf := ?h\<rparr>"
  have ne: "d \<noteq> []" using False d by (auto simp: unat_eq_0)
  have "axi_recv ?h q = ([], ?q)" using recv_dma_write(2) [OF k(2) d, of 0 a] ne by simp
  from send_header [OF k(4,1,2) this, of env] k(3) obtain s1 where
    w: "write_header (qemu_peer env) (dma_request AXI_MSG_DMA_WRITE a n) k = (OK (), k\<lparr>sk_in := [], sk_peer := Some ?q, sk_script := s1\<rparr>)"
    "Broken \<notin> set s1" by auto
  let ?k = "k\<lparr>sk_in := [], sk_peer := Some ?q, sk_script := s1\<rparr>"
  have eq: "axi_recv b ?q = axi_recv (?h @ b) q" for b
    using k(2) by (simp add: axi_recv_def serving_def)
  have "qa_sockfd (snd (axi_recv (take j d) ?q))" if "j < length d" for j
    using recv_dma_write(2) [OF k(2) d that, of a] k(2) unfolding eq by (simp add: serving_def)
  then obtain s2 where "io_all_write (qemu_peer env) d ?k = (OK (), ?k\<lparr>sk_in := sk_in ?k @ out, sk_peer := Some q', sk_script := s2\<rparr>)"
    "Broken \<notin> set s2"
    using axi_stream.io_all_write_ok [of ?k ?q env d out q'] w(2) ne rv k(2) by (auto simp: eq serving_def)
  moreover have "?k\<lparr>sk_in := sk_in ?k @ out, sk_peer := Some q', sk_script := s2\<rparr> = k\<lparr>sk_in := out, sk_peer := Some q', sk_script := s2\<rparr>"
    by simp
  ultimately show ?thesis using w(1) False d by (intro exI [of _ s2]) (simp add: bnd_OK)
qed

lemma axi_dma_write:
  assumes "axi_live gs k" and d: "length d = unat n"
  shows "axi_reach k a (unat n) \<Longrightarrow> \<exists>k'. sock_dma_write (qemu_peer env) a d n k = (OK (), k') \<and> axi_live gs k' \<and>
      sk_peer k' = Some ((axi_state k)\<lparr>qa_ram := mem_write (axi_ram k) a d\<rparr>)"
    and "\<not> axi_reach k a (unat n) \<Longrightarrow> fst (sock_dma_write (qemu_peer env) a d n k) = Fail"
proof -
  obtain q where k: "sk_peer k = Some q" "serving q" "sk_in k = []" "Broken \<notin> set (sk_script k)" and gs: "qa_guest q = gs"
    using assms(1) by (rule axi_live_cases)
  let ?q = "q\<lparr>qa_ram := mem_write (qa_ram q) a d\<rparr>"
  let ?r = "\<lparr>ah_kind = AXI_MSG_ERROR, ah_flags = 0, ah_window_id = 0, ah_offset = 0, ah_length = 0\<rparr>"
  show "\<exists>k'. sock_dma_write (qemu_peer env) a d n k = (OK (), k') \<and> axi_live gs k' \<and>
      sk_peer k' = Some ((axi_state k)\<lparr>qa_ram := mem_write (axi_ram k) a d\<rparr>)" if "axi_reach k a (unat n)"
  proof -
    have "axi_recv (encode_header (dma_request AXI_MSG_DMA_WRITE a n) @ d) q = (encode_header ?r @ [], ?q)"
      using that k(1) recv_dma_write(1) [OF k(2) d] by (simp add: axi_reach_def axi_reply_def)
    from send_write [OF k d this, of env] obtain s1 where
      w: "bnd (write_header (qemu_peer env) (dma_request AXI_MSG_DMA_WRITE a n)) (\<lambda>_.
        if n \<noteq> 0 then (if length d < unat n then trap else io_all_write (qemu_peer env) (take (unat n) d)) else ret ()) k =
        (OK (), k\<lparr>sk_in := encode_header ?r @ [], sk_peer := Some ?q, sk_script := s1\<rparr>)" "Broken \<notin> set s1" by blast
    let ?k1 = "k\<lparr>sk_in := encode_header ?r @ [], sk_peer := Some ?q, sk_script := s1\<rparr>"
    from read_header_ok [of ?k1 ?q "qemu_peer env" ?r "[]" ?q] w(2) obtain s2 where
      "read_header (qemu_peer env) ?k1 = (OK ?r, k\<lparr>sk_in := [], sk_peer := Some ?q, sk_script := s2\<rparr>)" "Broken \<notin> set s2"
      by (auto simp: arriving_def)
    with w(1) k gs show ?thesis
      by (simp add: sock_dma_write_def bnd_assoc [symmetric] bnd_OK axi_live_def axi_ram_def serving_def)
  qed
  show "fst (sock_dma_write (qemu_peer env) a d n k) = Fail" if "\<not> axi_reach k a (unat n)"
  proof -
    have "axi_recv (encode_header (dma_request AXI_MSG_DMA_WRITE a n) @ d) q = ([], axi_close (guest_write a d q))"
      using that k(1) recv_dma_write(1) [OF k(2) d] by (simp add: axi_reach_def)
    from send_write [OF k d this, of env] obtain s1 where
      w: "bnd (write_header (qemu_peer env) (dma_request AXI_MSG_DMA_WRITE a n)) (\<lambda>_.
        if n \<noteq> 0 then (if length d < unat n then trap else io_all_write (qemu_peer env) (take (unat n) d)) else ret ()) k =
        (OK (), k\<lparr>sk_in := [], sk_peer := Some (axi_close (guest_write a d q)), sk_script := s1\<rparr>)" by blast
    then show ?thesis
      using read_header_closed [of "k\<lparr>sk_in := [], sk_peer := Some (axi_close (guest_write a d q)), sk_script := s1\<rparr>" _ env]
      by (simp add: sock_dma_write_def bnd_assoc [symmetric] bnd_OK bnd_stops(2))
  qed
qed

lemma axi_irq:
  assumes "axi_live gs k"
  shows "\<exists>k'. sock_lower_irq (qemu_peer env) k = (OK (), k') \<and> axi_live gs k' \<and> sk_peer k' = Some ((axi_state k)\<lparr>qa_irq := False\<rparr>)"
    and "\<exists>k'. sock_raise_irq (qemu_peer env) k = (OK (), k') \<and> axi_live gs k' \<and> sk_peer k' = Some ((axi_state k)\<lparr>qa_irq := True\<rparr>)"
proof -
  have step: "\<exists>k'. write_header (qemu_peer env) h k = (OK (), k') \<and> axi_live gs k' \<and> sk_peer k' = Some ((axi_state k)\<lparr>qa_irq := l\<rparr>)"
    if "axi_live gs k" "\<And>q. serving q \<Longrightarrow> axi_recv (encode_header h) q = ([], q\<lparr>qa_irq := l\<rparr>)" for h l k
  proof -
    note rv = that(2)
    from that(1) obtain q where q: "sk_peer k = Some q" "serving q" "sk_in k = []" "Broken \<notin> set (sk_script k)" "qa_guest q = gs"
      by (rule axi_live_cases)
    from send_header [OF q(4,1,2) rv [OF q(2)], of env] q show ?thesis by (auto simp: axi_live_def serving_def)
  qed
  show lower: "\<exists>k'. sock_lower_irq (qemu_peer env) k = (OK (), k') \<and> axi_live gs k' \<and> sk_peer k' = Some ((axi_state k)\<lparr>qa_irq := False\<rparr>)"
    unfolding sock_lower_irq_def by (rule step [OF assms recv_simple(3)])
  then obtain k1 where k1: "sock_lower_irq (qemu_peer env) k = (OK (), k1)" "axi_live gs k1" "sk_peer k1 = Some ((axi_state k)\<lparr>qa_irq := False\<rparr>)"
    by blast
  from step [OF k1(2) recv_simple(2)] k1
  show "\<exists>k'. sock_raise_irq (qemu_peer env) k = (OK (), k') \<and> axi_live gs k' \<and> sk_peer k' = Some ((axi_state k)\<lparr>qa_irq := True\<rparr>)"
    by (simp add: sock_raise_irq_def bnd_OK)
qed

lemma reach_frame:
  "axi_live gs k \<Longrightarrow> sk_peer k' = sk_peer k \<Longrightarrow> axi_ram k' = axi_ram k \<and> axi_reach k' = axi_reach k"
  "axi_live gs k \<Longrightarrow> sk_peer k' = Some ((axi_state k)\<lparr>qa_ram := m\<rparr>) \<Longrightarrow> axi_ram k' = m \<and> axi_reach k' = axi_reach k"
  "axi_live gs k \<Longrightarrow> sk_peer k' = Some ((axi_state k)\<lparr>qa_irq := l\<rparr>) \<Longrightarrow> axi_ram k' = axi_ram k \<and> axi_reach k' = axi_reach k \<and> axi_line k' = l"
  by (auto simp: axi_ram_def axi_reach_def axi_line_def backed_def fun_eq_iff)

interpretation axi: guest_map "sock_ops (qemu_peer env)" "axi_live gs" axi_ram axi_reach axi_line
proof (unfold_locales, goal_cases)
  case (1 f a n)
  then obtain g where "sock_dma_read_into (qemu_peer env) a n f = (OK (mem_read (axi_ram f) a (unat n)), g)" "axi_live gs g" "sk_peer g = sk_peer f"
    using axi_read_into(1) by blast
  then show ?case using reach_frame(1) [OF 1(1), of g] by (simp add: sock_ops_def)
next
  case (2 a)
  show ?case by (simp add: sock_ops_def sock_dma_read_u16_def)
next
  case (3 f a n d)
  then obtain g where "sock_dma_write (qemu_peer env) a d n f = (OK (), g)" "axi_live gs g"
    "sk_peer g = Some ((axi_state f)\<lparr>qa_ram := mem_write (axi_ram f) a d\<rparr>)"
    using axi_dma_write(1) by blast
  then show ?case using reach_frame(2) [OF 3(1), of g] by (simp add: sock_ops_def)
next
  case (4 f)
  then obtain g where "sock_raise_irq (qemu_peer env) f = (OK (), g)" "axi_live gs g" "sk_peer g = Some ((axi_state f)\<lparr>qa_irq := True\<rparr>)"
    using axi_irq(2) by blast
  then show ?case using reach_frame(3) [OF 4, of g] by (simp add: sock_ops_def)
next
  case (5 f)
  then obtain g where "sock_lower_irq (qemu_peer env) f = (OK (), g)" "axi_live gs g" "sk_peer g = Some ((axi_state f)\<lparr>qa_irq := False\<rparr>)"
    using axi_irq(1) by blast
  then show ?case using reach_frame(3) [OF 5, of g] by (simp add: sock_ops_def)
next
  case (6 f a n)
  then show ?case by (simp add: sock_ops_def sock_dma_map_def)
next
  case (7 f p n)
  then show ?case by (simp add: sock_ops_def sock_dma_unmap_def)
qed

interpretation axi_bounds: guest_bounds "sock_ops (qemu_peer env)" "axi_live gs" axi_ram axi_reach
  by unfold_locales (auto simp: sock_ops_def sock_dma_read_def axi_read_into(2) axi_dma_write(2))

interpretation axi_alloc: guest_alloc "sock_ops (qemu_peer env)" "axi_live gs" axi_ram axi_reach axi_line
proof (unfold_locales, goal_cases)
  case (1 f a n heap)
  then obtain g where "sock_dma_read_into (qemu_peer env) a n f = (OK (mem_read (axi_ram f) a (unat n)), g)" "axi_live gs g" "sk_peer g = sk_peer f"
    using axi_read_into(1) by blast
  then show ?case using 1(3) reach_frame(1) [OF 1(1), of g] by (simp add: sock_ops_def sock_dma_read_def)
next
  case (2 f heap n a)
  then show ?case by (auto simp: sock_ops_def sock_dma_read_def)
qed

end
