(* ===== verification/Socket_Server.thy ===== *)
theory Socket_Server
  imports Socket_Serve
begin

unbundle bit_operations_syntax

text \<open>
  The server around the connections of the socket fabric: the directories of the socket path are
  made from the top, and \<open>fabric_run\<close> returns only false and with its sockets closed.
\<close>

section \<open>The directories of the socket path\<close>

abbreviation slash :: char where "slash \<equiv> CHR ''/''"

definition dir_path :: "bool \<Rightarrow> string list \<Rightarrow> string" where
  "dir_path absolute ps = (if absolute then ''/'' else []) @ join_with slash ps"

lemma join_with_snoc: "ps \<noteq> [] \<Longrightarrow> join_with c (ps @ [p]) = join_with c ps @ c # p"
  by (induction c ps rule: join_with.induct) auto

lemma length_join_with: "length (join_with c ps) = sum_list (map length ps) + (length ps - 1)"
  by (induction c ps rule: join_with.induct) auto

lemma length_dir_path: "length (dir_path a ps) = (if a then 1 else 0) + sum_list (map length ps) + (length ps - 1)"
  by (simp add: dir_path_def length_join_with)

lemma before_last_slash_app: "slash \<notin> set name \<Longrightarrow> before_last_slash (tmp @ slash # name) = Some tmp"
proof -
  assume "slash \<notin> set name"
  then have "dropWhile (\<lambda>c. c \<noteq> slash) (rev name @ slash # rev tmp) = slash # rev tmp"
    by (subst dropWhile_append2) auto
  then show ?thesis by (simp add: before_last_slash_def)
qed

lemma join_with_hd: "ps \<noteq> [] \<Longrightarrow> hd ps \<noteq> [] \<Longrightarrow> join_with c ps \<noteq> [] \<and> hd (join_with c ps) = hd (hd ps)"
  by (induction c ps rule: join_with.induct) auto

definition clean :: "string list \<Rightarrow> bool" where
  "clean ps \<longleftrightarrow> (\<forall>t \<in> set ps. t \<noteq> [] \<and> slash \<notin> set t)"

lemma dir_path_tokens: "clean ps \<Longrightarrow> strtok slash (dir_path a ps) = ps"
  by (simp add: dir_path_def clean_def strtok_sep strtok_join)

lemma dir_path_hd:
  assumes "clean ps" and "ps \<noteq> []"
  shows "dir_path a ps \<noteq> []" and "hd (dir_path a ps) = slash \<longleftrightarrow> a" and "dir_path a ps \<noteq> ''/''"
proof -
  have h: "hd ps \<noteq> []" "slash \<notin> set (hd ps)" using assms by (cases ps; simp add: clean_def)+
  then have "hd (hd ps) \<noteq> slash" by (metis hd_in_set)
  with join_with_hd [OF assms(2) h(1), of slash]
  show "dir_path a ps \<noteq> []" "hd (dir_path a ps) = slash \<longleftrightarrow> a" "dir_path a ps \<noteq> ''/''"
    by (auto simp: dir_path_def)
qed

lemma dir_path_step:
  assumes "clean (ps @ [p])"
  shows "(if dir_path a ps \<noteq> [] \<and> dir_path a ps \<noteq> ''/'' then dir_path a ps @ ''/'' else dir_path a ps) @ p = dir_path a (ps @ [p])"
    and "case before_last_slash (dir_path a (ps @ [p])) of None \<Rightarrow> True | Some d \<Rightarrow> d = [] \<or> ps \<noteq> [] \<and> d = dir_path a ps"
proof -
  have c: "clean ps" "slash \<notin> set p" using assms by (auto simp: clean_def)
  show "(if dir_path a ps \<noteq> [] \<and> dir_path a ps \<noteq> ''/'' then dir_path a ps @ ''/'' else dir_path a ps) @ p = dir_path a (ps @ [p])"
    using dir_path_hd [OF c(1)] by (cases "ps = []") (auto simp: dir_path_def join_with_snoc)
  show "case before_last_slash (dir_path a (ps @ [p])) of None \<Rightarrow> True | Some d \<Rightarrow> d = [] \<or> ps \<noteq> [] \<and> d = dir_path a ps"
  proof (cases "ps = []")
    case True
    then show ?thesis
      using c(2) before_last_slash_app [of p "[]"] by (auto simp: dir_path_def before_last_slash_def)
  next
    case False
    then have "dir_path a (ps @ [p]) = dir_path a ps @ slash # p" by (simp add: dir_path_def join_with_snoc)
    with False c(2) show ?thesis by (simp add: before_last_slash_app)
  qed
qed

lemma mkdir_ok:
  assumes "Broken \<notin> set (sk_script k)"
    and "case before_last_slash path of None \<Rightarrow> True | Some d \<Rightarrow> d = [] \<or> d \<in> set (sk_dirs k)"
  shows "\<exists>k'. mkdir path k = (True, k') \<and> set (sk_dirs k') = insert path (set (sk_dirs k)) \<and> Broken \<notin> set (sk_script k')"
  using assms
  by (auto simp: mkdir_def next_outcome_def split: option.splits list.splits outcome.splits)

lemma make_parts_ok:
  assumes "clean (ds @ ps)" and "Broken \<notin> set (sk_script k)" and "ds \<noteq> [] \<Longrightarrow> dir_path a ds \<in> set (sk_dirs k)"
    and "length (dir_path a (ds @ ps)) \<le> 4093"
  shows "\<exists>k'. make_parts (dir_path a ds) ps k = (OK (), k') \<and>
    set (sk_dirs k') = set (sk_dirs k) \<union> {dir_path a (ds @ take i ps) |i. 0 < i \<and> i \<le> length ps}"
  using assms
proof (induction ps arbitrary: ds k)
  case (Cons p ps)
  let ?d = "dir_path a (ds @ [p])"
  have c: "clean (ds @ [p])" using Cons.prems(1) by (simp add: clean_def)
  have len: "length (dir_path a ds) + length p + 2 < PATH_BUF"
    using Cons.prems(4) by (cases ds) (auto simp: length_dir_path PATH_BUF_def)
  have "case before_last_slash ?d of None \<Rightarrow> True | Some d \<Rightarrow> d = [] \<or> d \<in> set (sk_dirs k)"
    using dir_path_step(2) [OF c, of a] Cons.prems(3) by (auto split: option.splits)
  then obtain k1 where k1: "mkdir ?d k = (True, k1)" "set (sk_dirs k1) = insert ?d (set (sk_dirs k))" "Broken \<notin> set (sk_script k1)"
    using mkdir_ok [OF Cons.prems(2)] by blast
  obtain k' where k': "make_parts ?d ps k1 = (OK (), k')"
    "set (sk_dirs k') = set (sk_dirs k1) \<union> {dir_path a ((ds @ [p]) @ take i ps) |i. 0 < i \<and> i \<le> length ps}"
    using Cons.IH [of "ds @ [p]" k1] Cons.prems k1 by auto
  have "make_parts (dir_path a ds) (p # ps) k = (OK (), k')"
    using len k1(1) k'(1) by (simp only: make_parts.simps dir_path_step(1) [OF c] Let_def) simp
  moreover have "{dir_path a (ds @ take i (p # ps)) |i. 0 < i \<and> i \<le> length (p # ps)} =
      insert ?d {dir_path a ((ds @ [p]) @ take i ps) |i. 0 < i \<and> i \<le> length ps}" (is "?L = ?R")
  proof (intro equalityI subsetI)
    fix x assume "x \<in> ?L"
    then obtain i where i: "0 < i" "i \<le> length (p # ps)" "x = dir_path a (ds @ take i (p # ps))" by blast
    then obtain j where "i = Suc j" by (cases i) auto
    with i show "x \<in> ?R" by (cases "j = 0") auto
  next
    fix x assume "x \<in> ?R"
    then consider "x = ?d" | j where "0 < j" "j \<le> length ps" "x = dir_path a ((ds @ [p]) @ take j ps)" by blast
    then show "x \<in> ?L"
    proof cases
      case 1
      then show ?thesis by (intro CollectI exI [of _ 1]) simp
    next
      case 2
      then show ?thesis by (intro CollectI exI [of _ "Suc j"]) simp
    qed
  qed
  ultimately show ?case using k'(2) k1(2) by auto
qed simp

text \<open>
  The directories of the socket path are created. For a path with at least one directory and no
  longer than the path buffers allow, when no call fails, all directories on the way to the socket
  exist afterwards, whether they existed before or not and although a directory can only be made in
  an existing one, and nothing else was created.
\<close>

theorem parent_dirs_created:
  assumes "clean ps" and "ps \<noteq> []" and "slash \<notin> set name" and "length (dir_path a ps @ slash # name) \<le> 4094"
    and "Broken \<notin> set (sk_script k)"
  shows "\<exists>k'. ensure_parent_dir (dir_path a ps @ slash # name) k = (OK (), k') \<and>
    set (sk_dirs k') = set (sk_dirs k) \<union> {dir_path a (take i ps) |i. 0 < i \<and> i \<le> length ps}"
proof -
  have "ensure_parent_dir (dir_path a ps @ slash # name) k = make_parts (dir_path a []) ps k"
    using assms(3,4) dir_path_hd [OF assms(1,2), of a] dir_path_tokens [OF assms(1), of a]
    by (simp add: ensure_parent_dir_def before_last_slash_app PATH_BUF_def) (simp add: dir_path_def)
  with make_parts_ok [of "[]" ps k a] assms show ?thesis by auto
qed

theorem parent_dirs_created_witness:
  "\<exists>k'. ensure_parent_dir ''/run/axi/blk.sock'' (demo_sock\<lparr>sk_dirs := [''/run'']\<rparr>) = (OK (), k') \<and>
     ''/run/axi'' \<in> set (sk_dirs k')"
proof -
  have c: "clean [''run'', ''axi'']" by (simp add: clean_def)
  have p: "dir_path True [''run'', ''axi''] @ slash # ''blk.sock'' = ''/run/axi/blk.sock''" by (simp add: dir_path_def)
  have "length (dir_path True [''run'', ''axi''] @ slash # ''blk.sock'') \<le> 4094" "slash \<notin> set ''blk.sock''"
    "Broken \<notin> set (sk_script (demo_sock\<lparr>sk_dirs := [''/run'']\<rparr>))"
    by (simp_all add: dir_path_def demo_sock_def)
  from parent_dirs_created [OF c _ this(2,1,3)] obtain k' where
    k': "ensure_parent_dir ''/run/axi/blk.sock'' (demo_sock\<lparr>sk_dirs := [''/run'']\<rparr>) = (OK (), k')"
    "set (sk_dirs k') = {''/run''} \<union> {dir_path True (take i [''run'', ''axi'']) |i. 0 < i \<and> i \<le> 2}"
    unfolding p by (auto simp: demo_sock_def numeral_2_eq_2)
  have "dir_path True (take 2 [''run'', ''axi'']) = ''/run/axi''" by (simp add: dir_path_def)
  then have "''/run/axi'' \<in> {dir_path True (take i [''run'', ''axi'']) |i. 0 < i \<and> i \<le> 2}"
    by (intro CollectI exI [of _ 2]) simp
  with k' show ?thesis by auto
qed

section \<open>The server returns its sockets\<close>

text \<open>A device whose callbacks leave the listening socket alone.\<close>

definition leaves_listener :: "('o, 'q sock) daemon fabric_device \<Rightarrow> bool" where
  "leaves_listener dev \<longleftrightarrow> (\<forall>b off v len. keeps (fab_inv (listens b)) (dev_connect dev) \<and>
     keeps (fab_inv (listens b)) (dev_read dev off len) \<and> keeps (fab_inv (listens b)) (dev_write dev off v len))"

lemma keeps_sock_steps:
  "keeps (listens b) (read_header P)" "keeps (listens b) (write_header P h)" "keeps (listens b) (write_read_reply P h v)"
  "keeps (listens b) (read_value P len)"
  by (auto simp: read_header_def write_header_def write_read_reply_def read_value_def Let_def intro!: keeps_bnd keeps_if sock_parts)

lemma keeps_serve_loop:
  assumes "leaves_listener dev"
  shows "keeps (fab_inv (listens b)) (serve_loop P dev n)"
proof (induction n)
  case (Suc n)
  have "keeps (fab_inv (listens b)) (serve_request P dev h)" for h
    unfolding serve_request_def Let_def
    using assms by (intro keeps_if keeps_bnd keeps_basic fab_inv_on_fab keeps_sock_steps) (simp_all add: leaves_listener_def)
  then show ?case unfolding serve_loop.simps by (intro keeps_bnd fab_inv_on_fab keeps_sock_steps Suc)
qed (simp only: serve_loop.simps keeps_basic)

lemma keeps_serve_connection:
  "leaves_listener dev \<Longrightarrow> keeps (fab_inv (listens b)) (serve_connection P dev n)"
  unfolding serve_connection_def using keeps_serve_loop [of dev b P n]
  by (intro keeps_bnd) (simp_all add: leaves_listener_def)

text \<open>No connection and no listening socket.\<close>

definition all_closed :: "'q sock \<Rightarrow> bool" where
  "all_closed k \<longleftrightarrow> \<not> sk_listening k \<and> sk_peer k = None"

lemma sys_accept_cases:
  assumes "sys_accept k = (r, k')"
  shows "sk_listening k' = sk_listening k" and "r = OK AcceptError \<or> r = OK AcceptAgain \<Longrightarrow> sk_peer k' = sk_peer k"
    and "r = Spin \<or> (\<exists>a. r = OK a)"
  using assms by (auto simp: sys_accept_def next_outcome_def split: list.splits outcome.splits)

lemma accept_loop_returns:
  assumes "leaves_listener dev"
  shows "sk_peer (dm_fab s) = None \<Longrightarrow> sk_listening (dm_fab s) \<Longrightarrow> accept_loop P dev n m s = (r, s') \<Longrightarrow>
    (\<forall>u. r \<noteq> OK u) \<and> (r = Fail \<longrightarrow> all_closed (dm_fab s'))"
proof (induction m arbitrary: s)
  case (Suc m)
  obtain a k where a: "sys_accept (dm_fab s) = (a, k)" by fastforce
  note c = sys_accept_cases [OF a]
  show ?case
  proof (cases a)
    case (OK x)
    show ?thesis
    proof (cases x)
      case AcceptAgain
      with Suc.IH [of "s\<lparr>dm_fab := k\<rparr>"] Suc.prems a OK c show ?thesis by (simp add: on_fab_def bnd_def)
    next
      case AcceptError
      with Suc.prems a OK c show ?thesis by (auto simp: on_fab_def bnd_def all_closed_def)
    next
      case Connected
      let ?s = "s\<lparr>dm_fab := k\<rparr>"
      obtain w s1 where w: "serve_connection P dev n ?s = (w, s1)" by fastforce
      have "fab_inv (listens True) s1"
        by (rule keeps_run [OF keeps_serve_connection [OF assms] _ w]) (use c(1) Suc.prems in \<open>simp add: fab_inv_def listens_def\<close>)
      then have l: "sk_listening (dm_fab s1)" by (simp add: fab_inv_def listens_def)
      let ?t = "s1\<lparr>dm_fab := (dm_fab s1)\<lparr>sk_peer := None\<rparr>\<rparr>"
      have IH: "accept_loop P dev n m ?t = (r, s') \<Longrightarrow> (\<forall>u. r \<noteq> OK u) \<and> (r = Fail \<longrightarrow> all_closed (dm_fab s'))"
        by (rule Suc.IH) (use l in simp_all)
      show ?thesis
        using Suc.prems(3) a OK Connected w IH by (cases w) (auto simp: on_fab_def bnd_def attempt_def)
    qed
  next
    case Spin
    with Suc.prems(3) a show ?thesis by (auto simp: on_fab_def bnd_def)
  qed (use c(3) in auto)
qed auto

lemma setup_call_frame: "setup_call k = (r, k') \<Longrightarrow> sk_peer k' = sk_peer k \<and> sk_listening k' = sk_listening k \<and> r \<in> {OK (), Fail}"
  by (auto simp: setup_call_def next_outcome_def split: list.splits outcome.splits)

lemma open_listener_cases:
  assumes "open_listener path k = (r, k')" and "all_closed k"
  shows "r = OK () \<and> sk_listening k' \<and> sk_peer k' = None \<or> r = Fail \<and> all_closed k'"
proof -
  obtain r1 k1 where 1: "setup_call k = (r1, k1)" by fastforce
  let ?k = "k1\<lparr>sk_listening := True\<rparr>"
  obtain r2 k2 where 2: "setup_call ?k = (r2, k2)" by fastforce
  obtain r3 k3 where 3: "setup_call k2 = (r3, k3)" by fastforce
  show ?thesis
    using assms setup_call_frame [OF 1] setup_call_frame [OF 2] setup_call_frame [OF 3] 1 2 3
    by (auto simp: open_listener_def bnd_def all_closed_def split: if_splits)
qed

lemma mkdir_frame: "mkdir path k = (b, k') \<Longrightarrow> sk_peer k' = sk_peer k \<and> sk_listening k' = sk_listening k"
  by (auto simp: mkdir_def next_outcome_def split: if_splits list.splits outcome.splits option.splits)

lemma make_parts_frame: "make_parts partial ps k = (r, k') \<Longrightarrow> sk_peer k' = sk_peer k \<and> sk_listening k' = sk_listening k \<and> r \<in> {OK (), Fail}"
proof (induction ps arbitrary: partial k)
  case (Cons p ps)
  let ?d = "(if partial \<noteq> [] \<and> partial \<noteq> ''/'' then partial @ ''/'' else partial) @ p"
  obtain b k1 where m: "mkdir ?d k = (b, k1)" by fastforce
  show ?case
  proof (cases "length partial + length p + 2 \<ge> PATH_BUF")
    case True
    with Cons.prems show ?thesis by simp
  next
    case False
    with Cons.prems m have "make_parts ?d ps k1 = (r, k') \<and> b \<or> r = Fail \<and> k' = k1"
      by (cases b) (simp_all only: make_parts.simps Let_def if_False prod.case bool.case, simp_all)
    with Cons.IH [of ?d k1] mkdir_frame [OF m] show ?thesis by auto
  qed
qed simp

lemma ensure_frame: "ensure_parent_dir path k = (r, k') \<Longrightarrow> sk_peer k' = sk_peer k \<and> sk_listening k' = sk_listening k \<and> r \<in> {OK (), Fail}"
  by (auto simp: ensure_parent_dir_def split: if_splits option.splits dest!: make_parts_frame)

lemma run_device_returns:
  assumes "leaves_listener dev" and "all_closed (dm_fab s)" and "run_device P dev n m s = (r, s')"
  shows "r \<noteq> OK () \<and> (r = Fail \<longrightarrow> all_closed (dm_fab s'))"
proof -
  obtain r1 k1 where e: "ensure_parent_dir (fdev_socket_path dev) (dm_fab s) = (r1, k1)" by fastforce
  obtain r2 k2 where l: "open_listener (fdev_socket_path dev) k1 = (r2, k2)" by fastforce
  have c1: "all_closed k1" "r1 = OK () \<or> r1 = Fail" using ensure_frame [OF e] assms(2) by (auto simp: all_closed_def)
  note c2 = open_listener_cases [OF l c1(1)]
  have run: "r = Fail \<and> dm_fab s' = k1" if "r1 = Fail"
    using assms(3) e that by (simp add: run_device_def on_fab_def bnd_def) auto
  have run2: "r = Fail \<and> dm_fab s' = k2" if "r1 = OK ()" "r2 = Fail"
    using assms(3) e l that by (simp add: run_device_def on_fab_def bnd_def) auto
  have run3: "accept_loop P dev n m (s\<lparr>dm_fab := k2\<rparr>) = (r, s')" if "r1 = OK ()" "r2 = OK ()"
    using assms(3) e l that by (simp add: run_device_def on_fab_def bnd_def)
  show ?thesis using c1 c2 run run2 accept_loop_returns [OF assms(1) _ _ run3] by auto
qed

lemma blkd_leaves_listener: "leaves_listener (blkd_fabric_init_device (sock_ops P) dr n b path)"
  unfolding leaves_listener_def
proof (intro allI conjI)
  fix c off v len
  show "keeps (fab_inv (listens c)) (dev_connect (blkd_fabric_init_device (sock_ops P) dr n b path))"
    by (auto simp: keeps_def fab_inv_def dev_connect_def blkd_fabric_init_device_def blkd_connect_def Let_def)
  show "keeps (fab_inv (listens c)) (dev_read (blkd_fabric_init_device (sock_ops P) dr n b path) off len)"
    by (auto simp: keeps_def dev_read_def blkd_fabric_init_device_def)
  have "dev_write (blkd_fabric_init_device (sock_ops P) dr n b path) off v len = blkd_mmio_write (sock_ops P) dr n off v len"
    by (simp add: dev_write_def blkd_fabric_init_device_def)
  then show "keeps (fab_inv (listens c)) (dev_write (blkd_fabric_init_device (sock_ops P) dr n b path) off v len)"
    using fabric_keeps.fab_inv_blkd_write [OF sock_listens.fabric_keeps_axioms] by metis
qed

text \<open>
  The server of the socket fabric returns only false, and then with its listening socket and the
  last connection closed. This holds for the block device and any peers, connections, bytes and
  outcomes of system calls, for every number of requests and connections.
\<close>

theorem socket_run_releases:
  assumes "all_closed (dm_fab s)"
    and "qemu_fabric_run P n m (snd (fabric_register (blkd_fabric_init_device (sock_ops P) dr fl b path) bus)) s = (r, s')"
    and "fabric_wf bus" and "fb_device_count bus = 0"
  shows "r \<noteq> OK () \<and> (r = Fail \<longrightarrow> all_closed (dm_fab s'))"
proof -
  let ?d = "blkd_fabric_init_device (sock_ops P) dr fl b path"
  have "callable ?d" by (simp add: callable_def blkd_fabric_init_device_def)
  then have reg: "snd (fabric_register ?d bus) = registered ?d bus"
    using assms(4) by (simp add: fabric_register_eq FABRIC_MAX_DEVICES_def)
  have "length (fb_devices bus) = 8" using assms(3) by (simp add: fabric_wf_def FABRIC_MAX_DEVICES_def)
  then have "fb_devices (registered ?d bus) ! 0 = Some ?d" "fb_device_count (registered ?d bus) = 1"
    using assms(4) by (simp_all add: registered_def)
  then have "run_device P ?d n m s = (r, s')" using assms(2) by (simp add: reg qemu_fabric_run_def)
  with run_device_returns [OF blkd_leaves_listener assms(1)] show ?thesis by blast
qed

text \<open>The listening socket is set up and the first accept fails.\<close>

definition broken_sock :: "unit sock" where
  "broken_sock = \<lparr>sk_in = [], sk_peer = None, sk_pending = [], sk_listening = False, sk_dirs = [],
                  sk_script = [Partial 0, Partial 0, Partial 0, Broken]\<rparr>"

definition empty_bus :: "'s fabric" where
  "empty_bus = \<lparr>fb_devices = replicate 8 None, fb_device_count = 0\<rparr>"

theorem socket_run_releases_witness:
  "\<forall>mm h. let (r, s) = qemu_fabric_run silent_peer 1 1 (snd (fabric_register
       (blkd_fabric_init_device (sock_ops silent_peer) False 1 \<lparr>bb_fd = 3, bb_image_len = 2, bb_readonly = False\<rparr> ''s'') empty_bus))
       \<lparr>dm_mmio = mm, dm_fab = broken_sock, dm_host = h\<rparr>
     in r = Fail \<and> all_closed (dm_fab s)"
proof (intro allI)
  fix mm :: "blkd_virtio_device virtio_mmio" and h
  let ?d = "blkd_fabric_init_device (sock_ops silent_peer) False 1 \<lparr>bb_fd = 3, bb_image_len = 2, bb_readonly = False\<rparr> ''s''"
  let ?s = "\<lparr>dm_mmio = mm, dm_fab = broken_sock, dm_host = h\<rparr>"
  obtain r s' where run: "qemu_fabric_run silent_peer 1 1 (snd (fabric_register ?d empty_bus)) ?s = (r, s')" by fastforce
  have "fabric_wf (empty_bus :: unit sock blkd fabric)" "all_closed (dm_fab ?s)"
    by (simp_all add: fabric_wf_def empty_bus_def FABRIC_MAX_DEVICES_def all_closed_def broken_sock_def)
  with socket_run_releases [OF _ run] have "r = Fail \<longrightarrow> all_closed (dm_fab s')" by (simp add: empty_bus_def)
  moreover have "r = Fail"
    using run
    by (auto simp: fabric_register_eq callable_def blkd_fabric_init_device_def empty_bus_def FABRIC_MAX_DEVICES_def registered_def
        qemu_fabric_run_def run_device_def on_fab_def bnd_def ensure_parent_dir_def before_last_slash_def PATH_BUF_def
        open_listener_def setup_call_def next_outcome_def broken_sock_def SUN_PATH_def sys_accept_def)
  ultimately show "let (r, s) = qemu_fabric_run silent_peer 1 1 (snd (fabric_register ?d empty_bus)) ?s
      in r = Fail \<and> all_closed (dm_fab s)" by (simp only: run Let_def prod.case)
qed

end
