(* ===== verification/Socket_Blkd.thy ===== *)
theory Socket_Blkd
  imports Qemu_Axi Socket_Server Uio_Blkd_Run
begin

unbundle bit_operations_syntax

text \<open>
  The whole path over the socket, from a register access of the guest through QEMU, the stream and
  the daemon and back: a read returns what the device answers, and a notification ends with the
  requests served.
\<close>

section \<open>One access of the guest\<close>

text \<open>QEMU runs the guest, nothing is on the way, and \<open>gs\<close> are the accesses to come.\<close>

definition awaiting :: "guest_access list \<Rightarrow> qemu_axi sock \<Rightarrow> bool" where
  "awaiting gs k \<longleftrightarrow> Broken \<notin> set (sk_script k) \<and> sk_in k = [] \<and>
     (\<exists>q. sk_peer k = Some q \<and> qa_sockfd q \<and> qa_mode q = QIdle \<and> qa_buf q = [] \<and> qa_irq_wired q \<and> qa_guest q = gs)"

text \<open>The value of the first \<open>n\<close> bytes of \<open>v\<close>, as they are carried.\<close>

definition low_bytes :: "u32 \<Rightarrow> u64 \<Rightarrow> u64" where
  "low_bytes n v = virtio_load_le64 (take (unat n) (virtio_store_le64 v) @ replicate (8 - unat n) 0)"

lemma low_bytes_word: "low_bytes 4 v = v AND 0xffffffff"
proof -
  have "take 4 (virtio_store_le64 v) = virtio_store_le32 (ucast v)" by (simp add: virtio_store_le64_def)
  moreover have "virtio_load_le32 (replicate 4 0) = 0" by (simp add: virtio_load_le32_def)
  ultimately have "low_bytes 4 v = ucast (ucast v :: u32)" by (simp add: low_bytes_def virtio_load_le64_def)
  also have "\<dots> = v AND mask 32" by (rule bit_word_eqI) (auto simp: bit_simps)
  finally show ?thesis by (simp add: mask_eq_exp_minus_1)
qed

lemma low_bytes_full: "low_bytes 8 v = v"
  by (simp add: low_bytes_def)

definition in_window :: "'s fabric_device \<Rightarrow> u64 \<Rightarrow> u32 \<Rightarrow> bool" where
  "in_window dev off n \<longleftrightarrow> fdev_addr dev = 0 \<and> n \<le> 8 \<and> off \<le> fdev_size dev \<and> ucast n \<le> fdev_size dev - off"

lemma in_window_access:
  "in_window dev off n \<Longrightarrow> ah_window_id h = 0 \<Longrightarrow> ah_offset h = off \<Longrightarrow> ah_length h = n \<Longrightarrow>
   access_in_range dev h \<and> device_offset dev off = off"
  by (simp add: in_window_def access_in_range_def device_offset_def)

lemma receive_write:
  assumes aw: "awaiting (GuestWrite off v n # gs) k" and n: "n \<noteq> 0" "n \<le> 8"
  shows "\<exists>k1. bnd (read_header (qemu_peer env)) (\<lambda>h. bnd (read_value (qemu_peer env) n) (\<lambda>w. ret (h, w))) k =
      (OK (dma_request AXI_MSG_MMIO_WRITE off n, low_bytes n v), k1) \<and> axi_live gs k1 \<and>
      sk_peer k1 = Some ((axi_state k)\<lparr>qa_guest := gs, qa_mode := QService\<rparr>)"
proof -
  obtain q where q: "sk_peer k = Some q" "sk_in k = []" "Broken \<notin> set (sk_script k)" "qa_sockfd q" "qa_mode q = QIdle"
    "qa_buf q = []" "qa_irq_wired q" "qa_guest q = GuestWrite off v n # gs"
    using aw by (auto simp: awaiting_def)
  let ?h = "dma_request AXI_MSG_MMIO_WRITE off n" and ?q = "q\<lparr>qa_guest := gs, qa_mode := QService\<rparr>"
  let ?d = "take (unat n) (virtio_store_le64 v)"
  have len: "unat n \<le> 8" "length ?d = unat n" "?d \<noteq> []"
    using n length_store_le(3) [of v] by (auto simp: word_le_nat_alt unat_eq_0 simp del: length_store_le)
  have "arriving (qemu_peer env) k q = (encode_header ?h @ ?d, ?q)"
    using q by (simp add: arriving_def axi_next_def axi_reply_def dma_request_def)
  from read_header_ok [OF q(3,1) this] obtain s1 where
    r: "read_header (qemu_peer env) k = (OK ?h, k\<lparr>sk_in := ?d, sk_peer := Some ?q, sk_script := s1\<rparr>)" "Broken \<notin> set s1" by auto
  let ?k1 = "k\<lparr>sk_in := ?d, sk_peer := Some ?q, sk_script := s1\<rparr>"
  from io_all_read_ok [of ?k1 ?q "qemu_peer env" ?d "[]" ?q] r(2) len obtain s2 where
    i: "io_all_read (qemu_peer env) (unat n) ?k1 = (OK ?d, k\<lparr>sk_in := [], sk_peer := Some ?q, sk_script := s2\<rparr>)" "Broken \<notin> set s2"
    by (auto simp: arriving_def)
  have "\<not> n > 8" using n(2) by simp
  with r i have "bnd (read_header (qemu_peer env)) (\<lambda>h. bnd (read_value (qemu_peer env) n) (\<lambda>w. ret (h, w))) k =
      (OK (?h, low_bytes n v), k\<lparr>sk_in := [], sk_peer := Some ?q, sk_script := s2\<rparr>)"
    by (simp add: bnd_OK read_value_def low_bytes_def)
  with q i(2) show ?thesis by (simp add: axi_live_def serving_def)
qed

lemma write_ack_eq: "write_ack = dma_request AXI_MSG_ERROR 0 0"
  by (simp add: write_ack_def dma_request_def)

lemma acknowledge:
  assumes "axi_live gs k"
  shows "\<exists>k'. write_header (qemu_peer env) write_ack k = (OK (), k') \<and> awaiting (qa_guest (axi_state k)) k' \<and>
    sk_peer k' = Some ((axi_state k)\<lparr>qa_mode := QIdle\<rparr>)"
proof -
  obtain q where q: "sk_peer k = Some q" "serving q" "sk_in k = []" "Broken \<notin> set (sk_script k)" "qa_guest q = gs"
    using assms by (rule axi_live_cases)
  from send_header [OF q(4,1,2) recv_simple(1) [OF q(2)], of env] q show ?thesis
    by (auto simp: write_ack_eq awaiting_def serving_def)
qed

lemma serve_write:
  assumes aw: "awaiting (GuestWrite off v n # gs) (dm_fab s)" and n: "n \<noteq> 0" and win: "in_window dev off n"
    and wr: "\<And>k. axi_live gs k \<Longrightarrow> sk_peer k = Some ((axi_state (dm_fab s))\<lparr>qa_guest := gs, qa_mode := QService\<rparr>) \<Longrightarrow>
      \<exists>t. dev_write dev off (low_bytes n v) n (s\<lparr>dm_fab := k\<rparr>) = (OK (), t) \<and> axi_live gs (dm_fab t) \<and> Q t"
  shows "\<exists>t k. (\<forall>m. serve_loop (qemu_peer env) dev (Suc m) s = serve_loop (qemu_peer env) dev m (t\<lparr>dm_fab := k\<rparr>)) \<and> Q t \<and>
    awaiting (qa_guest (axi_state (dm_fab t))) k \<and> sk_peer k = Some ((axi_state (dm_fab t))\<lparr>qa_mode := QIdle\<rparr>)"
proof -
  let ?P = "qemu_peer env" and ?h = "dma_request AXI_MSG_MMIO_WRITE off n"
  have n8: "n \<le> 8" using win by (simp add: in_window_def)
  from receive_write [OF aw n n8, of env] obtain k1 where
    k1: "bnd (read_header ?P) (\<lambda>h. bnd (read_value ?P n) (\<lambda>w. ret (h, w))) (dm_fab s) = (OK (?h, low_bytes n v), k1)" "axi_live gs k1"
      "sk_peer k1 = Some ((axi_state (dm_fab s))\<lparr>qa_guest := gs, qa_mode := QService\<rparr>)" by blast
  then obtain k0 where k0: "read_header ?P (dm_fab s) = (OK ?h, k0)" "read_value ?P n k0 = (OK (low_bytes n v), k1)"
    by (auto elim!: bndE)
  from wr [OF k1(2,3)] obtain t where t: "dev_write dev off (low_bytes n v) n (s\<lparr>dm_fab := k1\<rparr>) = (OK (), t)" "axi_live gs (dm_fab t)" "Q t"
    by blast
  from acknowledge [OF t(2), of env] obtain k where k: "write_header ?P write_ack (dm_fab t) = (OK (), k)"
    "awaiting (qa_guest (axi_state (dm_fab t))) k" "sk_peer k = Some ((axi_state (dm_fab t))\<lparr>qa_mode := QIdle\<rparr>)" by blast
  have "access_in_range dev ?h \<and> device_offset dev off = off"
    by (rule in_window_access [OF win]) (simp_all add: dma_request_def)
  then have "serve_request ?P dev ?h (s\<lparr>dm_fab := k0\<rparr>) = (OK (), t\<lparr>dm_fab := k\<rparr>)"
    using k0(2) t(1) k(1) by (simp add: serve_request_def Let_def bnd_def on_fab_def dma_request_def axi_kinds)
  then have "serve_loop ?P dev (Suc m) s = serve_loop ?P dev m (t\<lparr>dm_fab := k\<rparr>)" for m
    using k0(1) by (simp add: bnd_def on_fab_def)
  with t(3) k(2,3) show ?thesis by blast
qed

section \<open>Reads\<close>

definition read_reply :: "u64 \<Rightarrow> u32 \<Rightarrow> axi_header" where
  "read_reply off n = dma_request AXI_MSG_MMIO_READ_REPLY off n"

lemma recv_read_reply:
  assumes q: "qa_sockfd q" "qa_mode q = QRead" "qa_buf q = []" and n: "n \<le> 8" and d: "length d = unat n"
  shows "axi_recv (encode_header (read_reply off n) @ d) q =
      ([], q\<lparr>qa_mode := QIdle, qa_values := qa_values q @ [virtio_load_le64 (d @ replicate (8 - unat n) 0)]\<rparr>)"
    and "j < length d \<Longrightarrow> axi_recv (encode_header (read_reply off n) @ take j d) q = ([], q\<lparr>qa_buf := encode_header (read_reply off n) @ take j d\<rparr>)"
    and "length b < 24 \<Longrightarrow> axi_recv b q = ([], q\<lparr>qa_buf := b\<rparr>)"
proof -
  let ?h = "encode_header (read_reply off n)"
  have h: "ah_kind (read_reply off n) = AXI_MSG_MMIO_READ_REPLY" "ah_length (read_reply off n) = n" "\<not> n > 8"
    using n by (simp_all add: read_reply_def dma_request_def)
  have b: "q\<lparr>qa_buf := []\<rparr> = q" using q(3) by (cases q) simp
  have m: "axi_message (q\<lparr>qa_buf := ?h @ r\<rparr>) = axi_read_reply (read_reply off n) r (q\<lparr>qa_buf := ?h @ r\<rparr>)" for r
    using q by (simp add: axi_message_def Let_def)
  show "axi_recv (?h @ d) q = ([], q\<lparr>qa_mode := QIdle, qa_values := qa_values q @ [virtio_load_le64 (d @ replicate (8 - unat n) 0)]\<rparr>)"
    using q d h b by (simp add: axi_recv_def axi_run.simps [of "q\<lparr>qa_buf := ?h @ d\<rparr>"] m axi_read_reply_def Let_def axi_run_short)
  show "axi_recv (?h @ take j d) q = ([], q\<lparr>qa_buf := ?h @ take j d\<rparr>)" if "j < length d"
    using q d h that by (simp add: axi_recv_def axi_run.simps [of "q\<lparr>qa_buf := ?h @ take j d\<rparr>"] m axi_read_reply_def Let_def)
  show "axi_recv b q = ([], q\<lparr>qa_buf := b\<rparr>)" if "length b < 24"
    using q that by (simp add: axi_recv_def axi_run_short)
qed

lemma send_read_reply:
  assumes k: "Broken \<notin> set (sk_script k)" "sk_peer k = Some q" "sk_in k = []"
    and q: "qa_sockfd q" "qa_mode q = QRead" "qa_buf q = []" and n: "n \<noteq> 0" "n \<le> 8"
  shows "\<exists>s'. write_read_reply (qemu_peer env) (dma_request AXI_MSG_MMIO_READ off n) v k =
      (OK (), k\<lparr>sk_peer := Some (q\<lparr>qa_mode := QIdle, qa_values := qa_values q @ [low_bytes n v]\<rparr>), sk_script := s'\<rparr>) \<and> Broken \<notin> set s'"
proof -
  let ?P = "qemu_peer env" and ?h = "encode_header (read_reply off n)" and ?d = "take (unat n) (virtio_store_le64 v)"
  let ?q' = "q\<lparr>qa_mode := QIdle, qa_values := qa_values q @ [low_bytes n v]\<rparr>" let ?q1 = "q\<lparr>qa_buf := ?h\<rparr>"
  have len: "length ?d = unat n" "?d \<noteq> []"
    using n length_store_le(3) [of v] by (auto simp: word_le_nat_alt unat_eq_0 simp del: length_store_le)
  note rv = recv_read_reply(1,2) [OF q n(2) len(1), where off = off] recv_read_reply(3) [OF q n(2) len(1)]
  have "axi_recv ?h q = ([], ?q1)" using rv(2) [of 0] len by simp
  moreover have "qa_sockfd (snd (axi_recv (take j ?h) q))" if "j < 24" for j
    using rv(3) [of "take j ?h"] that q(1) by simp
  ultimately obtain s1 where w: "io_all_write ?P ?h k = (OK (), k\<lparr>sk_in := sk_in k @ [], sk_peer := Some ?q1, sk_script := s1\<rparr>)" "Broken \<notin> set s1"
    using axi_stream.io_all_write_ok [OF k(1,2), where bs = ?h and out = "[]" and q' = ?q1 and env = env] q(1) by auto
  let ?k1 = "k\<lparr>sk_in := [], sk_peer := Some ?q1, sk_script := s1\<rparr>"
  have eq: "axi_recv b ?q1 = axi_recv (?h @ b) q" for b using q by (simp add: axi_recv_def)
  have "qa_sockfd (snd (axi_recv (take j ?d) ?q1))" if "j < length ?d" for j
    using rv(2) [OF that] q(1) unfolding eq by simp
  then obtain s2 where "io_all_write ?P ?d ?k1 = (OK (), ?k1\<lparr>sk_in := sk_in ?k1 @ [], sk_peer := Some ?q', sk_script := s2\<rparr>)" "Broken \<notin> set s2"
    using axi_stream.io_all_write_ok [where k = ?k1 and q = ?q1 and bs = ?d and out = "[]" and q' = ?q' and env = env] w(2) len rv(1) q(1)
    by (auto simp: eq low_bytes_def)
  moreover have "?k1\<lparr>sk_in := sk_in ?k1 @ [], sk_peer := Some ?q', sk_script := s2\<rparr> = k\<lparr>sk_peer := Some ?q', sk_script := s2\<rparr>"
    using k(3) by (cases k) simp
  moreover have "write_read_reply ?P (dma_request AXI_MSG_MMIO_READ off n) v = bnd (io_all_write ?P ?h) (\<lambda>_. io_all_write ?P ?d)"
    using n(2) by (cases "n = 8") (auto simp: write_read_reply_def write_header_def read_reply_def dma_request_def Let_def)
  moreover have "bnd (io_all_write ?P ?h) (\<lambda>_. io_all_write ?P ?d) k = io_all_write ?P ?d ?k1"
    using w(1) k(3) by (simp add: bnd_def)
  ultimately show ?thesis by auto
qed

text \<open>
  C14: a register read of the guest returns what the device answers. The guest reads \<open>n\<close> bytes at an
  offset inside the window; through QEMU, the socket with any interruptions and short transfers, the
  daemon and back, the access returns exactly the first \<open>n\<close> bytes of the device's answer, the device
  is unchanged, and both sides are ready for the guest's next access.
\<close>

theorem socket_read_delivered:
  assumes "awaiting (GuestRead off n # gs) (dm_fab s)" and "n \<noteq> 0" and "in_window dev off n"
    and "\<And>k. dev_read dev off n (s\<lparr>dm_fab := k\<rparr>) = (OK v, s\<lparr>dm_fab := k\<rparr>)"
  shows "\<exists>k. (\<forall>m. serve_loop (qemu_peer env) dev (Suc m) s = serve_loop (qemu_peer env) dev m (s\<lparr>dm_fab := k\<rparr>)) \<and> awaiting gs k \<and>
    qa_values (axi_state k) = qa_values (axi_state (dm_fab s)) @ [low_bytes n v] \<and> qa_ram (axi_state k) = qa_ram (axi_state (dm_fab s))"
proof -
  let ?P = "qemu_peer env" and ?h = "dma_request AXI_MSG_MMIO_READ off n" and ?k = "dm_fab s"
  obtain q where q: "sk_peer ?k = Some q" "sk_in ?k = []" "Broken \<notin> set (sk_script ?k)" "qa_sockfd q" "qa_mode q = QIdle"
    "qa_buf q = []" "qa_irq_wired q" "qa_guest q = GuestRead off n # gs"
    using assms(1) by (auto simp: awaiting_def)
  let ?q = "q\<lparr>qa_guest := gs, qa_mode := QRead\<rparr>"
  have "arriving ?P ?k q = (encode_header ?h @ [], ?q)"
    using q by (simp add: arriving_def axi_next_def axi_reply_def dma_request_def)
  from read_header_ok [OF q(3,1) this] obtain s1 where
    r: "read_header ?P ?k = (OK ?h, ?k\<lparr>sk_in := [], sk_peer := Some ?q, sk_script := s1\<rparr>)" "Broken \<notin> set s1" by auto
  let ?k1 = "?k\<lparr>sk_in := [], sk_peer := Some ?q, sk_script := s1\<rparr>"
  have n8: "n \<le> 8" using assms(3) by (simp add: in_window_def)
  from send_read_reply [of ?k1 ?q n env off v] r(2) q n8 assms(2) obtain s2 where
    w: "write_read_reply ?P ?h v ?k1 = (OK (), ?k1\<lparr>sk_peer := Some (?q\<lparr>qa_mode := QIdle, qa_values := qa_values q @ [low_bytes n v]\<rparr>), sk_script := s2\<rparr>)"
    "Broken \<notin> set s2" by auto
  let ?k2 = "?k1\<lparr>sk_peer := Some (?q\<lparr>qa_mode := QIdle, qa_values := qa_values q @ [low_bytes n v]\<rparr>), sk_script := s2\<rparr>"
  have "access_in_range dev ?h \<and> device_offset dev off = off"
    by (rule in_window_access [OF assms(3)]) (simp_all add: dma_request_def)
  moreover have "ah_kind ?h = AXI_MSG_MMIO_READ" "ah_offset ?h = off" "ah_length ?h = n" by (simp_all add: dma_request_def)
  ultimately have "serve_request ?P dev ?h (s\<lparr>dm_fab := ?k1\<rparr>) = (OK (), s\<lparr>dm_fab := ?k2\<rparr>)"
    using assms(4) w(1) by (simp add: serve_request_def Let_def bnd_OK on_fab_def)
  then have "serve_loop ?P dev (Suc m) s = serve_loop ?P dev m (s\<lparr>dm_fab := ?k2\<rparr>)" for m
    using r(1) by (simp add: bnd_def on_fab_def)
  moreover have "awaiting gs ?k2" "qa_values (axi_state ?k2) = qa_values (axi_state ?k) @ [low_bytes n v]"
    "qa_ram (axi_state ?k2) = qa_ram (axi_state ?k)"
    using q w(2) by (simp_all add: awaiting_def)
  ultimately show ?thesis by blast
qed

section \<open>Notifications\<close>

abbreviation axi_blkd :: "bool \<Rightarrow> nat \<Rightarrow> blkd_block_backend \<Rightarrow> string \<Rightarrow> qemu_axi sock blkd fabric_device" where
  "axi_blkd dr n b path \<equiv> blkd_fabric_init_device (sock_ops (qemu_peer (\<lambda>_. id))) dr n b path"

lemma axi_blkd_calls:
  "dev_write (axi_blkd dr n b path) off v len = blkd_mmio_write (sock_ops (qemu_peer (\<lambda>_. id))) dr n off v len"
  "dev_read (axi_blkd dr n b path) off len = (\<lambda>s. (OK (blkd_mmio_read (sock_ops (qemu_peer (\<lambda>_. id))) dr n off len s), s))"
  "in_window (axi_blkd dr n b path) off 4 \<longleftrightarrow> off \<le> 0x1fc"
proof -
  show "in_window (axi_blkd dr n b path) off 4 \<longleftrightarrow> off \<le> 0x1fc"
    by (auto simp: in_window_def blkd_fabric_init_device_def word_le_nat_alt unat_sub)
qed (simp_all add: dev_write_def dev_read_def blkd_fabric_init_device_def fun_eq_iff)

text \<open>Between two accesses QEMU is not in its service loop; the rest of what makes the backend ready holds.\<close>

lemma ready_live: "blk_srv_ready (\<lambda>_. True) f wr s c \<Longrightarrow> axi_live gs k \<Longrightarrow> blk_srv_ready (axi_live gs) f wr (s\<lparr>dm_fab := k\<rparr>) c"
  by (simp add: blk_srv_ready_def blk_ready_def)

lemma axi_quiet: "axi_live gs k \<Longrightarrow> fabric_usleep (sock_ops (qemu_peer (\<lambda>_. id))) t k = k"
  by (cases k) (auto simp: axi_live_def sock_ops_def qemu_peer_def)

text \<open>
  C9: the whole path of a notification on the socket fabric. The guest puts \<open>k\<close> well-formed chains into
  its available ring and writes the queue number 0 to the notification register. QEMU forwards the
  access; while it waits for the acknowledgement it serves the daemon's requests for guest memory over
  the same socket, in whatever pieces the stream comes. When the guest's store completes, all \<open>k\<close>
  requests are done as the specification of the requests says (memory, used ring, image and cursor),
  the interrupt line is up, and both sides are ready for the guest's next access.
\<close>

theorem socket_notification_served:
  assumes "awaiting (GuestWrite VIRTIO_MMIO_QUEUE_NOTIFY 0 4 # gs) (dm_fab s)"
    and "blk_srv_ready (\<lambda>_. True) f wr s c" and "vd_queues (dm_vdev s) = [q]" and "vq_ready q \<noteq> 0"
    and "serve_ok (blk_good wr n (axi_reach (dm_fab s)) (h_heap (dm_host s))) (axi_reach (dm_fab s)) blk_serve
           k (axi_ram (dm_fab s)) c q"
    and "0 < k" and "k < n" and "serve_all blk_serve k (axi_ram (dm_fab s)) c q = (m', c', q')"
  shows "\<exists>t. (\<forall>m. serve_loop (qemu_peer (\<lambda>_. id)) (axi_blkd dr n b path) (Suc m) s =
        serve_loop (qemu_peer (\<lambda>_. id)) (axi_blkd dr n b path) m t) \<and>
    awaiting gs (dm_fab t) \<and> axi_ram (dm_fab t) = m' \<and> axi_line (dm_fab t) \<and>
    h_files (dm_host t) (of_path f) = Some c' \<and> vd_queues (dm_vdev t) = [q'] \<and>
    vd_interrupt_status (dm_vdev t) = vd_interrupt_status (dm_vdev s) OR VIRTIO_INTERRUPT_VRING"
proof -
  let ?dev = "axi_blkd dr n b path" and ?q1 = "(axi_state (dm_fab s))\<lparr>qa_guest := gs, qa_mode := QService\<rparr>"
  let ?Q = "\<lambda>t. axi_ram (dm_fab t) = m' \<and> axi_line (dm_fab t) \<and> h_files (dm_host t) (of_path f) = Some c' \<and>
    vd_queues (dm_vdev t) = [q'] \<and> vd_interrupt_status (dm_vdev t) = vd_interrupt_status (dm_vdev s) OR VIRTIO_INTERRUPT_VRING \<and>
    qa_guest (axi_state (dm_fab t)) = gs"
  have win: "in_window ?dev VIRTIO_MMIO_QUEUE_NOTIFY 4" by (simp add: axi_blkd_calls(3) vm_simps)
  have wr: "\<exists>t. dev_write ?dev VIRTIO_MMIO_QUEUE_NOTIFY (low_bytes 4 0) 4 (s\<lparr>dm_fab := k1\<rparr>) = (OK (), t) \<and> axi_live gs (dm_fab t) \<and> ?Q t"
    if k1: "axi_live gs k1" "sk_peer k1 = Some ?q1" for k1
  proof -
    have same: "axi_reach k1 = axi_reach (dm_fab s)" "axi_ram k1 = axi_ram (dm_fab s)"
      using k1(2) by (auto simp: axi_reach_def axi_ram_def backed_def fun_eq_iff)
    have "\<exists>t. blkd_virtio_notify_queue (sock_ops (qemu_peer (\<lambda>_. id))) dr n 0 (s\<lparr>dm_fab := k1\<rparr>) = (OK (), t) \<and> axi_live gs (dm_fab t) \<and>
        axi_ram (dm_fab t) = m' \<and> h_files (dm_host t) (of_path f) = Some c' \<and> vd_queues (dm_vdev t) = [q'] \<and>
        vd_interrupt_status (dm_vdev t) = vd_interrupt_status (dm_vdev (s\<lparr>dm_fab := k1\<rparr>)) OR VIRTIO_INTERRUPT_VRING \<and> axi_line (dm_fab t)"
      by (rule guest_map.blk_notify_ok [OF axi.guest_map_axioms])
        (use assms ready_live [OF assms(2) k1(1)] in \<open>simp_all add: same axi_quiet\<close>)
    then obtain t where t: "blkd_virtio_notify_queue (sock_ops (qemu_peer (\<lambda>_. id))) dr n 0 (s\<lparr>dm_fab := k1\<rparr>) = (OK (), t)"
      "axi_live gs (dm_fab t)" "axi_ram (dm_fab t) = m'" "h_files (dm_host t) (of_path f) = Some c'" "vd_queues (dm_vdev t) = [q']"
      "vd_interrupt_status (dm_vdev t) = vd_interrupt_status (dm_vdev s) OR VIRTIO_INTERRUPT_VRING" "axi_line (dm_fab t)" by auto
    have "low_bytes 4 0 = 0" by (simp add: low_bytes_word)
    then have run: "dev_write ?dev VIRTIO_MMIO_QUEUE_NOTIFY (low_bytes 4 0) 4 (s\<lparr>dm_fab := k1\<rparr>) = (OK (), t)"
      using t(1) by (simp add: axi_blkd_calls(1) blkd_mmio_write_def blkd_virtio_ops_def driver_write_notify)
    moreover have "qa_guest (axi_state (dm_fab t)) = gs" using t(2) by (auto simp: axi_live_def)
    ultimately show ?thesis using t by blast
  qed
  from serve_write [OF assms(1) _ win, of ?Q "\<lambda>_. id"] wr obtain t k' where
    t: "\<forall>m. serve_loop (qemu_peer (\<lambda>_. id)) ?dev (Suc m) s = serve_loop (qemu_peer (\<lambda>_. id)) ?dev m (t\<lparr>dm_fab := k'\<rparr>)" "?Q t"
      "awaiting (qa_guest (axi_state (dm_fab t))) k'" "sk_peer k' = Some ((axi_state (dm_fab t))\<lparr>qa_mode := QIdle\<rparr>)" by auto
  have "axi_ram k' = axi_ram (dm_fab t)" "axi_line k' = axi_line (dm_fab t)" using t(4) by (simp_all add: axi_ram_def axi_line_def)
  with t show ?thesis by (intro exI [of _ "t\<lparr>dm_fab := k'\<rparr>"]) simp
qed

section \<open>A small guest behind the socket\<close>

definition sock_demo :: "memory \<Rightarrow> guest_access list \<Rightarrow> qemu_axi sock" where
  "sock_demo m gs = \<lparr>sk_in = [], sk_peer = Some \<lparr>qa_buf = [], qa_mode = QIdle, qa_sockfd = True, qa_irq_wired = True, qa_irq = False,
       qa_ram = m, qa_backed = (\<lambda>a. unat a < 4096), qa_guest = gs, qa_values = []\<rparr>,
     sk_pending = [], sk_listening = True, sk_dirs = [], sk_script = [Partial 6, Interrupted]\<rparr>"

definition sock_state :: "memory \<Rightarrow> guest_access list \<Rightarrow> qemu_axi sock blkd" where
  "sock_state m gs = \<lparr>dm_mmio = dm_mmio (demo_state m), dm_fab = sock_demo m gs, dm_host = demo_host\<rparr>"

lemma sock_state_awaits: "awaiting gs (dm_fab (sock_state m gs))"
  by (simp add: awaiting_def sock_state_def sock_demo_def)

lemma sock_reach: "axi_reach (dm_fab (sock_state m gs)) = uio_reach (dm_fab (demo_state m'))"
proof (intro ext)
  fix a :: u64 and n
  have "(\<forall>i < n. unat (a + of_nat i) < 4096) \<longleftrightarrow> n = 0 \<or> unat a + n \<le> 4096"
  proof
    assume b: "\<forall>i < n. unat (a + of_nat i) < 4096"
    show "n = 0 \<or> unat a + n \<le> 4096"
    proof (rule ccontr)
      assume c: "\<not> (n = 0 \<or> unat a + n \<le> 4096)"
      then have "unat (a + of_nat 0) < 4096" using b by blast
      then have "unat a < 4096" by simp
      have "4096 - unat a < n" using c \<open>unat a < 4096\<close> by linarith
      with b have "unat (a + of_nat (4096 - unat a)) < 4096" by blast
      moreover have "a + of_nat (4096 - unat a) = 4096" using \<open>unat a < 4096\<close> by (simp add: of_nat_diff)
      ultimately show False by simp
    qed
  next
    assume "n = 0 \<or> unat a + n \<le> 4096"
    then show "\<forall>i < n. unat (a + of_nat i) < 4096"
      by (auto simp: unat_word_ariths unat_of_nat)
  qed
  then show "axi_reach (dm_fab (sock_state m gs)) a n = uio_reach (dm_fab (demo_state m')) a n"
    by (simp add: demo_uio_reach axi_reach_def backed_def sock_state_def sock_demo_def)
qed

theorem socket_read_delivered_witness:
  "\<exists>k. (\<forall>m. serve_loop (qemu_peer (\<lambda>_. id)) (axi_blkd False 2 demo_backend ''s'') (Suc m) (sock_state notify_ram [GuestRead 0 4]) =
        serve_loop (qemu_peer (\<lambda>_. id)) (axi_blkd False 2 demo_backend ''s'') m ((sock_state notify_ram [])\<lparr>dm_fab := k\<rparr>)) \<and>
     awaiting [] k \<and> qa_values (axi_state k) = [0x74726976]"
proof -
  let ?s = "sock_state notify_ram [GuestRead 0 4]"
  have "dev_read (axi_blkd False 2 demo_backend ''s'') 0 4 (?s\<lparr>dm_fab := k\<rparr>) = (OK 0x74726976, ?s\<lparr>dm_fab := k\<rparr>)" for k
    by (simp add: axi_blkd_calls(2) blkd_mmio_read_def driver_mmio_read_def virtio_mmio_read_def vm_simps mask_read_def)
  moreover have "in_window (axi_blkd False 2 demo_backend ''s'') 0 4" by (simp add: axi_blkd_calls(3))
  moreover have "low_bytes 4 0x74726976 = 0x74726976" by (simp add: low_bytes_word)
  moreover have "?s\<lparr>dm_fab := k\<rparr> = (sock_state notify_ram [])\<lparr>dm_fab := k\<rparr>" for k by (simp add: sock_state_def)
  moreover have "qa_values (axi_state (dm_fab ?s)) = []" by (simp add: sock_state_def sock_demo_def)
  ultimately show ?thesis
    using socket_read_delivered [OF sock_state_awaits, of 4 "axi_blkd False 2 demo_backend ''s''" 0 notify_ram "[]" "0x74726976" "\<lambda>_. id"]
    by (auto simp del: serve_loop.simps)
qed

theorem socket_notification_served_witness:
  "\<exists>t. (\<forall>m. serve_loop (qemu_peer (\<lambda>_. id)) (axi_blkd False 2 demo_backend ''s'') (Suc m)
          (sock_state notify_ram [GuestWrite VIRTIO_MMIO_QUEUE_NOTIFY 0 4]) =
        serve_loop (qemu_peer (\<lambda>_. id)) (axi_blkd False 2 demo_backend ''s'') m t) \<and>
     awaiting [] (dm_fab t) \<and> axi_ram (dm_fab t) = used_push served_ram demo_queue 0 5 \<and> axi_line (dm_fab t)"
proof -
  let ?s = "sock_state notify_ram [GuestWrite VIRTIO_MMIO_QUEUE_NOTIFY 0 4]" let ?c = "[1, 2, 3, 4, 5, 6, 7, 8]"
  have ready: "blk_srv_ready (\<lambda>_. True) demo_file True ?s ?c"
    using demo_ready [of notify_ram] demo_writable(1) demo_writable(2) [of notify_ram]
    by (simp add: blk_srv_ready_def blk_ready_def sock_state_def demo_state_def)
  have q: "vd_queues (dm_vdev ?s) = [demo_queue]" "vq_ready demo_queue \<noteq> 0"
    by (simp_all add: sock_state_def demo_state_def demo_queue_def)
  have ram: "axi_ram (dm_fab ?s) = notify_ram" "h_heap (dm_host ?s) = 4096"
    by (simp_all add: axi_ram_def sock_state_def sock_demo_def demo_host_def)
  have ok: "serve_ok (blk_good True 2 (axi_reach (dm_fab ?s)) (h_heap (dm_host ?s))) (axi_reach (dm_fab ?s)) blk_serve
      1 (axi_ram (dm_fab ?s)) ?c demo_queue"
    unfolding ram sock_reach [where m' = notify_ram] by (rule notify_serve_ok) simp
  have all: "serve_all blk_serve 1 (axi_ram (dm_fab ?s)) ?c demo_queue = (used_push served_ram demo_queue 0 5, ?c, consume demo_queue)"
    unfolding ram using notify_pending notify_serve by simp
  from socket_notification_served [OF sock_state_awaits ready q ok _ _ all, of False demo_backend "''s''"] show ?thesis by (auto simp del: serve_loop.simps)
qed

end
