(* ===== verification/Linux_Devmem.thy ===== *)
theory Linux_Devmem
  imports Uio_Loop
begin

unbundle bit_operations_syntax

text \<open>
  The Linux \<^verbatim>\<open>/dev/mem\<close> fabric, \<^verbatim>\<open>src/fabrics/linux_devmem.c\<close>: configuration from the environment and the
  endpoint, mappings of physical memory, DMA and the interrupt register through short-lived mappings,
  and the polling loop. Physical memory is one byte-addressed memory that the guest writes too: it holds
  the register aperture, guest memory and the interrupt control register. What the guest does to it
  while the daemon sleeps, before a register is looked at and while the device handles a register is an
  argument of the functions concerned. \<open>fabric_run\<close> loops for ever, so it is a function of the list of
  turns of its loop; after the last one the outcome is \<open>Spin\<close>.
\<close>

section \<open>Configuration and state\<close>

definition DEVMEM_NOTIFY_IDLE :: u32 where "DEVMEM_NOTIFY_IDLE = 0xffffffff"

record devmem_config =
  dc_path :: string
  dc_mmio_base :: u64
  dc_mmio_size :: u64
  dc_poll_us :: u32
  dc_have_irq :: bool
  dc_irq_addr :: u64
  dc_irq_assert :: u32
  dc_irq_deassert :: u32

text \<open>
  A pointer into a mapping is the physical address it stands for, \<open>None\<close> is NULL; \<open>dv_phys\<close> is physical
  memory. \<open>dv_mapped\<close> is no variable of the code but what the kernel has mapped for the aperture, which
  is more than the \<open>mmio_map_len\<close> bytes the code asks for: whole pages.
\<close>

record devmem_state =
  dv_fd :: int
  dv_mmio_map :: "u64 option"
  dv_mmio :: "u64 option"
  dv_mmio_map_len :: u64
  dv_mmio_page_delta :: u64
  dv_mapped :: nat
  dv_config :: devmem_config
  dv_phys :: memory

text \<open>
  The kernel: the page size and which ranges (page-aligned base, length) it lets a process map through
  the device file.
\<close>

record devmem_kernel =
  dk_page_size :: u64
  dk_mmap :: "u64 \<Rightarrow> u64 \<Rightarrow> bool"

text \<open>\<open>mmap\<close> maps whole pages.\<close>

definition whole_pages :: "devmem_kernel \<Rightarrow> u64 \<Rightarrow> nat" where
  "whole_pages K len = (unat len + unat (dk_page_size K) - 1) div unat (dk_page_size K) * unat (dk_page_size K)"

text \<open>An access to the aperture stays inside the mapped pages or faults.\<close>

definition register_mapped :: "devmem_state \<Rightarrow> u64 \<Rightarrow> bool" where
  "register_mapped g off \<longleftrightarrow> unat (dv_mmio_page_delta g) + unat off + 4 \<le> dv_mapped g"

definition devmem_load_le32 :: "u64 \<Rightarrow> (devmem_state, u32) act" where
  "devmem_load_le32 off = (\<lambda>g. case dv_mmio g of
     None \<Rightarrow> (Trap, g)
   | Some p \<Rightarrow> if register_mapped g off then (OK (virtio_load_le32 (mem_read (dv_phys g) (p + off) 4)), g) else (Trap, g))"

definition devmem_store_le32 :: "u64 \<Rightarrow> u32 \<Rightarrow> (devmem_state, unit) act" where
  "devmem_store_le32 off value = (\<lambda>g. case dv_mmio g of
     None \<Rightarrow> (Trap, g)
   | Some p \<Rightarrow> if register_mapped g off
       then (OK (), g\<lparr>dv_phys := mem_write (dv_phys g) (p + off) (virtio_store_le32 value)\<rparr>) else (Trap, g))"

section \<open>Parsing\<close>

text \<open>\<open>parse_u64\<close> has the body of the function of the same name in the UIO fabric.\<close>

definition devmem_parse_u32 :: "string \<Rightarrow> u32 option" where
  "devmem_parse_u32 value = (case parse_u64 value of
     None \<Rightarrow> None | Some parsed \<Rightarrow> if parsed > 0xffffffff then None else Some (ucast parsed))"

text \<open>An output parameter is the setter of the field it points to.\<close>

definition put_u64 :: "string \<Rightarrow> (u64 \<Rightarrow> devmem_config \<Rightarrow> devmem_config) \<Rightarrow> (devmem_config, unit) act" where
  "put_u64 value out = (case parse_u64 value of None \<Rightarrow> fail | Some v \<Rightarrow> modify (out v))"

definition put_u32 :: "string \<Rightarrow> (u32 \<Rightarrow> devmem_config \<Rightarrow> devmem_config) \<Rightarrow> (devmem_config, unit) act" where
  "put_u32 value out = (case devmem_parse_u32 value of None \<Rightarrow> fail | Some v \<Rightarrow> modify (out v))"

type_synonym environment = "string \<Rightarrow> string option"

definition env_u64 :: "environment \<Rightarrow> string \<Rightarrow> (u64 \<Rightarrow> devmem_config \<Rightarrow> devmem_config) \<Rightarrow> (devmem_config, unit) act" where
  "env_u64 getenv name out = (case getenv name of None \<Rightarrow> ret () | Some value \<Rightarrow> put_u64 value out)"

definition env_u32 :: "environment \<Rightarrow> string \<Rightarrow> (u32 \<Rightarrow> devmem_config \<Rightarrow> devmem_config) \<Rightarrow> (devmem_config, unit) act" where
  "env_u32 getenv name out = (case getenv name of None \<Rightarrow> ret () | Some value \<Rightarrow> put_u32 value out)"

text \<open>The loop over the parts of the endpoint; the result is the number of parts.\<close>

fun endpoint_parts :: "nat \<Rightarrow> string list \<Rightarrow> (devmem_config, nat) act" where
  "endpoint_parts index [] = ret index"
| "endpoint_parts index (part # parts) =
     bnd (if index = 0 then put_u64 part (\<lambda>v. dc_mmio_base_update (\<lambda>_. v))
          else if index = 1 then put_u64 part (\<lambda>v. dc_mmio_size_update (\<lambda>_. v))
          else if index = 2 then put_u32 part (\<lambda>v. dc_poll_us_update (\<lambda>_. v))
          else fail) (\<lambda>_.
     endpoint_parts (Suc index) parts)"

definition devmem_parse_endpoint :: "string \<Rightarrow> (devmem_config, unit) act" where
  "devmem_parse_endpoint endpoint =
     (if take 7 endpoint \<noteq> ''devmem:'' then ret ()
      else if length (drop 7 endpoint) \<ge> 256 then fail
      else bnd (endpoint_parts 0 (strtok (CHR '':'') (drop 7 endpoint))) (\<lambda>index. guard (index \<ge> 1)))"

definition default_config :: "environment \<Rightarrow> u64 \<Rightarrow> devmem_config" where
  "default_config getenv size' =
     \<lparr>dc_path = (case getenv ''CHIPLETS_DEVMEM_PATH'' of None \<Rightarrow> ''/dev/mem'' | Some p \<Rightarrow> if p = [] then ''/dev/mem'' else p),
      dc_mmio_base = 0, dc_mmio_size = size', dc_poll_us = 1000, dc_have_irq = False, dc_irq_addr = 0,
      dc_irq_assert = 1, dc_irq_deassert = 0\<rparr>"

definition load_config :: "environment \<Rightarrow> 's fabric_device \<Rightarrow> (devmem_config, unit) act" where
  "load_config getenv device =
     bnd (modify (\<lambda>_. default_config getenv (fdev_size device))) (\<lambda>_.
     bnd (env_u64 getenv ''CHIPLETS_DEVMEM_MMIO_BASE'' (\<lambda>v. dc_mmio_base_update (\<lambda>_. v))) (\<lambda>_.
     bnd (env_u64 getenv ''CHIPLETS_DEVMEM_MMIO_SIZE'' (\<lambda>v. dc_mmio_size_update (\<lambda>_. v))) (\<lambda>_.
     bnd (env_u32 getenv ''CHIPLETS_DEVMEM_POLL_US'' (\<lambda>v. dc_poll_us_update (\<lambda>_. v))) (\<lambda>_.
     bnd (env_u32 getenv ''CHIPLETS_DEVMEM_IRQ_ASSERT'' (\<lambda>v. dc_irq_assert_update (\<lambda>_. v))) (\<lambda>_.
     bnd (env_u32 getenv ''CHIPLETS_DEVMEM_IRQ_DEASSERT'' (\<lambda>v. dc_irq_deassert_update (\<lambda>_. v))) (\<lambda>_.
     bnd (devmem_parse_endpoint (fdev_socket_path device)) (\<lambda>_.
     bnd (case getenv ''CHIPLETS_DEVMEM_IRQ_ADDR'' of
            None \<Rightarrow> ret ()
          | Some value \<Rightarrow> bnd (put_u64 value (\<lambda>v. dc_irq_addr_update (\<lambda>_. v))) (\<lambda>_. modify (dc_have_irq_update (\<lambda>_. True)))) (\<lambda>_.
     bnd (gets id) (\<lambda>config.
     guard (dc_mmio_base config \<noteq> 0 \<and> fdev_size device \<le> dc_mmio_size config))))))))))"

section \<open>Mappings\<close>

text \<open>
  The mapped page base (\<open>None\<close> is MAP_FAILED), the length of the mapping and the offset into it. \<open>mmap\<close>
  refuses the length zero.
\<close>

definition map_phys :: "devmem_kernel \<Rightarrow> devmem_state \<Rightarrow> u64 \<Rightarrow> u64 \<Rightarrow> u64 option \<times> u64 \<times> u64" where
  "map_phys K g paddr len =
     (let page_mask = dk_page_size K - 1;
          base = paddr AND NOT page_mask;
          page_delta = paddr - base;
          map_len = page_delta + len
      in (if 0 \<le> dv_fd g \<and> map_len \<noteq> 0 \<and> dk_mmap K base map_len then Some base else None, map_len, page_delta))"

definition cleanup_devmem :: "(('o, devmem_state) daemon, unit) act" where
  "cleanup_devmem = modify (\<lambda>s.
     let g = dm_fab s;
         (g1, h) = (if dv_mmio_map g = None then (g, dm_host s)
               else (g\<lparr>dv_mmio_map := None, dv_mmio := None, dv_mmio_map_len := 0, dv_mmio_page_delta := 0, dv_mapped := 0\<rparr>,
                     sys_munmap (unat (dv_mmio_map_len g)) (dm_host s)))
     in if dv_fd g1 \<ge> 0
        then s\<lparr>dm_fab := g1\<lparr>dv_fd := - 1\<rparr>, dm_host := sys_close (dv_fd g1) h\<rparr>
        else s\<lparr>dm_fab := g1, dm_host := h\<rparr>)"

section \<open>DMA and interrupts\<close>

definition devmem_dma_read_into :: "devmem_kernel \<Rightarrow> u64 \<Rightarrow> u32 \<Rightarrow> (devmem_state, u8 list) act" where
  "devmem_dma_read_into K gpa len = (\<lambda>g.
     if len = 0 then (OK [], g)
     else case map_phys K g gpa (ucast len) of
       (None, _, _) \<Rightarrow> (Fail, g)
     | (Some map', _, page_delta) \<Rightarrow> (OK (mem_read (dv_phys g) (map' + page_delta) (unat len)), g))"

definition devmem_dma_read :: "devmem_kernel \<Rightarrow> nat \<Rightarrow> u64 \<Rightarrow> u32 \<Rightarrow> (devmem_state, u8 list) act" where
  "devmem_dma_read K heap gpa len =
     (if len = 0 then ret []
      else if unat len > heap then fail
      else devmem_dma_read_into K gpa len)"

definition devmem_dma_map :: "u64 \<Rightarrow> u32 \<Rightarrow> (devmem_state, u64 option) act" where
  "devmem_dma_map gpa len = fail"

definition devmem_dma_unmap :: "u64 option \<Rightarrow> u32 \<Rightarrow> (devmem_state, unit) act" where
  "devmem_dma_unmap data len = ret ()"

definition devmem_dma_read_u16 :: "devmem_kernel \<Rightarrow> u64 \<Rightarrow> (devmem_state, u16) act" where
  "devmem_dma_read_u16 K gpa = bnd (devmem_dma_read_into K gpa 2) (\<lambda>data. ret (virtio_load_le16 data))"

definition devmem_dma_write :: "devmem_kernel \<Rightarrow> u64 \<Rightarrow> u8 list \<Rightarrow> u32 \<Rightarrow> (devmem_state, unit) act" where
  "devmem_dma_write K gpa data len = (\<lambda>g.
     if len = 0 then (OK (), g)
     else case map_phys K g gpa (ucast len) of
       (None, _, _) \<Rightarrow> (Fail, g)
     | (Some map', _, page_delta) \<Rightarrow>
         if unat len \<le> length data
         then (OK (), g\<lparr>dv_phys := mem_write (dv_phys g) (map' + page_delta) (take (unat len) data)\<rparr>)
         else (Trap, g))"

text \<open>The store of a value to the interrupt control register, through a mapping made for it.\<close>

definition store_irq :: "devmem_kernel \<Rightarrow> u32 \<Rightarrow> (devmem_state, unit) act" where
  "store_irq K value = (\<lambda>g.
     case map_phys K g (dc_irq_addr (dv_config g)) 4 of
       (None, _, _) \<Rightarrow> (Fail, g)
     | (Some map', _, page_delta) \<Rightarrow>
         (OK (), g\<lparr>dv_phys := mem_write (dv_phys g) (map' + page_delta) (virtio_store_le32 value)\<rparr>))"

definition devmem_lower_irq :: "devmem_kernel \<Rightarrow> (devmem_state, unit) act" where
  "devmem_lower_irq K = bnd (gets dv_config) (\<lambda>config.
     if \<not> dc_have_irq config then ret () else store_irq K (dc_irq_deassert config))"

definition devmem_raise_irq :: "devmem_kernel \<Rightarrow> (devmem_state, unit) act" where
  "devmem_raise_irq K = bnd (gets dv_config) (\<lambda>config.
     if \<not> dc_have_irq config then ret ()
     else bnd (devmem_lower_irq K) (\<lambda>_. store_irq K (dc_irq_assert config)))"

text \<open>What the guest does to physical memory.\<close>

type_synonym phys_update = "memory \<Rightarrow> memory"

definition phys_acts :: "phys_update \<Rightarrow> devmem_state \<Rightarrow> devmem_state" where
  "phys_acts u g = g\<lparr>dv_phys := u (dv_phys g)\<rparr>"

definition devmem_ops :: "devmem_kernel \<Rightarrow> (nat \<Rightarrow> phys_update) \<Rightarrow> devmem_state fabric_ops" where
  "devmem_ops K env =
     \<lparr>fabric_dma_read = devmem_dma_read K, fabric_dma_read_into = devmem_dma_read_into K,
      fabric_dma_map = devmem_dma_map, fabric_ptr_store = (\<lambda>p bs. trap), fabric_dma_unmap = devmem_dma_unmap,
      fabric_dma_read_u16 = devmem_dma_read_u16 K, fabric_dma_write = devmem_dma_write K,
      fabric_raise_irq = devmem_raise_irq K, fabric_lower_irq = devmem_lower_irq K,
      fabric_usleep = (\<lambda>t. phys_acts (env t))\<rparr>"

section \<open>The polling loop\<close>

definition devmem_publish :: "('o, devmem_state) daemon fabric_device \<Rightarrow> u64 \<Rightarrow> (('o, devmem_state) daemon, unit) act" where
  "devmem_publish dev off = bnd (dev_read dev off 4) (\<lambda>v. on_fab (devmem_store_le32 off (ucast v)))"

fun devmem_publish_each :: "('o, devmem_state) daemon fabric_device \<Rightarrow> u64 list \<Rightarrow> (('o, devmem_state) daemon, unit) act" where
  "devmem_publish_each dev [] = ret ()"
| "devmem_publish_each dev (off # offs) =
     bnd (if off + 4 \<le> fdev_size dev then devmem_publish dev off else ret ()) (\<lambda>_.
     devmem_publish_each dev offs)"

text \<open>The loop over the configuration space, one unit of fuel per word.\<close>

fun devmem_publish_config :: "('o, devmem_state) daemon fabric_device \<Rightarrow> nat \<Rightarrow> u64 \<Rightarrow> (('o, devmem_state) daemon, unit) act" where
  "devmem_publish_config dev 0 off = spin"
| "devmem_publish_config dev (Suc n) off =
     (if off + 4 \<le> fdev_size dev
      then bnd (devmem_publish dev off) (\<lambda>_. devmem_publish_config dev n (off + 4))
      else ret ())"

text \<open>The table of registers is the same as in the UIO fabric.\<close>

definition devmem_refresh_read_registers ::
  "nat \<Rightarrow> ('o, devmem_state) daemon fabric_device \<Rightarrow> (('o, devmem_state) daemon, unit) act" where
  "devmem_refresh_read_registers n dev =
     bnd (devmem_publish_each dev published_registers) (\<lambda>_. devmem_publish_config dev n VIRTIO_MMIO_CONFIG)"

definition guest_phys :: "phys_update \<Rightarrow> (('o, devmem_state) daemon, unit) act" where
  "guest_phys u = modify (\<lambda>s. s\<lparr>dm_fab := phys_acts u (dm_fab s)\<rparr>)"

text \<open>
  One pass of the scan: register \<open>i\<close>, at \<open>off = offsets ! i\<close>. \<open>busy\<close> is what the guest has done when the
  device returns from its callback.
\<close>

definition devmem_poll_register ::
  "phys_update \<Rightarrow> ('o, devmem_state) daemon fabric_device \<Rightarrow> u64 list \<Rightarrow> nat \<Rightarrow> u32 list \<Rightarrow>
   (('o, devmem_state) daemon, u32 list) act" where
  "devmem_poll_register busy dev offsets i shadow =
     (let off = offsets ! i in
      if off + 4 > fdev_size dev then ret shadow
      else bnd (on_fab (devmem_load_le32 off)) (\<lambda>value.
      if value = shadow ! i then ret shadow
      else bnd (dev_write dev off (ucast value) 4) (\<lambda>_.
           bnd (guest_phys busy) (\<lambda>_.
           if off = VIRTIO_MMIO_QUEUE_NOTIFY then
             bnd (on_fab (devmem_store_le32 off DEVMEM_NOTIFY_IDLE)) (\<lambda>_. ret (shadow[i := DEVMEM_NOTIFY_IDLE]))
           else if off = VIRTIO_MMIO_INTERRUPT_ACK then
             bnd (on_fab (devmem_store_le32 off 0)) (\<lambda>_. ret (shadow[i := 0]))
           else ret (shadow[i := value])))))"

text \<open>
  The scan from register \<open>i\<close>, the first argument counting the registers left. \<open>race i\<close> is what the guest
  does just before register \<open>i\<close> is looked at, and while the device handles it.
\<close>

fun devmem_poll_from ::
  "nat \<Rightarrow> (nat \<Rightarrow> phys_update \<times> phys_update) \<Rightarrow> ('o, devmem_state) daemon fabric_device \<Rightarrow> u64 list \<Rightarrow> nat \<Rightarrow> u32 list \<Rightarrow>
   (('o, devmem_state) daemon, u32 list) act" where
  "devmem_poll_from 0 race dev offsets i shadow = ret shadow"
| "devmem_poll_from (Suc k) race dev offsets i shadow =
     bnd (guest_phys (fst (race i))) (\<lambda>_.
     bnd (devmem_poll_register (snd (race i)) dev offsets i shadow) (\<lambda>shadow.
     devmem_poll_from k race dev offsets (Suc i) shadow))"

definition devmem_poll_write_registers ::
  "(nat \<Rightarrow> phys_update \<times> phys_update) \<Rightarrow> ('o, devmem_state) daemon fabric_device \<Rightarrow> u32 list \<Rightarrow> u64 list \<Rightarrow>
   (('o, devmem_state) daemon, u32 list) act" where
  "devmem_poll_write_registers race dev shadow offsets = devmem_poll_from (length offsets) race dev offsets 0 shadow"

definition devmem_write_offsets :: "u64 list" where
  "devmem_write_offsets =
     [VIRTIO_MMIO_DEVICE_FEATURES_SEL, VIRTIO_MMIO_DRIVER_FEATURES, VIRTIO_MMIO_DRIVER_FEATURES_SEL,
      VIRTIO_MMIO_QUEUE_SEL, VIRTIO_MMIO_QUEUE_NUM, VIRTIO_MMIO_QUEUE_READY, VIRTIO_MMIO_QUEUE_DESC_LOW,
      VIRTIO_MMIO_QUEUE_DESC_HIGH, VIRTIO_MMIO_QUEUE_AVAIL_LOW, VIRTIO_MMIO_QUEUE_AVAIL_HIGH,
      VIRTIO_MMIO_QUEUE_USED_LOW, VIRTIO_MMIO_QUEUE_USED_HIGH, VIRTIO_MMIO_QUEUE_NOTIFY,
      VIRTIO_MMIO_INTERRUPT_ACK, VIRTIO_MMIO_STATUS]"

section \<open>The run of the fabric\<close>

fun devmem_load_shadow :: "'s fabric_device \<Rightarrow> u64 list \<Rightarrow> (devmem_state, u32 list) act" where
  "devmem_load_shadow dev [] = ret []"
| "devmem_load_shadow dev (off # offs) =
     bnd (if off + 4 \<le> fdev_size dev then devmem_load_le32 off else ret 0) (\<lambda>v.
     bnd (devmem_load_shadow dev offs) (\<lambda>vs. ret (v # vs)))"

definition devmem_idle_shadow :: "u64 list \<Rightarrow> u32 list \<Rightarrow> u32 list" where
  "devmem_idle_shadow offs shadow = map2 (\<lambda>off v. if off = VIRTIO_MMIO_QUEUE_NOTIFY then DEVMEM_NOTIFY_IDLE else v) offs shadow"

definition devmem_setup :: "nat \<Rightarrow> ('o, devmem_state) daemon fabric_device \<Rightarrow> (('o, devmem_state) daemon, u32 list) act" where
  "devmem_setup n dev =
     bnd (dev_connect dev) (\<lambda>_.
     bnd (on_fab (devmem_load_shadow dev devmem_write_offsets)) (\<lambda>shadow.
     bnd (on_fab (devmem_store_le32 VIRTIO_MMIO_QUEUE_NOTIFY DEVMEM_NOTIFY_IDLE)) (\<lambda>_.
     bnd (devmem_refresh_read_registers n dev) (\<lambda>_.
     ret (devmem_idle_shadow devmem_write_offsets shadow)))))"

text \<open>A turn of the loop: what the guest does during the scan, and while the daemon sleeps.\<close>

type_synonym devmem_race = "(nat \<Rightarrow> phys_update \<times> phys_update) \<times> phys_update"

definition devmem_turn ::
  "nat \<Rightarrow> ('o, devmem_state) daemon fabric_device \<Rightarrow> devmem_race \<Rightarrow> u32 list \<Rightarrow> (('o, devmem_state) daemon, u32 list) act" where
  "devmem_turn n dev w shadow =
     bnd (devmem_poll_write_registers (fst w) dev shadow devmem_write_offsets) (\<lambda>shadow.
     bnd (devmem_refresh_read_registers n dev) (\<lambda>_.
     bnd (guest_phys (snd w)) (\<lambda>_. ret shadow)))"

fun devmem_serve ::
  "nat \<Rightarrow> ('o, devmem_state) daemon fabric_device \<Rightarrow> devmem_race list \<Rightarrow> u32 list \<Rightarrow> (('o, devmem_state) daemon, unit) act" where
  "devmem_serve n dev [] shadow = spin"
| "devmem_serve n dev (w # ws) shadow = bnd (devmem_turn n dev w shadow) (devmem_serve n dev ws)"

text \<open>Configuration, opening and mapping; it fails after \<open>cleanup_devmem\<close> has been called where the code calls it.\<close>

definition devmem_load_config ::
  "environment \<Rightarrow> ('o, devmem_state) daemon fabric_device \<Rightarrow> (('o, devmem_state) daemon, unit) act" where
  "devmem_load_config getenv dev = on_fab (\<lambda>g.
     case load_config getenv dev (dv_config g) of (r, config) \<Rightarrow> (r, g\<lparr>dv_config := config\<rparr>))"

definition devmem_open ::
  "devmem_kernel \<Rightarrow> environment \<Rightarrow> ('o, devmem_state) daemon fabric_device \<Rightarrow> (('o, devmem_state) daemon, unit) act" where
  "devmem_open K getenv dev =
     bnd (devmem_load_config getenv dev) (\<lambda>_.
     bnd (gets (\<lambda>s. dv_config (dm_fab s))) (\<lambda>config.
     bnd (on_host (sys_open (dc_path config) True True False False)) (\<lambda>fd.
     bnd (modify (\<lambda>s. s\<lparr>dm_fab := (dm_fab s)\<lparr>dv_fd := fd\<rparr>\<rparr>)) (\<lambda>_.
     if fd < 0 then fail
     else bnd (gets (\<lambda>s. map_phys K (dm_fab s) (dc_mmio_base config) (dc_mmio_size config))) (\<lambda>(map', map_len, page_delta).
       bnd (modify (\<lambda>s. s\<lparr>dm_fab := (dm_fab s)\<lparr>dv_mmio_map := map', dv_mmio_map_len := map_len, dv_mmio_page_delta := page_delta\<rparr>\<rparr>)) (\<lambda>_.
       case map' of
         None \<Rightarrow> bnd cleanup_devmem (\<lambda>_. fail)
       | Some base \<Rightarrow> modify (\<lambda>s. s\<lparr>dm_fab := (dm_fab s)\<lparr>dv_mmio := Some (base + page_delta), dv_mapped := whole_pages K map_len\<rparr>,
           dm_host := hold_map (unat map_len) (dm_host s)\<rparr>)))))))"

definition devmem_fabric_run ::
  "devmem_kernel \<Rightarrow> environment \<Rightarrow> nat \<Rightarrow> devmem_race list \<Rightarrow> ('o, devmem_state) daemon fabric \<Rightarrow>
   (('o, devmem_state) daemon, bool) act" where
  "devmem_fabric_run K getenv n turns fabric =
     (if fb_device_count fabric \<noteq> 1 then ret False
      else case fb_devices fabric ! 0 of
        None \<Rightarrow> trap
      | Some dev \<Rightarrow>
          bnd (attempt (devmem_open K getenv dev)) (\<lambda>opened.
          case opened of
            None \<Rightarrow> ret False
          | Some _ \<Rightarrow>
              bnd (devmem_setup n dev) (\<lambda>shadow.
              bnd (attempt (devmem_serve n dev turns shadow)) (\<lambda>_.
              bnd cleanup_devmem (\<lambda>_. ret False)))))"

end
