(* ===== verification/Devmem_Contract.thy ===== *)
theory Devmem_Contract
  imports Linux_Devmem
begin

unbundle bit_operations_syntax

text \<open>
  The \<^verbatim>\<open>/dev/mem\<close> fabric meets the contracts of \<open>Fabric\<close>. Guest memory is physical memory without the
  register aperture and the interrupt control register; a range is reachable when the kernel lets it be
  mapped and it holds neither. The descriptor, the mapping, the configuration and the bytes of the
  aperture are a parameter of the contract, so that its clients keep them.
\<close>

section \<open>Physical memory as guest memory\<close>

definition in_registers :: "devmem_state \<Rightarrow> u64 \<Rightarrow> bool" where
  "in_registers g a \<longleftrightarrow> (case dv_mmio g of None \<Rightarrow> False | Some p \<Rightarrow> unat (a - p) < unat (dc_mmio_size (dv_config g)))"

definition in_irq :: "devmem_state \<Rightarrow> u64 \<Rightarrow> bool" where
  "in_irq g a \<longleftrightarrow> unat (a - dc_irq_addr (dv_config g)) < 4"

definition mappable :: "devmem_kernel \<Rightarrow> devmem_state \<Rightarrow> u64 \<Rightarrow> u64 \<Rightarrow> bool" where
  "mappable K g a n \<longleftrightarrow> fst (map_phys K g a n) \<noteq> None"

definition dv_ram :: "devmem_state \<Rightarrow> memory" where
  "dv_ram g = (\<lambda>a. if in_registers g a \<or> in_irq g a then 0 else dv_phys g a)"

definition dv_reach :: "devmem_kernel \<Rightarrow> devmem_state \<Rightarrow> u64 \<Rightarrow> nat \<Rightarrow> bool" where
  "dv_reach K g a n \<longleftrightarrow> n = 0 \<or> mappable K g a (of_nat n) \<and>
     (\<forall>i < n. \<not> in_registers g (a + of_nat i) \<and> \<not> in_irq g (a + of_nat i))"

text \<open>The state with everything but the bytes of the aperture blanked out of physical memory.\<close>

definition dv_private :: "devmem_state \<Rightarrow> devmem_state" where
  "dv_private g = g\<lparr>dv_phys := \<lambda>a. if in_registers g a then dv_phys g a else 0\<rparr>"

definition dv_live :: "devmem_kernel \<Rightarrow> devmem_state \<Rightarrow> devmem_state \<Rightarrow> bool" where
  "dv_live K A g \<longleftrightarrow> dc_have_irq (dv_config g) \<and> dc_irq_assert (dv_config g) \<noteq> dc_irq_deassert (dv_config g) \<and>
     mappable K g (dc_irq_addr (dv_config g)) 4 \<and> (\<forall>a. in_irq g a \<longrightarrow> \<not> in_registers g a) \<and> dv_private g = A"

definition dv_line :: "devmem_state \<Rightarrow> bool" where
  "dv_line g \<longleftrightarrow> virtio_load_le32 (mem_read (dv_phys g) (dc_irq_addr (dv_config g)) 4) = dc_irq_assert (dv_config g)"

text \<open>A mapping shows what was asked for, wherever the page starts.\<close>

lemma map_phys_at: "map_phys K g a n = (Some p, l, d) \<Longrightarrow> p + d = a"
  by (auto simp: map_phys_def Let_def split: if_splits)

lemma phys_map_cases:
  obtains (mapped) p l d where "map_phys K g a n = (Some p, l, d)" and "mappable K g a n" and "p + d = a"
  | (refused) l d where "map_phys K g a n = (None, l, d)" and "\<not> mappable K g a n"
  by (cases "map_phys K g a n"; cases "fst (map_phys K g a n)") (auto simp: mappable_def dest: map_phys_at)

lemma phys_update_simps [simp]:
  "in_registers (g\<lparr>dv_phys := m\<rparr>) = in_registers g" "in_irq (g\<lparr>dv_phys := m\<rparr>) = in_irq g"
  "mappable K (g\<lparr>dv_phys := m\<rparr>) = mappable K g" "dv_reach K (g\<lparr>dv_phys := m\<rparr>) = dv_reach K g"
proof -
  show *: "in_registers (g\<lparr>dv_phys := m\<rparr>) = in_registers g" "in_irq (g\<lparr>dv_phys := m\<rparr>) = in_irq g"
    "mappable K (g\<lparr>dv_phys := m\<rparr>) = mappable K g"
    by (cases "dv_mmio g"; simp add: in_registers_def in_irq_def mappable_def map_phys_def Let_def fun_eq_iff)+
  show "dv_reach K (g\<lparr>dv_phys := m\<rparr>) = dv_reach K g" by (simp add: dv_reach_def * fun_eq_iff)
qed

lemma dv_private_phys:
  "(\<And>x. in_registers g x \<Longrightarrow> m x = dv_phys g x) \<Longrightarrow> dv_private (g\<lparr>dv_phys := m\<rparr>) = dv_private g"
  by (simp add: dv_private_def cong: if_cong)

lemma devmem_read_into_eq:
  "devmem_dma_read_into K a n g =
     (if n = 0 then (OK [], g)
      else if mappable K g a (ucast n) then (OK (mem_read (dv_phys g) a (unat n)), g) else (Fail, g))"
  by (cases rule: phys_map_cases [of K g a "ucast n"]) (auto simp: devmem_dma_read_into_def)

lemma devmem_write_eq:
  assumes "length d = unat n"
  shows "devmem_dma_write K a d n g =
     (if n = 0 then (OK (), g)
      else if mappable K g a (ucast n) then (OK (), g\<lparr>dv_phys := mem_write (dv_phys g) a d\<rparr>) else (Fail, g))"
  using assms by (cases rule: phys_map_cases [of K g a "ucast n"]) (auto simp: devmem_dma_write_def)

lemma store_irq_eq:
  "store_irq K v g = (if mappable K g (dc_irq_addr (dv_config g)) 4
     then (OK (), g\<lparr>dv_phys := mem_write (dv_phys g) (dc_irq_addr (dv_config g)) (virtio_store_le32 v)\<rparr>) else (Fail, g))"
  by (cases rule: phys_map_cases [of K g "dc_irq_addr (dv_config g)" 4]) (auto simp: store_irq_def)

lemma dv_reach_word: "dv_reach K g a (unat (n :: u32)) \<Longrightarrow> n \<noteq> 0 \<Longrightarrow> mappable K g a (ucast n)"
proof -
  have "of_nat (unat n) = (ucast n :: u64)" by simp
  then show "dv_reach K g a (unat n) \<Longrightarrow> n \<noteq> 0 \<Longrightarrow> mappable K g a (ucast n)"
    by (auto simp: dv_reach_def unat_eq_0)
qed

lemma dv_ram_read: "dv_reach K g a n \<Longrightarrow> mem_read (dv_ram g) a n = mem_read (dv_phys g) a n"
  by (rule mem_read_cong) (auto simp: dv_reach_def dv_ram_def)

lemma write_where:
  assumes "\<forall>i < length d. \<not> X (a + of_nat i)" and "X x"
  shows "mem_write m a d x = m x"
proof -
  have "unat (x - a) < length d \<Longrightarrow> X (a + of_nat (unat (x - a))) \<Longrightarrow> False" using assms(1) by blast
  with assms(2) show ?thesis by (auto simp: mem_write_def)
qed

lemma dv_ram_write:
  assumes "dv_reach K g a (length d)"
  shows "dv_ram (g\<lparr>dv_phys := mem_write (dv_phys g) a d\<rparr>) = mem_write (dv_ram g) a d"
    and "dv_private (g\<lparr>dv_phys := mem_write (dv_phys g) a d\<rparr>) = dv_private g"
proof -
  have free: "\<forall>i < length d. \<not> (in_registers g (a + of_nat i) \<or> in_irq g (a + of_nat i))"
    using assms by (auto simp: dv_reach_def)
  show "dv_ram (g\<lparr>dv_phys := mem_write (dv_phys g) a d\<rparr>) = mem_write (dv_ram g) a d"
  proof
    fix x
    show "dv_ram (g\<lparr>dv_phys := mem_write (dv_phys g) a d\<rparr>) x = mem_write (dv_ram g) a d x"
      using write_where [OF free, of x "dv_ram g"] by (auto simp: dv_ram_def mem_write_def)
  qed
  show "dv_private (g\<lparr>dv_phys := mem_write (dv_phys g) a d\<rparr>) = dv_private g"
    by (rule dv_private_phys) (use write_where [OF free] in blast)
qed

lemma irq_write:
  fixes g v
  defines "h \<equiv> g\<lparr>dv_phys := mem_write (dv_phys g) (dc_irq_addr (dv_config g)) (virtio_store_le32 v)\<rparr>"
  assumes "dv_live K A g"
  shows "dv_live K A h" and "dv_ram h = dv_ram g" and "dv_reach K h = dv_reach K g" and "dv_config h = dv_config g"
    and "dv_line h \<longleftrightarrow> v = dc_irq_assert (dv_config g)"
proof -
  have out: "mem_write (dv_phys g) (dc_irq_addr (dv_config g)) (virtio_store_le32 v) x = dv_phys g x" if "\<not> in_irq g x" for x
    using that by (simp add: mem_write_def in_irq_def)
  have "dv_private h = dv_private g"
    unfolding h_def by (rule dv_private_phys) (use assms(2) out in \<open>auto simp: dv_live_def\<close>)
  then show "dv_live K A h" using assms(2) by (simp add: dv_live_def h_def)
  show "dv_ram h = dv_ram g" using out by (auto simp: h_def dv_ram_def)
  show "dv_reach K h = dv_reach K g" "dv_config h = dv_config g" by (simp_all add: h_def)
  show "dv_line h \<longleftrightarrow> v = dc_irq_assert (dv_config g)"
    using mem_read_write_same [of "virtio_store_le32 v"] by (simp add: h_def dv_line_def mem_read_write_same)
qed

lemma devmem_lower_eq:
  assumes "dv_live K A g"
  shows "\<exists>h. devmem_lower_irq K g = (OK (), h) \<and> dv_live K A h \<and> dv_ram h = dv_ram g \<and> dv_reach K h = dv_reach K g \<and>
    dv_config h = dv_config g \<and> \<not> dv_line h"
  using irq_write [OF assms, of "dc_irq_deassert (dv_config g)"] assms
  by (auto simp: devmem_lower_irq_def store_irq_eq dv_live_def)

lemma devmem_raise_eq:
  assumes "dv_live K A g"
  shows "\<exists>h. devmem_raise_irq K g = (OK (), h) \<and> dv_live K A h \<and> dv_ram h = dv_ram g \<and> dv_reach K h = dv_reach K g \<and> dv_line h"
proof -
  from devmem_lower_eq [OF assms] obtain h where h: "devmem_lower_irq K g = (OK (), h)" "dv_live K A h" "dv_ram h = dv_ram g"
    "dv_reach K h = dv_reach K g" "dv_config h = dv_config g" by auto
  have "mappable K h (dc_irq_addr (dv_config h)) 4" "dc_have_irq (dv_config g)" using h(2) assms by (simp_all add: dv_live_def)
  with h irq_write [OF h(2), of "dc_irq_assert (dv_config h)"] show ?thesis
    by (auto simp: devmem_raise_irq_def store_irq_eq bnd_OK)
qed

section \<open>The fabric contract\<close>

lemma dv_live_write:
  "dv_live K A g \<Longrightarrow> dv_reach K g a (length d) \<Longrightarrow> dv_live K A (g\<lparr>dv_phys := mem_write (dv_phys g) a d\<rparr>)"
  using dv_ram_write(2) [of K g a d] by (simp add: dv_live_def)

interpretation devmem: guest_map "devmem_ops K env" "dv_live K A" dv_ram "dv_reach K" dv_line
proof (unfold_locales, goal_cases)
  case (1 f a n)
  then show ?case using dv_reach_word [of K f a n] by (auto simp: devmem_ops_def devmem_read_into_eq dv_ram_read)
next
  case (2 a)
  show ?case by (simp add: devmem_ops_def devmem_dma_read_u16_def)
next
  case (3 f a n d)
  then show ?case
    using dv_reach_word [of K f a n] dv_ram_write(1) [of K f a d] dv_live_write [of K A f a d]
    by (auto simp: devmem_ops_def devmem_write_eq)
next
  case (4 f)
  then show ?case using devmem_raise_eq by (simp add: devmem_ops_def)
next
  case (5 f)
  from devmem_lower_eq [OF this] show ?case by (auto simp: devmem_ops_def)
qed (auto simp: devmem_ops_def devmem_dma_map_def devmem_dma_unmap_def)

interpretation devmem_alloc: guest_alloc "devmem_ops K env" "dv_live K A" dv_ram "dv_reach K" dv_line
proof (unfold_locales, goal_cases)
  case (1 f a n heap)
  then show ?case
    using dv_reach_word [of K f a n] by (auto simp: devmem_ops_def devmem_dma_read_def devmem_read_into_eq dv_ram_read)
next
  case (2 f heap n a)
  then show ?case by (auto simp: devmem_ops_def devmem_dma_read_def)
qed

text \<open>No operation faults and each returns, whatever is asked for and whatever the kernel lets be mapped.\<close>

interpretation devmem_safety: fabric_safe "devmem_ops K env" "\<lambda>_. True"
proof (unfold_locales, goal_cases)
  case (10 a n f d g)
  then show ?case by (auto simp: devmem_ops_def devmem_read_into_eq split: if_splits)
qed (auto simp: devmem_ops_def safe_def devmem_read_into_eq devmem_write_eq devmem_dma_read_def devmem_dma_read_u16_def
    devmem_dma_map_def devmem_dma_unmap_def devmem_raise_irq_def devmem_lower_irq_def store_irq_eq bnd_def)

interpretation devmem_return: fabric_ends "devmem_ops K env"
proof (unfold_locales, goal_cases)
  case (4 a d n)
  show ?case by (auto simp: ends_def devmem_ops_def devmem_dma_write_def split: prod.splits option.splits)
qed (auto simp: devmem_ops_def ends_def devmem_read_into_eq devmem_dma_read_def devmem_dma_read_u16_def
    devmem_dma_map_def devmem_dma_unmap_def devmem_raise_irq_def devmem_lower_irq_def store_irq_eq bnd_def)

text \<open>The operations keep the descriptor, the mapping and the configuration.\<close>

definition dv_frame :: "devmem_state \<Rightarrow> devmem_state" where
  "dv_frame g = g\<lparr>dv_phys := \<lambda>_. 0\<rparr>"

lemma dv_frame_phys [simp]: "dv_frame (g\<lparr>dv_phys := m\<rparr>) = dv_frame g"
  by (simp add: dv_frame_def)

interpretation devmem_frame: fabric_keeps "devmem_ops K env" "\<lambda>g. dv_frame g = A"
proof (unfold_locales, goal_cases)
  case (4 a d n)
  show ?case by (auto simp: keeps_def devmem_ops_def devmem_dma_write_def split: prod.splits option.splits)
qed (auto simp: devmem_ops_def keeps_def devmem_read_into_eq devmem_dma_read_def devmem_dma_read_u16_def
    devmem_dma_map_def devmem_dma_unmap_def devmem_raise_irq_def devmem_lower_irq_def store_irq_eq bnd_def phys_acts_def)

end
