(* ===== verification/Devmem_Scan.thy ===== *)
theory Devmem_Scan
  imports Devmem_Contract Register_Window
begin

unbundle bit_operations_syntax

text \<open>
  The register scan of the \<^verbatim>\<open>/dev/mem\<close> fabric against its specification, what a refresh leaves in the
  aperture, and what is lost when the guest writes while the device is busy.
\<close>

section \<open>The aperture as a register window\<close>

definition dv_reg :: "devmem_state \<Rightarrow> u64 \<Rightarrow> u32" where
  "dv_reg g off = (case dv_mmio g of None \<Rightarrow> 0 | Some p \<Rightarrow> virtio_load_le32 (mem_read (dv_phys g) (p + off) 4))"

definition dv_set :: "u64 \<Rightarrow> u32 \<Rightarrow> devmem_state \<Rightarrow> devmem_state" where
  "dv_set off v g = (case dv_mmio g of None \<Rightarrow> g
     | Some p \<Rightarrow> g\<lparr>dv_phys := mem_write (dv_phys g) (p + off) (virtio_store_le32 v)\<rparr>)"

text \<open>The mapping and the configured aperture cover the registers of the device.\<close>

definition dv_window :: "'s fabric_device \<Rightarrow> devmem_state \<Rightarrow> bool" where
  "dv_window dev g \<longleftrightarrow> dv_mmio g \<noteq> None \<and> fdev_size dev \<le> dc_mmio_size (dv_config g) \<and>
     unat (dv_mmio_page_delta g) + unat (fdev_size dev) \<le> dv_mapped g"

lemma dv_set_frame [simp]: "dv_frame (dv_set off v g) = dv_frame g"
  by (simp add: dv_set_def split: option.splits)

lemma dv_frame_eq:
  assumes "dv_frame g = dv_frame h"
  shows "dv_fd g = dv_fd h" "dv_mmio g = dv_mmio h" "dv_mmio_map g = dv_mmio_map h" "dv_mmio_map_len g = dv_mmio_map_len h"
    "dv_mmio_page_delta g = dv_mmio_page_delta h" "dv_mapped g = dv_mapped h" "dv_config g = dv_config h"
  using assms by (cases g; cases h; simp add: dv_frame_def)+

lemma dv_private_eq:
  assumes "dv_private g = dv_private h"
  shows "dv_frame g = dv_frame h" and "in_registers g a \<Longrightarrow> dv_phys g a = dv_phys h a"
proof -
  have "dv_frame (dv_private g) = dv_frame (dv_private h)" using assms by simp
  then show f: "dv_frame g = dv_frame h" by (simp add: dv_private_def)
  have "in_registers g a = in_registers h a"
    using dv_frame_eq [OF f] by (simp add: in_registers_def split: option.split)
  moreover have "dv_phys (dv_private g) a = dv_phys (dv_private h) a" using assms by simp
  ultimately show "in_registers g a \<Longrightarrow> dv_phys g a = dv_phys h a" by (simp add: dv_private_def)
qed

lemma dv_window_frame: "dv_frame g = dv_frame h \<Longrightarrow> dv_window dev g = dv_window dev h"
  using dv_frame_eq [of g h] by (simp add: dv_window_def)

lemma reg_in_le: "reg_in dev off \<Longrightarrow> off + 4 \<le> fdev_size dev"
proof -
  assume r: "reg_in dev off"
  then have "unat off + 4 < 2 ^ 64" using unat_lt_u64 [of "fdev_size dev"] by (simp add: reg_in_def)
  then have "unat (off + 4) = unat off + 4" by (simp add: unat_word_ariths)
  with r show ?thesis by (simp add: reg_in_def word_le_nat_alt)
qed

lemma window_aperture: "dv_window dev g \<Longrightarrow> reg_in dev off \<Longrightarrow> register_mapped g off"
  by (auto simp: dv_window_def reg_in_def register_mapped_def)

lemma dv_load: "dv_window dev g \<Longrightarrow> reg_in dev off \<Longrightarrow> devmem_load_le32 off g = (OK (dv_reg g off), g)"
  using window_aperture [of dev g off] by (auto simp: devmem_load_le32_def dv_reg_def dv_window_def)

lemma dv_store: "dv_window dev g \<Longrightarrow> reg_in dev off \<Longrightarrow> devmem_store_le32 off v g = (OK (), dv_set off v g)"
  using window_aperture [of dev g off] by (auto simp: devmem_store_le32_def dv_set_def dv_window_def)

lemma dv_set_window [simp]: "dv_window dev (dv_set off v g) = dv_window dev g"
  by (rule dv_window_frame) simp

lemma apart_shift: "apart (p + a) n (p + b) m = apart a n b m"
  by (simp add: apart_def)

interpretation devmem_regs: register_window "dv_window dev" dv_reg dv_set
proof (unfold_locales, goal_cases)
  case (2 g off v)
  then show ?case by (auto simp: dv_reg_def dv_set_def dv_window_def mem_read_write_same)
next
  case (3 off off' v g)
  then show ?case by (auto simp: dv_reg_def dv_set_def mem_read_write_apart apart_shift split: option.splits)
qed simp

lemma in_registers_reg:
  assumes "dv_window dev g" and "reg_in dev off" and "dv_mmio g = Some p" and "i < 4"
  shows "in_registers g (p + off + of_nat i)"
proof -
  have le: "unat off + 4 \<le> unat (dc_mmio_size (dv_config g))"
    using assms(1,2) by (auto simp: dv_window_def reg_in_def word_le_nat_alt)
  then have "unat (off + of_nat i) = unat off + i"
    using assms(4) unat_lt_u64 [of "dc_mmio_size (dv_config g)"] by (simp add: unat_word_ariths unat_of_nat_u64)
  moreover have "p + off + of_nat i - p = off + of_nat i" by simp
  ultimately show ?thesis using le assms(3,4) by (simp add: in_registers_def)
qed

lemma dv_reg_private:
  assumes "dv_private h = dv_private g" and "dv_window dev g" and "reg_in dev off"
  shows "dv_reg h off = dv_reg g off"
proof -
  obtain p where p: "dv_mmio g = Some p" using assms(2) by (auto simp: dv_window_def)
  have "dv_phys g (p + off + of_nat i) = dv_phys h (p + off + of_nat i)" if "i < 4" for i
    by (rule dv_private_eq(2) [OF assms(1) [symmetric] in_registers_reg [OF assms(2,3) p that]])
  then have "mem_read (dv_phys h) (p + off) 4 = mem_read (dv_phys g) (p + off) 4"
    by (intro mem_read_cong) simp
  with p dv_frame_eq(2) [OF dv_private_eq(1) [OF assms(1)]] show ?thesis by (simp add: dv_reg_def)
qed

section \<open>The scan\<close>

text \<open>The registers that differ from the shadow, in the order of the table, and the shadow afterwards.\<close>

definition dv_changes :: "(u64 \<Rightarrow> u32) \<Rightarrow> u64 list \<Rightarrow> u32 list \<Rightarrow> (u64 \<times> u32) list" where
  "dv_changes w offs shadow = map (\<lambda>(off, v). (off, w off)) (filter (\<lambda>(off, v). w off \<noteq> v) (zip offs shadow))"

definition dv_settle :: "u64 \<Rightarrow> u32 \<Rightarrow> u32" where
  "dv_settle off v =
     (if off = VIRTIO_MMIO_QUEUE_NOTIFY then DEVMEM_NOTIFY_IDLE else if off = VIRTIO_MMIO_INTERRUPT_ACK then 0 else v)"

definition dv_settled :: "(u64 \<Rightarrow> u32) \<Rightarrow> u64 list \<Rightarrow> u32 list \<Rightarrow> u32 list" where
  "dv_settled w offs shadow = map2 (\<lambda>off v. if w off = v then v else dv_settle off (w off)) offs shadow"

text \<open>The device is called first; then the two registers that are consumed are set back.\<close>

definition dv_consume :: "u64 \<Rightarrow> devmem_state \<Rightarrow> devmem_state" where
  "dv_consume off g =
     (if off = VIRTIO_MMIO_QUEUE_NOTIFY then dv_set off DEVMEM_NOTIFY_IDLE g
      else if off = VIRTIO_MMIO_INTERRUPT_ACK then dv_set off 0 g else g)"

fun dv_deliver :: "('o, devmem_state) daemon fabric_device \<Rightarrow> (u64 \<times> u32) list \<Rightarrow> (('o, devmem_state) daemon, unit) act" where
  "dv_deliver dev [] = ret ()"
| "dv_deliver dev ((off, v) # es) =
     bnd (dev_write dev off (ucast v) 4) (\<lambda>_.
     bnd (modify (\<lambda>s. s\<lparr>dm_fab := dv_consume off (dm_fab s)\<rparr>)) (\<lambda>_. dv_deliver dev es))"

text \<open>The device leaves the aperture alone while these writes are delivered.\<close>

fun undisturbed :: "('o, devmem_state) daemon fabric_device \<Rightarrow> (u64 \<times> u32) list \<Rightarrow> ('o, devmem_state) daemon \<Rightarrow> bool" where
  "undisturbed dev [] s = True"
| "undisturbed dev ((off, v) # es) s =
     (case dev_write dev off (ucast v) 4 s of (r, t) \<Rightarrow>
        dv_private (dm_fab t) = dv_private (dm_fab s) \<and> undisturbed dev es (t\<lparr>dm_fab := dv_consume off (dm_fab t)\<rparr>))"

lemma dv_changes_Cons: "dv_changes w (off # offs) (v # vs) = (if w off = v then [] else [(off, w off)]) @ dv_changes w offs vs"
  by (simp add: dv_changes_def)

lemma guest_quiet: "guest_phys id s = (OK (), s)"
  by (simp add: guest_phys_def phys_acts_def)

lemma dv_consume_frame: "dv_window dev (dv_consume off g) = dv_window dev g"
  by (simp add: dv_consume_def)

lemma dv_consume_other: "apart off 4 off' 4 \<Longrightarrow> dv_reg (dv_consume off g) off' = dv_reg g off'"
  by (auto simp: dv_consume_def devmem_regs.put_other)

text \<open>One register of the scan, when the guest is quiet.\<close>

lemma dv_poll_register_run:
  assumes "dv_window dev (dm_fab s)" and "reg_in dev (offsets ! i)" and "dv_reg (dm_fab s) (offsets ! i) = v"
    and "undisturbed dev [(offsets ! i, v)] s"
  shows "devmem_poll_register id dev offsets i shadow s =
    (if v = shadow ! i then (OK shadow, s)
     else bnd (dv_deliver dev [(offsets ! i, v)]) (\<lambda>_. ret (shadow[i := dv_settle (offsets ! i) v])) s)"
proof -
  let ?off = "offsets ! i"
  let ?tail = "bnd (guest_phys id) (\<lambda>_.
      if ?off = VIRTIO_MMIO_QUEUE_NOTIFY then bnd (on_fab (devmem_store_le32 ?off DEVMEM_NOTIFY_IDLE)) (\<lambda>_. ret (shadow[i := DEVMEM_NOTIFY_IDLE]))
      else if ?off = VIRTIO_MMIO_INTERRUPT_ACK then bnd (on_fab (devmem_store_le32 ?off 0)) (\<lambda>_. ret (shadow[i := 0]))
      else ret (shadow[i := v]))"
  let ?done = "bnd (modify (\<lambda>s. s\<lparr>dm_fab := dv_consume ?off (dm_fab s)\<rparr>)) (\<lambda>_. ret (shadow[i := dv_settle ?off v]))"
  have tail: "?tail t = ?done t" if "dev_write dev ?off (ucast v) 4 s = (OK (), t)" for t
  proof -
    have "dv_window dev (dm_fab t)"
      using that assms(1,4) dv_window_frame [OF dv_private_eq(1)] by fastforce
    from dv_store [OF this assms(2)] show ?thesis
      by (auto simp: guest_quiet on_fab_def bnd_def dv_consume_def dv_settle_def)
  qed
  have "devmem_poll_register id dev offsets i shadow s =
      (if v = shadow ! i then (OK shadow, s) else bnd (dev_write dev ?off (ucast v) 4) (\<lambda>_. ?tail) s)"
    using dv_load [OF assms(1,2)] reg_in_le [OF assms(2)] assms(3)
    by (simp add: devmem_poll_register_def Let_def on_fab_def bnd_OK not_less [symmetric])
  moreover have "bnd (dev_write dev ?off (ucast v) 4) (\<lambda>_. ?tail) s = bnd (dev_write dev ?off (ucast v) 4) (\<lambda>_. ?done) s"
    by (rule bnd_cong_run) (use tail in simp)
  moreover have "bnd (dv_deliver dev [(?off, v)]) (\<lambda>_. ret (shadow[i := dv_settle ?off v])) s = bnd (dev_write dev ?off (ucast v) 4) (\<lambda>_. ?done) s"
    by (simp add: bnd_assoc del: ret_apply)
  ultimately show ?thesis by (simp only:)
qed

lemma deliver_one_frame:
  assumes "undisturbed dev [(off, v)] s" and "dv_window dev (dm_fab s)" and "reg_in dev off'" and "dv_deliver dev [(off, v)] s = (OK (), t)"
  shows "dv_window dev (dm_fab t)" and "apart off 4 off' 4 \<Longrightarrow> dv_reg (dm_fab t) off' = dv_reg (dm_fab s) off'"
proof -
  obtain u where u: "dev_write dev off (ucast v) 4 s = (OK (), u)" "t = u\<lparr>dm_fab := dv_consume off (dm_fab u)\<rparr>"
    using assms(4) by (auto simp: elim!: bndE)
  then have p: "dv_private (dm_fab u) = dv_private (dm_fab s)" using assms(1) by simp
  have "dv_window dev (dm_fab u)" using dv_window_frame [OF dv_private_eq(1) [OF p], of dev] assms(2) by simp
  then show "dv_window dev (dm_fab t)" using u(2) by (simp add: dv_consume_frame)
  show "apart off 4 off' 4 \<Longrightarrow> dv_reg (dm_fab t) off' = dv_reg (dm_fab s) off'"
    using u(2) dv_reg_private [OF p assms(2,3)] by (simp add: dv_consume_other)
qed

lemma poll_from_quiet:
  "devmem_poll_from (Suc k) (\<lambda>_. (id, id)) dev offsets i shadow s =
   bnd (devmem_poll_register id dev offsets i shadow) (\<lambda>shadow. devmem_poll_from k (\<lambda>_. (id, id)) dev offsets (Suc i) shadow) s"
  by (simp only: devmem_poll_from.simps fst_conv snd_conv bnd_OK [OF guest_quiet])

lemma dv_poll_from_run:
  assumes "length shadow = length offsets" and "i + k = length offsets"
    and "distinct offsets" and "\<forall>off \<in> set offsets. reg_in dev off \<and> 4 dvd unat off"
    and "dv_window dev (dm_fab s)" and "\<forall>off \<in> set (drop i offsets). dv_reg (dm_fab s) off = w off"
    and "undisturbed dev (dv_changes w (drop i offsets) (drop i shadow)) s"
  shows "devmem_poll_from k (\<lambda>_. (id, id)) dev offsets i shadow s =
    bnd (dv_deliver dev (dv_changes w (drop i offsets) (drop i shadow)))
        (\<lambda>_. ret (take i shadow @ dv_settled w (drop i offsets) (drop i shadow))) s"
  using assms(1,2,5-)
proof (induction k arbitrary: i shadow s)
  case 0
  then show ?case by (simp add: dv_changes_def dv_settled_def bnd_Pair)
next
  case (Suc k)
  let ?off = "offsets ! i" and ?v = "shadow ! i" and ?x = "w (offsets ! i)"
  have i: "i < length offsets" "i < length shadow" using Suc.prems by auto
  have d: "drop i offsets = ?off # drop (Suc i) offsets" "drop i shadow = ?v # drop (Suc i) shadow"
    using i by (simp_all add: Cons_nth_drop_Suc)
  have r: "reg_in dev ?off" "4 dvd unat ?off" "dv_reg (dm_fab s) ?off = ?x" using assms(4) i Suc.prems(4) d by auto
  let ?es = "dv_changes w (drop (Suc i) offsets) (drop (Suc i) shadow)"
  show ?case
  proof (cases "?x = ?v")
    case True
    have "devmem_poll_register id dev offsets i shadow s = (OK shadow, s)"
      using dv_load [OF Suc.prems(3) r(1)] reg_in_le [OF r(1)] r(3) True
      by (simp add: devmem_poll_register_def Let_def on_fab_def bnd_OK)
    moreover have "devmem_poll_from k (\<lambda>_. (id, id)) dev offsets (Suc i) shadow s = bnd (dv_deliver dev ?es)
        (\<lambda>_. ret (take (Suc i) shadow @ dv_settled w (drop (Suc i) offsets) (drop (Suc i) shadow))) s"
      by (rule Suc.IH) (use Suc.prems True d in \<open>simp_all add: dv_changes_Cons\<close>)
    ultimately show ?thesis
      using True i unfolding poll_from_quiet
      by (simp add: bnd_OK d dv_changes_Cons dv_settled_def take_Suc_conv_app_nth del: devmem_poll_from.simps ret_apply)
  next
    case False
    let ?sh = "shadow[i := dv_settle ?off ?x]"
    have und: "undisturbed dev ((?off, ?x) # ?es) s" using Suc.prems(5) False by (simp add: d dv_changes_Cons)
    then have one: "undisturbed dev [(?off, ?x)] s" by auto
    have "devmem_poll_from k (\<lambda>_. (id, id)) dev offsets (Suc i) ?sh t = bnd (dv_deliver dev ?es)
        (\<lambda>_. ret (take i shadow @ dv_settle ?off ?x # dv_settled w (drop (Suc i) offsets) (drop (Suc i) shadow))) t"
      if t: "dv_deliver dev [(?off, ?x)] s = (OK (), t)" for t
    proof -
      have "dv_reg (dm_fab t) off = w off" if "off \<in> set (drop (Suc i) offsets)" for off
      proof -
        have "off \<in> set offsets" "off \<noteq> ?off" using that assms(3) i d(1) distinct_drop [of offsets i] by (auto dest: in_set_dropD)
        then have "apart ?off 4 off 4" "reg_in dev off" using assms(4) r(2) by (auto intro: apart_words)
        with deliver_one_frame(2) [OF one Suc.prems(3) _ t] that Suc.prems(4) d(1) show ?thesis by simp
      qed
      moreover have "undisturbed dev ?es t" using und t by (auto simp: elim!: bndE)
      ultimately have "devmem_poll_from k (\<lambda>_. (id, id)) dev offsets (Suc i) ?sh t =
          bnd (dv_deliver dev (dv_changes w (drop (Suc i) offsets) (drop (Suc i) ?sh)))
            (\<lambda>_. ret (take (Suc i) ?sh @ dv_settled w (drop (Suc i) offsets) (drop (Suc i) ?sh))) t"
        using Suc.prems deliver_one_frame(1) [OF one Suc.prems(3) r(1) t] by (intro Suc.IH) simp_all
      then show ?thesis using i by (simp add: take_Suc_conv_app_nth)
    qed
    then have step: "bnd (dv_deliver dev [(?off, ?x)]) (\<lambda>_. devmem_poll_from k (\<lambda>_. (id, id)) dev offsets (Suc i) ?sh) s =
        bnd (dv_deliver dev [(?off, ?x)]) (\<lambda>_. bnd (dv_deliver dev ?es)
          (\<lambda>_. ret (take i shadow @ dv_settle ?off ?x # dv_settled w (drop (Suc i) offsets) (drop (Suc i) shadow)))) s"
      by (intro bnd_cong_run) simp
    have "devmem_poll_from (Suc k) (\<lambda>_. (id, id)) dev offsets i shadow s =
        bnd (bnd (dv_deliver dev [(?off, ?x)]) (\<lambda>_. ret ?sh)) (\<lambda>shadow. devmem_poll_from k (\<lambda>_. (id, id)) dev offsets (Suc i) shadow) s"
      unfolding poll_from_quiet
      by (rule bnd_run_cong) (use dv_poll_register_run [OF Suc.prems(3) r(1,3) one, of shadow] False in \<open>simp only: if_False\<close>)
    also have "\<dots> = bnd (dv_deliver dev ((?off, ?x) # ?es))
        (\<lambda>_. ret (take i shadow @ dv_settle ?off ?x # dv_settled w (drop (Suc i) offsets) (drop (Suc i) shadow))) s"
      unfolding bnd_assoc bnd_ret step by (simp add: bnd_assoc del: ret_apply)
    finally show ?thesis using False by (simp only: d dv_changes_Cons dv_settled_def if_False append.simps list.map zip_Cons_Cons prod.case)
  qed
qed

end
