(* ===== verification/Devmem_Blkd.thy ===== *)
theory Devmem_Blkd
  imports Devmem_Scan Uio_Blkd_Run
begin

unbundle bit_operations_syntax

text \<open>
  The block device on the \<^verbatim>\<open>/dev/mem\<close> fabric: the scan delivers what the guest wrote, a notification in
  the aperture is served in one turn of the polling loop, and what the loop loses when the guest writes
  while the device is busy.
\<close>

section \<open>The scan\<close>

lemma devmem_offsets: "distinct devmem_write_offsets" "off \<in> set devmem_write_offsets \<Longrightarrow> unat off + 4 \<le> 0x100 \<and> 4 dvd unat off"
  by (auto simp: devmem_write_offsets_def vm_simps)

lemma devmem_poll_run:
  assumes "dv_window dev (dm_fab s)" and "0x100 \<le> unat (fdev_size dev)" and "length shadow = 15"
    and "undisturbed dev (dv_changes (dv_reg (dm_fab s)) devmem_write_offsets shadow) s"
  shows "devmem_poll_write_registers (\<lambda>_. (id, id)) dev shadow devmem_write_offsets s =
    bnd (dv_deliver dev (dv_changes (dv_reg (dm_fab s)) devmem_write_offsets shadow))
        (\<lambda>_. ret (dv_settled (dv_reg (dm_fab s)) devmem_write_offsets shadow)) s"
proof -
  have len: "length devmem_write_offsets = 15" by (simp add: devmem_write_offsets_def)
  have reg: "\<forall>off \<in> set devmem_write_offsets. reg_in dev off \<and> 4 dvd unat off"
    using devmem_offsets(2) assms(2) by (fastforce simp: reg_in_def)
  show ?thesis
    using dv_poll_from_run [where i = 0 and k = 15 and w = "dv_reg (dm_fab s)", OF _ _ devmem_offsets(1) reg assms(1)] assms(3,4) len
    by (simp add: devmem_poll_write_registers_def)
qed

section \<open>Publication\<close>

lemma devmem_publish_run:
  assumes "dv_window dev (dm_fab s)" and "reg_in dev off" and "dev_read dev off 4 s = (OK v, s)"
  shows "devmem_publish dev off s = (OK (), s\<lparr>dm_fab := dv_set off (ucast v) (dm_fab s)\<rparr>)"
  using assms dv_store [OF assms(1,2)] by (simp add: devmem_publish_def bnd_OK on_fab_def)

lemma devmem_publisher:
  assumes "reads_device dev rd" and "fdev_size dev = 0x200"
  shows "publisher (dv_window dev) dv_reg dv_set rd (devmem_publish_each dev) (devmem_publish_config dev)"
proof (unfold_locales, goal_cases)
  case (3 s off offs)
  then have r: "reg_in dev off" using assms(2) by (simp add: reg_in_def)
  then show ?case
    using assms devmem_publish_run [OF 3(1) r] reg_in_le [OF r] by (simp add: reads_device_def bnd_OK)
next
  case (5 s off n)
  then have r: "reg_in dev off" using assms(2) by (simp add: reg_in_def)
  then show ?case
    using assms devmem_publish_run [OF 5(1) r] reg_in_le [OF r] by (simp add: reads_device_def bnd_OK)
qed (use assms in \<open>auto simp: reads_device_def\<close>)

text \<open>Stores to registers stay inside the aperture.\<close>

lemma dv_set_outside:
  assumes "dv_window dev g" and "reg_in dev off" and "\<not> in_registers g x"
  shows "dv_phys (dv_set off v g) x = dv_phys g x"
proof -
  obtain p where p: "dv_mmio g = Some p" using assms(1) by (auto simp: dv_window_def)
  have "\<forall>i < length (virtio_store_le32 v). \<not> \<not> in_registers g (p + off + of_nat i)"
    using in_registers_reg [OF assms(1,2) p] by simp
  from write_where [OF this assms(3)] p show ?thesis by (simp add: dv_set_def)
qed

lemma dv_set_inv:
  assumes "dv_window dev g" and "reg_in dev off"
  shows "dv_ram (dv_set off v g) = dv_ram g"
    and "\<forall>a. in_irq g a \<longrightarrow> \<not> in_registers g a \<Longrightarrow> dv_line (dv_set off v g) = dv_line g"
proof -
  let ?h = "dv_set off v g"
  have f: "dv_config ?h = dv_config g" "in_registers ?h = in_registers g" "in_irq ?h = in_irq g"
    by (simp_all add: dv_set_def split: option.splits)
  show "dv_ram ?h = dv_ram g"
    by (rule ext) (simp add: dv_ram_def f dv_set_outside [OF assms])
  assume irq: "\<forall>a. in_irq g a \<longrightarrow> \<not> in_registers g a"
  have "in_irq g (dc_irq_addr (dv_config g) + of_nat i)" if "i < 4" for i
    using that by (simp add: in_irq_def unat_of_nat_u64)
  then have "mem_read (dv_phys ?h) (dc_irq_addr (dv_config g)) 4 = mem_read (dv_phys g) (dc_irq_addr (dv_config g)) 4"
    using irq by (intro mem_read_cong dv_set_outside [OF assms]) blast
  then show "dv_line ?h = dv_line g" by (simp add: dv_line_def f)
qed

lemma put_all_devmem:
  assumes "dv_window dev g" and "\<forall>off \<in> set offs. reg_in dev off" and "\<forall>a. in_irq g a \<longrightarrow> \<not> in_registers g a"
  shows "dv_ram (put_all dv_set offs r g) = dv_ram g \<and> dv_line (put_all dv_set offs r g) = dv_line g"
  using assms
proof (induction offs arbitrary: g)
  case (Cons off offs)
  have f: "in_registers (dv_set off v g) = in_registers g" "in_irq (dv_set off v g) = in_irq g" for v
    by (simp_all add: dv_set_def split: option.splits)
  show ?case
    using Cons.IH [of "dv_set off (r off) g"] Cons.prems dv_set_inv [OF Cons.prems(1), of off "r off"] by (simp add: f)
qed simp

section \<open>The block device\<close>

abbreviation devmem_blkd :: "devmem_kernel \<Rightarrow> bool \<Rightarrow> nat \<Rightarrow> blkd_block_backend \<Rightarrow> string \<Rightarrow> devmem_state blkd fabric_device" where
  "devmem_blkd K dr n b path \<equiv> blkd_fabric_init_device (devmem_ops K (\<lambda>_. id)) dr n b path"

lemma devmem_blkd_write:
  "dev_write (devmem_blkd K dr n b path) off v len = blkd_mmio_write (devmem_ops K (\<lambda>_. id)) dr n off v len"
  by (rule ext) (simp add: dev_write_def blkd_fabric_init_device_def)

lemma devmem_blkd_size: "fdev_size (devmem_blkd K dr n b path) = 0x200"
  by (simp add: blkd_fabric_init_device_def)

lemma devmem_blkd_reads:
  "reads_device (devmem_blkd K dr n b path) (\<lambda>off. blkd_mmio_read (devmem_ops K (\<lambda>_. id)) dr n off 4)"
  by (simp add: reads_device_def dev_read_def blkd_fabric_init_device_def blkd_mmio_read_def driver_mmio_read_def)

interpretation devmem_publishes: publisher "dv_window (devmem_blkd K dr n b path)" dv_reg dv_set
  "\<lambda>off. blkd_mmio_read (devmem_ops K (\<lambda>_. id)) dr n off 4"
  "devmem_publish_each (devmem_blkd K dr n b path)" "devmem_publish_config (devmem_blkd K dr n b path)"
  by (rule devmem_publisher [OF devmem_blkd_reads devmem_blkd_size])

lemma devmem_quiet: "fabric_usleep (devmem_ops K (\<lambda>_. id)) t g = g"
  by (simp add: devmem_ops_def phys_acts_def)

text \<open>The scan of a notification, and the rest of the turn.\<close>

lemma devmem_notify_poll:
  assumes "dv_window (devmem_blkd K dr n b path) (dm_fab s)" and "length shadow = 15"
    and ch: "dv_changes (dv_reg (dm_fab s)) devmem_write_offsets shadow = [(VIRTIO_MMIO_QUEUE_NOTIFY, v)]"
    and nt: "blkd_virtio_notify_queue (devmem_ops K (\<lambda>_. id)) dr n v s = (OK (), u)"
    and pr: "dv_private (dm_fab u) = dv_private (dm_fab s)"
  shows "devmem_poll_write_registers (\<lambda>_. (id, id)) (devmem_blkd K dr n b path) shadow devmem_write_offsets s =
    (OK (dv_settled (dv_reg (dm_fab s)) devmem_write_offsets shadow),
     u\<lparr>dm_fab := dv_set VIRTIO_MMIO_QUEUE_NOTIFY DEVMEM_NOTIFY_IDLE (dm_fab u)\<rparr>)"
proof -
  let ?dev = "devmem_blkd K dr n b path"
  have w: "dev_write ?dev VIRTIO_MMIO_QUEUE_NOTIFY (ucast v) 4 s = (OK (), u)"
    using nt by (simp add: devmem_blkd_write blkd_mmio_write_def blkd_virtio_ops_def driver_write_notify)
  have "undisturbed ?dev (dv_changes (dv_reg (dm_fab s)) devmem_write_offsets shadow) s"
    unfolding ch using w pr by simp
  from devmem_poll_run [OF assms(1) _ assms(2) this] w show ?thesis
    unfolding ch by (simp add: devmem_blkd_size bnd_def dv_consume_def)
qed

lemma devmem_refresh_run:
  assumes "dv_window (devmem_blkd K dr n b path) (dm_fab s)" and "64 < m" and "\<forall>a. in_irq (dm_fab s) a \<longrightarrow> \<not> in_registers (dm_fab s) a"
  shows "\<exists>v. devmem_refresh_read_registers m (devmem_blkd K dr n b path) s = (OK (), v) \<and>
    dm_mmio v = dm_mmio s \<and> dm_host v = dm_host s \<and> dv_ram (dm_fab v) = dv_ram (dm_fab s) \<and> dv_line (dm_fab v) = dv_line (dm_fab s) \<and>
    dv_reg (dm_fab v) VIRTIO_MMIO_INTERRUPT_STATUS = vd_interrupt_status (dm_vdev s) \<and>
    dv_reg (dm_fab v) VIRTIO_MMIO_QUEUE_NOTIFY = dv_reg (dm_fab s) VIRTIO_MMIO_QUEUE_NOTIFY"
proof -
  let ?r = "\<lambda>off. ucast (blkd_mmio_read (devmem_ops K (\<lambda>_. id)) dr n off 4 s) :: u32"
  let ?v = "s\<lparr>dm_fab := put_all dv_set refreshed ?r (dm_fab s)\<rparr>"
  have "devmem_refresh_read_registers m (devmem_blkd K dr n b path) s = (OK (), ?v)"
    unfolding devmem_refresh_read_registers_def using devmem_publishes.refresh_ok [OF assms(1,2)] by simp
  moreover have "\<forall>off \<in> set refreshed. reg_in (devmem_blkd K dr n b path) off"
    using refreshed_dvd by (auto simp: reg_in_def devmem_blkd_size)
  moreover have "?r VIRTIO_MMIO_INTERRUPT_STATUS = vd_interrupt_status (dm_vdev s)"
    by (simp add: blkd_reads_status)
  ultimately show ?thesis
    using put_all_devmem [OF assms(1) _ assms(3), of refreshed ?r] notify_aligned
      devmem_regs.refreshed_value [OF assms(1) notify_aligned(4), of ?r] devmem_regs.refreshed_other [OF notify_aligned(1,2), of ?r "dm_fab s"]
    by (intro exI [of _ ?v]) simp
qed

text \<open>
  C10: the whole path of a notification on the \<^verbatim>\<open>/dev/mem\<close> fabric. The guest puts \<open>k\<close> well-formed chains,
  none of which reaches into the register aperture or the interrupt register, into its available ring and
  the queue number 0 into the notification register; that is the only register it changed, and it is
  quiet until the daemon is done. Then the next turn of the polling loop completes all \<open>k\<close> requests as the
  specification of the requests says (memory, used ring, image and cursor), sets the notification
  register back to idle, publishes the interrupt status with the used-buffer bit in the aperture, and
  leaves the assert value in the interrupt control register.
\<close>

theorem devmem_notification_served:
  assumes "dv_window (devmem_blkd K dr n b path) (dm_fab s)" and "length shadow = 15"
    and "dv_changes (dv_reg (dm_fab s)) devmem_write_offsets shadow = [(VIRTIO_MMIO_QUEUE_NOTIFY, 0)]"
    and "blk_srv_ready (dv_live K A) f wr s c" and "vd_queues (dm_vdev s) = [q]" and "vq_ready q \<noteq> 0"
    and "serve_ok (blk_good wr n (dv_reach K (dm_fab s)) (h_heap (dm_host s))) (dv_reach K (dm_fab s)) blk_serve
           k (dv_ram (dm_fab s)) c q"
    and "0 < k" and "k < n" and "64 < n" and "serve_all blk_serve k (dv_ram (dm_fab s)) c q = (m', c', q')"
  shows "\<exists>sh v. devmem_turn n (devmem_blkd K dr n b path) (\<lambda>_. (id, id), id) shadow s = (OK sh, v) \<and>
    dv_ram (dm_fab v) = m' \<and> h_files (dm_host v) (of_path f) = Some c' \<and> vd_queues (dm_vdev v) = [q'] \<and>
    dv_reg (dm_fab v) VIRTIO_MMIO_QUEUE_NOTIFY = DEVMEM_NOTIFY_IDLE \<and>
    dv_reg (dm_fab v) VIRTIO_MMIO_INTERRUPT_STATUS = vd_interrupt_status (dm_vdev s) OR VIRTIO_INTERRUPT_VRING \<and>
    dv_line (dm_fab v)"
proof -
  let ?dev = "devmem_blkd K dr n b path" and ?N = VIRTIO_MMIO_QUEUE_NOTIFY
  have live: "dv_live K A (dm_fab s)" using assms(4) by (simp add: blk_srv_ready_def blk_ready_def)
  obtain u where u: "blkd_virtio_notify_queue (devmem_ops K (\<lambda>_. id)) dr n 0 s = (OK (), u)" "dv_live K A (dm_fab u)"
    "dv_ram (dm_fab u) = m'" "h_files (dm_host u) (of_path f) = Some c'" "vd_queues (dm_vdev u) = [q']"
    "vd_interrupt_status (dm_vdev u) = vd_interrupt_status (dm_vdev s) OR VIRTIO_INTERRUPT_VRING" "dv_line (dm_fab u)"
    using guest_map.blk_notify_ok [OF devmem.guest_map_axioms _ assms(4-9,11), of "\<lambda>_. id" dr] by (auto simp: devmem_quiet)
  have pr: "dv_private (dm_fab u) = dv_private (dm_fab s)" using u(2) live by (simp add: dv_live_def)
  have win: "dv_window ?dev (dm_fab u)"
    using dv_window_frame [OF dv_private_eq(1) [OF pr], of ?dev] assms(1) by simp
  have reg: "reg_in ?dev ?N" by (simp add: reg_in_def devmem_blkd_size vm_simps)
  have irq: "\<forall>a. in_irq (dm_fab u) a \<longrightarrow> \<not> in_registers (dm_fab u) a" using u(2) by (simp add: dv_live_def)
  let ?u = "u\<lparr>dm_fab := dv_set ?N DEVMEM_NOTIFY_IDLE (dm_fab u)\<rparr>"
  have irq': "\<forall>a. in_irq (dm_fab ?u) a \<longrightarrow> \<not> in_registers (dm_fab ?u) a"
    using irq by (simp add: dv_set_def split: option.splits)
  have win': "dv_window ?dev (dm_fab ?u)" using win by simp
  note set = dv_set_inv(1) [OF win reg, of DEVMEM_NOTIFY_IDLE] dv_set_inv(2) [OF win reg irq, of DEVMEM_NOTIFY_IDLE]
    devmem_regs.put_same [OF win, of ?N DEVMEM_NOTIFY_IDLE]
  from devmem_refresh_run [OF win' assms(10) irq'] obtain v where
    v: "devmem_refresh_read_registers n ?dev ?u = (OK (), v)" "dm_mmio v = dm_mmio u" "dm_host v = dm_host u"
      "dv_ram (dm_fab v) = dv_ram (dm_fab u)" "dv_line (dm_fab v) = dv_line (dm_fab u)"
      "dv_reg (dm_fab v) VIRTIO_MMIO_INTERRUPT_STATUS = vd_interrupt_status (dm_vdev u)" "dv_reg (dm_fab v) ?N = DEVMEM_NOTIFY_IDLE"
    using set by auto
  have "devmem_turn n ?dev (\<lambda>_. (id, id), id) shadow s =
      (OK (dv_settled (dv_reg (dm_fab s)) devmem_write_offsets shadow), v)"
    by (simp only: devmem_turn_def fst_conv snd_conv bnd_OK devmem_notify_poll [OF assms(1-3) u(1) pr] v(1) guest_quiet ret_apply)
  with u v show ?thesis by auto
qed

section \<open>A small guest\<close>

text \<open>Memory in the first page, the aperture at 0x10000 and the interrupt register at 0x20000.\<close>

definition demo_kernel :: devmem_kernel where
  "demo_kernel = \<lparr>dk_page_size = 0x1000,
     dk_mmap = (\<lambda>base len. base = 0 \<and> len \<le> 0x1000 \<or> base = 0x20000 \<and> len = 4)\<rparr>"

definition demo_devmem :: "memory \<Rightarrow> devmem_state" where
  "demo_devmem m = \<lparr>dv_fd = 4, dv_mmio_map = Some 0x10000, dv_mmio = Some 0x10000, dv_mmio_map_len = 0x200, dv_mmio_page_delta = 0, dv_mapped = 0x1000,
     dv_config = \<lparr>dc_path = ''/dev/mem'', dc_mmio_base = 0x10000, dc_mmio_size = 0x200, dc_poll_us = 1000, dc_have_irq = True,
       dc_irq_addr = 0x20000, dc_irq_assert = 1, dc_irq_deassert = 0\<rparr>, dv_phys = m\<rparr>"

definition devmem_state0 :: "memory \<Rightarrow> devmem_state blkd" where
  "devmem_state0 m = \<lparr>dm_mmio = dm_mmio (demo_state m), dm_fab = demo_devmem m, dm_host = demo_host\<rparr>"

lemma page_base: "(a :: u64) AND NOT (mask k) = push_bit k (drop_bit k a)"
  by (rule bit_word_eqI) (auto simp: bit_simps)

lemma unat_page: "unat ((a :: u64) AND NOT 0xfff) = unat a div 0x1000 * 0x1000"
proof -
  have m: "(0xfff :: u64) = mask 12" by (simp add: mask_eq_exp_minus_1)
  have "unat (push_bit 12 (drop_bit 12 a)) = unat a div 0x1000 * 0x1000"
    using unat_lt_u64 [of a] by (simp add: push_bit_eq_mult unat_word_ariths unat_drop_u64)
  then show ?thesis unfolding m page_base .
qed

lemma demo_mappable:
  "mappable demo_kernel (demo_devmem m) a n \<longleftrightarrow>
     unat a < 0x1000 \<and> a + n \<noteq> 0 \<and> a + n \<le> 0x1000 \<or>
     a AND NOT 0xfff = 0x20000 \<and> a - 0x20000 + n = 4"
proof -
  have "a AND NOT 0xfff = 0 \<longleftrightarrow> unat a div 0x1000 * 0x1000 = 0"
    by (simp only: unat_page [symmetric] unat_eq_0)
  also have "\<dots> \<longleftrightarrow> unat a < 0x1000" by auto
  finally have "a AND NOT 0xfff = 0 \<longleftrightarrow> unat a < 0x1000" .
  moreover have "a - 0x20000 + n \<noteq> 0" if "a + n = 0x20004"
  proof -
    have "a - 0x20000 + n = (a + n) - 0x20000" by (simp only: diff_add_eq)
    also have "\<dots> = 4" unfolding that by simp
    finally have e: "a - 0x20000 + n = 4" .
    show ?thesis unfolding e by simp
  qed
  ultimately show ?thesis by (auto simp: mappable_def map_phys_def demo_kernel_def demo_devmem_def Let_def)
qed

lemma avoids_bound: "\<forall>i < n. \<not> P (a + of_nat i) \<Longrightarrow> P x \<Longrightarrow> n \<le> unat (x - a :: u64)"
  by (rule ccontr) (auto simp: not_le dest: spec [of _ "unat (x - a)"])

lemma demo_reach_in:
  assumes "dv_reach demo_kernel (demo_devmem m) a n" and "n \<noteq> 0"
  shows "unat a + n \<le> 0x1000"
proof -
  have av: "\<forall>i < n. \<not> in_registers (demo_devmem m) (a + of_nat i)" "\<forall>i < n. \<not> in_irq (demo_devmem m) (a + of_nat i)"
    using assms by (auto simp: dv_reach_def)
  have le: "n \<le> unat (0x10000 - a)" "n \<le> unat (0x20000 - a)"
    by (rule avoids_bound [OF av(1)], simp add: in_registers_def demo_devmem_def)
      (rule avoids_bound [OF av(2)], simp add: in_irq_def demo_devmem_def)
  consider "unat a < 0x1000" "a + of_nat n \<le> 0x1000" | (irq) "a - 0x20000 + of_nat n = 4"
    using assms by (auto simp: dv_reach_def demo_mappable)
  then show ?thesis
  proof cases
    case 1
    then have "unat (0x10000 - a) = 0x10000 - unat a" by (subst unat_sub) (simp_all add: word_le_nat_alt)
    with 1 le(1) show ?thesis by (simp add: word_le_nat_alt unat_word_ariths unat_of_nat)
  next
    case irq
    let ?d = "unat (a - 0x20000)"
    have d: "4 \<le> ?d" using av(2) assms(2) by (fastforce simp: in_irq_def demo_devmem_def dest: spec [of _ 0])
    then have "a \<noteq> 0x20000" by auto
    then have "unat (0x20000 - a) + ?d = 2 ^ 64" using unat_diff_swap [of a "0x20000"] by simp
    then have "?d + n \<le> 2 ^ 64" using le(2) by linarith
    moreover have "(?d + n) mod 2 ^ 64 = 4"
      using arg_cong [OF irq, of unat] by (simp add: unat_word_ariths unat_of_nat mod_add_right_eq)
    ultimately show ?thesis using d assms(2) by (cases "?d + n = 2 ^ 64") auto
  qed
qed

lemma demo_reach: "dv_reach demo_kernel (demo_devmem m) = uio_reach (dm_fab (demo_state m'))"
proof (intro ext)
  fix a :: u64 and n
  have far: "\<not> in_registers (demo_devmem m) (a + of_nat i) \<and> \<not> in_irq (demo_devmem m) (a + of_nat i)"
    if n: "unat a + n \<le> 0x1000" "i < n" for i
  proof -
    have "unat (a + of_nat i) < 0x1000" using n by (simp add: unat_word_ariths unat_of_nat)
    then show ?thesis by (auto simp: in_registers_def in_irq_def demo_devmem_def unat_sub_if')
  qed
  have "mappable demo_kernel (demo_devmem m) a (of_nat n)" if "unat a + n \<le> 0x1000" "n \<noteq> 0"
    using that by (simp add: demo_mappable word_le_nat_alt unat_word_ariths unat_of_nat unat_eq_0 [symmetric])
  with far demo_reach_in show "dv_reach demo_kernel (demo_devmem m) a n = uio_reach (dm_fab (demo_state m')) a n"
    unfolding demo_uio_reach by (auto simp: dv_reach_def)
qed

lemma notify_ram_far: "0x1000 \<le> unat x \<Longrightarrow> notify_ram x = 0"
proof -
  assume x: "0x1000 \<le> unat x"
  have ap: "apart a k x 1" if "unat a + k \<le> 0x1000" for a k
    using that x unat_lt_u64 [of x] by (auto simp: apart_def unat_sub_if')
  have "mem_read notify_ram x 1 = [0]"
    using demo_ram_zero [OF ap, of 0 3] ap by (simp add: notify_ram_def mem_read_write_apart)
  then show ?thesis by (simp add: mem_read_def)
qed

lemma demo_devmem_ram: "dv_ram (demo_devmem notify_ram) = notify_ram"
proof
  fix x
  have "0x1000 \<le> unat x" if "in_registers (demo_devmem notify_ram) x \<or> in_irq (demo_devmem notify_ram) x"
    using that by (auto simp: in_registers_def in_irq_def demo_devmem_def unat_sub_if' split: if_splits)
  then show "dv_ram (demo_devmem notify_ram) x = notify_ram x"
    using notify_ram_far [of x] by (auto simp: dv_ram_def demo_devmem_def)
qed

lemma demo_devmem_live: "dv_live demo_kernel (dv_private (demo_devmem m)) (demo_devmem m)"
proof -
  have "mappable demo_kernel (demo_devmem m) 0x20000 4" by (simp add: demo_mappable)
  moreover have "\<not> in_registers (demo_devmem m) a" if "in_irq (demo_devmem m) a" for a
    using that by (auto simp: in_registers_def in_irq_def demo_devmem_def unat_sub_if' split: if_splits)
  ultimately show ?thesis by (auto simp: dv_live_def demo_devmem_def)
qed

lemma demo_devmem_window: "dv_window (devmem_blkd K dr n b path) (demo_devmem m)"
  by (simp add: dv_window_def devmem_blkd_size demo_devmem_def)

lemma demo_devmem_zero:
  assumes "unat off \<le> 0x1fc"
  shows "dv_reg (demo_devmem notify_ram) off = 0"
proof -
  have "notify_ram (0x10000 + off + of_nat i) = 0" if "i < 4" for i
  proof (rule notify_ram_far)
    show "0x1000 \<le> unat (0x10000 + off + of_nat i)" using assms that by (simp add: unat_word_ariths unat_of_nat)
  qed
  then have "mem_read notify_ram (0x10000 + off) 4 = replicate 4 0" by (intro nth_equalityI) simp_all
  then show ?thesis by (simp add: dv_reg_def demo_devmem_def virtio_load_le32_def)
qed

lemma demo_devmem_changes:
  "dv_changes (dv_reg (demo_devmem notify_ram)) devmem_write_offsets (replicate 12 0 @ [DEVMEM_NOTIFY_IDLE, 0, 0]) = [(VIRTIO_MMIO_QUEUE_NOTIFY, 0)]"
proof -
  have "replicate 12 0 @ [DEVMEM_NOTIFY_IDLE, 0, 0] = [0, 0, 0, 0, 0, 0, 0, 0, 0, 0, 0, 0, DEVMEM_NOTIFY_IDLE, 0, 0]" by (simp add: numeral_eq_Suc)
  then show ?thesis
    by (simp add: dv_changes_def devmem_write_offsets_def demo_devmem_zero vm_simps DEVMEM_NOTIFY_IDLE_def)
qed

theorem devmem_notification_served_witness:
  "\<exists>sh v. devmem_turn 66 (devmem_blkd demo_kernel False 66 demo_backend ''devmem:0x10000'') (\<lambda>_. (id, id), id)
      (replicate 12 0 @ [DEVMEM_NOTIFY_IDLE, 0, 0]) (devmem_state0 notify_ram) = (OK sh, v) \<and>
    dv_ram (dm_fab v) = used_push served_ram demo_queue 0 5 \<and>
    dv_reg (dm_fab v) VIRTIO_MMIO_INTERRUPT_STATUS = VIRTIO_INTERRUPT_VRING \<and> dv_line (dm_fab v)"
proof -
  let ?s = "devmem_state0 notify_ram" and ?c = "[1, 2, 3, 4, 5, 6, 7, 8]"
  have fab: "dm_fab ?s = demo_devmem notify_ram" "h_heap (dm_host ?s) = 4096" "dm_vdev ?s = dm_vdev (demo_state notify_ram)"
    by (simp_all add: devmem_state0_def demo_host_def)
  have ready: "blk_srv_ready (dv_live demo_kernel (dv_private (demo_devmem notify_ram))) demo_file True ?s ?c"
    using demo_ready [of notify_ram] demo_writable(1) demo_writable(2) [of notify_ram] demo_devmem_live [of notify_ram]
    by (simp add: blk_srv_ready_def blk_ready_def devmem_state0_def demo_state_def)
  have q: "vd_queues (dm_vdev ?s) = [demo_queue]" "vq_ready demo_queue \<noteq> 0" "vd_interrupt_status (dm_vdev ?s) = 0"
    by (simp_all add: devmem_state0_def demo_state_def demo_queue_def)
  have ok: "serve_ok (blk_good True 66 (dv_reach demo_kernel (dm_fab ?s)) (h_heap (dm_host ?s))) (dv_reach demo_kernel (dm_fab ?s)) blk_serve
      1 (dv_ram (dm_fab ?s)) ?c demo_queue"
    unfolding fab demo_reach [where m' = notify_ram] demo_devmem_ram by (rule notify_serve_ok) simp
  have all: "serve_all blk_serve 1 (dv_ram (dm_fab ?s)) ?c demo_queue = (used_push served_ram demo_queue 0 5, ?c, consume demo_queue)"
    unfolding fab demo_devmem_ram using notify_pending notify_serve by simp
  have win: "dv_window (devmem_blkd demo_kernel False 66 demo_backend ''devmem:0x10000'') (dm_fab ?s)"
    unfolding fab by (rule demo_devmem_window)
  have ch: "dv_changes (dv_reg (dm_fab ?s)) devmem_write_offsets (replicate 12 0 @ [DEVMEM_NOTIFY_IDLE, 0, 0]) = [(VIRTIO_MMIO_QUEUE_NOTIFY, 0)]"
    unfolding fab by (rule demo_devmem_changes)
  from devmem_notification_served [OF win _ ch ready q(1,2) ok _ _ _ all] q(3) show ?thesis by fastforce
qed

section \<open>The scan and its race\<close>

text \<open>
  C21: the \<^verbatim>\<open>/dev/mem\<close> fabric turns what the guest left in the aperture into device callbacks. If the guest
  does not write during a scan and the callbacks leave the aperture alone, the scan calls the device
  once for every register that differs from the shadow, with the value in the aperture and in the order
  of the register table; it stops at the first callback that fails; the notification and the acknowledge
  register are set back after their callback; and the shadow it keeps holds the values it has seen, with
  notifications and acknowledgements consumed.
\<close>

theorem devmem_poll_delivers:
  assumes "dv_window dev (dm_fab s)" and "0x100 \<le> unat (fdev_size dev)" and "length shadow = 15"
    and "undisturbed dev (dv_changes (dv_reg (dm_fab s)) devmem_write_offsets shadow) s"
  shows "devmem_poll_write_registers (\<lambda>_. (id, id)) dev shadow devmem_write_offsets s =
    bnd (dv_deliver dev (dv_changes (dv_reg (dm_fab s)) devmem_write_offsets shadow))
        (\<lambda>_. ret (dv_settled (dv_reg (dm_fab s)) devmem_write_offsets shadow)) s"
  by (rule devmem_poll_run [OF assms])

text \<open>A device without callbacks of its own: it counts the writes it gets in the heap of its host.\<close>

definition counting_device :: "(unit, devmem_state) daemon fabric_device" where
  "counting_device = \<lparr>fdev_name = ''count'', fdev_socket_path = [], fdev_addr = 0, fdev_size = 0x200,
     fdev_ops = Some \<lparr>fd_connect = None, fd_read = Some (\<lambda>_ _ _. 0),
       fd_write = Some (\<lambda>_ _ _. modify (\<lambda>s. s\<lparr>dm_host := (dm_host s)\<lparr>h_heap := Suc (h_heap (dm_host s))\<rparr>\<rparr>))\<rparr>\<rparr>"

theorem devmem_poll_delivers_witness:
  "\<forall>m. devmem_poll_write_registers (\<lambda>_. (id, id)) counting_device (replicate 12 0 @ [DEVMEM_NOTIFY_IDLE, 0, 0]) devmem_write_offsets
       \<lparr>dm_mmio = m, dm_fab = demo_devmem notify_ram, dm_host = demo_host\<rparr> =
     bnd (dv_deliver counting_device [(VIRTIO_MMIO_QUEUE_NOTIFY, 0)])
       (\<lambda>_. ret (replicate 12 0 @ [DEVMEM_NOTIFY_IDLE, 0, 0])) \<lparr>dm_mmio = m, dm_fab = demo_devmem notify_ram, dm_host = demo_host\<rparr>"
proof
  fix m :: "unit virtio_mmio"
  let ?s = "\<lparr>dm_mmio = m, dm_fab = demo_devmem notify_ram, dm_host = demo_host\<rparr>" and ?sh = "replicate 12 0 @ [DEVMEM_NOTIFY_IDLE, 0, 0]"
  have win: "dv_window counting_device (dm_fab ?s)" by (simp add: dv_window_def counting_device_def demo_devmem_def)
  have und: "undisturbed counting_device (dv_changes (dv_reg (dm_fab ?s)) devmem_write_offsets ?sh) ?s"
    by (simp add: demo_devmem_changes dev_write_def counting_device_def)
  have sh: "?sh = [0, 0, 0, 0, 0, 0, 0, 0, 0, 0, 0, 0, DEVMEM_NOTIFY_IDLE, 0, 0]" by (simp add: numeral_eq_Suc)
  have "dv_settled (dv_reg (dm_fab ?s)) devmem_write_offsets ?sh = ?sh"
    unfolding sh by (simp add: dv_settled_def devmem_write_offsets_def demo_devmem_zero vm_simps dv_settle_def DEVMEM_NOTIFY_IDLE_def)
  with devmem_poll_delivers [OF win _ _ und] demo_devmem_changes
  show "devmem_poll_write_registers (\<lambda>_. (id, id)) counting_device ?sh devmem_write_offsets ?s =
      bnd (dv_deliver counting_device [(VIRTIO_MMIO_QUEUE_NOTIFY, 0)]) (\<lambda>_. ret ?sh) ?s"
    by (simp add: counting_device_def del: dv_deliver.simps)
qed

lemma mem_write_twice: "length x = length y \<Longrightarrow> mem_write (mem_write m a x) a y = mem_write m a y"
  by (simp add: mem_write_def fun_eq_iff)

text \<open>
  C39: a notification that arrives while the device handles an earlier one is lost. The scan finds the
  notification \<open>v\<close>, calls the device, and only then sets the register back to idle. If the guest writes
  another notification \<open>v'\<close> while the device is busy, the pass ends in exactly the state in which it ends
  when the guest writes nothing: the device is not told of \<open>v'\<close> now, and neither register nor shadow
  keep a trace of it. (The UIO fabric sets the register back before it calls the device.)
\<close>

theorem devmem_notification_lost:
  assumes "offsets ! i = VIRTIO_MMIO_QUEUE_NOTIFY" and "dv_window dev (dm_fab s)" and "reg_in dev VIRTIO_MMIO_QUEUE_NOTIFY"
    and "dv_reg (dm_fab s) VIRTIO_MMIO_QUEUE_NOTIFY = v" and "v \<noteq> shadow ! i" and "i < length shadow"
    and "dev_write dev VIRTIO_MMIO_QUEUE_NOTIFY (ucast v) 4 s = (OK (), t)" and "dv_frame (dm_fab t) = dv_frame (dm_fab s)"
    and "dv_mmio (dm_fab s) = Some p"
  shows "\<exists>t'. devmem_poll_register (\<lambda>m. mem_write m (p + VIRTIO_MMIO_QUEUE_NOTIFY) (virtio_store_le32 v')) dev offsets i shadow s =
      (OK (shadow[i := DEVMEM_NOTIFY_IDLE]), t') \<and>
    devmem_poll_register id dev offsets i shadow s = (OK (shadow[i := DEVMEM_NOTIFY_IDLE]), t') \<and>
    dv_reg (dm_fab t') VIRTIO_MMIO_QUEUE_NOTIFY = shadow[i := DEVMEM_NOTIFY_IDLE] ! i"
proof -
  let ?N = VIRTIO_MMIO_QUEUE_NOTIFY
  let ?t = "t\<lparr>dm_fab := dv_set ?N DEVMEM_NOTIFY_IDLE (dm_fab t)\<rparr>"
  have win: "dv_window dev (dm_fab t)" using dv_window_frame [OF assms(8), of dev] assms(2) by simp
  have p: "dv_mmio (dm_fab t) = Some p" using dv_frame_eq(2) [OF assms(8)] assms(9) by simp
  have run: "devmem_poll_register busy dev offsets i shadow s = (OK (shadow[i := DEVMEM_NOTIFY_IDLE]), t')"
    if b: "phys_acts busy (dm_fab t) = g" "dv_window dev g" "t' = t\<lparr>dm_fab := dv_set ?N DEVMEM_NOTIFY_IDLE g\<rparr>" for busy g t'
    using dv_load [OF assms(2,3)] leD [OF reg_in_le [OF assms(3)]] dv_store [OF b(2) assms(3)] assms(1,4,5,7) b(1,3)
    by (simp add: devmem_poll_register_def Let_def on_fab_def bnd_def guest_phys_def)
  let ?g = "(dm_fab t)\<lparr>dv_phys := mem_write (dv_phys (dm_fab t)) (p + ?N) (virtio_store_le32 v')\<rparr>"
  have "dv_set ?N DEVMEM_NOTIFY_IDLE ?g = dv_set ?N DEVMEM_NOTIFY_IDLE (dm_fab t)"
    using p by (simp add: dv_set_def mem_write_twice)
  moreover have "dv_window dev ?g" using win dv_window_frame [of ?g "dm_fab t" dev] by simp
  ultimately have "devmem_poll_register (\<lambda>m. mem_write m (p + ?N) (virtio_store_le32 v')) dev offsets i shadow s =
      (OK (shadow[i := DEVMEM_NOTIFY_IDLE]), ?t)"
    by (intro run [where g = ?g]) (simp_all add: phys_acts_def)
  moreover have "devmem_poll_register id dev offsets i shadow s = (OK (shadow[i := DEVMEM_NOTIFY_IDLE]), ?t)"
    by (intro run [where g = "dm_fab t"]) (simp_all add: phys_acts_def win)
  ultimately show ?thesis
    using devmem_regs.put_same [OF win, of ?N DEVMEM_NOTIFY_IDLE] assms(6) by (intro exI [of _ ?t]) simp
qed

theorem devmem_notification_lost_witness:
  "\<forall>m. \<exists>t'. devmem_poll_register (\<lambda>m. mem_write m (0x10000 + VIRTIO_MMIO_QUEUE_NOTIFY) (virtio_store_le32 1)) counting_device
       [VIRTIO_MMIO_QUEUE_NOTIFY] 0 [DEVMEM_NOTIFY_IDLE] \<lparr>dm_mmio = m, dm_fab = demo_devmem notify_ram, dm_host = demo_host\<rparr> =
       (OK [DEVMEM_NOTIFY_IDLE], t') \<and> dv_reg (dm_fab t') VIRTIO_MMIO_QUEUE_NOTIFY = DEVMEM_NOTIFY_IDLE"
proof
  fix m :: "unit virtio_mmio"
  let ?s = "\<lparr>dm_mmio = m, dm_fab = demo_devmem notify_ram, dm_host = demo_host\<rparr>"
  let ?t = "?s\<lparr>dm_host := demo_host\<lparr>h_heap := Suc (h_heap demo_host)\<rparr>\<rparr>"
  have win: "dv_window counting_device (dm_fab ?s)" by (simp add: dv_window_def counting_device_def demo_devmem_def)
  have reg: "reg_in counting_device VIRTIO_MMIO_QUEUE_NOTIFY" by (simp add: reg_in_def counting_device_def vm_simps)
  have v: "dv_reg (dm_fab ?s) VIRTIO_MMIO_QUEUE_NOTIFY = 0" by (simp add: demo_devmem_zero vm_simps)
  have w: "dev_write counting_device VIRTIO_MMIO_QUEUE_NOTIFY (ucast (0 :: u32)) 4 ?s = (OK (), ?t)"
    by (simp add: dev_write_def counting_device_def)
  have p: "dv_mmio (dm_fab ?s) = Some 0x10000" by (simp add: demo_devmem_def)
  have ne: "0 \<noteq> [DEVMEM_NOTIFY_IDLE] ! 0" by (simp add: DEVMEM_NOTIFY_IDLE_def)
  from devmem_notification_lost [where i = 0 and offsets = "[VIRTIO_MMIO_QUEUE_NOTIFY]", OF _ win reg v ne _ w _ p, of 1]
  show "\<exists>t'. devmem_poll_register (\<lambda>m. mem_write m (0x10000 + VIRTIO_MMIO_QUEUE_NOTIFY) (virtio_store_le32 1)) counting_device
       [VIRTIO_MMIO_QUEUE_NOTIFY] 0 [DEVMEM_NOTIFY_IDLE] ?s = (OK [DEVMEM_NOTIFY_IDLE], t') \<and>
      dv_reg (dm_fab t') VIRTIO_MMIO_QUEUE_NOTIFY = DEVMEM_NOTIFY_IDLE" by auto
qed

end
