(* ===== verification/Devmem_Run.thy ===== *)
theory Devmem_Run
  imports Devmem_Scan Uio_Run
begin

unbundle bit_operations_syntax

text \<open>
  \<open>fabric_run\<close> of the \<^verbatim>\<open>/dev/mem\<close> fabric as a whole: what a successful configuration and mapping give, and
  what the run leaves behind when it returns.
\<close>

section \<open>Configuration and mapping\<close>

text \<open>An accepted configuration has an aperture, at least as large as the device.\<close>

lemma load_config_accepts:
  assumes "load_config getenv dev c = (OK (), c')"
  shows "dc_mmio_base c' \<noteq> 0 \<and> fdev_size dev \<le> dc_mmio_size c'"
  using assms by (auto simp: load_config_def guard_def elim!: bndE split: if_splits)

lemma minus_and_not: "(x :: u64) - (x AND NOT y) = x AND y"
proof -
  have "(x AND NOT y) + (x AND y) = (x AND NOT y) OR (x AND y)"
    by (rule disjunctive_add) (auto simp: bit_simps)
  also have "\<dots> = x" by (rule bit_word_eqI) (auto simp: bit_simps)
  finally show ?thesis by (metis add_diff_cancel_left')
qed

text \<open>A length that is not longer than a page takes one page.\<close>

lemma whole_pages_bound:
  assumes "0 < dk_page_size K"
  shows "unat len \<le> whole_pages K len"
    and "len \<noteq> 0 \<Longrightarrow> unat len \<le> unat (dk_page_size K) \<Longrightarrow> whole_pages K len = unat (dk_page_size K)"
proof -
  let ?p = "unat (dk_page_size K)" and ?n = "unat len"
  have p: "0 < ?p" using assms by (simp add: word_less_nat_alt)
  have "(?n + ?p - 1) div ?p * ?p + (?n + ?p - 1) mod ?p = ?n + ?p - 1" "(?n + ?p - 1) mod ?p < ?p"
    using p by simp_all
  then show "?n \<le> whole_pages K len" unfolding whole_pages_def by linarith
  assume "len \<noteq> 0" "?n \<le> ?p"
  then have "0 < ?n" by (simp add: unat_gt_0)
  then have "?n + ?p - 1 = (?n - 1) + ?p" by simp
  then have "(?n + ?p - 1) div ?p = Suc ((?n - 1) div ?p)" using p by (simp only: div_add_self2)
  also have "(?n - 1) div ?p = 0" using p \<open>?n \<le> ?p\<close> by simp
  finally show "whole_pages K len = ?p" by (simp add: whole_pages_def)
qed

lemma devmem_open_ok:
  assumes "devmem_open K getenv dev s = (OK (), t)"
  obtains base config where "dv_config (dm_fab t) = config" and "0 \<le> dv_fd (dm_fab t)"
    and "dc_mmio_base config \<noteq> 0" and "fdev_size dev \<le> dc_mmio_size config"
    and "dv_mmio_map (dm_fab t) = Some base" and "dv_mmio (dm_fab t) = Some (dc_mmio_base config)"
    and "dv_mmio_page_delta (dm_fab t) = dc_mmio_base config AND (dk_page_size K - 1)"
    and "dv_mmio_map_len (dm_fab t) = dv_mmio_page_delta (dm_fab t) + dc_mmio_size config"
    and "dv_mmio_map_len (dm_fab t) \<noteq> 0" and "dv_mapped (dm_fab t) = whole_pages K (dv_mmio_map_len (dm_fab t))"
proof -
  obtain r config where c: "load_config getenv dev (dv_config (dm_fab s)) = (r, config)" by fastforce
  have "r = OK ()" using assms c by (cases r) (auto simp: devmem_open_def devmem_load_config_def on_fab_def bnd_def)
  with c have acc: "dc_mmio_base config \<noteq> 0" "fdev_size dev \<le> dc_mmio_size config" using load_config_accepts by auto
  obtain fd h where o: "sys_open (dc_path config) True True False False (dm_host s) = (fd, h)" by fastforce
  let ?g = "(dm_fab s)\<lparr>dv_config := config, dv_fd := fd\<rparr>"
  obtain m l d where m: "map_phys K ?g (dc_mmio_base config) (dc_mmio_size config) = (m, l, d)" by (metis prod.exhaust)
  have run: "\<not> fd < 0 \<and> (\<exists>base. m = Some base \<and> dm_fab t =
      ?g\<lparr>dv_mmio_map := Some base, dv_mmio_map_len := l, dv_mmio_page_delta := d, dv_mmio := Some (base + d),
        dv_mapped := whole_pages K l\<rparr>)"
    using assms c \<open>r = OK ()\<close> o m
    by (cases m) (auto simp: devmem_open_def devmem_load_config_def on_fab_def on_host_def cleanup_devmem_def bnd_def split: if_splits)
  then obtain base where b: "m = Some base" "dm_fab t =
      ?g\<lparr>dv_mmio_map := Some base, dv_mmio_map_len := l, dv_mmio_page_delta := d, dv_mmio := Some (base + d),
        dv_mapped := whole_pages K l\<rparr>" by blast
  have "l = d + dc_mmio_size config" "d = dc_mmio_base config - (dc_mmio_base config AND NOT (dk_page_size K - 1))"
    "base + d = dc_mmio_base config" "l \<noteq> 0"
    using m b(1) by (auto simp: map_phys_def Let_def split: if_splits)
  then have "l = d + dc_mmio_size config" "d = dc_mmio_base config AND (dk_page_size K - 1)"
    "base + d = dc_mmio_base config" "l \<noteq> 0"
    by (simp_all add: minus_and_not)
  with that [of config base] acc b run show ?thesis by simp
qed

text \<open>
  C32: what a successful start of the \<^verbatim>\<open>/dev/mem\<close> fabric has mapped. Whatever the environment and the
  endpoint say, the aperture starts at the configured base, which is not zero. If the offset of the base in
  its page plus the configured size is a 64-bit number, the mapping covers every register of the device.
  The size is not bounded, though: when that sum wraps around, the call asks for less than one page and
  gets one, so the registers whose four bytes are in the first page can be accessed and those behind it
  fault, whatever the size of the device.
\<close>

theorem devmem_open_maps:
  assumes "devmem_open K getenv dev s = (OK (), t)" and "0 < dk_page_size K"
  shows "dv_mmio (dm_fab t) = Some (dc_mmio_base (dv_config (dm_fab t))) \<and> dc_mmio_base (dv_config (dm_fab t)) \<noteq> 0 \<and>
    (if unat (dv_mmio_page_delta (dm_fab t)) + unat (dc_mmio_size (dv_config (dm_fab t))) < 2 ^ 64
     then dv_window dev (dm_fab t)
     else \<forall>off. fst (devmem_load_le32 off (dm_fab t)) \<noteq> Trap \<longleftrightarrow>
            unat (dv_mmio_page_delta (dm_fab t)) + unat off + 4 \<le> unat (dk_page_size K))"
proof -
  let ?g = "dm_fab t"
  let ?d = "dv_mmio_page_delta ?g" and ?n = "dc_mmio_size (dv_config ?g)" and ?l = "dv_mmio_map_len ?g"
  obtain o: "dc_mmio_base (dv_config ?g) \<noteq> 0" "fdev_size dev \<le> ?n" "dv_mmio ?g = Some (dc_mmio_base (dv_config ?g))"
    "?l = ?d + ?n" "?d = dc_mmio_base (dv_config ?g) AND (dk_page_size K - 1)" "?l \<noteq> 0" "dv_mapped ?g = whole_pages K ?l"
    using assms(1) by (rule devmem_open_ok) auto
  have len: "unat ?l = (unat ?d + unat ?n) mod 2 ^ 64" using o(4) by (simp add: unat_word_ariths)
  show ?thesis
  proof (cases "unat ?d + unat ?n < 2 ^ 64")
    case True
    then have "dv_window dev ?g"
      using len o(2,3,7) whole_pages_bound(1) [OF assms(2), of ?l] by (simp add: dv_window_def word_le_nat_alt)
    with o True show ?thesis by simp
  next
    case False
    then have "unat ?l = unat ?d + unat ?n - 2 ^ 64"
      unfolding len using unat_lt_u64 [of ?d] unat_lt_u64 [of ?n] by (subst mod_if) (simp add: mod_if)
    then have "unat ?l < unat ?d" using False unat_lt_u64 [of ?n] by simp
    moreover have "?d \<le> dk_page_size K - 1" unfolding o(5) by (rule word_and_le1)
    then have "unat ?d < unat (dk_page_size K)" using assms(2) by (simp add: word_le_nat_alt unat_sub_if' word_less_nat_alt split: if_splits)
    ultimately have "dv_mapped ?g = unat (dk_page_size K)"
      unfolding o(7) by (intro whole_pages_bound(2) assms(2) o(6)) simp
    with o(1,3) False show ?thesis by (simp add: devmem_load_le32_def register_mapped_def)
  qed
qed

text \<open>A host with the device file, a kernel that lets everything be mapped, and a device of 0x200 bytes.\<close>

definition free_kernel :: devmem_kernel where
  "free_kernel = \<lparr>dk_page_size = 0x1000, dk_mmap = (\<lambda>_ _. True)\<rparr>"

definition idle_devmem :: devmem_state where
  "idle_devmem = \<lparr>dv_fd = - 1, dv_mmio_map = None, dv_mmio = None, dv_mmio_map_len = 0, dv_mmio_page_delta = 0, dv_mapped = 0,
     dv_config = \<lparr>dc_path = [], dc_mmio_base = 0, dc_mmio_size = 0, dc_poll_us = 0, dc_have_irq = False, dc_irq_addr = 0,
       dc_irq_assert = 0, dc_irq_deassert = 0\<rparr>, dv_phys = (\<lambda>_. 0)\<rparr>"

definition devmem_start :: "(unit, devmem_state) daemon" where
  "devmem_start = \<lparr>dm_mmio = dm_mmio run_state, dm_fab = idle_devmem,
     dm_host = (dm_host run_state)\<lparr>h_files := [''/dev/mem'' \<mapsto> []]\<rparr>\<rparr>"

definition plain_device :: "string \<Rightarrow> (unit, devmem_state) daemon fabric_device" where
  "plain_device endpoint = \<lparr>fdev_name = ''blkd'', fdev_socket_path = endpoint, fdev_addr = 0, fdev_size = 0x200, fdev_ops = None\<rparr>"

lemma devmem_start_open:
  assumes "load_config getenv (plain_device e) (dv_config idle_devmem) = (OK (), config)" and "dc_path config = ''/dev/mem''"
    and "dc_mmio_base config - (dc_mmio_base config AND NOT 0xfff) + dc_mmio_size config \<noteq> 0"
  shows "\<exists>t. devmem_open free_kernel getenv (plain_device e) devmem_start = (OK (), t) \<and> dv_config (dm_fab t) = config \<and>
    dv_mmio_page_delta (dm_fab t) = dc_mmio_base config - (dc_mmio_base config AND NOT 0xfff)"
proof -
  obtain h where "sys_open ''/dev/mem'' True True False False (dm_host devmem_start) = (3, h)"
    by (simp add: sys_open_def devmem_start_def run_state_def transfer_def)
  with assms show ?thesis
    by (simp add: devmem_open_def devmem_load_config_def on_fab_def on_host_def bnd_def map_phys_def free_kernel_def Let_def devmem_start_def)
qed

text \<open>A base in the last 256 bytes of a page and the size -1, which the parser accepts, and a plain endpoint.\<close>

theorem devmem_open_maps_witness:
  "(\<exists>t. devmem_open free_kernel [''CHIPLETS_DEVMEM_MMIO_SIZE'' \<mapsto> ''-1''] (plain_device ''devmem:0x10f00'') devmem_start = (OK (), t) \<and>
      fst (devmem_load_le32 0x070 (dm_fab t)) \<noteq> Trap \<and> fst (devmem_load_le32 0x100 (dm_fab t)) = Trap) \<and>
   (\<exists>t. devmem_open free_kernel Map.empty (plain_device ''devmem:0x10000:0x1000:50'') devmem_start = (OK (), t) \<and>
      dv_mmio (dm_fab t) = Some 0x10000 \<and> dv_window (plain_device ''devmem:0x10000:0x1000:50'') (dm_fab t))"
proof -
  note parse = parse_u64_def strtoull_def is_space_def auto_base_def hex_prefixed_def digit_in_def digit_val_def digits_value_def
  have num: "parse_u64 ''-1'' = Some 0xffffffffffffffff" "parse_u64 ''0x10f00'' = Some 0x10f00" "parse_u64 ''0x10000'' = Some 0x10000"
    "parse_u64 ''0x1000'' = Some 0x1000" "parse_u64 ''50'' = Some 50"
    by (simp_all add: parse)
  have tok: "strtok (CHR '':'') ''0x10f00'' = [''0x10f00'']" "strtok (CHR '':'') ''0x10000:0x1000:50'' = [''0x10000'', ''0x1000'', ''50'']"
    by (simp_all add: strtok.simps)
  note conf = load_config_def default_config_def env_u64_def env_u32_def devmem_parse_endpoint_def put_u64_def put_u32_def
    devmem_parse_u32_def plain_device_def bnd_def num tok
  let ?d1 = "plain_device ''devmem:0x10f00''" and ?d2 = "plain_device ''devmem:0x10000:0x1000:50''"
  let ?e1 = "[''CHIPLETS_DEVMEM_MMIO_SIZE'' \<mapsto> ''-1''] :: environment"
  obtain c1 where c1: "load_config ?e1 ?d1 (dv_config idle_devmem) = (OK (), c1)" "dc_path c1 = ''/dev/mem''"
    "dc_mmio_base c1 = 0x10f00" "dc_mmio_size c1 = 0xffffffffffffffff"
    by (simp add: conf)
  obtain c2 where c2: "load_config Map.empty ?d2 (dv_config idle_devmem) = (OK (), c2)" "dc_path c2 = ''/dev/mem''"
    "dc_mmio_base c2 = 0x10000" "dc_mmio_size c2 = 0x1000"
    by (simp add: conf)
  from devmem_start_open [OF c1(1,2)] c1(3,4) obtain t1 where t1: "devmem_open free_kernel ?e1 ?d1 devmem_start = (OK (), t1)"
    "dv_config (dm_fab t1) = c1" "dv_mmio_page_delta (dm_fab t1) = 0xf00" using c1(3) by auto
  from devmem_start_open [OF c2(1,2)] c2(3,4) obtain t2 where t2: "devmem_open free_kernel Map.empty ?d2 devmem_start = (OK (), t2)"
    "dv_config (dm_fab t2) = c2" "dv_mmio_page_delta (dm_fab t2) = 0" using c2(3) by auto
  have page: "0 < dk_page_size free_kernel" "dk_page_size free_kernel = 0x1000" by (simp_all add: free_kernel_def)
  from devmem_open_maps [OF t1(1) page(1)] t1 c1(3,4) have
    "fst (devmem_load_le32 off (dm_fab t1)) \<noteq> Trap \<longleftrightarrow> 0xf00 + unat off + 4 \<le> 0x1000" for off by (simp add: page(2))
  from this [of "0x070"] this [of "0x100"] have "fst (devmem_load_le32 0x070 (dm_fab t1)) \<noteq> Trap"
    "fst (devmem_load_le32 0x100 (dm_fab t1)) = Trap" by simp_all
  with devmem_open_maps [OF t2(1) page(1)] t1 t2 c2(3,4) show ?thesis by auto
qed

section \<open>Release\<close>

definition devmem_idle :: "devmem_state \<Rightarrow> bool" where
  "devmem_idle g \<longleftrightarrow> dv_mmio_map g = None \<and> dv_fd g < 0"

lemma devmem_cleanup_idle: "\<exists>t. cleanup_devmem s = (OK (), t) \<and> devmem_idle (dm_fab t)"
  by (simp add: cleanup_devmem_def devmem_idle_def Let_def)

lemma devmem_open_fails:
  assumes "devmem_idle (dm_fab s)" and "devmem_open K getenv dev s = (Fail, t)"
  shows "devmem_idle (dm_fab t)"
proof -
  obtain r config where c: "load_config getenv dev (dv_config (dm_fab s)) = (r, config)" by fastforce
  show ?thesis
  proof (cases "r = OK ()")
    case False
    with assms c show ?thesis
      by (cases r) (auto simp: devmem_open_def devmem_load_config_def on_fab_def bnd_def devmem_idle_def)
  next
    case True
    obtain fd h where o: "sys_open (dc_path config) True True False False (dm_host s) = (fd, h)" by fastforce
    let ?g = "(dm_fab s)\<lparr>dv_config := config, dv_fd := fd\<rparr>"
    obtain m l d where m: "map_phys K ?g (dc_mmio_base config) (dc_mmio_size config) = (m, l, d)" by (metis prod.exhaust)
    show ?thesis
      using assms c True o m
      by (cases m) (auto simp: devmem_open_def devmem_load_config_def on_fab_def on_host_def cleanup_devmem_def bnd_def Let_def
          devmem_idle_def split: if_splits)
  qed
qed

text \<open>
  The run loop of the \<^verbatim>\<open>/dev/mem\<close> fabric releases what it took. Whenever \<open>fabric_run\<close> returns, at
  whatever point of the configuration, the setup or the polling loop and whatever the guest did
  meanwhile, it returns false and its variables record neither a mapping nor a descriptor.
\<close>

theorem devmem_run_releases:
  assumes "devmem_idle (dm_fab s)" and "devmem_fabric_run K getenv n turns bus s = (OK r, t)"
  shows "r = False \<and> devmem_idle (dm_fab t)"
proof (cases "fb_device_count bus = 1")
  case False
  with assms show ?thesis by (simp add: devmem_fabric_run_def)
next
  case True
  with assms(2) obtain dev where d: "fb_devices bus ! 0 = Some dev"
    by (cases "fb_devices bus ! 0") (simp_all add: devmem_fabric_run_def)
  obtain o' u where at: "attempt (devmem_open K getenv dev) s = (OK o', u)"
    and k: "(case o' of None \<Rightarrow> ret False | Some _ \<Rightarrow> bnd (devmem_setup n dev) (\<lambda>shadow.
        bnd (attempt (devmem_serve n dev turns shadow)) (\<lambda>_. bnd cleanup_devmem (\<lambda>_. ret False)))) u = (OK r, t)"
    using assms(2) True d by (auto simp: devmem_fabric_run_def elim!: bnd_OK_cases)
  show ?thesis
  proof (cases o')
    case None
    with at have "devmem_open K getenv dev s = (Fail, u)"
      by (cases "devmem_open K getenv dev s") (auto simp: attempt_def split: res.splits)
    with None k assms(1) devmem_open_fails show ?thesis by auto
  next
    case (Some x)
    with k obtain v where "cleanup_devmem v = (OK (), t)" and "r = False" by (auto elim!: bnd_OK_cases)
    with devmem_cleanup_idle [of v] show ?thesis by simp
  qed
qed

theorem devmem_run_releases_witness:
  "\<exists>t. devmem_fabric_run free_kernel Map.empty 9 [] \<lparr>fb_devices = [Some (plain_device ''devmem:'')], fb_device_count = 1\<rparr> devmem_start =
      (OK False, t) \<and> devmem_idle (dm_fab t)"
proof -
  have idle: "devmem_idle (dm_fab devmem_start)" by (simp add: devmem_idle_def devmem_start_def idle_devmem_def)
  have "strtok (CHR '':'') [] = []" by (simp add: strtok.simps)
  then have "\<exists>t. devmem_fabric_run free_kernel Map.empty 9 [] \<lparr>fb_devices = [Some (plain_device ''devmem:'')], fb_device_count = 1\<rparr> devmem_start =
      (OK False, t)"
    by (simp add: devmem_fabric_run_def devmem_open_def devmem_load_config_def load_config_def devmem_parse_endpoint_def env_u64_def env_u32_def
        plain_device_def attempt_def on_fab_def bnd_def)
  with devmem_run_releases [OF idle] show ?thesis by blast
qed

end
