(* ===== verification/Chiplets_Uio.thy ===== *)
theory Chiplets_Uio
  imports Uio_Loop
begin

unbundle bit_operations_syntax

text \<open>
  The kernel module \<^verbatim>\<open>src/kernel/chiplets_uio.c\<close>, which exports the register window and the frontend memory
  of a chiplet as a UIO device: the interrupt handler and the enable call of user space, \<open>mmap\<close>, and the
  probe. The interrupt line of the kernel is its disable depth; an \<open>enable_irq\<close> without a matching disable is
  an error of the caller, which the kernel reports. The functions of the UIO core, the allocator and the
  resources of the platform device are arguments.
\<close>

section \<open>State\<close>

definition CHIPLET_UIO_MMIO_BASE :: u64 where "CHIPLET_UIO_MMIO_BASE = 0x0010feb00000"
definition CHIPLET_UIO_MMIO_SIZE :: u64 where "CHIPLET_UIO_MMIO_SIZE = 0x1000"
definition CHIPLET_UIO_DMA_BASE :: u64 where "CHIPLET_UIO_DMA_BASE = 0x001000000000"
definition CHIPLET_UIO_DMA_SIZE :: u64 where "CHIPLET_UIO_DMA_SIZE = 0x20000000"
definition CHIPLET_UIO_IRQ_BASE :: u32 where "CHIPLET_UIO_IRQ_BASE = 16"

text \<open>Of the UIO core: a device has five memory regions; one of size zero is absent.\<close>

definition MAX_UIO_MAPS :: nat where "MAX_UIO_MAPS = 5"

record uio_mem =
  umm_addr :: u64
  umm_size :: u64

record chiplets_uio_dev =
  cu_irq :: int
  cu_mem :: "uio_mem list"
  cu_irq_enabled :: bool
  cu_index :: u32

text \<open>The interrupt line: how often it is disabled, and whether it was enabled once too often.\<close>

record irq_line =
  il_depth :: nat
  il_unbalanced :: bool

definition disable_irq_nosync :: "irq_line \<Rightarrow> irq_line" where
  "disable_irq_nosync l = l\<lparr>il_depth := Suc (il_depth l)\<rparr>"

definition enable_irq :: "irq_line \<Rightarrow> irq_line" where
  "enable_irq l = (if il_depth l = 0 then l\<lparr>il_unbalanced := True\<rparr> else l\<lparr>il_depth := il_depth l - 1\<rparr>)"

section \<open>Interrupts\<close>

definition chiplets_uio_irq :: "chiplets_uio_dev \<times> irq_line \<Rightarrow> chiplets_uio_dev \<times> irq_line" where
  "chiplets_uio_irq = (\<lambda>(dev, line).
     if cu_irq_enabled dev then (dev\<lparr>cu_irq_enabled := False\<rparr>, disable_irq_nosync line) else (dev, line))"

definition chiplets_uio_irqcontrol :: "int \<Rightarrow> chiplets_uio_dev \<times> irq_line \<Rightarrow> chiplets_uio_dev \<times> irq_line" where
  "chiplets_uio_irqcontrol irq_on = (\<lambda>(dev, line).
     if irq_on \<noteq> 0 \<and> \<not> cu_irq_enabled dev then (dev\<lparr>cu_irq_enabled := True\<rparr>, enable_irq line)
     else if irq_on = 0 \<and> cu_irq_enabled dev then (dev\<lparr>cu_irq_enabled := False\<rparr>, disable_irq_nosync line)
     else (dev, line))"

section \<open>Mapping\<close>

text \<open>What \<open>remap_pfn_range\<close> is asked for: the page frame, the length and whether the memory is uncached.\<close>

record remap =
  rm_pfn :: u64
  rm_len :: u64
  rm_noncached :: bool

datatype uio_error = EINVAL

definition chiplets_uio_mmap :: "chiplets_uio_dev \<Rightarrow> u64 \<Rightarrow> u64 \<Rightarrow> u64 \<Rightarrow> uio_error + remap" where
  "chiplets_uio_mmap info vm_pgoff vm_start vm_end =
     (let requested = vm_end - vm_start in
      if unat vm_pgoff \<ge> MAX_UIO_MAPS then Inl EINVAL
      else let mem = cu_mem info ! unat vm_pgoff in
        if umm_size mem = 0 \<or> requested > umm_size mem then Inl EINVAL
        else Inr \<lparr>rm_pfn = drop_bit 12 (umm_addr mem), rm_len = requested, rm_noncached = (vm_pgoff = 0)\<rparr>)"

section \<open>Probe\<close>

record resource =
  rs_start :: u64
  rs_end :: u64

definition resource_size :: "resource \<Rightarrow> u64" where
  "resource_size r = rs_end r - rs_start r + 1"

fun strstr :: "string \<Rightarrow> string \<Rightarrow> bool" where
  "strstr [] needle = (needle = [])"
| "strstr (c # s) needle = (take (length needle) (c # s) = needle \<or> strstr s needle)"

definition chiplets_uio_index :: "resource option \<Rightarrow> string \<Rightarrow> u32" where
  "chiplets_uio_index res name =
     (let by_name = (if strstr name '':01'' then 1 else 0) in
      case res of
        None \<Rightarrow> by_name
      | Some r \<Rightarrow> if resource_size r > 0 then ucast ((rs_start r - CHIPLET_UIO_MMIO_BASE) div CHIPLET_UIO_MMIO_SIZE) else by_name)"

text \<open>
  The probe: the two memory resources and the name of the platform device, the answer of
  \<open>platform_get_irq_optional\<close>, and whether the two allocations and the registration succeed. \<open>None\<close> is an error
  return; then the managed allocations are undone by the driver core.
\<close>

definition chiplets_uio_probe ::
  "resource option \<Rightarrow> resource option \<Rightarrow> string \<Rightarrow> int \<Rightarrow> bool \<Rightarrow> bool \<Rightarrow> bool \<Rightarrow> chiplets_uio_dev option" where
  "chiplets_uio_probe mmio_res dma_res name irq zalloc_ok name_ok register_ok =
     (if \<not> zalloc_ok then None
      else let index = chiplets_uio_index mmio_res name in
        if \<not> name_ok then None
        else let dev = \<lparr>cu_irq = (if irq \<ge> 0 then irq else uint (CHIPLET_UIO_IRQ_BASE + index)),
              cu_mem = [
                (case mmio_res of
                   None \<Rightarrow> \<lparr>umm_addr = CHIPLET_UIO_MMIO_BASE + ucast index * CHIPLET_UIO_MMIO_SIZE, umm_size = CHIPLET_UIO_MMIO_SIZE\<rparr>
                 | Some r \<Rightarrow> \<lparr>umm_addr = rs_start r, umm_size = resource_size r\<rparr>),
                (case dma_res of
                   None \<Rightarrow> \<lparr>umm_addr = CHIPLET_UIO_DMA_BASE, umm_size = CHIPLET_UIO_DMA_SIZE\<rparr>
                 | Some r \<Rightarrow> \<lparr>umm_addr = rs_start r, umm_size = resource_size r\<rparr>),
                \<lparr>umm_addr = 0, umm_size = 0\<rparr>, \<lparr>umm_addr = 0, umm_size = 0\<rparr>, \<lparr>umm_addr = 0, umm_size = 0\<rparr>],
              cu_irq_enabled = True, cu_index = index\<rparr>
          in if register_ok then Some dev else None)"

section \<open>Interrupts are balanced\<close>

text \<open>
  The runs of a bound device: interrupts come while the line is not disabled, and user space writes any
  values to the device file. The two numbers count the interrupts and the writes that enabled the line.
\<close>

inductive irq_run :: "chiplets_uio_dev \<times> irq_line \<Rightarrow> nat \<Rightarrow> nat \<Rightarrow> bool" where
  bound: "chiplets_uio_probe mr dr name irq a b c = Some dev \<Longrightarrow> irq_run (dev, \<lparr>il_depth = 0, il_unbalanced = False\<rparr>) 0 0"
| interrupt: "irq_run (dev, line) h e \<Longrightarrow> il_depth line = 0 \<Longrightarrow> irq_run (chiplets_uio_irq (dev, line)) (Suc h) e"
| control: "irq_run (dev, line) h e \<Longrightarrow>
    irq_run (chiplets_uio_irqcontrol v (dev, line)) h (if v \<noteq> 0 \<and> \<not> cu_irq_enabled dev then Suc e else e)"

lemma probe_enabled: "chiplets_uio_probe mr dr name irq a b c = Some dev \<Longrightarrow> cu_irq_enabled dev"
  by (auto simp: chiplets_uio_probe_def Let_def split: if_splits)

lemma irq_run_inv:
  assumes "irq_run s h e"
  shows "il_depth (snd s) = (if cu_irq_enabled (fst s) then 0 else 1) \<and> \<not> il_unbalanced (snd s) \<and>
    h \<le> (if cu_irq_enabled (fst s) then e else Suc e)"
  using assms
  by (induction rule: irq_run.induct)
    (auto simp: probe_enabled chiplets_uio_irq_def chiplets_uio_irqcontrol_def disable_irq_nosync_def enable_irq_def split: if_splits)

text \<open>
  C33: the interrupt accounting of the UIO driver. Under every interleaving of interrupts and writes of user
  space to the device file, the line is disabled exactly once while the driver's flag says disabled and
  not at all otherwise; \<open>enable_irq\<close> is never called on an enabled line; after the first interrupt there is
  at most one further interrupt per write that enables the line, so an unserved level does not flood the
  host; and a write of a nonzero value always leaves the line enabled.
\<close>

theorem uio_irq_balanced:
  assumes "irq_run (dev, line) h e"
  shows "il_depth line = (if cu_irq_enabled dev then 0 else 1) \<and> \<not> il_unbalanced line \<and> h \<le> Suc e \<and>
    il_depth (snd (chiplets_uio_irqcontrol 1 (dev, line))) = 0"
  using irq_run_inv [OF assms] by (auto simp: chiplets_uio_irqcontrol_def enable_irq_def split: if_splits)

theorem uio_irq_balanced_witness:
  "let dev = the (chiplets_uio_probe None None ''PRP0001:01'' (- 6) True True True);
       s = chiplets_uio_irqcontrol 1 (chiplets_uio_irqcontrol 1 (chiplets_uio_irq (dev, \<lparr>il_depth = 0, il_unbalanced = False\<rparr>)))
   in cu_irq dev = 17 \<and> irq_run s 1 1 \<and> il_depth (snd s) = 0 \<and> \<not> il_unbalanced (snd s)"
proof -
  obtain dev where d: "chiplets_uio_probe None None ''PRP0001:01'' (- 6) True True True = Some dev" "cu_irq dev = 17"
    by (simp add: chiplets_uio_probe_def chiplets_uio_index_def CHIPLET_UIO_IRQ_BASE_def)
  let ?l = "\<lparr>il_depth = 0, il_unbalanced = False\<rparr>"
  obtain d1 l1 where 1: "chiplets_uio_irq (dev, ?l) = (d1, l1)" by fastforce
  obtain d2 l2 where 2: "chiplets_uio_irqcontrol 1 (d1, l1) = (d2, l2)" by fastforce
  obtain d3 l3 where 3: "chiplets_uio_irqcontrol 1 (d2, l2) = (d3, l3)" by fastforce
  have en: "cu_irq_enabled dev" "\<not> cu_irq_enabled d1" "cu_irq_enabled d2"
    using probe_enabled [OF d(1)] 1 2 by (auto simp: chiplets_uio_irq_def chiplets_uio_irqcontrol_def split: if_splits)
  have "irq_run (dev, ?l) 0 0" by (rule irq_run.bound [OF d(1)])
  from irq_run.interrupt [OF this] 1 have "irq_run (d1, l1) 1 0" by simp
  from irq_run.control [OF this, of 1] 2 en have "irq_run (d2, l2) 1 1" by simp
  from irq_run.control [OF this, of 1] 3 en have run: "irq_run (d3, l3) 1 1" by simp
  from 3 en have "d3 = d2" by (auto simp: chiplets_uio_irqcontrol_def)
  with uio_irq_balanced [OF run] run en d 1 2 3 show ?thesis by simp
qed

section \<open>Mappings are confined\<close>

lemma probe_regions:
  assumes "chiplets_uio_probe mr dr name irq a b c = Some dev"
  obtains r0 r1 where "cu_mem dev = [r0, r1, \<lparr>umm_addr = 0, umm_size = 0\<rparr>, \<lparr>umm_addr = 0, umm_size = 0\<rparr>, \<lparr>umm_addr = 0, umm_size = 0\<rparr>]"
  using assms by (auto simp: chiplets_uio_probe_def Let_def split: if_splits)

definition page_aligned :: "u64 \<Rightarrow> bool" where
  "page_aligned a \<longleftrightarrow> 0x1000 dvd unat a"

lemma pfn_aligned: "page_aligned a \<Longrightarrow> push_bit 12 (drop_bit 12 a) = a"
proof -
  assume "page_aligned a"
  then have "unat (drop_bit 12 a) * 2 ^ 12 = unat a" by (simp add: unat_drop_u64 page_aligned_def)
  then have "unat (push_bit 12 (drop_bit 12 a)) = unat a"
    using unat_lt_u64 [of a] by (simp add: push_bit_eq_mult unat_word_ariths)
  then show ?thesis by (simp only: word_unat_eq_iff)
qed

text \<open>
  C34: the UIO driver maps only its two regions. For a device whose regions start at page boundaries a
  request is granted exactly when it names a region that is there and asks for no more than its size; then
  it gets the region from its first byte on and nothing beyond its last, uncached for the registers. In
  particular the three other regions the UIO core has room for are refused.
\<close>

theorem uio_mmap_confined:
  assumes "chiplets_uio_probe mr dr name irq a b c = Some dev" and "list_all (\<lambda>m. page_aligned (umm_addr m)) (cu_mem dev)"
  shows "case chiplets_uio_mmap dev vm_pgoff vm_start vm_end of
       Inl _ \<Rightarrow> unat vm_pgoff \<ge> 2 \<or> umm_size (cu_mem dev ! unat vm_pgoff) = 0 \<or> vm_end - vm_start > umm_size (cu_mem dev ! unat vm_pgoff)
     | Inr m \<Rightarrow> unat vm_pgoff < 2 \<and> umm_size (cu_mem dev ! unat vm_pgoff) \<noteq> 0 \<and>
         push_bit 12 (rm_pfn m) = umm_addr (cu_mem dev ! unat vm_pgoff) \<and> rm_len m = vm_end - vm_start \<and>
         rm_len m \<le> umm_size (cu_mem dev ! unat vm_pgoff) \<and> rm_noncached m = (vm_pgoff = 0)"
proof -
  obtain r0 r1 where mem: "cu_mem dev = [r0, r1, \<lparr>umm_addr = 0, umm_size = 0\<rparr>, \<lparr>umm_addr = 0, umm_size = 0\<rparr>, \<lparr>umm_addr = 0, umm_size = 0\<rparr>]"
    using assms(1) by (rule probe_regions)
  let ?i = "unat vm_pgoff" let ?m = "cu_mem dev ! ?i"
  have al: "push_bit 12 (drop_bit 12 (umm_addr ?m)) = umm_addr ?m" if "?i < 2"
    using that assms(2) by (intro pfn_aligned) (auto simp: mem list_all_length less_2_cases_iff)
  consider "?i < 2" | "?i = 2 \<or> ?i = 3 \<or> ?i = 4" | "5 \<le> ?i" by linarith
  then show ?thesis
  proof cases
    case 1
    with al show ?thesis by (auto simp: chiplets_uio_mmap_def Let_def MAX_UIO_MAPS_def)
  next
    case 2
    then have "umm_size ?m = 0" by (auto simp: mem)
    with 2 show ?thesis by (auto simp: chiplets_uio_mmap_def Let_def)
  qed (simp add: chiplets_uio_mmap_def MAX_UIO_MAPS_def)
qed

theorem uio_mmap_confined_witness:
  "let dev = the (chiplets_uio_probe None None ''PRP0001:01'' (- 6) True True True) in
   (case chiplets_uio_mmap dev 0 0 0x1000 of Inl _ \<Rightarrow> False | Inr m \<Rightarrow> push_bit 12 (rm_pfn m) = 0x0010feb01000 \<and> rm_noncached m) \<and>
   chiplets_uio_mmap dev 2 0 0x1000 = Inl EINVAL"
proof -
  obtain dev where d: "chiplets_uio_probe None None ''PRP0001:01'' (- 6) True True True = Some dev"
    "cu_mem dev = [\<lparr>umm_addr = 0x0010feb01000, umm_size = 0x1000\<rparr>, \<lparr>umm_addr = 0x001000000000, umm_size = 0x20000000\<rparr>,
       \<lparr>umm_addr = 0, umm_size = 0\<rparr>, \<lparr>umm_addr = 0, umm_size = 0\<rparr>, \<lparr>umm_addr = 0, umm_size = 0\<rparr>]"
    by (simp add: chiplets_uio_probe_def chiplets_uio_index_def CHIPLET_UIO_MMIO_BASE_def CHIPLET_UIO_MMIO_SIZE_def
        CHIPLET_UIO_DMA_BASE_def CHIPLET_UIO_DMA_SIZE_def)
  have "list_all (\<lambda>m. page_aligned (umm_addr m)) (cu_mem dev)" by (simp add: d(2) page_aligned_def)
  note ok = uio_mmap_confined [OF d(1) this, where vm_pgoff = 0 and vm_start = 0 and vm_end = "0x1000"]
  obtain m where m: "chiplets_uio_mmap dev 0 0 0x1000 = Inr m"
    by (simp add: chiplets_uio_mmap_def d(2) MAX_UIO_MAPS_def)
  with ok d(2) have "push_bit 12 (rm_pfn m) = 0x0010feb01000 \<and> rm_noncached m" by simp
  moreover have "chiplets_uio_mmap dev 2 0 0x1000 = Inl EINVAL" by (simp add: chiplets_uio_mmap_def d(2))
  ultimately show ?thesis using m d(1) by simp
qed

section \<open>The daemon maps what the driver exports\<close>

text \<open>
  \<open>mmap(NULL, len, ..., fd, offset)\<close> as the kernel passes it to the driver: the length is rounded up to
  pages, the offset counts pages; \<open>phys\<close> is physical memory, and the result the memory behind the mapping.
\<close>

definition page_up :: "nat \<Rightarrow> nat" where
  "page_up len = (len + 0xfff) div 0x1000 * 0x1000"

definition driver_mmap :: "chiplets_uio_dev \<Rightarrow> memory \<Rightarrow> string \<Rightarrow> nat \<Rightarrow> nat \<Rightarrow> memory option" where
  "driver_mmap dev phys path len offset =
     (if len = 0 \<or> page_up len \<ge> 2 ^ 64 then None
      else case chiplets_uio_mmap dev (of_nat (offset div 0x1000)) 0 (of_nat (page_up len)) of
        Inl _ \<Rightarrow> None
      | Inr m \<Rightarrow> Some (\<lambda>off. phys (push_bit 12 (rm_pfn m) + off)))"

lemma page_up_cases: "page_up len = len \<and> 0x1000 dvd len \<or> len < page_up len \<and> \<not> 0x1000 dvd len"
proof (cases "0x1000 dvd len")
  case True
  then obtain k where "len = 0x1000 * k" by (rule dvdE)
  then show ?thesis by (simp add: page_up_def)
next
  case False
  let ?q = "len div 0x1000"
  have "0 < len mod 0x1000" using False by (simp add: mod_greater_zero_iff_not_dvd)
  moreover have l: "len = ?q * 0x1000 + len mod 0x1000" "len mod 0x1000 < 0x1000" by simp_all
  ultimately have "0x1000 + ?q * 0x1000 \<le> len + 0xfff" by linarith
  then have "Suc ?q \<le> (len + 0xfff) div 0x1000" by (simp add: mult_Suc less_eq_div_iff_mult_less_eq)
  then have "Suc ?q * 0x1000 \<le> page_up len" unfolding page_up_def by (rule mult_le_mono1)
  then have "0x1000 + ?q * 0x1000 \<le> page_up len" by (simp only: mult_Suc)
  with l have "len < page_up len" by linarith
  with False show ?thesis by simp
qed

lemma driver_mmap_region:
  assumes "cu_mem dev = ms" and "length ms = 5" and "i < 5" and "m = ms ! i" and "page_aligned (umm_addr m)" and "umm_size m \<noteq> 0"
  shows "driver_mmap dev phys path (unat (umm_size m)) (i * 0x1000) =
    (if 0x1000 dvd unat (umm_size m) then Some (\<lambda>off. phys (umm_addr m + off)) else None)"
proof -
  let ?n = "unat (umm_size m)"
  have i: "unat (of_nat i :: u64) = i" using assms(3) by (simp add: unat_of_nat_u64)
  have n: "?n \<noteq> 0" using assms(6) by (simp add: unat_eq_0)
  show ?thesis
  proof (cases "0x1000 dvd ?n")
    case True
    then have up: "page_up ?n = ?n" using page_up_cases [of ?n] by blast
    with True i n assms pfn_aligned [OF assms(5)] unat_lt_u64 [of "umm_size m"] show ?thesis
      by (simp add: driver_mmap_def chiplets_uio_mmap_def Let_def MAX_UIO_MAPS_def not_le)
  next
    case False
    then have up: "?n < page_up ?n" using page_up_cases [of ?n] by blast
    have "umm_size m < of_nat (page_up ?n)" if "page_up ?n < 2 ^ 64"
      using up that by (simp add: word_less_nat_alt unat_of_nat_u64)
    with False i assms show ?thesis
      by (auto simp: driver_mmap_def chiplets_uio_mmap_def Let_def MAX_UIO_MAPS_def)
  qed
qed

text \<open>
  C35: the daemon and the driver fit together, for whole pages. When the UIO core publishes the size of a
  region of the driver, the UIO fabric of the daemon maps exactly that region: the byte at an offset of its
  window is the byte at that offset of the physical region, for the whole size. If the size is not a
  multiple of the page size, the driver compares it with the length rounded up to pages and refuses, and the
  daemon does not start.
\<close>

theorem uio_daemon_maps_region:
  assumes "chiplets_uio_probe mr dr name irq a b c = Some dev" and "list_all (\<lambda>m. page_aligned (umm_addr m)) (cu_mem dev)"
    and "resource < 2" and "m = cu_mem dev ! resource" and "umm_size m \<noteq> 0"
    and "uio_index_from_path (uc_path config) = Some index" and "h_fds h fd = Some f"
    and "read_sysfs_u64 (''/sys/class/uio/uio'' @ decimal (unat index) @ ''/maps/map'' @ decimal resource @ ''/size'') h = Some (umm_size m)"
  shows "map_resource (driver_mmap dev phys) 0x1000 fd config resource mapping h =
    (if 0x1000 dvd unat (umm_size m)
     then ((True, \<lparr>um_mapped = True, um_mem = (\<lambda>off. phys (umm_addr m + off)), um_len = unat (umm_size m), um_size = umm_size m\<rparr>),
           hold_map (unat (umm_size m)) h)
     else ((False, mapping\<lparr>um_mapped := False\<rparr>), h))"
proof -
  obtain r0 r1 where mem: "cu_mem dev = [r0, r1, \<lparr>umm_addr = 0, umm_size = 0\<rparr>, \<lparr>umm_addr = 0, umm_size = 0\<rparr>, \<lparr>umm_addr = 0, umm_size = 0\<rparr>]"
    using assms(1) by (rule probe_regions)
  have "page_aligned (umm_addr m)" using assms(2-4) by (auto simp: mem less_2_cases_iff)
  from driver_mmap_region [OF refl _ _ assms(4) this assms(5), of phys "of_path f"] assms(3)
  have "driver_mmap dev phys (of_path f) (unat (umm_size m)) (resource * 0x1000) =
      (if 0x1000 dvd unat (umm_size m) then Some (\<lambda>off. phys (umm_addr m + off)) else None)" by (simp add: mem)
  with assms(5-8) show ?thesis
    by (simp add: map_resource_def mapping_done_def Let_def)
qed

text \<open>The second device of the fallback layout, behind \<^verbatim>\<open>/dev/uio1\<close>.\<close>

definition uio1_host :: host where
  "uio1_host = \<lparr>h_files = [''/sys/class/uio/uio1/maps/map1/size'' \<mapsto> map (\<lambda>c. of_char c) ''0x20000000''], h_disk = Map.empty,
     h_fds = [3 \<mapsto> \<lparr>of_path = ''/dev/uio1'', of_readable = True, of_writable = True, of_append = False\<rparr>], h_next_fd = 4, h_script = [], h_heap = 0, h_pos = (\<lambda>_. 0), h_maps = []\<rparr>"

theorem uio_daemon_maps_region_witness:
  "\<forall>phys mapping. map_resource (driver_mmap (the (chiplets_uio_probe None None ''PRP0001:01'' (- 6) True True True)) phys) 0x1000 3
       \<lparr>uc_path = ''/dev/uio1'', uc_irq_control_offset = 0x200, uc_dma_base = 0\<rparr> 1 mapping uio1_host =
     ((True, \<lparr>um_mapped = True, um_mem = (\<lambda>off. phys (0x001000000000 + off)), um_len = 0x20000000, um_size = 0x20000000\<rparr>), hold_map 0x20000000 uio1_host)"
proof (intro allI)
  fix phys mapping
  let ?c = "\<lparr>uc_path = ''/dev/uio1'', uc_irq_control_offset = 0x200, uc_dma_base = 0\<rparr>"
  obtain dev where d: "chiplets_uio_probe None None ''PRP0001:01'' (- 6) True True True = Some dev"
    "cu_mem dev = [\<lparr>umm_addr = 0x0010feb01000, umm_size = 0x1000\<rparr>, \<lparr>umm_addr = 0x001000000000, umm_size = 0x20000000\<rparr>,
       \<lparr>umm_addr = 0, umm_size = 0\<rparr>, \<lparr>umm_addr = 0, umm_size = 0\<rparr>, \<lparr>umm_addr = 0, umm_size = 0\<rparr>]"
    by (simp add: chiplets_uio_probe_def chiplets_uio_index_def CHIPLET_UIO_MMIO_BASE_def CHIPLET_UIO_MMIO_SIZE_def
        CHIPLET_UIO_DMA_BASE_def CHIPLET_UIO_DMA_SIZE_def)
  have al: "list_all (\<lambda>m. page_aligned (umm_addr m)) (cu_mem dev)" by (simp add: d(2) page_aligned_def)
  note parse = parse_u64_def strtoull_def is_space_def auto_base_def hex_prefixed_def digit_in_def digit_val_def digits_value_def
  have idx: "uio_index_from_path (uc_path ?c) = Some 1"
    by (simp add: uio_index_from_path_def base_name_def parse)
  have dec: "decimal (Suc 0) = ''1''" by (simp add: decimal.simps char_of_def bit_0)
  have "text_of (takeWhile (\<lambda>b. b \<noteq> 0 \<and> b \<noteq> 10) (take 63 (map (\<lambda>c. of_char c) ''0x20000000''))) = ''0x20000000''"
    by (simp add: text_of_def) (simp add: char_of_def bit_0)
  moreover have "parse_u64 ''0x20000000'' = Some 0x20000000" by (simp add: parse)
  ultimately have "read_sysfs_u64 ''/sys/class/uio/uio1/maps/map1/size'' uio1_host = Some 0x20000000"
    by (simp add: read_sysfs_u64_def uio1_host_def del: list.map)
  then have sys: "read_sysfs_u64 (''/sys/class/uio/uio'' @ decimal (unat (1 :: u32)) @ ''/maps/map'' @ decimal 1 @ ''/size'') uio1_host =
      Some (umm_size (cu_mem dev ! 1))" by (simp add: dec d(2))
  have fd: "h_fds uio1_host 3 = Some \<lparr>of_path = ''/dev/uio1'', of_readable = True, of_writable = True, of_append = False\<rparr>" by (simp add: uio1_host_def)
  from uio_daemon_maps_region [OF d(1) al _ refl _ idx fd sys, of phys mapping] d
  show "map_resource (driver_mmap (the (chiplets_uio_probe None None ''PRP0001:01'' (- 6) True True True)) phys) 0x1000 3 ?c 1 mapping uio1_host =
     ((True, \<lparr>um_mapped = True, um_mem = (\<lambda>off. phys (0x001000000000 + off)), um_len = 0x20000000, um_size = 0x20000000\<rparr>), hold_map 0x20000000 uio1_host)" by simp
qed

end
