(* ===== verification/Uio_Membench.thy ===== *)
theory Uio_Membench
  imports Uio_Loop
begin

unbundle bit_operations_syntax

text \<open>
  The benchmark \<^verbatim>\<open>src/tools/uio-membench.c\<close>, which times copies out of and fills of the end of the frontend
  memory behind a UIO device. The clock is a function from the number of the reading to nanoseconds; the
  conversion of the totals to MiB/s, in floating point, is left out of the report. The memory is nobody
  else's while the benchmark runs.
\<close>

section \<open>Reading the size\<close>

definition membench_parse_u64 :: "string \<Rightarrow> u64 option" where
  "membench_parse_u64 text' = (case strtoull 0 text' of
     None \<Rightarrow> None | Some (value', rest, erange) \<Rightarrow> if erange \<or> rest \<noteq> [] then None else Some value')"

text \<open>The first \<open>read\<close> of the file starts at its beginning.\<close>

definition membench_read_sysfs_u64 :: "string \<Rightarrow> host \<Rightarrow> u64 option \<times> host" where
  "membench_read_sysfs_u64 path h =
     (case sys_open path True False False False h of (fd, h1) \<Rightarrow>
        if fd < 0 then (None, h1)
        else case pread fd 63 0 h1 of
          (Err _, h2) \<Rightarrow> (None, sys_close fd h2)
        | (Ret buf, h2) \<Rightarrow>
            (if buf = [] then None
             else membench_parse_u64 (text_of (takeWhile (\<lambda>b. b \<noteq> 0 \<and> b \<noteq> 10) buf)), sys_close fd h2))"

section \<open>The benchmark\<close>

text \<open>The mapped memory with its length, and the number of clock readings so far.\<close>

record bench =
  bn_mem :: memory
  bn_len :: nat
  bn_ticks :: nat

definition monotonic_ns :: "(nat \<Rightarrow> u64) \<Rightarrow> (bench, u64) act" where
  "monotonic_ns clock = (\<lambda>s. (OK (clock (bn_ticks s)), s\<lparr>bn_ticks := Suc (bn_ticks s)\<rparr>))"

text \<open>\<open>memcpy\<close> out of and into the mapping; an access outside of it faults.\<close>

definition bench_read :: "u64 \<Rightarrow> u64 \<Rightarrow> (bench, u8 list) act" where
  "bench_read base n = (\<lambda>s. if unat base + unat n \<le> bn_len s then (OK (mem_read (bn_mem s) base (unat n)), s) else (Trap, s))"

definition bench_write :: "u64 \<Rightarrow> u8 list \<Rightarrow> (bench, unit) act" where
  "bench_write base bs = (\<lambda>s. if unat base + length bs \<le> bn_len s
     then (OK (), s\<lparr>bn_mem := mem_write (bn_mem s) base bs\<rparr>) else (Trap, s))"

text \<open>The index \<open>(i * 4099) % size\<close>; a size of zero would divide by zero.\<close>

definition probe_at :: "u64 \<Rightarrow> u64 \<Rightarrow> (bench, u64) act" where
  "probe_at i n = (if n = 0 then trap else ret ((i * 4099) mod n))"

text \<open>The two loops, the first argument counting the passes left; \<open>i\<close> is the pass.\<close>

fun bench_read_loop :: "nat \<Rightarrow> (nat \<Rightarrow> u64) \<Rightarrow> u64 \<Rightarrow> u64 \<Rightarrow> u64 \<Rightarrow> u8 \<Rightarrow> u64 \<Rightarrow> (bench, u8 \<times> u64) act" where
  "bench_read_loop 0 clock base n i sink read_ns = ret (sink, read_ns)"
| "bench_read_loop (Suc k) clock base n i sink read_ns =
     bnd (monotonic_ns clock) (\<lambda>start.
     bnd (bench_read base n) (\<lambda>copy_buf.
     bnd (monotonic_ns clock) (\<lambda>stop.
     bnd (probe_at i n) (\<lambda>j.
     bench_read_loop k clock base n (i + 1) (sink XOR copy_buf ! unat j) (read_ns + (stop - start))))))"

fun bench_write_loop :: "nat \<Rightarrow> (nat \<Rightarrow> u64) \<Rightarrow> u64 \<Rightarrow> u64 \<Rightarrow> u64 \<Rightarrow> u8 \<Rightarrow> u64 \<Rightarrow> (bench, u8 \<times> u64) act" where
  "bench_write_loop 0 clock base n i sink write_ns = ret (sink, write_ns)"
| "bench_write_loop (Suc k) clock base n i sink write_ns =
     bnd (monotonic_ns clock) (\<lambda>start.
     bnd (bench_write base (replicate (unat n) (ucast (0xa5 XOR (ucast i :: u32))))) (\<lambda>_.
     bnd (monotonic_ns clock) (\<lambda>stop.
     bnd (probe_at i n) (\<lambda>j.
     bnd (bench_read (base + j) 1) (\<lambda>b.
     bench_write_loop k clock base n (i + 1) (sink XOR hd b) (write_ns + (stop - start)))))))"

record bench_report =
  br_offset :: u64
  br_bytes :: u64
  br_repeat :: u64
  br_read_ns :: u64
  br_write_ns :: u64
  br_sink :: u8

text \<open>\<open>ok\<close> tells whether both buffers could be allocated; without them nothing is reported.\<close>

definition bench_region :: "bool \<Rightarrow> (nat \<Rightarrow> u64) \<Rightarrow> u64 \<Rightarrow> u64 \<Rightarrow> u64 \<Rightarrow> (bench, bench_report option) act" where
  "bench_region ok clock offset n repeat =
     (if \<not> ok then ret None
      else bnd (bench_read offset n) (\<lambda>saved.
        bnd (bench_read_loop (unat repeat) clock offset n 0 0 0) (\<lambda>(sink, read_ns).
        bnd (bench_write_loop (unat repeat) clock offset n 0 sink 0) (\<lambda>(sink, write_ns).
        bnd (bench_write offset saved) (\<lambda>_.
        ret (Some \<lparr>br_offset = offset, br_bytes = n, br_repeat = repeat, br_read_ns = read_ns, br_write_ns = write_ns, br_sink = sink\<rparr>))))))"

section \<open>The program\<close>

text \<open>\<open>strtoull(text, NULL, 0)\<close>: no number is zero, too large a number the largest.\<close>

definition number_or_zero :: "string \<Rightarrow> u64" where
  "number_or_zero text' = (case strtoull 0 text' of None \<Rightarrow> 0 | Some (v, _, _) \<Rightarrow> v)"

text \<open>
  \<open>args\<close> are the arguments after the program name, \<open>mmap\<close> what the kernel maps (\<open>None\<close> is MAP_FAILED). The
  result is the exit code with the mapped memory at the end and the report, if it came so far.
\<close>

definition membench_main ::
  "(string \<Rightarrow> nat \<Rightarrow> nat \<Rightarrow> memory option) \<Rightarrow> nat \<Rightarrow> (nat \<Rightarrow> u64) \<Rightarrow> bool \<Rightarrow> string list \<Rightarrow> host \<Rightarrow>
   (nat \<times> (memory \<times> bench_report option) option) res \<times> host" where
  "membench_main mmap page_size clock ok args h =
     (let uio = (if length args > 0 then args ! 0 else ''/dev/uio0'');
          n = (if length args > 1 then number_or_zero (args ! 1) else 64 * 1024 * 1024);
          repeat = (if length args > 2 then number_or_zero (args ! 2) else 3)
      in if CHR ''/'' \<notin> set uio \<or> base_name uio = [] then (OK (2, None), h)
      else case membench_read_sysfs_u64 (take 127 (''/sys/class/uio/'' @ base_name uio @ ''/maps/map1/size'')) h of
        (None, h1) \<Rightarrow> (OK (1, None), h1)
      | (Some map_size, h1) \<Rightarrow>
          if n = 0 \<or> repeat = 0 \<or> n > map_size then (OK (2, None), h1)
          else case sys_open uio True True False False h1 of (fd, h2) \<Rightarrow>
            if fd < 0 then (OK (1, None), h2)
            else case mmap uio (unat map_size) page_size of
              None \<Rightarrow> (OK (1, None), sys_close fd h2)
            | Some m \<Rightarrow>
                (case bench_region ok clock (map_size - n) n repeat \<lparr>bn_mem = m, bn_len = unat map_size, bn_ticks = 0\<rparr> of
                   (OK r, s) \<Rightarrow> (OK (0, Some (bn_mem s, r)), sys_close fd h2)
                 | (Fail, s) \<Rightarrow> (Fail, sys_close fd h2) | (Trap, s) \<Rightarrow> (Trap, sys_close fd h2) | (Spin, s) \<Rightarrow> (Spin, sys_close fd h2)))"

section \<open>The memory is left as it was\<close>

text \<open>The region is inside the mapping, and outside of it the memory is still \<open>m\<close>.\<close>

definition bench_inv :: "memory \<Rightarrow> u64 \<Rightarrow> u64 \<Rightarrow> bench \<Rightarrow> bool" where
  "bench_inv m base n s \<longleftrightarrow> unat base + unat n \<le> bn_len s \<and> bn_len s < 2 ^ 64 \<and>
     (\<forall>x. unat n \<le> unat (x - base) \<longrightarrow> bn_mem s x = m x)"

lemma read_loop_run:
  assumes "n \<noteq> 0" and "unat base + unat n \<le> bn_len s"
  shows "\<exists>r t. bench_read_loop k clock base n i sink ns s = (OK r, s\<lparr>bn_ticks := t\<rparr>)"
  using assms(2)
proof (induction k arbitrary: i sink ns s)
  case 0
  show ?case by (intro exI [of _ "(sink, ns)"] exI [of _ "bn_ticks s"]) simp
next
  case (Suc k)
  let ?s = "s\<lparr>bn_ticks := Suc (Suc (bn_ticks s))\<rparr>"
  have "unat base + unat n \<le> bn_len ?s" using Suc.prems by simp
  from Suc.IH [OF this] show ?case
    using Suc.prems assms(1) by (simp add: bnd_def monotonic_ns_def bench_read_def probe_at_def)
qed

lemma write_loop_run:
  assumes "n \<noteq> 0" and "bench_inv m base n s"
  shows "\<exists>r t. bench_write_loop k clock base n i sink ns s = (OK r, t) \<and> bench_inv m base n t"
  using assms(2)
proof (induction k arbitrary: i sink ns s)
  case (Suc k)
  let ?v = "ucast (0xa5 XOR (ucast i :: u32)) :: u8" and ?j = "(i * 4099) mod n"
  let ?s = "s\<lparr>bn_mem := mem_write (bn_mem s) base (replicate (unat n) ?v), bn_ticks := Suc (Suc (bn_ticks s))\<rparr>"
  have fits: "unat base + unat n \<le> bn_len s" "bn_len s < 2 ^ 64" using Suc.prems by (simp_all add: bench_inv_def)
  have "?j < n" using assms(1) by (simp add: word_mod_less_divisor word_neq_0_conv)
  then have j: "unat ?j < unat n" by (simp add: word_less_nat_alt)
  then have "unat (base + ?j) = unat base + unat ?j" using fits by (simp add: unat_word_ariths)
  with j fits have rd: "unat (base + ?j) + unat (1 :: u64) \<le> bn_len ?s" by simp
  have "bench_inv m base n ?s" using Suc.prems by (auto simp: bench_inv_def mem_write_def)
  from Suc.IH [OF this] show ?case
    using fits(1) rd assms(1)
    by (simp add: bnd_def monotonic_ns_def bench_write_def bench_read_def probe_at_def)
qed auto

lemma restore_memory:
  assumes "bench_inv m base n s"
  shows "mem_write (bn_mem s) base (mem_read m base (unat n)) = m"
proof
  fix x
  have "m (base + of_nat (unat (x - base))) = m x" by simp
  then show "mem_write (bn_mem s) base (mem_read m base (unat n)) x = m x"
    using assms by (auto simp: mem_write_def bench_inv_def not_less)
qed

lemma bench_region_run:
  assumes "n \<noteq> 0" and "unat offset + unat n \<le> bn_len s" and "bn_len s < 2 ^ 64"
  shows "\<exists>r t. bench_region ok clock offset n repeat s = (OK r, t) \<and> bn_mem t = bn_mem s \<and> (r \<noteq> None) = ok"
proof (cases ok)
  case True
  obtain r1 t1 where 1: "bench_read_loop (unat repeat) clock offset n 0 0 0 s = (OK r1, s\<lparr>bn_ticks := t1\<rparr>)"
    using read_loop_run [OF assms(1,2)] by blast
  obtain sink rns where r1: "r1 = (sink, rns)" by fastforce
  have "bench_inv (bn_mem s) offset n (s\<lparr>bn_ticks := t1\<rparr>)" using assms by (simp add: bench_inv_def)
  from write_loop_run [OF assms(1) this] obtain r2 t where
    2: "bench_write_loop (unat repeat) clock offset n 0 sink 0 (s\<lparr>bn_ticks := t1\<rparr>) = (OK r2, t)" "bench_inv (bn_mem s) offset n t" by blast
  obtain sink2 wns where r2: "r2 = (sink2, wns)" by fastforce
  have "unat offset + unat n \<le> bn_len t" using 2(2) by (simp add: bench_inv_def)
  with True 1 2 r1 r2 assms(2) restore_memory [OF 2(2)] show ?thesis
    by (simp add: bench_region_def bnd_def bench_read_def bench_write_def)
qed (simp add: bench_region_def)

lemma mapped_region_run:
  assumes "\<not> (n = 0 \<or> repeat = 0 \<or> n > (len :: u64))"
  shows "\<exists>r t. bench_region ok clock (len - n) n repeat \<lparr>bn_mem = m, bn_len = unat len, bn_ticks = 0\<rparr> = (OK r, t)
    \<and> bn_mem t = m \<and> (r \<noteq> None) = ok"
proof -
  have "n \<noteq> 0" and "unat (len - n) + unat n \<le> unat len" using assms by (simp_all add: unat_sub word_le_nat_alt not_less)
  then show ?thesis
    using bench_region_run [of n "len - n" "\<lparr>bn_mem = m, bn_len = unat len, bn_ticks = 0\<rparr>" ok clock repeat] unat_lt_u64 [of len]
    by simp
qed

text \<open>
  C40: the benchmark does no harm. For all arguments, system call outcomes and clocks it ends without a fault,
  the region it works on being inside the mapping; and when it got as far as mapping the memory, the memory
  is the same afterwards as before, byte for byte.
\<close>

theorem membench_restores:
  "\<exists>code result. fst (membench_main mmap page_size clock ok args h) = OK (code, result) \<and>
     (case result of None \<Rightarrow> code \<noteq> 0
      | Some (m, report) \<Rightarrow> code = 0 \<and> (\<exists>dev len. mmap dev len page_size = Some m) \<and> (report \<noteq> None) = ok)"
proof -
  let ?uio = "if length args > 0 then args ! 0 else ''/dev/uio0''"
  let ?n = "if length args > 1 then number_or_zero (args ! 1) else 64 * 1024 * 1024 :: u64"
  let ?r = "if length args > 2 then number_or_zero (args ! 2) else 3"
  obtain sz h1 where sz: "membench_read_sysfs_u64 (take 127 (''/sys/class/uio/'' @ base_name ?uio @ ''/maps/map1/size'')) h = (sz, h1)"
    by fastforce
  obtain fd h2 where o: "sys_open ?uio True True False False h1 = (fd, h2)" by fastforce
  let ?bad = "CHR ''/'' \<notin> set ?uio \<or> base_name ?uio = []"
  note main = membench_main_def Let_def
  consider (path) ?bad | (sysfs) "\<not> ?bad" "sz = None" | (range) s where "\<not> ?bad" "sz = Some s" "?n = 0 \<or> ?r = 0 \<or> ?n > s"
    | (size) s where "\<not> ?bad" "sz = Some s" "\<not> (?n = 0 \<or> ?r = 0 \<or> ?n > s)" by blast
  then show ?thesis
  proof cases
    case path
    show ?thesis unfolding main if_P [OF path] by simp
  next
    case sysfs
    show ?thesis unfolding main if_not_P [OF sysfs(1)] sz sysfs(2) by simp
  next
    case range
    show ?thesis unfolding main if_not_P [OF range(1)] sz range(2) prod.case option.case if_P [OF range(3)] by simp
  next
    case (size s)
    note sized = main if_not_P [OF size(1)] sz size(2) prod.case option.case if_not_P [OF size(3)] o
    consider "fd < 0" | "\<not> fd < 0" "mmap ?uio (unat s) page_size = None"
      | m where "\<not> fd < 0" "mmap ?uio (unat s) page_size = Some m" by fastforce
    then show ?thesis
    proof cases
      case 1
      show ?thesis unfolding sized if_P [OF 1] by simp
    next
      case 2
      show ?thesis unfolding sized if_not_P [OF 2(1)] 2(2) by simp
    next
      case (3 m)
      obtain rep t where run: "bench_region ok clock (s - ?n) ?n ?r \<lparr>bn_mem = m, bn_len = unat s, bn_ticks = 0\<rparr> = (OK rep, t)"
        "bn_mem t = m" "(rep \<noteq> None) = ok" using mapped_region_run [OF size(3)] by blast
      show ?thesis unfolding sized if_not_P [OF 3(1)] 3(2) run(1) using run(2,3) 3(2) by auto
    qed
  qed
qed

end
