(* ===== verification/Axi_Probe.thy ===== *)
theory Axi_Probe
  imports Axi_Pool
begin

unbundle bit_operations_syntax

text \<open>
  The shared pools of \<^verbatim>\<open>src/kernel/axi_mmio.c\<close>: \<open>axi_mmio_pool_get\<close> and \<open>axi_mmio_pool_put\<close> with their
  reference counts, \<open>axi_mmio_copy_resources\<close>, \<open>axi_mmio_probe\<close>, and what the driver core does with a
  device's managed actions when a probe fails or the device is unbound. \<open>pool_get\<close> drops the lock
  between its two searches, so it is composed of its atomic parts, and the state machine
  \<open>pool_reach\<close> interleaves the parts of any number of threads.
\<close>

section \<open>State\<close>

text \<open>
  \<open>ag_pools\<close> is the list \<open>axi_mmio_pools\<close>; \<open>ag_next\<close> the address the next structure gets; the three
  counters are the live pool structures, mappings and bitmaps, so a leak is visible.
\<close>

record axi_globals =
  ag_pools :: "axi_mmio_pool list"
  ag_next :: nat
  ag_structs :: nat
  ag_maps :: nat
  ag_bitmaps :: nat
  ag_script :: "bool list"

definition call_ok :: "axi_globals \<Rightarrow> bool \<times> axi_globals" where
  "call_ok g = (case ag_script g of [] \<Rightarrow> (True, g) | b # bs \<Rightarrow> (b, g\<lparr>ag_script := bs\<rparr>))"

section \<open>Getting and putting a pool\<close>

definition free_pool :: "axi_globals \<Rightarrow> axi_globals" where
  "free_pool g = g\<lparr>ag_bitmaps := ag_bitmaps g - 1, ag_maps := ag_maps g - 1, ag_structs := ag_structs g - 1\<rparr>"

definition pool_by_ptr :: "nat \<Rightarrow> axi_globals \<Rightarrow> axi_mmio_pool option" where
  "pool_by_ptr ptr g = find (\<lambda>p. pl_ptr p = ptr) (ag_pools g)"

definition pool_set :: "axi_mmio_pool \<Rightarrow> axi_globals \<Rightarrow> axi_globals" where
  "pool_set p g = g\<lparr>ag_pools := map (\<lambda>q. if pl_ptr q = pl_ptr p then p else q) (ag_pools g)\<rparr>"

definition axi_mmio_pool_put :: "nat option \<Rightarrow> axi_globals \<Rightarrow> axi_globals" where
  "axi_mmio_pool_put pool g = (case pool of
      None \<Rightarrow> g
    | Some ptr \<Rightarrow> (case pool_by_ptr ptr g of
          None \<Rightarrow> g
        | Some p \<Rightarrow>
            if pl_refs p - 1 \<noteq> 0 then pool_set (p\<lparr>pl_refs := pl_refs p - 1\<rparr>) g
            else free_pool (g\<lparr>ag_pools := filter (\<lambda>q. pl_ptr q \<noteq> ptr) (ag_pools g)\<rparr>)))"

definition axi_mmio_pool_release :: "nat \<Rightarrow> axi_globals \<Rightarrow> axi_globals" where
  "axi_mmio_pool_release data = axi_mmio_pool_put (Some data)"

text \<open>The search under the lock; a pool that is found gets one more reference.\<close>

definition pool_lookup_ref :: "u64 \<Rightarrow> u64 \<Rightarrow> axi_globals \<Rightarrow> nat option \<times> axi_globals" where
  "pool_lookup_ref base size' g =
     (case find (\<lambda>p. pl_dma_base p = base \<and> pl_dma_size p = size') (ag_pools g) of
        None \<Rightarrow> (None, g)
      | Some p \<Rightarrow> (Some (pl_ptr p), pool_set (p\<lparr>pl_refs := Suc (pl_refs p)\<rparr>) g))"

text \<open>The new pool, built without the lock: structure, mapping and bitmap, each of which may fail.\<close>

definition pool_prepare :: "u64 \<Rightarrow> u64 \<Rightarrow> axi_globals \<Rightarrow> axi_mmio_pool option \<times> axi_globals" where
  "pool_prepare base size' g =
     (case call_ok g of (ok, g) \<Rightarrow>
        if \<not> ok then (None, g)
        else let ptr = ag_next g; g = g\<lparr>ag_structs := ag_structs g + 1, ag_next := ag_next g + 1\<rparr> in
          case call_ok g of (ok, g) \<Rightarrow>
            if \<not> ok then (None, g\<lparr>ag_structs := ag_structs g - 1\<rparr>)
            else let g = g\<lparr>ag_maps := ag_maps g + 1\<rparr> in
              case call_ok g of (ok, g) \<Rightarrow>
                if \<not> ok then (None, g\<lparr>ag_maps := ag_maps g - 1, ag_structs := ag_structs g - 1\<rparr>)
                else let pages = drop_bit PAGE_SHIFT size' in
                  (Some \<lparr>pl_ptr = ptr, pl_bounces = [], pl_dma_base = base, pl_dma_size = size', pl_dma_virt = base,
                         pl_dma_bitmap = replicate (unat pages) False, pl_dma_pages = pages, pl_refs = 1\<rparr>,
                   g\<lparr>ag_bitmaps := ag_bitmaps g + 1\<rparr>))"

text \<open>The second search: another thread's pool wins, and the new one is freed; else it is added.\<close>

definition pool_insert :: "axi_mmio_pool \<Rightarrow> axi_globals \<Rightarrow> nat \<times> axi_globals" where
  "pool_insert new_pool g =
     (case pool_lookup_ref (pl_dma_base new_pool) (pl_dma_size new_pool) g of
        (Some ptr, g) \<Rightarrow> (ptr, free_pool g)
      | (None, g) \<Rightarrow> (pl_ptr new_pool, g\<lparr>ag_pools := new_pool # ag_pools g\<rparr>))"

text \<open>\<open>race\<close> is what other threads do between the two locked sections.\<close>

definition axi_mmio_pool_get ::
  "(axi_globals \<Rightarrow> axi_globals) \<Rightarrow> u64 \<Rightarrow> u64 \<Rightarrow> axi_globals \<Rightarrow> nat option \<times> axi_globals" where
  "axi_mmio_pool_get race base size' g =
     (case pool_lookup_ref base size' g of
        (Some ptr, g) \<Rightarrow> (Some ptr, g)
      | (None, g) \<Rightarrow> (case pool_prepare base size' g of
            (None, g) \<Rightarrow> (None, g)
          | (Some new_pool, g) \<Rightarrow> (case pool_insert new_pool (race g) of (ptr, g) \<Rightarrow> (Some ptr, g))))"

section \<open>Probe\<close>

datatype devm_action = PoolRelease nat | UnregisterChild

datatype child = NoChild | Allocated | Registered

text \<open>
  A platform device: its memory resources (first and last address), its interrupt or a negative
  error, what the registration of its child returns, the managed actions registered so far (last first), the driver data and the child.
\<close>

record axi_pdev =
  pd_mem :: "(u64 \<times> u64) list"
  pd_irq :: int
  pd_add :: int
  pd_actions :: "devm_action list"
  pd_drvdata :: "nat option"
  pd_child :: child

definition platform_get_resource :: "axi_pdev \<Rightarrow> nat \<Rightarrow> (u64 \<times> u64) option" where
  "platform_get_resource pdev n = (if n < length (pd_mem pdev) then Some (pd_mem pdev ! n) else None)"

definition axi_mmio_unregister_child :: "axi_pdev \<Rightarrow> axi_pdev" where
  "axi_mmio_unregister_child pdev = pdev\<lparr>pd_child := NoChild\<rparr>"

definition run_action :: "devm_action \<Rightarrow> axi_pdev \<Rightarrow> axi_globals \<Rightarrow> axi_pdev \<times> axi_globals" where
  "run_action a pdev g = (case a of
      PoolRelease ptr \<Rightarrow> (pdev, axi_mmio_pool_release ptr g)
    | UnregisterChild \<Rightarrow> (axi_mmio_unregister_child pdev, g))"

text \<open>Registering a managed action; when that fails the action runs at once.\<close>

definition devm_add_action_or_reset :: "devm_action \<Rightarrow> axi_pdev \<Rightarrow> axi_globals \<Rightarrow> int \<times> axi_pdev \<times> axi_globals" where
  "devm_add_action_or_reset a pdev g = (case call_ok g of (ok, g) \<Rightarrow>
     if ok then (0, pdev\<lparr>pd_actions := a # pd_actions pdev\<rparr>, g) else (- ENOMEM, run_action a pdev g))"

text \<open>The number of resources, or an error.\<close>

definition axi_mmio_copy_resources :: "axi_pdev \<Rightarrow> axi_globals \<Rightarrow> int \<times> axi_globals" where
  "axi_mmio_copy_resources pdev g =
     (if platform_get_resource pdev 0 = None then (- EINVAL, g)
      else if pd_irq pdev < 0 then (pd_irq pdev, g)
      else case call_ok g of (ok, g) \<Rightarrow> (if ok then 2 else - ENOMEM, g))"

text \<open>The child device, from its allocation to its registration.\<close>

definition probe_child :: "axi_pdev \<Rightarrow> axi_globals \<Rightarrow> int \<times> axi_pdev \<times> axi_globals" where
  "probe_child pdev g =
     (case call_ok g of (ok, g) \<Rightarrow>
        if \<not> ok then (- ENOMEM, pdev, g)
        else let pdev = pdev\<lparr>pd_child := Allocated\<rparr> in
          case call_ok g of (ok, g) \<Rightarrow>
            if \<not> ok then (- ENOMEM, pdev\<lparr>pd_child := NoChild\<rparr>, g)
            else if pd_add pdev \<noteq> 0 then (pd_add pdev, pdev\<lparr>pd_child := NoChild\<rparr>, g)
            else devm_add_action_or_reset UnregisterChild (pdev\<lparr>pd_child := Registered\<rparr>) g)"

text \<open>The probe from the pool it got on.\<close>

definition probe_bound :: "nat \<Rightarrow> axi_pdev \<Rightarrow> axi_globals \<Rightarrow> int \<times> axi_pdev \<times> axi_globals" where
  "probe_bound pool pdev g =
     (case devm_add_action_or_reset (PoolRelease pool) pdev g of (err, pdev, g) \<Rightarrow>
        if err \<noteq> 0 then (err, pdev, g)
        else let pdev = pdev\<lparr>pd_drvdata := Some pool\<rparr> in
          case axi_mmio_copy_resources pdev g of (num_resources, g) \<Rightarrow>
            if num_resources < 0 then (num_resources, pdev, g)
            else probe_child pdev g)"

definition aperture_ok :: "u64 \<Rightarrow> u64 \<Rightarrow> bool" where
  "aperture_ok base size' \<longleftrightarrow> base AND 0xfff = 0 \<and> size' AND 0xfff = 0 \<and> drop_bit PAGE_SHIFT size' \<noteq> 0"

definition axi_mmio_probe ::
  "(axi_globals \<Rightarrow> axi_globals) \<Rightarrow> axi_pdev \<Rightarrow> axi_globals \<Rightarrow> int \<times> axi_pdev \<times> axi_globals" where
  "axi_mmio_probe race pdev g =
     (case platform_get_resource pdev 1 of
        None \<Rightarrow> (- EINVAL, pdev, g)
      | Some (first, last') \<Rightarrow>
          (case call_ok g of (ok, g) \<Rightarrow>
             if \<not> ok then (- ENOMEM, pdev, g)
             else let dma_base = first; dma_size = last' - first + 1 in
               if \<not> aperture_ok dma_base dma_size then (- EINVAL, pdev, g)
               else case axi_mmio_pool_get race dma_base dma_size g of
                 (None, g) \<Rightarrow> (- ENOMEM, pdev, g)
               | (Some pool, g) \<Rightarrow> probe_bound pool pdev g))"

text \<open>
  The driver core: the managed actions run last first, when a probe fails and when the device is
  unbound.
\<close>

fun devres_release :: "devm_action list \<Rightarrow> axi_pdev \<Rightarrow> axi_globals \<Rightarrow> axi_pdev \<times> axi_globals" where
  "devres_release [] pdev g = (pdev, g)"
| "devres_release (a # as) pdev g = (case run_action a pdev g of (pdev, g) \<Rightarrow> devres_release as pdev g)"

definition device_unbind :: "axi_pdev \<Rightarrow> axi_globals \<Rightarrow> axi_pdev \<times> axi_globals" where
  "device_unbind pdev g =
     (case devres_release (pd_actions pdev) pdev g of (pdev, g) \<Rightarrow> (pdev\<lparr>pd_actions := [], pd_drvdata := None\<rparr>, g))"

section \<open>Sharing under concurrency\<close>

text \<open>
  Threads that get and put pools, interleaved at the lock: a thread is idle, has prepared a new pool
  without the lock, or holds a reference.
\<close>

datatype pool_thread = Idle | Preparing axi_mmio_pool | Holding nat

inductive pool_reach :: "axi_globals \<Rightarrow> (nat \<Rightarrow> pool_thread) \<Rightarrow> bool" where
  pool_start: "ag_pools g = [] \<Longrightarrow> ag_structs g = 0 \<Longrightarrow> ag_maps g = 0 \<Longrightarrow> ag_bitmaps g = 0 \<Longrightarrow> pool_reach g (\<lambda>_. Idle)"
| pool_hit: "pool_reach g T \<Longrightarrow> T t = Idle \<Longrightarrow> pool_lookup_ref base size' g = (Some ptr, g') \<Longrightarrow>
    pool_reach g' (T(t := Holding ptr))"
| pool_prep: "pool_reach g T \<Longrightarrow> T t = Idle \<Longrightarrow> pool_prepare base size' g = (Some p, g') \<Longrightarrow>
    pool_reach g' (T(t := Preparing p))"
| pool_prep_fail: "pool_reach g T \<Longrightarrow> T t = Idle \<Longrightarrow> pool_prepare base size' g = (None, g') \<Longrightarrow> pool_reach g' T"
| pool_add: "pool_reach g T \<Longrightarrow> T t = Preparing p \<Longrightarrow> pool_insert p g = (ptr, g') \<Longrightarrow> pool_reach g' (T(t := Holding ptr))"
| pool_drop: "pool_reach g T \<Longrightarrow> T t = Holding ptr \<Longrightarrow> pool_reach (axi_mmio_pool_put (Some ptr) g) (T(t := Idle))"

definition pool_key :: "axi_mmio_pool \<Rightarrow> u64 \<times> u64" where
  "pool_key p = (pl_dma_base p, pl_dma_size p)"

text \<open>
  Every pool in the list has its own address and its own aperture and as many references as threads
  hold it, at least one; what a thread holds is in the list; the counters are the pools in the list
  and those being prepared.
\<close>

definition holders :: "(nat \<Rightarrow> pool_thread) \<Rightarrow> nat \<Rightarrow> nat set" where
  "holders T ptr = {t. T t = Holding ptr}"

definition preparing :: "(nat \<Rightarrow> pool_thread) \<Rightarrow> nat set" where
  "preparing T = {t. \<exists>p. T t = Preparing p}"

definition pools_inv :: "axi_globals \<Rightarrow> (nat \<Rightarrow> pool_thread) \<Rightarrow> bool" where
  "pools_inv g T \<longleftrightarrow> finite {t. T t \<noteq> Idle} \<and>
     distinct (map pl_ptr (ag_pools g)) \<and> distinct (map pool_key (ag_pools g)) \<and>
     (\<forall>p \<in> set (ag_pools g). pl_refs p = card (holders T (pl_ptr p)) \<and> pl_refs p \<noteq> 0 \<and> pl_ptr p < ag_next g) \<and>
     (\<forall>t ptr. T t = Holding ptr \<longrightarrow> ptr \<in> pl_ptr ` set (ag_pools g)) \<and>
     (\<forall>t p. T t = Preparing p \<longrightarrow> pl_refs p = 1 \<and> pl_ptr p < ag_next g \<and> pl_ptr p \<notin> pl_ptr ` set (ag_pools g)) \<and>
     (\<forall>t u p q. T t = Preparing p \<longrightarrow> T u = Preparing q \<longrightarrow> t \<noteq> u \<longrightarrow> pl_ptr p \<noteq> pl_ptr q) \<and>
     ag_structs g = length (ag_pools g) + card (preparing T) \<and> ag_maps g = ag_structs g \<and> ag_bitmaps g = ag_structs g"

lemma holders_upd:
  "T t \<noteq> Holding ptr \<Longrightarrow> holders (T(t := Holding ptr)) ptr = insert t (holders T ptr)"
  "T t \<noteq> Holding q \<Longrightarrow> x \<noteq> Holding q \<Longrightarrow> holders (T(t := x)) q = holders T q"
  "holders (T(t := Idle)) q = holders T q - {t}"
  by (auto simp: holders_def)

lemma preparing_upd:
  "\<nexists>p. T t = Preparing p \<Longrightarrow> preparing (T(t := Preparing p)) = insert t (preparing T)"
  "\<nexists>p. x = Preparing p \<Longrightarrow> preparing (T(t := x)) = preparing T - {t}"
  by (auto simp: preparing_def)

lemma pools_fin:
  assumes "pools_inv g T"
  shows "finite (holders T ptr)" and "finite (preparing T)"
proof -
  have "finite {t. T t \<noteq> Idle}" using assms by (simp add: pools_inv_def)
  then show "finite (holders T ptr)" "finite (preparing T)"
    by (auto simp: holders_def preparing_def elim: rev_finite_subset)
qed

lemma call_ok_globals:
  "call_ok g = (b, g') \<Longrightarrow> g' = g\<lparr>ag_script := ag_script g'\<rparr>"
  by (auto simp: call_ok_def split: list.splits)

lemma pool_lookup_cases:
  obtains (miss) "pool_lookup_ref base size' g = (None, g)" and "(base, size') \<notin> pool_key ` set (ag_pools g)"
  | (hit) p where "p \<in> set (ag_pools g)" and "pool_key p = (base, size')"
      and "pool_lookup_ref base size' g = (Some (pl_ptr p), pool_set (p\<lparr>pl_refs := Suc (pl_refs p)\<rparr>) g)"
proof (cases "find (\<lambda>p. pl_dma_base p = base \<and> pl_dma_size p = size') (ag_pools g)")
  case None
  then have "(base, size') \<notin> pool_key ` set (ag_pools g)" by (auto simp: find_None_iff pool_key_def)
  with None show ?thesis using miss by (simp add: pool_lookup_ref_def)
next
  case (Some p)
  then have "p \<in> set (ag_pools g)" "pool_key p = (base, size')"
    by (auto simp: find_Some_iff pool_key_def)
  with Some show ?thesis using hit [of p] by (simp add: pool_lookup_ref_def)
qed

lemma pool_set_list:
  "map pl_ptr (ag_pools (pool_set p g)) = map pl_ptr (ag_pools g)"
  by (simp add: pool_set_def)

lemma pool_set_next [simp]: "ag_next (pool_set p g) = ag_next g" "length (ag_pools (pool_set p g)) = length (ag_pools g)"
  by (simp_all add: pool_set_def)

lemma pool_set_keys:
  assumes "p \<in> set (ag_pools g)" and "distinct (map pl_ptr (ag_pools g))" and "pl_ptr p' = pl_ptr p" and "pool_key p' = pool_key p"
  shows "map pool_key (ag_pools (pool_set p' g)) = map pool_key (ag_pools g)"
    and "set (ag_pools (pool_set p' g)) = insert p' (set (ag_pools g) - {p})"
proof -
  have u: "q = p" if "q \<in> set (ag_pools g)" "pl_ptr q = pl_ptr p" for q
    using that assms(1,2) by (auto simp: distinct_map dest: inj_onD)
  show "map pool_key (ag_pools (pool_set p' g)) = map pool_key (ag_pools g)"
    using assms(3,4) by (auto simp: pool_set_def dest: u)
  show "set (ag_pools (pool_set p' g)) = insert p' (set (ag_pools g) - {p})"
    using assms(1,3) by (auto simp: pool_set_def dest: u)
qed

lemma pools_invD:
  assumes "pools_inv g T"
  shows "finite {t. T t \<noteq> Idle}" "distinct (map pl_ptr (ag_pools g))" "distinct (map pool_key (ag_pools g))"
    "\<And>p. p \<in> set (ag_pools g) \<Longrightarrow> pl_refs p = card (holders T (pl_ptr p)) \<and> pl_refs p \<noteq> 0 \<and> pl_ptr p < ag_next g"
    "\<And>t ptr. T t = Holding ptr \<Longrightarrow> ptr \<in> pl_ptr ` set (ag_pools g)"
    "\<And>t p. T t = Preparing p \<Longrightarrow> pl_refs p = 1 \<and> pl_ptr p < ag_next g \<and> pl_ptr p \<notin> pl_ptr ` set (ag_pools g)"
    "\<And>t u p q. T t = Preparing p \<Longrightarrow> T u = Preparing q \<Longrightarrow> t \<noteq> u \<Longrightarrow> pl_ptr p \<noteq> pl_ptr q"
    "ag_structs g = length (ag_pools g) + card (preparing T)" "ag_maps g = ag_structs g" "ag_bitmaps g = ag_structs g"
  using assms unfolding pools_inv_def by blast+

lemma pools_invI:
  assumes "finite {t. T t \<noteq> Idle}" and "distinct (map pl_ptr (ag_pools g))" and "distinct (map pool_key (ag_pools g))"
    and "\<And>p. p \<in> set (ag_pools g) \<Longrightarrow> pl_refs p = card (holders T (pl_ptr p)) \<and> pl_refs p \<noteq> 0 \<and> pl_ptr p < ag_next g"
    and "\<And>t ptr. T t = Holding ptr \<Longrightarrow> ptr \<in> pl_ptr ` set (ag_pools g)"
    and "\<And>t p. T t = Preparing p \<Longrightarrow> pl_refs p = 1 \<and> pl_ptr p < ag_next g \<and> pl_ptr p \<notin> pl_ptr ` set (ag_pools g)"
    and "\<And>t u p q. T t = Preparing p \<Longrightarrow> T u = Preparing q \<Longrightarrow> t \<noteq> u \<Longrightarrow> pl_ptr p \<noteq> pl_ptr q"
    and "ag_structs g = length (ag_pools g) + card (preparing T) \<and> ag_maps g = ag_structs g \<and> ag_bitmaps g = ag_structs g"
  shows "pools_inv g T"
  unfolding pools_inv_def using assms by blast

text \<open>One more reference for thread \<open>t\<close>; if it had prepared a pool, that one is freed.\<close>

definition give_up :: "pool_thread \<Rightarrow> axi_globals \<Rightarrow> axi_globals" where
  "give_up x g = (case x of Preparing _ \<Rightarrow> free_pool g | _ \<Rightarrow> g)"

lemma give_up_simps [simp]: "ag_pools (give_up x g) = ag_pools g" "ag_next (give_up x g) = ag_next g"
  by (cases x; simp add: give_up_def free_pool_def)+

lemma inv_ref:
  assumes inv: "pools_inv g T" and t: "\<And>ptr. T t \<noteq> Holding ptr" and p: "p \<in> set (ag_pools g)"
  shows "pools_inv (give_up (T t) (pool_set (p\<lparr>pl_refs := Suc (pl_refs p)\<rparr>) g)) (T(t := Holding (pl_ptr p)))"
proof (rule pools_invI, goal_cases)
  let ?p = "p\<lparr>pl_refs := Suc (pl_refs p)\<rparr>"
  note D = pools_invD [OF inv]
  have set': "set (ag_pools (pool_set ?p g)) = insert ?p (set (ag_pools g) - {p})"
    and key': "map pool_key (ag_pools (pool_set ?p g)) = map pool_key (ag_pools g)"
    using pool_set_keys [OF p D(2), of ?p] by (simp_all add: pool_key_def)
  have ptrs: "pl_ptr ` set (ag_pools (pool_set ?p g)) = pl_ptr ` set (ag_pools g)"
    using arg_cong [OF pool_set_list [of ?p g], of set] by simp
  {
    case 1
    have "{u. (T(t := Holding (pl_ptr p))) u \<noteq> Idle} = insert t {u. T u \<noteq> Idle}" by auto
    then show ?case using D(1) by simp
  next
    case 2
    show ?case using D(2) by (simp add: pool_set_list)
  next
    case 3
    show ?case using D(3) by (simp only: key' give_up_simps)
  next
    case (4 q)
    then consider "q = ?p" | "q \<in> set (ag_pools g)" "q \<noteq> p" using set' by auto
    then show ?case
    proof cases
      case 1
      have "t \<notin> holders T (pl_ptr p)" using t by (simp add: holders_def)
      with 1 D(4) [OF p] t pools_fin(1) [OF inv, of "pl_ptr p"] show ?thesis
        by (simp add: holders_upd(1))
    next
      case 2
      then have "pl_ptr q \<noteq> pl_ptr p" using p D(2) by (auto simp: distinct_map dest: inj_onD)
      with D(4) [OF 2(1)] t show ?thesis by (simp add: holders_upd(2))
    qed
  next
    case (5 u ptr)
    then show ?case using D(5) [of u ptr] p by (auto simp: ptrs split: if_splits)
  next
    case (6 u q)
    then show ?case using D(6) [of u q] by (auto simp: ptrs split: if_splits)
  next
    case (7 u v q r)
    then show ?case using D(7) [of u q v r] by (auto split: if_splits)
  next
    case 8
    have fin: "finite (preparing T)" by (rule pools_fin(2) [OF inv])
    have pr: "preparing (T(t := Holding (pl_ptr p))) = preparing T - {t}" by (simp add: preparing_upd(2))
    have "card (preparing T - {t}) = (case T t of Preparing _ \<Rightarrow> card (preparing T) - 1 | _ \<Rightarrow> card (preparing T))"
      by (cases "T t") (auto simp: preparing_def)
    moreover have "card (preparing T) \<noteq> 0" if "T t = Preparing q" for q
      using that fin by (auto simp: preparing_def)
    ultimately show ?case using D(8-10)
      unfolding pr by (cases "T t") (auto simp: give_up_def free_pool_def pool_set_def)
  }
qed

lemma prepare_some:
  assumes "pool_prepare base size' g = (Some p, g')"
  shows "ag_pools g' = ag_pools g" "ag_next g' = Suc (ag_next g)" "pl_ptr p = ag_next g" "pl_refs p = 1"
    "ag_structs g' = Suc (ag_structs g)" "ag_maps g' = Suc (ag_maps g)" "ag_bitmaps g' = Suc (ag_bitmaps g)"
    "pool_key p = (base, size')"
  using assms
  by (auto simp: pool_prepare_def Let_def pool_key_def call_ok_def split: prod.splits if_splits list.splits)

lemma prepare_none:
  assumes "pool_prepare base size' g = (None, g')"
  shows "ag_pools g' = ag_pools g" "ag_next g \<le> ag_next g'" "ag_structs g' = ag_structs g" "ag_maps g' = ag_maps g"
    "ag_bitmaps g' = ag_bitmaps g"
  using assms by (auto simp: pool_prepare_def Let_def call_ok_def split: prod.splits if_splits list.splits)

lemma inv_prepare:
  assumes inv: "pools_inv g T" and t: "T t = Idle" and p: "pool_prepare base size' g = (Some p, g')"
  shows "pools_inv g' (T(t := Preparing p))"
proof (rule pools_invI, goal_cases)
  note D = pools_invD [OF inv] and P = prepare_some [OF p]
  {
    case 1
    have "{u. (T(t := Preparing p)) u \<noteq> Idle} = insert t {u. T u \<noteq> Idle}" by auto
    then show ?case using D(1) by simp
  next
    case (4 q)
    then show ?case using D(4) [of q] t by (simp add: P holders_upd(2))
  next
    case (5 u ptr)
    then show ?case using D(5) [of u ptr] by (auto simp: P split: if_splits)
  next
    case (6 u q)
    have "ag_next g \<notin> pl_ptr ` set (ag_pools g)" using D(4) by (metis image_iff less_irrefl)
    then show ?case using D(6) [of u q] 6 P by (cases "u = t") auto
  next
    case (7 u v q r)
    then show ?case using D(7) [of u q v r] D(6) [of u q] D(6) [of v r] P(3) by (auto split: if_splits)
  next
    case 8
    have "t \<notin> preparing T" "finite (preparing T)" using t pools_fin(2) [OF inv] by (simp_all add: preparing_def)
    then show ?case using D(8-10) t by (simp add: preparing_upd(1) P)
  }
qed (use pools_invD [OF inv] prepare_some [OF p] in simp_all)

lemma inv_prepare_fail:
  assumes inv: "pools_inv g T" and p: "pool_prepare base size' g = (None, g')"
  shows "pools_inv g' T"
  using pools_invD [OF inv] prepare_none [OF p]
  by (intro pools_invI) (force, simp, simp, force, simp, force, simp, simp)

lemma inv_add:
  assumes inv: "pools_inv g T" and t: "T t = Preparing p" and key: "pool_key p \<notin> pool_key ` set (ag_pools g)"
  shows "pools_inv (g\<lparr>ag_pools := p # ag_pools g\<rparr>) (T(t := Holding (pl_ptr p)))"
proof (rule pools_invI, goal_cases)
  note D = pools_invD [OF inv]
  note P = D(6) [OF t]
  have none: "holders T (pl_ptr p) = {}" using D(5) P by (auto simp: holders_def)
  {
    case 1
    have "{u. (T(t := Holding (pl_ptr p))) u \<noteq> Idle} = insert t {u. T u \<noteq> Idle}" by auto
    then show ?case using D(1) by simp
  next
    case (4 q)
    then consider "q = p" | "q \<in> set (ag_pools g)" by auto
    then show ?case
    proof cases
      case 1
      then show ?thesis using P none t by (simp add: holders_upd(1))
    next
      case 2
      then have "pl_ptr q \<noteq> pl_ptr p" using P by (metis image_eqI)
      with D(4) [OF 2] t show ?thesis by (simp add: holders_upd(2))
    qed
  next
    case (5 u ptr)
    then show ?case using D(5) [of u ptr] by (auto split: if_splits)
  next
    case (6 u q)
    then show ?case using D(6) [of u q] D(7) [of u q t p] t by (auto split: if_splits)
  next
    case (7 u v q r)
    then show ?case using D(7) [of u q v r] by (auto split: if_splits)
  next
    case 8
    have "t \<in> preparing T" "finite (preparing T)" using t pools_fin(2) [OF inv] by (auto simp: preparing_def)
    then have "card (preparing T) = Suc (card (preparing T - {t}))" by (metis card_Suc_Diff1)
    then show ?case using D(8-10) by (simp add: preparing_upd(2))
  next
    case 2
    show ?case using D(2) P by simp
  next
    case 3
    show ?case using D(3) key by simp
  }
qed

lemma pool_by_ptr_held:
  assumes inv: "pools_inv g T" and t: "T t = Holding ptr"
  obtains p where "pool_by_ptr ptr g = Some p" and "p \<in> set (ag_pools g)" and "pl_ptr p = ptr"
proof -
  obtain q where "q \<in> set (ag_pools g)" "pl_ptr q = ptr" using pools_invD(5) [OF inv t] by auto
  then obtain p where p: "pool_by_ptr ptr g = Some p"
    by (cases "pool_by_ptr ptr g") (auto simp: pool_by_ptr_def find_None_iff)
  then have "p \<in> set (ag_pools g)" "pl_ptr p = ptr" by (auto simp: pool_by_ptr_def find_Some_iff)
  with p show ?thesis by (rule that)
qed

lemma filter_one:
  "distinct (map f xs) \<Longrightarrow> x \<in> set xs \<Longrightarrow> Suc (length (filter (\<lambda>y. f y \<noteq> f x) xs)) = length xs"
proof (induction xs)
  case (Cons y ys)
  show ?case
  proof (cases "f y = f x")
    case True
    with Cons.prems(1) have "filter (\<lambda>z. f z \<noteq> f x) ys = ys" by (simp add: filter_id_conv) (metis True image_eqI)
    with True show ?thesis by simp
  next
    case False
    with Cons show ?thesis by auto
  qed
qed simp

text \<open>What a put means for the threads: \<open>t\<close> no longer holds the pool, the others are as before.\<close>

lemma put_threads:
  assumes inv: "pools_inv g T" and t: "T t = Holding ptr" and p: "p \<in> set (ag_pools g)" "pl_ptr p = ptr"
  shows "card (holders (T(t := Idle)) ptr) = pl_refs p - 1"
    and "q \<in> set (ag_pools g) \<Longrightarrow> q \<noteq> p \<Longrightarrow> pl_ptr q \<noteq> ptr \<and> holders (T(t := Idle)) (pl_ptr q) = holders T (pl_ptr q)"
    and "finite {u. (T(t := Idle)) u \<noteq> Idle}" and "preparing (T(t := Idle)) = preparing T"
    and "(T(t := Idle)) u = Holding r \<Longrightarrow> T u = Holding r \<and> u \<noteq> t"
    and "(T(t := Idle)) u = Preparing w \<Longrightarrow> T u = Preparing w"
proof -
  note D = pools_invD [OF inv]
  have th: "t \<in> holders T ptr" "finite (holders T ptr)" using t pools_fin(1) [OF inv] by (simp_all add: holders_def)
  then show "card (holders (T(t := Idle)) ptr) = pl_refs p - 1"
    using D(4) [OF p(1)] p(2) by (simp add: holders_upd(3))
  show "pl_ptr q \<noteq> ptr \<and> holders (T(t := Idle)) (pl_ptr q) = holders T (pl_ptr q)"
    if "q \<in> set (ag_pools g)" "q \<noteq> p"
  proof -
    have "pl_ptr q \<noteq> ptr" using that p D(2) by (auto simp: distinct_map dest: inj_onD)
    with t show ?thesis by (auto simp: holders_def)
  qed
  show "finite {u. (T(t := Idle)) u \<noteq> Idle}" by (rule finite_subset [OF _ D(1)]) auto
  show "preparing (T(t := Idle)) = preparing T" using t by (auto simp: preparing_def)
qed (auto split: if_splits)

lemma inv_put_shared:
  assumes inv: "pools_inv g T" and t: "T t = Holding ptr" and p: "p \<in> set (ag_pools g)" "pl_ptr p = ptr"
    and refs: "pl_refs p - 1 \<noteq> 0"
  shows "pools_inv (pool_set (p\<lparr>pl_refs := pl_refs p - 1\<rparr>) g) (T(t := Idle))"
proof (rule pools_invI, goal_cases)
  let ?p = "p\<lparr>pl_refs := pl_refs p - 1\<rparr>"
  note D = pools_invD [OF inv] and P = put_threads [OF inv t p]
  have set': "set (ag_pools (pool_set ?p g)) = insert ?p (set (ag_pools g) - {p})"
    and key': "map pool_key (ag_pools (pool_set ?p g)) = map pool_key (ag_pools g)"
    using pool_set_keys [OF p(1) D(2), of ?p] by (simp_all add: pool_key_def)
  have ptrs: "pl_ptr ` set (ag_pools (pool_set ?p g)) = pl_ptr ` set (ag_pools g)"
    using arg_cong [OF pool_set_list [of ?p g], of set] by simp
  {
    case 3
    show ?case using D(3) by (simp only: key')
  next
    case (4 q)
    then consider "q = ?p" | "q \<in> set (ag_pools g)" "q \<noteq> p" using set' by auto
    then show ?case
    proof cases
      case 1
      then show ?thesis using refs P(1) D(4) [OF p(1)] p(2) by simp
    next
      case 2
      then show ?thesis using D(4) [OF 2(1)] P(2) [OF 2] by simp
    qed
  next
    case (5 u r)
    then show ?case using D(5) P(5) ptrs by metis
  next
    case (6 u w)
    then show ?case using D(6) P(6) ptrs by (metis pool_set_next(1))
  next
    case (7 u v w x)
    then show ?case using D(7) P(6) by metis
  next
    case 8
    show ?case using D(8-10) by (simp add: P(4)) (simp add: pool_set_def)
  }
qed (use put_threads(3) [OF inv t p] pools_invD(2) [OF inv] in \<open>simp_all add: pool_set_list\<close>)

lemma inv_put_last:
  assumes inv: "pools_inv g T" and t: "T t = Holding ptr" and p: "p \<in> set (ag_pools g)" "pl_ptr p = ptr"
    and refs: "pl_refs p - 1 = 0"
  shows "pools_inv (free_pool (g\<lparr>ag_pools := filter (\<lambda>q. pl_ptr q \<noteq> ptr) (ag_pools g)\<rparr>)) (T(t := Idle))"
proof (rule pools_invI, goal_cases)
  let ?g = "free_pool (g\<lparr>ag_pools := filter (\<lambda>q. pl_ptr q \<noteq> ptr) (ag_pools g)\<rparr>)"
  note D = pools_invD [OF inv] and P = put_threads [OF inv t p]
  have none: "holders (T(t := Idle)) ptr = {}"
    using P(1) refs pools_fin(1) [OF inv, of ptr] by (simp add: holders_upd(3))
  have pools: "ag_pools ?g = filter (\<lambda>q. pl_ptr q \<noteq> ptr) (ag_pools g)" "ag_next ?g = ag_next g"
    by (simp_all add: free_pool_def)
  {
    case 2
    show ?case using D(2) by (simp add: pools distinct_map_filter)
  next
    case 3
    show ?case using D(3) by (simp add: pools distinct_map_filter)
  next
    case (4 q)
    then have "q \<in> set (ag_pools g)" "q \<noteq> p" using p(2) by (auto simp: pools)
    then show ?case using D(4) [of q] P(2) [of q] by (simp add: pools)
  next
    case (5 u r)
    then have "r \<noteq> ptr" using none by (auto simp: holders_def)
    moreover have "r \<in> pl_ptr ` set (ag_pools g)" using D(5) P(5) [OF 5] by blast
    ultimately show ?case by (auto simp: pools)
  next
    case (6 u w)
    then have "pl_refs w = 1 \<and> pl_ptr w < ag_next g \<and> pl_ptr w \<notin> pl_ptr ` set (ag_pools g)" by (intro D(6) P(6))
    then show ?case by (auto simp: pools)
  next
    case (7 u v w x)
    then show ?case using D(7) P(6) by metis
  next
    case 8
    have "Suc (length (ag_pools ?g)) = length (ag_pools g)"
      using filter_one [OF D(2) p(1)] p(2) by (simp add: pools)
    then show ?case using D(8-10) by (simp add: P(4)) (simp add: free_pool_def)
  }
qed (rule put_threads(3) [OF inv t p])

lemma inv_put:
  assumes inv: "pools_inv g T" and t: "T t = Holding ptr"
  shows "pools_inv (axi_mmio_pool_put (Some ptr) g) (T(t := Idle))"
proof -
  obtain p where f: "pool_by_ptr ptr g = Some p" and p: "p \<in> set (ag_pools g)" "pl_ptr p = ptr"
    using pool_by_ptr_held [OF inv t] by blast
  show ?thesis
    using inv_put_shared [OF inv t p] inv_put_last [OF inv t p] f
    by (cases "pl_refs p - 1 = 0") (simp_all add: axi_mmio_pool_put_def)
qed

lemma inv_insert:
  assumes inv: "pools_inv g T" and t: "T t = Preparing p" and i: "pool_insert p g = (ptr, g')"
  shows "pools_inv g' (T(t := Holding ptr))"
proof (cases rule: pool_lookup_cases [of "pl_dma_base p" "pl_dma_size p" g])
  case miss
  then show ?thesis using inv_add [OF inv t] i by (simp add: pool_insert_def pool_key_def)
next
  case (hit q)
  then show ?thesis using inv_ref [OF inv _ hit(1), of t] t i by (simp add: pool_insert_def give_up_def)
qed

lemma pool_reach_inv: "pool_reach g T \<Longrightarrow> pools_inv g T"
proof (induction rule: pool_reach.induct)
  case (pool_start g)
  then show ?case by (intro pools_invI) (simp_all add: preparing_def)
next
  case (pool_hit g T t base size' ptr g')
  show ?case
  proof (cases rule: pool_lookup_cases [of base size' g])
    case (hit q)
    then have "ptr = pl_ptr q" "g' = pool_set (q\<lparr>pl_refs := Suc (pl_refs q)\<rparr>) g" using pool_hit.hyps(3) by simp_all
    moreover have "pools_inv (give_up (T t) (pool_set (q\<lparr>pl_refs := Suc (pl_refs q)\<rparr>) g)) (T(t := Holding (pl_ptr q)))"
      by (rule inv_ref [OF pool_hit.IH _ hit(1)]) (simp add: pool_hit.hyps(2))
    ultimately show ?thesis by (simp only: pool_hit.hyps(2) give_up_def pool_thread.case)
  qed (use pool_hit.hyps in simp)
qed (blast intro: inv_prepare inv_prepare_fail inv_insert inv_put)+

text \<open>
  C25: one pool per aperture, counted exactly. However the threads that get and put pools
  interleave between the locked sections and whichever allocations fail, two pools in the list never
  have the same aperture, each has exactly as many references as threads hold it and at least one, a
  pool that is held is in the list (it is not freed under its users), and the live structures,
  mappings and bitmaps are those of the list and of the pools being prepared, so nothing leaks.
\<close>

theorem pools_shared_safely:
  assumes "pool_reach g T"
  shows "distinct (map pool_key (ag_pools g)) \<and>
    (\<forall>p \<in> set (ag_pools g). pl_refs p = card (holders T (pl_ptr p)) \<and> pl_refs p \<noteq> 0) \<and>
    (\<forall>t ptr. T t = Holding ptr \<longrightarrow> ptr \<in> pl_ptr ` set (ag_pools g)) \<and>
    ag_structs g = length (ag_pools g) + card (preparing T) \<and> ag_maps g = ag_structs g \<and> ag_bitmaps g = ag_structs g"
  using pools_invD [OF pool_reach_inv [OF assms]] by blast

text \<open>Two threads race for the same aperture; the second to insert takes the first one's pool.\<close>

definition race_g0 :: axi_globals where
  "race_g0 = \<lparr>ag_pools = [], ag_next = 1, ag_structs = 0, ag_maps = 0, ag_bitmaps = 0, ag_script = []\<rparr>"

theorem pools_shared_safely_witness:
  "let g1 = snd (pool_prepare 0x10000 0x2000 race_g0);
       p1 = the (fst (pool_prepare 0x10000 0x2000 race_g0));
       g2 = snd (pool_prepare 0x10000 0x2000 g1);
       p2 = the (fst (pool_prepare 0x10000 0x2000 g1));
       g4 = snd (pool_insert p2 (snd (pool_insert p1 g2)))
   in map pl_refs (ag_pools g4) = [2] \<and> ag_structs g4 = 1 \<and> distinct (map pool_key (ag_pools g4))"
proof -
  let ?g1 = "snd (pool_prepare 0x10000 0x2000 race_g0)" let ?p1 = "the (fst (pool_prepare 0x10000 0x2000 race_g0))"
  let ?g2 = "snd (pool_prepare 0x10000 0x2000 ?g1)" let ?p2 = "the (fst (pool_prepare 0x10000 0x2000 ?g1))"
  let ?g3 = "snd (pool_insert ?p1 ?g2)" let ?g4 = "snd (pool_insert ?p2 ?g3)"
  have r0: "pool_reach race_g0 (\<lambda>_. Idle)" by (rule pool_reach.pool_start) (simp_all add: race_g0_def)
  have q1: "pool_prepare 0x10000 0x2000 race_g0 = (Some ?p1, ?g1)" and q2: "pool_prepare 0x10000 0x2000 ?g1 = (Some ?p2, ?g2)"
    by (simp_all add: pool_prepare_def race_g0_def call_ok_def Let_def)
  have r1: "pool_reach ?g1 ((\<lambda>_. Idle)(0 := Preparing ?p1))" by (rule pool_reach.pool_prep [OF r0 _ q1]) simp
  have r2: "pool_reach ?g2 ((\<lambda>_. Idle)(0 := Preparing ?p1, 1 := Preparing ?p2))"
    by (rule pool_reach.pool_prep [OF r1 _ q2]) simp
  have r3: "pool_reach ?g3 ((\<lambda>_. Idle)(0 := Preparing ?p1, 1 := Preparing ?p2, 0 := Holding (fst (pool_insert ?p1 ?g2))))"
    by (rule pool_reach.pool_add [OF r2, of 0 ?p1]) simp_all
  have r4: "\<exists>T. pool_reach ?g4 T"
    by (rule exI, rule pool_reach.pool_add [OF r3, of 1 ?p2 "fst (pool_insert ?p2 ?g3)"]) simp_all
  have "map pl_refs (ag_pools ?g4) = [2]" "ag_structs ?g4 = 1" by code_simp+
  with r4 pools_shared_safely show ?thesis by (auto simp: Let_def)
qed

section \<open>Binding and unbinding\<close>

text \<open>Without interference, a reference taken is given back by the release action.\<close>

lemma pool_by_ptr_unique:
  assumes "p \<in> set (ag_pools g)" and "\<And>q. q \<in> set (ag_pools g) \<Longrightarrow> pl_ptr q = pl_ptr p \<Longrightarrow> q = p"
  shows "pool_by_ptr (pl_ptr p) g = Some p"
proof (cases "pool_by_ptr (pl_ptr p) g")
  case None
  with assms(1) show ?thesis by (auto simp: pool_by_ptr_def find_None_iff)
next
  case (Some q)
  then have "q \<in> set (ag_pools g) \<and> pl_ptr q = pl_ptr p" by (auto simp: pool_by_ptr_def find_Some_iff)
  with assms(2) Some show ?thesis by blast
qed

definition same_reg :: "axi_globals \<Rightarrow> axi_globals \<Rightarrow> bool" where
  "same_reg g h \<longleftrightarrow> ag_pools h = ag_pools g \<and> ag_structs h = ag_structs g \<and> ag_maps h = ag_maps g \<and> ag_bitmaps h = ag_bitmaps g"

definition registry_ok :: "axi_globals \<Rightarrow> bool" where
  "registry_ok g \<longleftrightarrow> distinct (map pl_ptr (ag_pools g)) \<and> (\<forall>p \<in> set (ag_pools g). pl_refs p \<noteq> 0 \<and> pl_ptr p < ag_next g)"

lemma same_reg_refl [simp]: "same_reg g g"
  by (simp add: same_reg_def)

lemma same_reg_trans: "same_reg g h \<Longrightarrow> same_reg h k \<Longrightarrow> same_reg g k"
  by (simp add: same_reg_def)

lemma same_reg_call: "call_ok g = (b, h) \<Longrightarrow> same_reg g h"
  by (auto simp: call_ok_def same_reg_def split: list.splits)

lemma same_reg_put: "same_reg g h \<Longrightarrow> same_reg (axi_mmio_pool_put p g) (axi_mmio_pool_put p h)"
  by (auto simp: same_reg_def axi_mmio_pool_put_def pool_by_ptr_def pool_set_def free_pool_def split: option.splits)

lemma put_after_ref:
  assumes "p \<in> set (ag_pools g)" and "distinct (map pl_ptr (ag_pools g))" and "pl_refs p \<noteq> 0"
  shows "axi_mmio_pool_put (Some (pl_ptr p)) (pool_set (p\<lparr>pl_refs := Suc (pl_refs p)\<rparr>) g) = g"
proof -
  let ?p = "p\<lparr>pl_refs := Suc (pl_refs p)\<rparr>" let ?g = "pool_set ?p g"
  have un: "q = p" if "q \<in> set (ag_pools g)" "pl_ptr q = pl_ptr p" for q
    using that assms(1,2) by (auto simp: distinct_map dest: inj_onD)
  have "?p \<in> set (ag_pools ?g)" "\<And>q. q \<in> set (ag_pools ?g) \<Longrightarrow> pl_ptr q = pl_ptr p \<Longrightarrow> q = ?p"
    using assms(1) un by (auto simp: pool_set_def split: if_splits)
  then have f: "pool_by_ptr (pl_ptr p) ?g = Some ?p" using pool_by_ptr_unique [of ?p ?g] by simp
  have "map (\<lambda>q. if pl_ptr q = pl_ptr p then p else q) (ag_pools ?g) = ag_pools g"
    unfolding pool_set_def by (simp, rule map_idI) (use un in auto)
  with f assms(3) show ?thesis by (simp add: axi_mmio_pool_put_def) (simp add: pool_set_def)
qed

lemma put_after_add:
  assumes "\<And>q. q \<in> set (ag_pools g) \<Longrightarrow> pl_ptr q \<noteq> pl_ptr p" and "pl_refs p = 1"
  shows "axi_mmio_pool_put (Some (pl_ptr p)) (g\<lparr>ag_pools := p # ag_pools g\<rparr>) = free_pool g"
proof -
  let ?g = "g\<lparr>ag_pools := p # ag_pools g\<rparr>"
  have "pool_by_ptr (pl_ptr p) ?g = Some p" by (simp add: pool_by_ptr_def)
  moreover have "filter (\<lambda>q. pl_ptr q \<noteq> pl_ptr p) (ag_pools g) = ag_pools g" using assms(1) by (simp add: filter_id_conv)
  ultimately show ?thesis using assms(2) by (simp add: axi_mmio_pool_put_def)
qed

lemma get_put:
  assumes ok: "registry_ok g" and get: "axi_mmio_pool_get id base size' g = (Some ptr, g')"
  shows "same_reg g (axi_mmio_pool_put (Some ptr) g') \<and> ptr \<in> pl_ptr ` set (ag_pools g')"
proof (cases rule: pool_lookup_cases [of base size' g])
  case (hit p)
  then have "ptr = pl_ptr p" "g' = pool_set (p\<lparr>pl_refs := Suc (pl_refs p)\<rparr>) g"
    using get by (simp_all add: axi_mmio_pool_get_def)
  moreover have "pl_ptr p \<in> pl_ptr ` set (ag_pools (pool_set (p\<lparr>pl_refs := Suc (pl_refs p)\<rparr>) g))"
    using hit(1) arg_cong [OF pool_set_list [of "p\<lparr>pl_refs := Suc (pl_refs p)\<rparr>" g], of set] by simp
  ultimately show ?thesis using put_after_ref [OF hit(1)] ok hit(1) by (auto simp: registry_ok_def)
next
  case miss
  obtain p g1 where p: "pool_prepare base size' g = (Some p, g1)" and i: "pool_insert p g1 = (ptr, g')"
    using get miss by (auto simp: axi_mmio_pool_get_def split: option.splits prod.splits)
  note P = prepare_some [OF p]
  have "pool_lookup_ref (pl_dma_base p) (pl_dma_size p) g1 = (None, g1)"
  proof (cases rule: pool_lookup_cases [of "pl_dma_base p" "pl_dma_size p" g1])
    case (hit q)
    then have "pool_key q = (base, size')" using P(8) by (simp add: pool_key_def)
    with miss(2) hit(1) P(1) show ?thesis by (metis image_eqI)
  qed
  then have g': "ptr = pl_ptr p" "g' = g1\<lparr>ag_pools := p # ag_pools g1\<rparr>" using i by (simp_all add: pool_insert_def)
  have "pl_ptr q \<noteq> pl_ptr p" if "q \<in> set (ag_pools g1)" for q
    using that ok P(1,3) by (auto simp: registry_ok_def)
  then have "axi_mmio_pool_put (Some ptr) g' = free_pool g1" unfolding g' by (rule put_after_add [OF _ P(4)])
  then show ?thesis using P g' by (simp add: same_reg_def free_pool_def)
qed

text \<open>
  What a probe leaves behind: nothing, or the release of the pool it got, possibly with the
  unregistration of the child on top.
\<close>

lemma copy_resources_reg: "axi_mmio_copy_resources pdev g = (n, g') \<Longrightarrow> same_reg g g'"
  by (auto simp: axi_mmio_copy_resources_def dest: same_reg_call split: if_splits prod.splits)

lemma probe_child_cases:
  assumes pc: "probe_child pdev g = (r, pdev', g')" and act: "pd_child pdev = NoChild"
  obtains (failed) "r \<noteq> 0" and "pd_actions pdev' = pd_actions pdev" and "pd_child pdev' = NoChild" and "same_reg g g'"
  | (done_) "r = 0" and "pd_actions pdev' = UnregisterChild # pd_actions pdev" and "pd_child pdev' = Registered"
      and "same_reg g g'" and "pd_drvdata pdev' = pd_drvdata pdev"
proof -
  obtain b1 g1 where c1: "call_ok g = (b1, g1)" by fastforce
  obtain b2 g2 where c2: "call_ok g1 = (b2, g2)" by fastforce
  obtain b3 g3 where c3: "call_ok g2 = (b3, g3)" by fastforce
  have "same_reg g g1" "same_reg g g2" "same_reg g g3"
    using c1 c2 c3 by (meson same_reg_call same_reg_trans)+
  with pc act c1 c2 c3 that show thesis
    by (auto simp: probe_child_def devm_add_action_or_reset_def run_action_def axi_mmio_unregister_child_def ENOMEM_def Let_def split: if_splits)
qed

lemma probe_bound_cases:
  assumes pr: "probe_bound ptr pdev g = (r, pdev', g')" and fresh: "pd_actions pdev = []" "pd_child pdev = NoChild"
  obtains (released) "r \<noteq> 0" and "pd_actions pdev' = []" and "pd_child pdev' = NoChild"
      and "same_reg (axi_mmio_pool_put (Some ptr) g) g'"
  | (held) "r \<noteq> 0" and "pd_actions pdev' = [PoolRelease ptr]" and "pd_child pdev' = NoChild" and "same_reg g g'"
  | (bound) "r = 0" and "pd_actions pdev' = [UnregisterChild, PoolRelease ptr]" and "pd_child pdev' = Registered"
      and "same_reg g g'" and "pd_drvdata pdev' = Some ptr"
proof -
  obtain b1 g1 where c1: "call_ok g = (b1, g1)" by fastforce
  have s1: "same_reg g g1" by (rule same_reg_call [OF c1])
  let ?d = "pdev\<lparr>pd_actions := [PoolRelease ptr], pd_drvdata := Some ptr\<rparr>"
  obtain n g2 where cp: "axi_mmio_copy_resources ?d g1 = (n, g2)" by fastforce
  have s2: "same_reg g g2" using copy_resources_reg [OF cp] s1 same_reg_trans by blast
  show thesis
  proof (cases "b1 \<and> 0 \<le> n")
    case True
    then have "probe_child ?d g2 = (r, pdev', g')"
      using pr c1 cp fresh by (simp add: probe_bound_def devm_add_action_or_reset_def Let_def)
    then show thesis
      by (cases rule: probe_child_cases) (use fresh s2 same_reg_trans held bound in \<open>auto\<close>)
  next
    case False
    then show thesis
      using pr c1 cp fresh s2 same_reg_put [OF s1, of "Some ptr"] released held
      by (auto simp: probe_bound_def devm_add_action_or_reset_def run_action_def axi_mmio_unregister_child_def axi_mmio_pool_release_def Let_def ENOMEM_def
          split: if_splits)
  qed
qed

lemma get_none:
  assumes "axi_mmio_pool_get id base size' g = (None, g')"
  shows "same_reg g g'"
proof (cases rule: pool_lookup_cases [of base size' g])
  case miss
  then have "pool_prepare base size' g = (None, g')"
    using assms by (auto simp: axi_mmio_pool_get_def split: option.splits prod.splits)
  then show ?thesis using prepare_none by (simp add: same_reg_def)
qed (use assms in \<open>simp add: axi_mmio_pool_get_def\<close>)

lemma probe_cases:
  assumes ok: "registry_ok g" and pr: "axi_mmio_probe id pdev g = (r, pdev', g')"
    and fresh: "pd_actions pdev = []" "pd_child pdev = NoChild"
  obtains (clean) "r \<noteq> 0" and "pd_actions pdev' = []" and "pd_child pdev' = NoChild" and "same_reg g g'"
  | (held) ptr where "r \<noteq> 0" and "pd_actions pdev' = [PoolRelease ptr]" and "pd_child pdev' = NoChild"
      and "same_reg g (axi_mmio_pool_put (Some ptr) g')"
  | (bound) ptr where "r = 0" and "pd_actions pdev' = [UnregisterChild, PoolRelease ptr]" and "pd_child pdev' = Registered"
      and "same_reg g (axi_mmio_pool_put (Some ptr) g')" and "pd_drvdata pdev' = Some ptr" and "ptr \<in> pl_ptr ` set (ag_pools g')"
proof -
  obtain b1 g1 where c1: "call_ok g = (b1, g1)" by fastforce
  have s1: "same_reg g g1" by (rule same_reg_call [OF c1])
  have ok1: "registry_ok g1" using ok c1 by (auto simp: registry_ok_def call_ok_def split: list.splits)
  show thesis
  proof (cases "r = - EINVAL \<and> pdev' = pdev \<and> same_reg g g' \<or> r = - ENOMEM \<and> pdev' = pdev \<and> same_reg g g'")
    case True
    then show thesis using clean fresh by (auto simp: EINVAL_def ENOMEM_def)
  next
    case False
    obtain first last' where res: "platform_get_resource pdev 1 = Some (first, last')"
      using pr False by (cases "platform_get_resource pdev 1") (auto simp: axi_mmio_probe_def)
    let ?n = "last' - first + 1"
    have b1: b1 and ap: "aperture_ok first ?n"
      using pr False res c1 s1 by (auto simp: axi_mmio_probe_def Let_def split: if_splits)
    obtain a g2 where get: "axi_mmio_pool_get id first ?n g1 = (a, g2)" by fastforce
    have rest: "(r, pdev', g') = (case a of
        None \<Rightarrow> (- ENOMEM, pdev, g2)
      | Some pool \<Rightarrow> probe_bound pool pdev g2)"
      using pr res b1 ap c1 get by (simp add: axi_mmio_probe_def Let_def split: option.splits)
    show thesis
    proof (cases a)
      case None
      then have "same_reg g1 g2" using get_none [OF get [unfolded None]] by simp
      then show thesis using None rest False same_reg_trans [OF s1] by simp
    next
      case (Some ptr)
      have undo: "same_reg g (axi_mmio_pool_put (Some ptr) g2)" "ptr \<in> pl_ptr ` set (ag_pools g2)"
        using get_put [OF ok1 get [unfolded Some]] same_reg_trans [OF s1] by auto
      have "probe_bound ptr pdev g2 = (r, pdev', g')" using rest Some by simp
      from this fresh show thesis
      proof (cases rule: probe_bound_cases)
        case released
        then show thesis using clean undo(1) same_reg_trans by blast
      next
        case held
        then show thesis using that(2) undo(1) same_reg_put [of g2 g' "Some ptr"] same_reg_trans by blast
      next
        case bound
        then have "ptr \<in> pl_ptr ` set (ag_pools g')" using undo(2) by (simp add: same_reg_def)
        then show thesis using bound that(3) undo(1) same_reg_put [of g2 g' "Some ptr"] same_reg_trans by blast
      qed
    qed
  qed
qed

text \<open>
  C28: binding and unbinding are balanced. A probe of a fresh device either succeeds, with the child
  registered and the driver data leading to a pool of the list, or returns an error; in both cases,
  after the driver core has run the managed actions (at once after an error, later when the device
  is unbound) the list of pools with its reference counts, the pool structures, mappings and bitmaps
  are exactly what they were, and no child is left.
\<close>

theorem probe_balanced:
  assumes "registry_ok g" and "axi_mmio_probe id pdev g = (r, pdev', g')" and "pd_actions pdev = []" and "pd_child pdev = NoChild"
  shows "same_reg g (snd (device_unbind pdev' g')) \<and> pd_child (fst (device_unbind pdev' g')) = NoChild \<and>
    (r = 0 \<longrightarrow> pd_child pdev' = Registered \<and> (\<exists>ptr \<in> pl_ptr ` set (ag_pools g'). pd_drvdata pdev' = Some ptr))"
  using assms
proof (cases rule: probe_cases)
  case clean
  then show ?thesis by (simp add: device_unbind_def)
next
  case (held ptr)
  then show ?thesis by (simp add: device_unbind_def run_action_def axi_mmio_unregister_child_def axi_mmio_pool_release_def)
next
  case (bound ptr)
  then show ?thesis by (auto simp: device_unbind_def run_action_def axi_mmio_unregister_child_def axi_mmio_pool_release_def)
qed

text \<open>A device is bound to the second of two apertures' pools, and unbound.\<close>

definition demo_pdev :: axi_pdev where
  "demo_pdev = \<lparr>pd_mem = [(0, 0xfff), (0x10000, 0x11fff)], pd_irq = 5, pd_add = 0, pd_actions = [],
                pd_drvdata = None, pd_child = NoChild\<rparr>"

theorem probe_balanced_witness:
  "let (r, pdev, g) = axi_mmio_probe id demo_pdev race_g0
   in r = 0 \<and> map pl_refs (ag_pools g) = [1] \<and> pd_child pdev = Registered \<and>
      same_reg race_g0 (snd (device_unbind pdev g))"
proof -
  obtain r d g where pr: "axi_mmio_probe id demo_pdev race_g0 = (r, d, g)" using prod_cases3 by blast
  have res: "r = 0 \<and> map pl_refs (ag_pools g) = [1]"
    using pr by (simp add: axi_mmio_probe_def platform_get_resource_def demo_pdev_def race_g0_def call_ok_def
      aperture_ok_def PAGE_SHIFT_def axi_mmio_pool_get_def pool_lookup_ref_def pool_prepare_def pool_insert_def
      probe_bound_def devm_add_action_or_reset_def axi_mmio_copy_resources_def probe_child_def Let_def) force
  have "registry_ok race_g0" "pd_actions demo_pdev = []" "pd_child demo_pdev = NoChild"
    by (simp_all add: registry_ok_def race_g0_def demo_pdev_def)
  from probe_balanced [OF this(1) pr this(2,3)] res show ?thesis by (simp add: pr)
qed

end
