(* ===== verification/Spec2Isabelle.thy ===== *)
theory Spec2Isabelle
  imports Uio_Blkd_Safety Uio_Guest Guest_Disk Uio_Release Uio_Consoled Socket_Blkd Devmem_Blkd Devmem_Run Chiplets_Uio Uio_Membench Axi_Props Axi_Probe
begin

text \<open>
  Verification of the chiplets virtio backends.

  \<^bold>\<open>The program.\<close> A guest talks virtio-mmio to a device it believes to be local. Its register window and
  its DMA memory are carried by a \<^emph>\<open>fabric\<close> (a QEMU socket, a UIO device, \<^verbatim>\<open>/dev/mem\<close>) to a daemon on the
  host that implements the device: a block device over an image file or a console over an output
  file. A daemon is the driver (\<^verbatim>\<open>src/drivers\<close>) over the virtio core and the register model
  (\<^verbatim>\<open>src/virtio.c\<close>, \<^verbatim>\<open>src/virtio-mmio.c\<close>), linked with one fabric (\<^verbatim>\<open>src/fabrics\<close>). The fabric delivers register
  accesses to the driver; the driver reads and writes guest memory and moves the interrupt line
  through the fabric. In the guest, the kernel module \<^verbatim>\<open>src/kernel/axi_mmio.c\<close> keeps everything the
  device may see in a restricted aperture; on the daemon's side \<^verbatim>\<open>src/kernel/chiplets_uio.c\<close> exports the
  windows that the UIO fabric maps.

  \<^bold>\<open>Theories and sources.\<close>

  \<^item> \<open>Chiplets_Prelude\<close>: machine words, the outcome of a C function (\<open>OK\<close>, false, a trap, or \<open>Spin\<close> when
    the fuel of a loop is spent), sequencing of effects over an explicit state, byte-addressed memory.
  \<^item> \<open>Endian\<close>, \<open>Virtio\<close>, \<open>Virtio_Mmio\<close>: \<^verbatim>\<open>src/virtio.h\<close>, \<^verbatim>\<open>src/virtio.c\<close>, \<^verbatim>\<open>src/virtio-mmio.c\<close>: queues and devices, the
    split ring, every register of the transport with its width.
  \<^item> \<open>Fabric\<close>: \<^verbatim>\<open>src/fabrics/fabric.h\<close>: the operations a driver calls as a record, the device table, and
    the contracts as locales: \<open>guest_dma\<close> (transfers), \<open>guest_bounds\<close> (refusals), \<open>guest_irq\<close> (the line),
    \<open>guest_alloc\<close> and \<open>guest_map\<close> (the two ways to get at guest bytes), \<open>fabric_safe\<close>, \<open>fabric_ends\<close>,
    \<open>fabric_keeps\<close>.
  \<^item> \<open>Host_Files\<close>: the POSIX calls on host files with partial transfers, interruptions and errors in any
    order, file offsets and append mode, the descriptors and memory mappings the process holds, and the
    retry loops of the drivers over these calls.
  \<^item> \<open>Config_Args\<close>: the C string functions of the argument parsers.
  \<^item> \<open>Driver\<close>, \<open>Chains\<close>, \<open>Driver_Safety\<close>, \<open>Queue_Service\<close>: what the two drivers share: the service loop, the
    register callbacks, chains in guest memory, safety of the shared part, and the service loop
    against its specification (locale \<open>queue_service\<close>).
  \<^item> \<open>Virtio_Blkd\<close> with \<open>Blkd_Safety\<close>, \<open>Blkd_Termination\<close>, \<open>Blkd_Refine\<close>: \<^verbatim>\<open>src/drivers/virtio-blkd.c\<close>. What the
    calls on the image keep, every handler keeps (locale \<open>block_calls\<close>, interpreted for the confinement of the
    image and for what the process holds).
  \<^item> \<open>Virtio_Consoled\<close> with \<open>Consoled_Safety\<close>, \<open>Consoled_Refine\<close>: \<^verbatim>\<open>src/drivers/virtio-consoled.c\<close>.
  \<^item> \<open>Linux_Uio\<close>, \<open>Uio_Loop\<close>, \<open>Uio_Scan\<close>, \<open>Uio_Run\<close>, \<open>Uio_Release\<close>: \<^verbatim>\<open>src/fabrics/linux_uio.c\<close>: endpoint and
    resource discovery, DMA, the register scan and the event loop, and what a run gives back. \<open>Linux_Uio\<close>
    interprets the contracts of \<open>Fabric\<close>. The guest may act on the window before each register is looked at,
    between its load and what the scan does about it, and during the callback.
  \<^item> \<open>Qemu_Socket\<close>, \<open>Socket_Serve\<close>, \<open>Socket_Server\<close>: \<^verbatim>\<open>src/fabrics/qemu_socket.c\<close>: the messages, transfers over
    an interrupted stream, the service of one connection and the server; the peer is a parameter.
    \<open>Qemu_Axi\<close> is QEMU's end of it, from the patch to QEMU (locale \<open>stream_peer\<close>, interpreted as \<open>axi_stream\<close>),
    with which the socket fabric meets the contracts of \<open>Fabric\<close>.
  \<^item> \<open>Linux_Devmem\<close>, \<open>Devmem_Contract\<close>, \<open>Devmem_Scan\<close>, \<open>Devmem_Run\<close>: \<^verbatim>\<open>src/fabrics/linux_devmem.c\<close>:
    configuration, mappings of physical memory, DMA, the polling loop. \<open>Devmem_Contract\<close> interprets the
    contracts; \<open>Register_Window\<close> has what the two polled fabrics share (locales \<open>register_window\<close> and
    \<open>publisher\<close>, interpreted for both).
  \<^item> \<open>Chiplets_Uio\<close>, \<open>Uio_Membench\<close>: \<^verbatim>\<open>src/kernel/chiplets_uio.c\<close> and \<^verbatim>\<open>src/tools/uio-membench.c\<close>.
  \<^item> \<open>Socket_Blkd\<close>, \<open>Devmem_Blkd\<close>: the block device composed with these two fabrics.
  \<^item> \<open>Uio_Blkd\<close>, \<open>Uio_Blkd_Run\<close>, \<open>Uio_Blkd_Safety\<close>, \<open>Uio_Turn\<close>, \<open>Uio_Consoled\<close>: the daemons, a driver composed
    with the UIO fabric; they interpret \<open>queue_service\<close>.
  \<^item> \<open>Qemu_Uio\<close>, \<open>Uio_Link\<close>, \<open>Uio_Guest\<close>: QEMU's device in UIO mode, from the patch: the register accesses of both roles,
    the control socket, the notification policies and the wait for acknowledgements; then the two machines
    of this mode, with the daemon's event loop between them, and the guest's accesses end to end.
  \<^item> \<open>Axi_Mmio\<close>, \<open>Axi_Pool\<close>, \<open>Axi_Dma\<close>, \<open>Axi_Props\<close>, \<open>Axi_Probe\<close>: \<^verbatim>\<open>src/kernel/axi_mmio.c\<close>: the page pool
    (locale \<open>page_allocator\<close>, interpreted as \<open>axi_pages\<close>), bounce buffers, the DMA operations, the shared
    list of pools, probe and release. \<open>Guest_Disk\<close> composes the DMA operations with the block backend.

  \<^bold>\<open>Correspondence.\<close> A C structure is a record with its fields, a C function a definition of the same
  name (a prefix \<open>blkd_\<close>, \<open>cond_\<close>, \<open>uio_\<close>, \<open>sock_\<close>, \<open>devmem_\<close>, \<open>membench_\<close> tells apart functions several files
  define). A function that
  changes state takes and returns it; its early returns are the outcomes above. Unsigned integers are
  words of their width, so wrap-around is the code's. The two drivers contain the same service loop
  and the same register callbacks, which \<open>Driver\<close> models once. Messages, profiling counters and locks
  are left out, except where a lock is dropped between two steps: there the steps are separate
  definitions and a step relation interleaves them (\<open>pool_reach\<close>).

  \<^bold>\<open>What the lemmas show.\<close>

  \<^item> \<^emph>\<open>Refinement.\<close> A notification completes every pending request in order and exactly once, with the
    effect of the abstract block device or console on image, output and guest memory, and raises one
    interrupt. On each of the three fabrics the whole path is shown: a notification in the UIO window or in
    the \<^verbatim>\<open>/dev/mem\<close> aperture is served in one turn of the loop, one over the socket when the guest's store
    completes; a register read over the socket returns the device's bytes. In UIO mode the path also goes through
    both QEMUs: notifications, acknowledgements, configuration stores and 32-bit reads of the guest are followed to
    the device model and back to the interrupt line. A read is fresh for the registers the daemon publishes; \<open>QUEUE_READY\<close> is not one.
    A buffer of the guest's kernel is followed through its DMA mapping into the image and back.
  \<^item> \<^emph>\<open>Safety.\<close> Whatever the guest writes, a read-only image is not changed and no other host file is;
    the console only appends (to a file it opened, or to a standard output that is at its end); no access outside
    buffers and mappings, with two exceptions: a queue size whose low half is zero divides by zero, and the
    block driver relies on the request-buffer fields of a device object that \<open>main\<close> does not initialise (the
    theorems assume that they describe a block, \<open>buf_wf\<close>; \<open>stale_buffer_faults\<close> shows why).
  \<^item> \<^emph>\<open>Termination.\<close> A block request ends for every chain, cycles included, unless the queue size is the
    largest value; a console chain may be followed forever.
  \<^item> \<^emph>\<open>The register model and the scan.\<close> Reset, queue setup, confinement of writes to the selected queue,
    the scans of the two polled fabrics deliver exactly the changed registers, the run loop of the
    UIO fabric leaves the process with the files and mappings it had, the socket server calls a device only for accesses inside its window.
  \<^item> \<^emph>\<open>The UIO kernel driver and the benchmark.\<close> Interrupts are disabled and enabled in balance, only the
    two regions can be mapped, the daemon maps exactly what the driver exports; the benchmark restores the
    memory it overwrites.
  \<^item> \<^emph>\<open>The DMA kernel driver.\<close> Live DMA blocks are disjoint, in the aperture and exactly the marked pages, for
    requests of fewer than \<open>2 ^ 32\<close> pages;
    mapping and unmapping carry the data; a scatter list is mapped as a whole or not at all; pools are
    shared with exact reference counts under any interleaving; binding and unbinding balance.
  \<^item> \<^emph>\<open>Limits of the code\<close>, each with a proof: the division by zero, the endless chains, a wrapping bounds check, the
    scan of the PCI resource list, a page count cut to 32 bits, stale bytes in a buffer, partial
    synchronisation without effect, a notification lost while the device is busy (\<^verbatim>\<open>/dev/mem\<close>), notifications
    that QEMU does not send after one answer to two stores (UIO mode), stores that repeat the word in the shared window, an aperture
    size that wraps around, regions that are not whole pages.

  \<^bold>\<open>Fuel.\<close> Loops whose end depends on the guest or the host (chains, the service loop, retries, the run
  loop) take a number of steps and give \<open>Spin\<close> when it is spent. Theorems that something is served show
  a concrete bound (the length of the script of the host plus the pending chains and their
  descriptors) from which on the result is reached; safety theorems hold for every fuel.

  \<^bold>\<open>Parameters.\<close> The host and the guest: scripts of outcomes for system calls and for allocations in
  the kernel, a function for what the guest does to memory between two accesses, a function for what
  other threads do between two locked sections, the peer of a socket, the machine at the other end of the
  control socket (which \<open>Uio_Link\<close> instantiates with the daemon's machine), the environment variables, the
  clock, what the kernel lets be mapped. The kernel's bitmap and device functions are modelled
  by their documented results; \<open>mmap\<close> refuses the length zero and maps whole pages. In \<open>Uio_Link\<close> the answers of the
  other machine arrive before QEMU's deadline, except where a message is explicitly late.

  \<^bold>\<open>Not modelled.\<close> Messages, profiling and the conversion of the benchmark's totals to MiB/s, which is
  floating point and only printed; signals (a write to a socket without a reader ends the daemon); of the
  patch to QEMU the properties, realize and connection code and the changes to the machine models; the tables that register kernel
  drivers; the test program, scripts and build files, which are not part of the daemons.
\<close>

end
